(* ===== verification/Prelude.thy ===== *)
theory Prelude
  imports Complex_Main "HOL-Library.Word" "HOL-Library.Sublist" "HOL-Library.While_Combinator"
    "HOL-Library.Char_ord"
begin

text \<open>
  Shared vocabulary of the development: the fixed-width integers of the C code, byte arrays,
  and the generic facts on words and lists that the components use. Fact collections:
  \<^item> \<open>word_defs\<close>: the definitions of word-level helpers, unfolded by bit-level proofs;
  \<^item> \<open>len_simps\<close>: the lengths of the arrays the operations return.
\<close>

unbundle bit_operations_syntax

type_synonym u8 = "8 word"
type_synonym u32 = "32 word"
type_synonym u64 = "64 word"
type_synonym bytes = "u8 list"

named_theorems word_defs "word-level helper definitions"
named_theorems len_simps "lengths of the arrays computed by the operations"

declare upt_rec_numeral [simp del]

section \<open>Bits of words\<close>

text \<open>Equality of 32-bit words by their 32 bits, and of 8-bit words by their 8 bits.\<close>

lemma u32_eqI:
  fixes x y :: u32
  assumes "\<And>n. n < 32 \<Longrightarrow> bit x n = bit y n"
  shows "x = y"
  using assms by (intro bit_word_eqI) simp

lemma u8_eqI:
  fixes x y :: u8
  assumes "\<And>n. n < 8 \<Longrightarrow> bit x n = bit y n"
  shows "x = y"
  using assms by (intro bit_word_eqI) simp

lemma unat_u32_less: "unat (x :: u32) < 2 ^ 32"
  using unsigned_less [of x] by simp

text \<open>Literals that do not fit the type.\<close>

lemma two_pow_32_u32: "(4294967296 :: u32) = 0"
  by simp

lemma u8_literals [simp]: "(256 :: u8) = 0" "(640 :: u8) = 128"
  by simp_all

section \<open>Four bytes of a 32-bit word\<close>

lemma u32_bit_cases:
  assumes "n < (32 :: nat)"
  obtains k where "k < 8" "n = k" | k where "k < 8" "n = 8 + k"
        | k where "k < 8" "n = 16 + k" | k where "k < 8" "n = 24 + k"
proof -
  have "n < 8 \<or> n - 8 < 8 \<and> n = 8 + (n - 8) \<or> n - 16 < 8 \<and> n = 16 + (n - 16) \<or>
        n - 24 < 8 \<and> n = 24 + (n - 24)"
    using assms by linarith
  then show ?thesis using that by blast
qed

text \<open>The word whose bytes are \<open>a\<close> (most significant) to \<open>d\<close>.\<close>

definition join32 :: "u8 \<Rightarrow> u8 \<Rightarrow> u8 \<Rightarrow> u8 \<Rightarrow> u32" where
  "join32 a b c d =
    push_bit 24 (ucast a) OR push_bit 16 (ucast b) OR push_bit 8 (ucast c) OR ucast d"

definition be32_bytes :: "u32 \<Rightarrow> bytes" where
  "be32_bytes v = [ucast (drop_bit 24 v), ucast (drop_bit 16 v), ucast (drop_bit 8 v), ucast v]"

definition le32_bytes :: "u32 \<Rightarrow> bytes" where
  "le32_bytes v = [ucast v, ucast (drop_bit 8 v), ucast (drop_bit 16 v), ucast (drop_bit 24 v)]"

lemma length_be32_bytes [simp, len_simps]: "length (be32_bytes v) = 4"
  by (simp add: be32_bytes_def)

lemma length_le32_bytes [simp, len_simps]: "length (le32_bytes v) = 4"
  by (simp add: le32_bytes_def)

lemma join32_bytes [simp]:
  "join32 (ucast (drop_bit 24 v)) (ucast (drop_bit 16 v)) (ucast (drop_bit 8 v)) (ucast v) = v"
proof (rule u32_eqI, goal_cases)
  case (1 n)
  then show ?case by (cases rule: u32_bit_cases) (simp_all add: join32_def bit_simps)
qed

lemma join32_split [simp]:
  "ucast (join32 a b c d) = d" "ucast (drop_bit 8 (join32 a b c d)) = c"
  "ucast (drop_bit 16 (join32 a b c d)) = b" "ucast (drop_bit 24 (join32 a b c d)) = a"
  unfolding join32_def
  by (rule u8_eqI; auto simp: bit_simps dest: bit_imp_le_length)+

lemma unat_or_disjoint: "p AND q = 0 \<Longrightarrow> unat (p OR q :: u32) = unat p + unat q"
proof -
  assume "p AND q = 0"
  then have "unat p AND unat q = 0" by (metis unsigned_and_eq unsigned_0)
  then show ?thesis by (simp add: unsigned_or_eq disjunctive_add_eq_or)
qed

lemma unat_push_ucast: "n \<le> 24 \<Longrightarrow> unat (push_bit n (ucast (a :: u8)) :: u32) = unat a * 2 ^ n"
proof -
  assume n: "n \<le> 24"
  have "unat a < 2 ^ 8" using unsigned_less [of a] by simp
  then have "unat a * 2 ^ n < 2 ^ 8 * 2 ^ n" by simp
  also have "\<dots> = (2 :: nat) ^ (8 + n)" by (rule power_add [symmetric])
  also have "\<dots> \<le> (2 :: nat) ^ 32" using n by (intro power_increasing) simp_all
  finally have "unat a * 2 ^ n < 2 ^ 32" .
  moreover have "take_bit 32 (unat a) = unat a"
    using \<open>unat a < 2 ^ 8\<close> by (simp add: take_bit_nat_eq_self)
  ultimately show ?thesis
    by (subst unsigned_push_bit_eq)
       (simp add: unsigned_ucast_eq push_bit_eq_mult take_bit_nat_eq_self)
qed

lemma unat_join32:
  "unat (join32 a b c d) = unat a * 2 ^ 24 + unat b * 2 ^ 16 + unat c * 2 ^ 8 + unat d"
proof -
  have 1: "push_bit 24 (ucast a) AND (push_bit 16 (ucast b) OR push_bit 8 (ucast c) OR ucast d) = (0 :: u32)"
    by (rule bit_word_eqI) (auto simp: bit_simps dest: bit_imp_le_length)
  have 2: "push_bit 16 (ucast b) AND (push_bit 8 (ucast c) OR ucast d) = (0 :: u32)"
    by (rule bit_word_eqI) (auto simp: bit_simps dest: bit_imp_le_length)
  have 3: "push_bit 8 (ucast c) AND ucast d = (0 :: u32)"
    by (rule bit_word_eqI) (auto simp: bit_simps dest: bit_imp_le_length)
  show ?thesis
    using unat_push_ucast [of 0 d]
    by (simp add: join32_def unat_or_disjoint [OF 1] unat_or_disjoint [OF 2] unat_or_disjoint [OF 3] unat_push_ucast)
qed

text \<open>The number a byte array stands for, least significant byte first.\<close>

primrec le_bytes_val :: "bytes \<Rightarrow> nat" where
  "le_bytes_val [] = 0"
| "le_bytes_val (b # bs) = unat b + 2 ^ 8 * le_bytes_val bs"

lemma le_bytes_val_be32: 
  "le_bytes_val (be32_bytes v @ bs) =
   unat (join32 (ucast v) (ucast (drop_bit 8 v)) (ucast (drop_bit 16 v)) (ucast (drop_bit 24 v))) +
   2 ^ 32 * le_bytes_val bs"
  by (simp add: be32_bytes_def unat_join32)

lemma le_bytes_val_le32: "le_bytes_val (le32_bytes v @ bs) = unat v + 2 ^ 32 * le_bytes_val bs"
  using unat_join32 [of "ucast (drop_bit 24 v)" "ucast (drop_bit 16 v)" "ucast (drop_bit 8 v)" "ucast v"]
  by (simp add: le32_bytes_def)

section \<open>Lists accessed by index\<close>

lemma list_update_Cons_numeral [simp]:
  "(x # xs)[numeral v := y] = x # xs[pred_numeral v := y]"
  by (simp add: numeral_eq_Suc)

lemma replicate_numeral: "replicate (numeral v) y = y # replicate (pred_numeral v) y"
  by (simp add: numeral_eq_Suc)

text \<open>Unfold intervals and constant arrays of literal size.\<close>

lemma upt_zero_numeral: "[0..<numeral v] = 0 # [1..<numeral v]"
  by (simp add: upt_rec [of 0])

lemma upt_one_numeral:
  "[Suc 0..<numeral v] = (if Suc 0 < numeral v then 1 # [2..<numeral v] else [])"
  by (simp add: upt_rec [of "Suc 0"] numeral_2_eq_2)

lemmas literal_arrays = upt_rec_numeral upt_zero_numeral upt_one_numeral replicate_numeral

text \<open>A loop storing \<open>f i\<close> at each index \<open>i\<close>.\<close>

lemma store_loop:
  "n \<le> length w \<Longrightarrow> foldl (\<lambda>w i. w[i := f i]) w [0..<n] = map f [0..<n] @ drop n w"
proof (induction n)
  case (Suc n)
  then have "drop n w = w ! n # drop (Suc n) w" by (simp add: Cons_nth_drop_Suc)
  with Suc show ?case by (simp add: list_update_append)
qed simp

lemma nth_list_cases8:
  assumes "length xs = 8"
  shows "xs = [xs ! 0, xs ! 1, xs ! 2, xs ! 3, xs ! 4, xs ! 5, xs ! 6, xs ! 7]"
  using assms by (auto simp: list_eq_iff_nth_eq less_Suc_eq numeral_eq_Suc)

lemma nth_list_cases4:
  assumes "length xs = 4"
  shows "xs = [xs ! 0, xs ! 1, xs ! 2, xs ! 3]"
  using assms by (auto simp: list_eq_iff_nth_eq less_Suc_eq numeral_eq_Suc)

lemma length_eq_8_iff:
  "length xs = 8 \<longleftrightarrow> (\<exists>a b c d e f g h. xs = [a, b, c, d, e, f, g, h])"
  using nth_list_cases8 [of xs] by fastforce

lemma length_eq_4_iff: "length xs = 4 \<longleftrightarrow> (\<exists>a b c d. xs = [a, b, c, d])"
  using nth_list_cases4 [of xs] by fastforce

text \<open>A loop over an interval, cut at a point.\<close>

lemma foldl_upt_append:
  assumes "i \<le> j" "j \<le> k"
  shows "foldl f s [i..<k] = foldl f (foldl f s [i..<j]) [j..<k]"
  using assms by (metis foldl_append le_Suc_ex upt_add_eq_append)

end
