(* ===== verification/Hex.thy ===== *)
theory Hex
  imports Prelude
begin

text \<open>
  Hexadecimal text, from \<open>src/src/miner.c\<close>: \<open>hex_value\<close>, \<open>hex_to_bytes\<close>, \<open>hex_to_alloc\<close>,
  \<open>copy_checked\<close>, \<open>hex_u32_to_le\<close>, \<open>prevhash_to_header_bytes\<close> and the printing of extranonce2. A C
  string is a list of non-NUL characters; a function that returns -1 gives \<open>None\<close>, since its callers
  then use nothing it may have written. The decoder inverts the usual printing of bytes and accepts
  exactly the texts made of hexadecimal digits of the right length.
\<close>

section \<open>Decoding\<close>

definition hex_value :: "char \<Rightarrow> int" where
  "hex_value c =
    (if CHR ''0'' \<le> c \<and> c \<le> CHR ''9'' then int (of_char c) - int (of_char (CHR ''0''))
     else if CHR ''a'' \<le> c \<and> c \<le> CHR ''f'' then int (of_char c) - int (of_char (CHR ''a'')) + 10
     else if CHR ''A'' \<le> c \<and> c \<le> CHR ''F'' then int (of_char c) - int (of_char (CHR ''A'')) + 10
     else - 1)"

text \<open>The loop of \<open>hex_to_bytes\<close>: two characters per byte, stopping at the first bad one.\<close>

fun hex_loop :: "string \<Rightarrow> bytes option" where
  "hex_loop (c1 # c2 # cs) =
    (let hi = hex_value c1;
         lo = hex_value c2
     in if hi < 0 \<or> lo < 0 then None
        else case hex_loop cs of
               None \<Rightarrow> None
             | Some bs \<Rightarrow> Some (word_of_int (push_bit 4 hi OR lo) # bs))"
| "hex_loop cs = Some []"

definition hex_to_bytes :: "string \<Rightarrow> nat \<Rightarrow> bytes option" where
  "hex_to_bytes hex out_len =
    (let hex_len = length hex
     in if odd hex_len \<or> hex_len div 2 \<noteq> out_len then None else hex_loop hex)"

text \<open>\<open>alloc n\<close> tells whether \<open>malloc(n)\<close> succeeds.\<close>

definition hex_to_alloc :: "(nat \<Rightarrow> bool) \<Rightarrow> string \<Rightarrow> bytes option" where
  "hex_to_alloc alloc hex =
    (let hex_len = length hex
     in if odd hex_len then None
        else let len = hex_len div 2
             in if \<not> alloc (if len = 0 then 1 else len) then None else hex_to_bytes hex len)"

definition copy_checked :: "nat \<Rightarrow> string \<Rightarrow> string option" where
  "copy_checked dst_size src = (if length src \<ge> dst_size then None else Some src)"

definition hex_u32_to_le :: "string \<Rightarrow> bytes option" where
  "hex_u32_to_le hex =
    (case hex_to_bytes hex 4 of
       None \<Rightarrow> None
     | Some tmp \<Rightarrow> Some [tmp ! 3, tmp ! 2, tmp ! 1, tmp ! 0])"

text \<open>The loop over the eight 8-character chunks.\<close>

fun prevhash_chunks :: "nat \<Rightarrow> string \<Rightarrow> bytes option" where
  "prevhash_chunks 0 hex = Some []"
| "prevhash_chunks (Suc n) hex =
    (case hex_to_bytes (take 8 hex) 4 of
       None \<Rightarrow> None
     | Some tmp \<Rightarrow>
        (case prevhash_chunks n (drop 8 hex) of
           None \<Rightarrow> None
         | Some rest \<Rightarrow> Some ([tmp ! 3, tmp ! 2, tmp ! 1, tmp ! 0] @ rest)))"

definition prevhash_to_header_bytes :: "string \<Rightarrow> bytes option" where
  "prevhash_to_header_bytes hex = (if length hex \<noteq> 64 then None else prevhash_chunks 8 hex)"

section \<open>Printing a counter\<close>

definition hex_digit :: "nat \<Rightarrow> char" where
  "hex_digit d = ''0123456789abcdef'' ! d"

text \<open>The digits of \<open>printf\<close>'s \<open>%llx\<close>, and the zero padding of \<open>%0*llx\<close>.\<close>

fun hex_digits :: "nat \<Rightarrow> string" where
  "hex_digits n = (if n < 16 then [hex_digit n] else hex_digits (n div 16) @ [hex_digit (n mod 16)])"

declare hex_digits.simps [simp del]

definition pad_zeros :: "nat \<Rightarrow> string \<Rightarrow> string" where
  "pad_zeros width s = replicate (width - length s) (CHR ''0'') @ s"

text \<open>\<open>snprintf\<close> keeps at most \<open>out_size - 1\<close> characters.\<close>

definition miner_format_extranonce2 :: "nat \<Rightarrow> int \<Rightarrow> u64 \<Rightarrow> string" where
  "miner_format_extranonce2 out_size extranonce2_size value =
    (let chars = extranonce2_size * 2
     in if chars \<le> 0 \<or> nat chars + 1 > out_size then []
        else take (out_size - 1) (pad_zeros (nat chars) (hex_digits (unat value))))"

section \<open>Decoding inverts printing\<close>

definition is_hex :: "char \<Rightarrow> bool" where
  "is_hex c \<longleftrightarrow> 0 \<le> hex_value c"

definition hex_of_byte :: "u8 \<Rightarrow> string" where
  "hex_of_byte b = [hex_digit (unat b div 16), hex_digit (unat b mod 16)]"

definition hex_of_bytes :: "bytes \<Rightarrow> string" where
  "hex_of_bytes bs = concat (map hex_of_byte bs)"

lemma hex_value_hex_digit [simp]: "d < 16 \<Longrightarrow> hex_value (hex_digit d) = int d"
proof -
  assume "d < 16"
  then have "d = 0 \<or> d = 1 \<or> d = 2 \<or> d = 3 \<or> d = 4 \<or> d = 5 \<or> d = 6 \<or> d = 7 \<or>
    d = 8 \<or> d = 9 \<or> d = 10 \<or> d = 11 \<or> d = 12 \<or> d = 13 \<or> d = 14 \<or> d = 15" by arith
  then show ?thesis by (elim disjE) (simp_all add: hex_digit_def hex_value_def less_eq_char_def)
qed

lemma hex_value_bound: "hex_value c < 16"
  by (auto simp: hex_value_def less_eq_char_def)

lemma nibbles_byte:
  assumes "0 \<le> hi" "hi < 16" "0 \<le> lo" "lo < 16"
  shows "push_bit 4 hi OR lo = 16 * hi + (lo :: int)"
proof -
  have "push_bit 4 hi AND lo = 0"
  proof (rule bit_eqI)
    fix n
    have "take_bit 4 lo = lo" using assms by (simp add: take_bit_int_eq_self)
    then have "bit lo n \<Longrightarrow> n < 4" by (metis bit_take_bit_iff)
    then show "bit (push_bit 4 hi AND lo) n = bit 0 n" by (auto simp: bit_simps)
  qed
  then show ?thesis by (simp add: disjunctive_add_eq_or [symmetric] push_bit_eq_mult)
qed

lemma nibble_sum: "16 * int (x div 16) + int (x mod 16) = int x"
  by (simp add: zdiv_int zmod_int)

lemma length_hex_loop: "hex_loop s = Some bs \<Longrightarrow> even (length s) \<Longrightarrow> length bs = length s div 2"
  by (induction s arbitrary: bs rule: hex_loop.induct) (auto simp: Let_def split: if_splits option.splits)

lemma hex_loop_None_iff: "even (length s) \<Longrightarrow> hex_loop s = None \<longleftrightarrow> \<not> list_all is_hex s"
proof (induction s rule: hex_loop.induct)
  case (1 c1 c2 cs)
  from "1.IH" [OF refl refl] "1.prems" show ?case
    by (cases "hex_value c1 < 0 \<or> hex_value c2 < 0") (auto simp: Let_def is_hex_def split: option.splits)
qed auto

lemma hex_loop_hex_of_bytes: "hex_loop (hex_of_bytes bs) = Some bs"
proof (induction bs)
  case (Cons b bs)
  have b: "unat b < 256" using unsigned_less [of b] by simp
  then have d: "unat b div 16 < 16" "unat b mod 16 < 16" by auto
  have "word_of_int (push_bit 4 (int (unat b div 16)) OR int (unat b mod 16)) = b"
  proof -
    have "push_bit 4 (int (unat b div 16)) OR int (unat b mod 16) = int (unat b)"
      using nibbles_byte [of "int (unat b div 16)" "int (unat b mod 16)"] d nibble_sum [of "unat b"] by simp
    then show ?thesis by (simp only:) simp
  qed
  with Cons d show ?case by (simp add: hex_of_bytes_def hex_of_byte_def Let_def)
qed (simp add: hex_of_bytes_def)

lemma length_hex_of_bytes [simp]: "length (hex_of_bytes bs) = 2 * length bs"
  by (induction bs) (simp_all add: hex_of_bytes_def hex_of_byte_def)

lemma hex_to_bytes_hex_of_bytes [simp]: "hex_to_bytes (hex_of_bytes bs) (length bs) = Some bs"
  by (simp add: hex_to_bytes_def hex_loop_hex_of_bytes)

lemma hex_to_bytes_None_iff:
  "hex_to_bytes s n = None \<longleftrightarrow> \<not> (length s = 2 * n \<and> list_all is_hex s)"
  by (auto simp: hex_to_bytes_def Let_def hex_loop_None_iff)

lemma hex_to_bytes_SomeD:
  "hex_to_bytes s n = Some bs \<Longrightarrow> length bs = n \<and> length s = 2 * n \<and> list_all is_hex s"
  using hex_to_bytes_None_iff [of s n]
  by (auto simp: hex_to_bytes_def Let_def length_hex_loop split: if_splits)

lemma hex_to_alloc_eq:
  "alloc (max 1 (length s div 2)) \<Longrightarrow> hex_to_alloc alloc s = hex_to_bytes s (length s div 2)"
  by (auto simp: hex_to_alloc_def hex_to_bytes_def Let_def max_def split: if_splits)

lemma hex_to_alloc_SomeD:
  "hex_to_alloc alloc s = Some bs \<Longrightarrow> hex_to_bytes s (length s div 2) = Some bs"
  by (auto simp: hex_to_alloc_def Let_def split: if_splits)

lemma hex_to_bytes_be32 [simp]: "hex_to_bytes (hex_of_bytes (be32_bytes v)) 4 = Some (be32_bytes v)"
  using hex_to_bytes_hex_of_bytes [of "be32_bytes v"] by (simp del: hex_to_bytes_hex_of_bytes)

lemma rev_be32_bytes:
  "[be32_bytes v ! 3, be32_bytes v ! 2, be32_bytes v ! Suc 0, be32_bytes v ! 0] = le32_bytes v"
  by (simp add: be32_bytes_def le32_bytes_def)

lemma hex_u32_to_le_hex_of_bytes [simp]: "hex_u32_to_le (hex_of_bytes (be32_bytes v)) = Some (le32_bytes v)"
  by (simp add: hex_u32_to_le_def rev_be32_bytes)

lemma hex_u32_to_le_SomeD: "hex_u32_to_le s = Some bs \<Longrightarrow> length bs = 4"
  by (auto simp: hex_u32_to_le_def split: option.splits)

lemma prevhash_chunks_SomeD: "prevhash_chunks n s = Some bs \<Longrightarrow> length bs = 4 * n"
  by (induction n arbitrary: s bs) (auto split: option.splits)

lemma prevhash_SomeD: "prevhash_to_header_bytes s = Some bs \<Longrightarrow> length bs = 32"
  by (auto simp: prevhash_to_header_bytes_def prevhash_chunks_SomeD split: if_splits)

text \<open>Acceptance of the derived decoders.\<close>

lemma hex_to_alloc_None_iff:
  "hex_to_alloc (\<lambda>n. True) s = None \<longleftrightarrow> \<not> (even (length s) \<and> list_all is_hex s)"
  by (auto simp: hex_to_alloc_def Let_def hex_to_bytes_None_iff)

lemma hex_u32_to_le_None_iff: "hex_u32_to_le s = None \<longleftrightarrow> \<not> (length s = 8 \<and> list_all is_hex s)"
  using hex_to_bytes_None_iff [of s 4] by (auto simp: hex_u32_to_le_def split: option.splits)

lemma prevhash_chunks_None_iff:
  "length s = 8 * n \<Longrightarrow> prevhash_chunks n s = None \<longleftrightarrow> \<not> list_all is_hex s"
proof (induction n arbitrary: s)
  case (Suc n)
  have a: "list_all is_hex s \<longleftrightarrow> list_all is_hex (take 8 s) \<and> list_all is_hex (drop 8 s)"
    by (metis append_take_drop_id list_all_append)
  have "hex_to_bytes (take 8 s) 4 = None \<longleftrightarrow> \<not> list_all is_hex (take 8 s)"
    using Suc.prems by (simp add: hex_to_bytes_None_iff)
  moreover have "prevhash_chunks n (drop 8 s) = None \<longleftrightarrow> \<not> list_all is_hex (drop 8 s)"
    using Suc.prems by (intro Suc.IH) simp
  ultimately show ?case using a by (auto split: option.splits)
qed simp

lemma prevhash_None_iff:
  "prevhash_to_header_bytes s = None \<longleftrightarrow> \<not> (length s = 64 \<and> list_all is_hex s)"
  by (simp add: prevhash_to_header_bytes_def prevhash_chunks_None_iff)

lemma hex_of_bytes_append [simp]: "hex_of_bytes (xs @ ys) = hex_of_bytes xs @ hex_of_bytes ys"
  by (simp add: hex_of_bytes_def)

text \<open>The previous block hash: eight words sent big-endian, stored little-endian.\<close>

lemma prevhash_chunks_words:
  "prevhash_chunks (length ws) (hex_of_bytes (concat (map be32_bytes ws))) = Some (concat (map le32_bytes ws))"
proof (induction ws)
  case (Cons v ws)
  have "take 8 (hex_of_bytes (be32_bytes v)) = hex_of_bytes (be32_bytes v)"
    "drop 8 (hex_of_bytes (be32_bytes v)) = []" by simp_all
  then show ?case
    using Cons rev_be32_bytes [of v] by simp
qed simp

lemma prevhash_words:
  assumes "length ws = 8"
  shows "prevhash_to_header_bytes (hex_of_bytes (concat (map be32_bytes ws))) = Some (concat (map le32_bytes ws))"
proof -
  have "length (concat (map be32_bytes ws)) = 32" using assms by (auto simp: length_eq_8_iff)
  then show ?thesis using prevhash_chunks_words [of ws] assms by (simp add: prevhash_to_header_bytes_def)
qed

section \<open>The number a text stands for\<close>

definition hex_num :: "string \<Rightarrow> nat" where
  "hex_num s = foldl (\<lambda>a c. 16 * a + nat (hex_value c)) 0 s"

definition be_bytes_val :: "bytes \<Rightarrow> nat" where
  "be_bytes_val bs = foldl (\<lambda>a b. 256 * a + unat b) 0 bs"

lemma hex_num_snoc [simp]: "hex_num (s @ [c]) = 16 * hex_num s + nat (hex_value c)"
  by (simp add: hex_num_def)

lemma hex_num_Nil [simp]: "hex_num [] = 0"
  by (simp add: hex_num_def)

lemma hex_num_hex_digits [simp]: "hex_num (hex_digits n) = n"
proof (induction n rule: hex_digits.induct)
  case (1 n)
  then show ?case by (subst hex_digits.simps) (simp add: hex_num_def)
qed

lemma is_hex_hex_digit [simp]: "d < 16 \<Longrightarrow> is_hex (hex_digit d)"
  by (simp add: is_hex_def)

lemma is_hex_hex_digits: "list_all is_hex (hex_digits n)"
proof (induction n rule: hex_digits.induct)
  case (1 n)
  then show ?case by (subst hex_digits.simps) simp
qed

lemma length_hex_digits_le: "0 < k \<Longrightarrow> length (hex_digits n) \<le> k \<longleftrightarrow> n < 16 ^ k"
proof (induction k arbitrary: n rule: nat_induct_non_zero)
  case 1
  have "0 < length (hex_digits (n div 16))" by (subst hex_digits.simps) simp
  then show ?case by (cases "n < 16") (subst hex_digits.simps, simp)+
next
  case (Suc k)
  have "n div 16 < 16 ^ k \<longleftrightarrow> n < 16 ^ Suc k" by (simp add: div_less_iff_less_mult mult.commute)
  moreover have "(16 :: nat) ^ 1 \<le> 16 ^ Suc k" by (rule power_increasing) simp_all
  then have "n < 16 \<Longrightarrow> n < 16 ^ Suc k" by (metis less_le_trans power_one_right)
  ultimately show ?case
    using Suc.IH [of "n div 16"] by (cases "n < 16") (subst hex_digits.simps, simp)+
qed

lemma hex_num_pad [simp]: "hex_num (pad_zeros k s) = hex_num s"
proof -
  have z: "hex_value (CHR ''0'') = 0" by (simp add: hex_value_def less_eq_char_def)
  have "foldl (\<lambda>a c. 16 * a + nat (hex_value c)) 0 (replicate n (CHR ''0'')) = 0" for n
    by (induction n) (simp_all add: z)
  then show ?thesis by (simp add: hex_num_def pad_zeros_def)
qed

lemma is_hex_pad: "list_all is_hex (pad_zeros k s) \<longleftrightarrow> list_all is_hex s"
  by (auto simp: pad_zeros_def is_hex_def hex_value_def less_eq_char_def list_all_iff)

lemma length_pad_zeros [simp]: "length (pad_zeros k s) = max k (length s)"
  by (simp add: pad_zeros_def)

lemma hex_loop_num:
  "hex_loop s = Some bs \<Longrightarrow> even (length s) \<Longrightarrow>
   foldl (\<lambda>a c. 16 * a + nat (hex_value c)) a s = foldl (\<lambda>a b. 256 * a + unat b) a bs"
proof (induction s arbitrary: a bs rule: hex_loop.induct)
  case (1 c1 c2 cs)
  let ?hi = "hex_value c1" and ?lo = "hex_value c2"
  from "1.prems" obtain bs' where h: "0 \<le> ?hi" "0 \<le> ?lo" "hex_loop cs = Some bs'"
    and bs: "bs = word_of_int (push_bit 4 ?hi OR ?lo) # bs'"
    by (auto simp: Let_def not_less split: if_splits option.splits)
  have "push_bit 4 ?hi OR ?lo = int (nat (16 * ?hi + ?lo))" "nat (16 * ?hi + ?lo) < 256"
    using h nibbles_byte [of ?hi ?lo] hex_value_bound [of c1] hex_value_bound [of c2] by auto
  then have "unat (word_of_int (push_bit 4 ?hi OR ?lo) :: u8) = nat (16 * ?hi + ?lo)"
    by (simp only: of_int_of_nat_eq unsigned_of_nat) (simp add: take_bit_nat_eq_self)
  moreover have "16 * (16 * a + nat ?hi) + nat ?lo = 256 * a + nat (16 * ?hi + ?lo)"
    using h by (simp add: nat_add_distrib nat_mult_distrib)
  ultimately show ?case
    using "1.IH" [OF refl refl _ h(3)] h "1.prems"(2) bs by (simp add: add.assoc)
qed auto

lemma hex_to_bytes_num: "hex_to_bytes s n = Some bs \<Longrightarrow> be_bytes_val bs = hex_num s"
  unfolding be_bytes_val_def hex_num_def
  by (rule hex_loop_num [symmetric]) (auto simp: hex_to_bytes_def Let_def split: if_splits)

lemma format_extranonce2_eq:
  assumes "0 < sz" "2 * nat sz < out_size" "unat v < 16 ^ (out_size - 1)"
  shows "miner_format_extranonce2 out_size sz v = pad_zeros (2 * nat sz) (hex_digits (unat v))"
proof -
  have "length (hex_digits (unat v)) \<le> out_size - 1"
    using assms by (subst length_hex_digits_le) auto
  then show ?thesis using assms by (simp add: miner_format_extranonce2_def nat_mult_distrib mult.commute)
qed

section \<open>Properties\<close>

text \<open>Decoding accepts exactly the texts of \<open>2 * n\<close> hexadecimal digits, gives \<open>n\<close> bytes whose
  big-endian value is the number the text denotes, and inverts the printing of bytes.\<close>

theorem hex_to_bytes_correct:
  "(case hex_to_bytes s n of
      None \<Rightarrow> \<not> (length s = 2 * n \<and> list_all is_hex s)
    | Some bs \<Rightarrow> length s = 2 * n \<and> list_all is_hex s \<and> length bs = n \<and> be_bytes_val bs = hex_num s) \<and>
   hex_to_bytes (hex_of_bytes bs') (length bs') = Some bs'"
proof (cases "hex_to_bytes s n")
  case None
  then show ?thesis using hex_to_bytes_None_iff [of s n] by simp
next
  case (Some bs)
  then show ?thesis using hex_to_bytes_SomeD [OF Some] hex_to_bytes_num [OF Some] by simp
qed

text \<open>C40. As long as the counter fits in \<open>sz\<close> bytes, the printed extranonce2 is \<open>2 * sz\<close> digits that
  decode to \<open>sz\<close> bytes with the counter's value, so different counters give different texts. A
  counter that does not fit is printed with more digits than the pool announced: the formatting does not
  wrap around.\<close>

theorem format_extranonce2_correct:
  assumes "0 < sz" "2 * nat sz < out_size" "unat v < 16 ^ (out_size - 1)"
  shows "(unat v < 16 ^ (2 * nat sz) \<longrightarrow>
           length (miner_format_extranonce2 out_size sz v) = 2 * nat sz \<and>
           (\<exists>bs. hex_to_bytes (miner_format_extranonce2 out_size sz v) (nat sz) = Some bs \<and>
                 be_bytes_val bs = unat v)) \<and>
         (16 ^ (2 * nat sz) \<le> unat v \<longrightarrow> 2 * nat sz < length (miner_format_extranonce2 out_size sz v))"
proof -
  let ?s = "pad_zeros (2 * nat sz) (hex_digits (unat v))"
  have f: "miner_format_extranonce2 out_size sz v = ?s" by (rule format_extranonce2_eq [OF assms])
  have l: "length (hex_digits (unat v)) \<le> 2 * nat sz \<longleftrightarrow> unat v < 16 ^ (2 * nat sz)"
    using assms(1) by (intro length_hex_digits_le) simp
  have "hex_to_bytes ?s (nat sz) \<noteq> None" if "unat v < 16 ^ (2 * nat sz)"
    using that l by (simp add: hex_to_bytes_None_iff is_hex_pad is_hex_hex_digits max_def)
  moreover have "be_bytes_val bs = unat v" if "hex_to_bytes ?s (nat sz) = Some bs" for bs
    using hex_to_bytes_num [OF that] by simp
  ultimately show ?thesis
    unfolding f using l by (auto simp: max_def)
qed

theorem format_extranonce2_correct_witness:
  "length (miner_format_extranonce2 32 4 (0x1234 :: u64)) = 8 \<and>
   2 < length (miner_format_extranonce2 32 1 (0x100 :: u64))"
  using format_extranonce2_correct [of 4 32 "0x1234"] format_extranonce2_correct [of 1 32 "0x100"] by simp

end
