(* ===== verification/Sha256_Spec.thy ===== *)
theory Sha256_Spec
  imports Prelude
begin

text \<open>
  The SHA-256 hash function as FIPS 180-4 defines it: the reference every hashing routine of the
  miner is compared with. Nothing in this theory is a translation of the sources. The constants are
  given by the standard's own description (fractional parts of square and cube roots of primes),
  so that the tables of the C code are checked against it rather than copied.
\<close>

section \<open>Constants\<close>

definition first_primes :: "nat list" where
  "first_primes =
    [2, 3, 5, 7, 11, 13, 17, 19, 23, 29, 31, 37, 41, 43, 47, 53,
     59, 61, 67, 71, 73, 79, 83, 89, 97, 101, 103, 107, 109, 113, 127, 131,
     137, 139, 149, 151, 157, 163, 167, 173, 179, 181, 191, 193, 197, 199, 211, 223,
     227, 229, 233, 239, 241, 251, 257, 263, 269, 271, 277, 281, 283, 293, 307, 311]"

text \<open>The first 32 bits of the fractional part of the \<open>r\<close>-th root of \<open>p\<close>.\<close>

definition root_frac_bits :: "nat \<Rightarrow> nat \<Rightarrow> u32" where
  "root_frac_bits r p = word_of_int \<lfloor>root r (real p) * 2 ^ 32\<rfloor>"

definition fips_H0 :: "u32 list" where
  "fips_H0 = map (root_frac_bits 2) (take 8 first_primes)"

definition fips_K :: "u32 list" where
  "fips_K = map (root_frac_bits 3) first_primes"

section \<open>Functions\<close>

definition Ch :: "u32 \<Rightarrow> u32 \<Rightarrow> u32 \<Rightarrow> u32" where
  "Ch x y z = (x AND y) XOR (NOT x AND z)"

definition Maj :: "u32 \<Rightarrow> u32 \<Rightarrow> u32 \<Rightarrow> u32" where
  "Maj x y z = (x AND y) XOR (x AND z) XOR (y AND z)"

definition Sigma0 :: "u32 \<Rightarrow> u32" where
  "Sigma0 x = word_rotr 2 x XOR word_rotr 13 x XOR word_rotr 22 x"

definition Sigma1 :: "u32 \<Rightarrow> u32" where
  "Sigma1 x = word_rotr 6 x XOR word_rotr 11 x XOR word_rotr 25 x"

definition sigma0 :: "u32 \<Rightarrow> u32" where
  "sigma0 x = word_rotr 7 x XOR word_rotr 18 x XOR drop_bit 3 x"

definition sigma1 :: "u32 \<Rightarrow> u32" where
  "sigma1 x = word_rotr 17 x XOR word_rotr 19 x XOR drop_bit 10 x"

section \<open>Message schedule, rounds and compression\<close>

fun W :: "u32 list \<Rightarrow> nat \<Rightarrow> u32" where
  "W M t = (if t < 16 then M ! t
            else sigma1 (W M (t - 2)) + W M (t - 7) + sigma0 (W M (t - 15)) + W M (t - 16))"

declare W.simps [simp del]

text \<open>The eight working variables \<open>a\<close> to \<open>h\<close>.\<close>

type_synonym wvars = "u32 \<times> u32 \<times> u32 \<times> u32 \<times> u32 \<times> u32 \<times> u32 \<times> u32"

text \<open>One round, given the sum of its round constant and schedule word.\<close>

fun sha_round :: "u32 \<Rightarrow> wvars \<Rightarrow> wvars" where
  "sha_round kw (a, b, c, d, e, f, g, h) =
    (let T1 = h + Sigma1 e + Ch e f g + kw;
         T2 = Sigma0 a + Maj a b c
     in (T1 + T2, a, b, c, d + T1, e, f, g))"

definition rounds :: "u32 list \<Rightarrow> nat \<Rightarrow> nat \<Rightarrow> wvars \<Rightarrow> wvars" where
  "rounds M i j v = foldl (\<lambda>v t. sha_round (fips_K ! t + W M t) v) v [i..<j]"

definition wvars_of :: "u32 list \<Rightarrow> wvars" where
  "wvars_of H = (H ! 0, H ! 1, H ! 2, H ! 3, H ! 4, H ! 5, H ! 6, H ! 7)"

fun list_of_wvars :: "wvars \<Rightarrow> u32 list" where
  "list_of_wvars (a, b, c, d, e, f, g, h) = [a, b, c, d, e, f, g, h]"

definition compress :: "u32 list \<Rightarrow> u32 list \<Rightarrow> u32 list" where
  "compress H M = map2 (+) H (list_of_wvars (rounds M 0 64 (wvars_of H)))"

section \<open>Bytes, padding, hash\<close>

definition be64_bytes :: "u64 \<Rightarrow> bytes" where
  "be64_bytes v = map (\<lambda>i. ucast (drop_bit (8 * i) v)) [7, 6, 5, 4, 3, 2, 1, 0]"

fun be32_words :: "bytes \<Rightarrow> u32 list" where
  "be32_words (a # b # c # d # bs) = join32 a b c d # be32_words bs"
| "be32_words _ = []"

text \<open>Append the bit 1 (byte 0x80), the least number of zero bytes, and the bit length.\<close>

definition pad :: "bytes \<Rightarrow> bytes" where
  "pad m = m @ 0x80 # replicate ((119 - length m mod 64) mod 64) 0
             @ be64_bytes (of_nat (8 * length m))"

fun blocks :: "u32 list \<Rightarrow> u32 list list" where
  "blocks ws = (if length ws < 16 then [] else take 16 ws # blocks (drop 16 ws))"

declare blocks.simps [simp del]

definition sha256_words :: "bytes \<Rightarrow> u32 list" where
  "sha256_words m = foldl compress fips_H0 (blocks (be32_words (pad m)))"

definition sha256 :: "bytes \<Rightarrow> bytes" where
  "sha256 m = concat (map be32_bytes (sha256_words m))"

definition sha256d :: "bytes \<Rightarrow> bytes" where
  "sha256d m = sha256 (sha256 m)"

section \<open>Facts of the specification\<close>

lemma root_frac_bits_eqI:
  assumes "0 < r" "n ^ r \<le> p * 2 ^ (32 * r)" "p * 2 ^ (32 * r) < (n + 1) ^ r"
  shows "root_frac_bits r p = of_nat n"
proof -
  let ?x = "root r (real p) * 2 ^ 32"
  have x0: "0 \<le> ?x" using assms(1) by simp
  have xr: "?x ^ r = real p * 2 ^ (32 * r)"
    using assms(1) by (simp add: power_mult_distrib real_root_pow_pos2 power_mult)
  have "real (n ^ r) \<le> real (p * 2 ^ (32 * r))" using assms(2) by (simp only: of_nat_le_iff)
  then have "real n ^ r \<le> ?x ^ r" unfolding xr by simp
  then have lo: "real n \<le> ?x"
    using x0 assms(1) by (metis power_mono_iff of_nat_0_le_iff)
  have "real (p * 2 ^ (32 * r)) < real ((n + 1) ^ r)" using assms(3) by (simp only: of_nat_less_iff)
  then have "?x ^ r < real (n + 1) ^ r" unfolding xr by simp
  then have hi: "?x < real (n + 1)"
    by (rule power_less_imp_less_base) simp
  have "\<lfloor>?x\<rfloor> = int n" using lo hi by (intro floor_unique) auto
  then show ?thesis by (simp add: root_frac_bits_def)
qed

lemma length_fips_K [simp]: "length fips_K = 64"
  by (simp add: fips_K_def first_primes_def)

lemma length_fips_H0 [simp]: "length fips_H0 = 8"
  by (simp add: fips_H0_def first_primes_def)

lemma length_list_of_wvars [simp]: "length (list_of_wvars v) = 8"
  by (cases v rule: list_of_wvars.cases) simp

lemma length_compress [simp]: "length H = 8 \<Longrightarrow> length (compress H M) = 8"
  by (simp add: compress_def)

lemma wvars_of_list [simp]: "wvars_of (list_of_wvars v) = v"
  by (cases v rule: list_of_wvars.cases) (simp add: wvars_of_def)

lemma rounds_split: "i \<le> j \<Longrightarrow> j \<le> k \<Longrightarrow> rounds M i k v = rounds M j k (rounds M i j v)"
  by (simp add: rounds_def foldl_upt_append [of i j k])

lemma rounds_Suc: "i \<le> j \<Longrightarrow> rounds M i (Suc j) v = sha_round (fips_K ! j + W M j) (rounds M i j v)"
  by (simp add: rounds_def)

lemma rounds_refl [simp]: "rounds M i i v = v"
  by (simp add: rounds_def)

lemma length_be64_bytes [simp]: "length (be64_bytes v) = 8"
  by (simp add: be64_bytes_def)

lemma be32_words_bytes [simp]: "be32_words (be32_bytes v @ bs) = v # be32_words bs"
  by (simp add: be32_bytes_def)

lemma be32_words_concat [simp]: "be32_words (concat (map be32_bytes ws)) = ws"
  using be32_words_bytes by (induction ws) (auto simp del: be32_words.simps, simp)

lemma be32_words_append:
  "4 dvd length xs \<Longrightarrow> be32_words (xs @ ys) = be32_words xs @ be32_words ys"
proof (induction xs rule: be32_words.induct)
  case (1 a b c d bs)
  have "length (a # b # c # d # bs) = length bs + 4" by simp
  with "1.prems" have "4 dvd length bs" by (metis dvd_add_left_iff dvd_refl)
  with 1 show ?case by simp
qed (auto dest: dvd_imp_le)

lemma length_be32_words: "length (be32_words xs) = length xs div 4"
  by (induction xs rule: be32_words.induct) auto

lemma blocks_append16: "length b = 16 \<Longrightarrow> blocks (b @ ws) = b # blocks ws"
  by (subst blocks.simps) simp

lemma blocks_Nil [simp]: "blocks [] = []"
  by (subst blocks.simps) simp

lemma length_foldl_compress: "length H = 8 \<Longrightarrow> length (foldl compress H bs) = 8"
  by (induction bs arbitrary: H) auto

lemma length_sha256_words [simp]: "length (sha256_words m) = 8"
  by (simp add: sha256_words_def length_foldl_compress)

lemma length_concat_be32 [simp]: "length (concat (map be32_bytes ws)) = 4 * length ws"
  by (induction ws) auto

lemma length_sha256 [simp]: "length (sha256 m) = 32"
  by (simp add: sha256_def)

section \<open>The hash of an 80-byte header from the mid-state of its first block\<close>

definition pad80_words :: "u32 list" where
  "pad80_words = 0x80000000 # replicate 10 0 @ [640]"

definition pad32_words :: "u32 list" where
  "pad32_words = 0x80000000 # replicate 6 0 @ [256]"

text \<open>The eight words of the double hash, from the chaining value after the first 64 bytes and the
  four big-endian words of the last 16 bytes.\<close>

definition tail_hash :: "u32 list \<Rightarrow> u32 list \<Rightarrow> u32 list" where
  "tail_hash mid tail = compress fips_H0 (compress mid (tail @ pad80_words) @ pad32_words)"

lemma be32_words_pad80:
  "be32_words (0x80 # replicate 39 0 @ be64_bytes 640) = pad80_words"
  by (simp add: be64_bytes_def pad80_words_def literal_arrays join32_def)

lemma be32_words_pad32:
  "be32_words (0x80 # replicate 23 0 @ be64_bytes 256) = pad32_words"
  by (simp add: be64_bytes_def pad32_words_def literal_arrays join32_def)

lemma sha256_words_80:
  assumes "length a = 64" "length b = 16"
  shows "sha256_words (a @ b) = compress (compress fips_H0 (be32_words a)) (be32_words b @ pad80_words)"
proof -
  have "be32_words (pad (a @ b)) = be32_words a @ be32_words b @ pad80_words"
    using assms by (simp add: pad_def be32_words_append be32_words_pad80)
  moreover have "length pad80_words = 12" by (simp add: pad80_words_def)
  ultimately show ?thesis
    using assms blocks_append16 [of "be32_words b @ pad80_words" "[]"]
    by (simp add: sha256_words_def blocks_append16 length_be32_words)
qed

lemma sha256_words_32:
  assumes "length ws = 8"
  shows "sha256_words (concat (map be32_bytes ws)) = compress fips_H0 (ws @ pad32_words)"
proof -
  have "be32_words (pad (concat (map be32_bytes ws))) = ws @ pad32_words"
    using assms by (simp add: pad_def be32_words_append be32_words_pad32)
  moreover have "length pad32_words = 8" by (simp add: pad32_words_def)
  ultimately show ?thesis
    using assms blocks_append16 [of "ws @ pad32_words" "[]"]
    by (simp add: sha256_words_def)
qed

lemma sha256d_tail_hash:
  assumes "length a = 64" "length b = 16"
  shows "sha256d (a @ b) =
    concat (map be32_bytes (tail_hash (compress fips_H0 (be32_words a)) (be32_words b)))"
  using assms
  by (simp only: sha256d_def sha256_def sha256_words_80 tail_hash_def)
     (simp add: sha256_words_32)

lemma length_tail_hash [simp]: "length (tail_hash mid tail) = 8"
  by (simp add: tail_hash_def)

end
