(* ===== verification/Sha256d.thy ===== *)
theory Sha256d
  imports Sha256_Spec
begin

text \<open>
  The portable hashing core, \<open>src/src/sha256d.c\<close>: backend selection, the big-endian helpers, the
  SHA-256 compression loop on C arrays, the mid-state hashing of an 80-byte block header, the target
  comparison and the generic nonce scan. OpenSSL is a parameter (a record of the functions the code
  calls); \<open>openssl_contract\<close> states what its documentation promises.

  Main results: the tables are the constants of FIPS 180-4, the compression loop computes the
  compression function of the standard, and hashing the last 16 bytes from the mid-state of the
  first 64 gives the double SHA-256 of the whole header, on the portable and on the OpenSSL path.
\<close>

section \<open>Constants\<close>

definition k_sha256_initial_state :: "u32 list" where
  "k_sha256_initial_state =
    [0x6a09e667, 0xbb67ae85, 0x3c6ef372, 0xa54ff53a,
     0x510e527f, 0x9b05688c, 0x1f83d9ab, 0x5be0cd19]"

text \<open>The table in rows of four, as the source lays it out and as the vector code loads it.\<close>

definition k_sha256_round_constants :: "u32 list" where
  "k_sha256_round_constants = concat
    [[0x428a2f98, 0x71374491, 0xb5c0fbcf, 0xe9b5dba5],
     [0x3956c25b, 0x59f111f1, 0x923f82a4, 0xab1c5ed5],
     [0xd807aa98, 0x12835b01, 0x243185be, 0x550c7dc3],
     [0x72be5d74, 0x80deb1fe, 0x9bdc06a7, 0xc19bf174],
     [0xe49b69c1, 0xefbe4786, 0x0fc19dc6, 0x240ca1cc],
     [0x2de92c6f, 0x4a7484aa, 0x5cb0a9dc, 0x76f988da],
     [0x983e5152, 0xa831c66d, 0xb00327c8, 0xbf597fc7],
     [0xc6e00bf3, 0xd5a79147, 0x06ca6351, 0x14292967],
     [0x27b70a85, 0x2e1b2138, 0x4d2c6dfc, 0x53380d13],
     [0x650a7354, 0x766a0abb, 0x81c2c92e, 0x92722c85],
     [0xa2bfe8a1, 0xa81a664b, 0xc24b8b70, 0xc76c51a3],
     [0xd192e819, 0xd6990624, 0xf40e3585, 0x106aa070],
     [0x19a4c116, 0x1e376c08, 0x2748774c, 0x34b0bcb5],
     [0x391c0cb3, 0x4ed8aa4a, 0x5b9cca4f, 0x682e6ff3],
     [0x748f82ee, 0x78a5636f, 0x84c87814, 0x8cc70208],
     [0x90befffa, 0xa4506ceb, 0xbef9a3f7, 0xc67178f2]]"

section \<open>Backends\<close>

datatype sha256d_backend_t =
    SHA256D_BACKEND_OPENSSL
  | SHA256D_BACKEND_FAST_C
  | SHA256D_BACKEND_ARM_SHA2
  | SHA256D_BACKEND_X86_SHA_NI

text \<open>The build flags \<open>BTC_MINER_ARM_SHA2\<close>, \<open>BTC_MINER_X86_SHA_NI\<close> and what the CPU probes
  (\<open>sha256d_arm_sha2_available\<close>, \<open>sha256d_x86_sha_ni_available\<close>) answer.\<close>

record sha_platform =
  BTC_MINER_ARM_SHA2 :: bool
  BTC_MINER_X86_SHA_NI :: bool
  sha256d_arm_sha2_available :: bool
  sha256d_x86_sha_ni_available :: bool

fun sha256d_backend_name :: "sha256d_backend_t \<Rightarrow> string" where
  "sha256d_backend_name SHA256D_BACKEND_OPENSSL = ''openssl''"
| "sha256d_backend_name SHA256D_BACKEND_FAST_C = ''fast-c''"
| "sha256d_backend_name SHA256D_BACKEND_ARM_SHA2 = ''arm-sha2''"
| "sha256d_backend_name SHA256D_BACKEND_X86_SHA_NI = ''x86-sha-ni''"

fun sha256d_backend_available :: "sha_platform \<Rightarrow> sha256d_backend_t \<Rightarrow> bool" where
  "sha256d_backend_available p SHA256D_BACKEND_OPENSSL = True"
| "sha256d_backend_available p SHA256D_BACKEND_FAST_C = True"
| "sha256d_backend_available p SHA256D_BACKEND_ARM_SHA2 =
    (if BTC_MINER_ARM_SHA2 p then sha256d_arm_sha2_available p else False)"
| "sha256d_backend_available p SHA256D_BACKEND_X86_SHA_NI =
    (if BTC_MINER_X86_SHA_NI p then sha256d_x86_sha_ni_available p else False)"

definition sha256d_auto_backend :: "sha_platform \<Rightarrow> sha256d_backend_t" where
  "sha256d_auto_backend p =
    (if sha256d_backend_available p SHA256D_BACKEND_X86_SHA_NI then SHA256D_BACKEND_X86_SHA_NI
     else if sha256d_backend_available p SHA256D_BACKEND_ARM_SHA2 then SHA256D_BACKEND_ARM_SHA2
     else SHA256D_BACKEND_OPENSSL)"

text \<open>The new value of the global \<open>g_backend\<close> and the return code.\<close>

definition sha256d_set_backend ::
  "sha_platform \<Rightarrow> sha256d_backend_t \<Rightarrow> sha256d_backend_t \<Rightarrow> sha256d_backend_t \<times> int" where
  "sha256d_set_backend p backend g_backend =
    (if \<not> sha256d_backend_available p backend then (g_backend, - 1) else (backend, 0))"

text \<open>\<open>None\<close> stands for the return value -1, with \<open>*out\<close> left alone; the argument is \<open>None\<close> for NULL.\<close>

definition sha256d_parse_backend :: "string option \<Rightarrow> sha256d_backend_t option" where
  "sha256d_parse_backend text =
    (case text of None \<Rightarrow> None
     | Some s \<Rightarrow>
        if s = ''openssl'' \<or> s = ''ossl'' then Some SHA256D_BACKEND_OPENSSL
        else if s = ''fast-c'' \<or> s = ''fastc'' \<or> s = ''portable'' \<or> s = ''c''
          then Some SHA256D_BACKEND_FAST_C
        else if s = ''arm-sha2'' \<or> s = ''armv8-sha2'' \<or> s = ''sha2'' \<or> s = ''neon''
          then Some SHA256D_BACKEND_ARM_SHA2
        else if s = ''x86-sha-ni'' \<or> s = ''x86-shani'' \<or> s = ''sha-ni'' \<or> s = ''shani''
          then Some SHA256D_BACKEND_X86_SHA_NI
        else None)"

section \<open>Word and byte helpers\<close>

definition rotr32 :: "u32 \<Rightarrow> nat \<Rightarrow> u32" where
  "rotr32 x n = drop_bit n x OR push_bit (32 - n) x"

definition bswap32 :: "u32 \<Rightarrow> u32" where
  "bswap32 v = push_bit 24 (v AND 0x000000ff) OR push_bit 8 (v AND 0x0000ff00) OR
               drop_bit 8 (v AND 0x00ff0000) OR drop_bit 24 (v AND 0xff000000)"

text \<open>A pointer into a byte array is the array and an offset.\<close>

definition load_be32 :: "bytes \<Rightarrow> nat \<Rightarrow> u32" where
  "load_be32 b p = push_bit 24 (ucast (b ! p)) OR push_bit 16 (ucast (b ! (p + 1))) OR
                   push_bit 8 (ucast (b ! (p + 2))) OR ucast (b ! (p + 3))"

definition put_be32 :: "bytes \<Rightarrow> nat \<Rightarrow> u32 \<Rightarrow> bytes" where
  "put_be32 out p v =
    out[p := ucast (drop_bit 24 v), p + 1 := ucast (drop_bit 16 v),
        p + 2 := ucast (drop_bit 8 v), p + 3 := ucast v]"

text \<open>The loop runs \<open>i\<close> from 7 down to 0, storing the low byte and shifting.\<close>

definition put_be64 :: "bytes \<Rightarrow> nat \<Rightarrow> u64 \<Rightarrow> bytes" where
  "put_be64 out p v =
    fst (foldl (\<lambda>(out, v) i. (out[p + i := ucast v], drop_bit 8 v)) (out, v) [7, 6, 5, 4, 3, 2, 1, 0])"

text \<open>\<open>memset(out + p, x, n)\<close>.\<close>

definition memset :: "'a list \<Rightarrow> nat \<Rightarrow> 'a \<Rightarrow> nat \<Rightarrow> 'a list" where
  "memset out p x n = foldl (\<lambda>out i. out[p + i := x]) out [0..<n]"

section \<open>Compression\<close>

definition sched_step :: "u32 list \<Rightarrow> nat \<Rightarrow> u32 list" where
  "sched_step w i =
    (let s0 = rotr32 (w ! (i - 15)) 7 XOR rotr32 (w ! (i - 15)) 18 XOR drop_bit 3 (w ! (i - 15));
         s1 = rotr32 (w ! (i - 2)) 17 XOR rotr32 (w ! (i - 2)) 19 XOR drop_bit 10 (w ! (i - 2))
     in w[i := w ! (i - 16) + s0 + w ! (i - 7) + s1])"

fun round_step :: "u32 list \<Rightarrow> wvars \<Rightarrow> nat \<Rightarrow> wvars" where
  "round_step w (a, b, c, d, e, f, g, h) i =
    (let s1 = rotr32 e 6 XOR rotr32 e 11 XOR rotr32 e 25;
         ch = (e AND f) XOR (NOT e AND g);
         temp1 = h + s1 + ch + k_sha256_round_constants ! i + w ! i;
         s0 = rotr32 a 2 XOR rotr32 a 13 XOR rotr32 a 22;
         maj = (a AND b) XOR (a AND c) XOR (b AND c);
         temp2 = s0 + maj
     in (temp1 + temp2, a, b, c, d + temp1, e, f, g))"

text \<open>The updated \<open>state\<close> and \<open>w\<close> arrays.\<close>

definition sha256_compress_words :: "u32 list \<Rightarrow> u32 list \<Rightarrow> u32 list \<times> u32 list" where
  "sha256_compress_words state w =
    (let w = foldl sched_step w [16..<64];
         (a, b, c, d, e, f, g, h) =
           foldl (round_step w)
             (state ! 0, state ! 1, state ! 2, state ! 3, state ! 4, state ! 5, state ! 6, state ! 7)
             [0..<64]
     in (state[0 := state ! 0 + a, 1 := state ! 1 + b, 2 := state ! 2 + c, 3 := state ! 3 + d,
               4 := state ! 4 + e, 5 := state ! 5 + f, 6 := state ! 6 + g, 7 := state ! 7 + h], w))"

text \<open>A local array is written before it is read; its first contents are immaterial and taken as 0.\<close>

definition local_array :: "nat \<Rightarrow> 'a::zero list" where
  "local_array n = replicate n 0"

definition sha256_compress_block :: "u32 list \<Rightarrow> bytes \<Rightarrow> u32 list" where
  "sha256_compress_block state block =
    (let w = foldl (\<lambda>w i. w[i := load_be32 block (i * 4)]) (local_array 64) [0..<16]
     in fst (sha256_compress_words state w))"

section \<open>OpenSSL\<close>

text \<open>The functions of \<open>openssl/sha.h\<close> the code calls, over the library's context type; \<open>ctx_h\<close> is
  the public field \<open>h\<close> of \<open>SHA256_CTX\<close>.\<close>

record 'ctx openssl =
  SHA256 :: "bytes \<Rightarrow> bytes"
  SHA256_Init :: 'ctx
  SHA256_Update :: "'ctx \<Rightarrow> bytes \<Rightarrow> 'ctx"
  SHA256_Transform :: "'ctx \<Rightarrow> bytes \<Rightarrow> 'ctx"
  ctx_h :: "'ctx \<Rightarrow> u32 list"

text \<open>Its documented behaviour: \<open>SHA256\<close> is the standard's hash, \<open>SHA256_Init\<close> sets the standard's
  initial value, \<open>SHA256_Transform\<close> compresses one 64-byte block, and \<open>SHA256_Update\<close> of a fresh
  context with one whole block processes that block.\<close>

definition openssl_contract :: "'ctx openssl \<Rightarrow> bool" where
  "openssl_contract ssl \<longleftrightarrow>
    (\<forall>m. SHA256 ssl m = sha256 m) \<and>
    ctx_h ssl (SHA256_Init ssl) = fips_H0 \<and>
    (\<forall>c b. length b = 64 \<longrightarrow>
       ctx_h ssl (SHA256_Transform ssl c b) = compress (ctx_h ssl c) (be32_words b)) \<and>
    (\<forall>b. length b = 64 \<longrightarrow>
       ctx_h ssl (SHA256_Update ssl (SHA256_Init ssl) b) = compress fips_H0 (be32_words b))"

section \<open>Hashing a header from its mid-state\<close>

record 'ctx sha256_midstate_t =
  ctx :: 'ctx
  second_ctx :: 'ctx
  fast_state :: "u32 list"

definition sha256d_80 :: "'ctx openssl \<Rightarrow> bytes \<Rightarrow> bytes" where
  "sha256d_80 ssl header = (let first = SHA256 ssl header in SHA256 ssl first)"

definition sha256d_80_midstate_prepare :: "'ctx openssl \<Rightarrow> bytes \<Rightarrow> 'ctx sha256_midstate_t" where
  "sha256d_80_midstate_prepare ssl header_first64 =
    \<lparr>ctx = SHA256_Update ssl (SHA256_Init ssl) header_first64,
     second_ctx = SHA256_Init ssl,
     fast_state = sha256_compress_block k_sha256_initial_state header_first64\<rparr>"

definition sha256d_80_midstate_hash_openssl ::
  "'ctx openssl \<Rightarrow> 'ctx sha256_midstate_t \<Rightarrow> u32 list \<Rightarrow> u32 list" where
  "sha256d_80_midstate_hash_openssl ssl state tail_words =
    (let first_block = foldl (\<lambda>b i. put_be32 b (i * 4) (tail_words ! i)) (local_array 64) [0..<4];
         first_block = first_block[16 := 0x80];
         first_block = memset first_block 17 0 39;
         first_block = put_be64 first_block 56 (80 * 8);
         c1 = SHA256_Transform ssl (ctx state) first_block;
         second_block = foldl (\<lambda>b i. put_be32 b (i * 4) (ctx_h ssl c1 ! i)) (local_array 64) [0..<8];
         second_block = second_block[32 := 0x80];
         second_block = memset second_block 33 0 23;
         second_block = put_be64 second_block 56 (32 * 8);
         c2 = SHA256_Transform ssl (second_ctx state) second_block
     in map (\<lambda>i. ctx_h ssl c2 ! i) [0..<8])"

definition sha256d_80_midstate_hash_fast_c ::
  "'ctx sha256_midstate_t \<Rightarrow> u32 list \<Rightarrow> u32 list" where
  "sha256d_80_midstate_hash_fast_c state tail_words =
    (let first_state = fast_state state;
         w = (local_array 64)[0 := tail_words ! 0, 1 := tail_words ! 1, 2 := tail_words ! 2,
                              3 := tail_words ! 3, 4 := 0x80000000];
         w = foldl (\<lambda>w i. w[i := 0]) w [5..<15];
         w = w[15 := 80 * 8];
         (first_state, w) = sha256_compress_words first_state w;
         second_state = k_sha256_initial_state;
         w = foldl (\<lambda>w i. w[i := first_state ! i]) w [0..<8];
         w = w[8 := 0x80000000];
         w = foldl (\<lambda>w i. w[i := 0]) w [9..<15];
         w = w[15 := 32 * 8];
         (second_state, w) = sha256_compress_words second_state w
     in map (\<lambda>i. second_state ! i) [0..<8])"

definition sha256d_words_to_hash :: "u32 list \<Rightarrow> bytes" where
  "sha256d_words_to_hash words =
    foldl (\<lambda>out i. put_be32 out (i * 4) (words ! i)) (local_array 32) [0..<8]"

section \<open>Target comparison and the generic scan\<close>

text \<open>The loop runs \<open>i\<close> from 7 down; \<open>meet_from n\<close> decides from index \<open>n - 1\<close> on.\<close>

fun meet_from :: "nat \<Rightarrow> u32 list \<Rightarrow> u32 list \<Rightarrow> bool" where
  "meet_from 0 hash_words target_words = True"
| "meet_from (Suc i) hash_words target_words =
    (let h = bswap32 (hash_words ! i);
         t = target_words ! i
     in if h < t then True else if h > t then False else meet_from i hash_words target_words)"

definition hash_words_meet_target :: "u32 list \<Rightarrow> u32 list \<Rightarrow> bool" where
  "hash_words_meet_target hash_words target_words = meet_from 8 hash_words target_words"

text \<open>The callback \<open>on_match(opaque, nonce, hash_words)\<close> as a function on the state behind
  \<open>opaque\<close>; \<open>None\<close> for a NULL pointer.\<close>

type_synonym 'o scan_match_func = "'o \<Rightarrow> u32 \<Rightarrow> u32 list \<Rightarrow> 'o"

definition scan_report ::
  "'o scan_match_func option \<Rightarrow> u32 list \<Rightarrow> u32 list \<Rightarrow> u32 \<Rightarrow> 'o \<Rightarrow> 'o" where
  "scan_report on_match target_words hash_words nonce opaque =
    (case on_match of
       None \<Rightarrow> opaque
     | Some f \<Rightarrow> if hash_words_meet_target hash_words target_words
                 then f opaque nonce hash_words else opaque)"

definition sha256d_scan_nonce_range_generic ::
  "('ctx sha256_midstate_t \<Rightarrow> u32 list \<Rightarrow> u32 list) \<Rightarrow> 'ctx sha256_midstate_t \<Rightarrow> u32 list \<Rightarrow>
   u32 list \<Rightarrow> u32 \<Rightarrow> u32 \<Rightarrow> 'o scan_match_func option \<Rightarrow> 'o \<Rightarrow> 'o" where
  "sha256d_scan_nonce_range_generic hash_tail_words state base_tail_words target_words
     start_nonce nonce_count on_match opaque =
    foldl (\<lambda>opaque i.
        let nonce = start_nonce + of_nat i;
            tail_words = base_tail_words[3 := bswap32 nonce];
            hash_words = hash_tail_words state tail_words
        in scan_report on_match target_words hash_words nonce opaque)
      opaque [0..<unat nonce_count]"

section \<open>The tables are the standard's\<close>

text \<open>\<open>q\<close> is the integer part of the root and \<open>k\<close> the 32 bits after the point.\<close>

definition root_ok :: "nat \<Rightarrow> nat \<Rightarrow> nat \<Rightarrow> u32 \<Rightarrow> bool" where
  "root_ok r p q k \<longleftrightarrow>
    (unat k + q * 2 ^ 32) ^ r \<le> p * 2 ^ (32 * r) \<and> p * 2 ^ (32 * r) < (unat k + q * 2 ^ 32 + 1) ^ r"

fun roots_ok :: "nat \<Rightarrow> nat list \<Rightarrow> nat list \<Rightarrow> u32 list \<Rightarrow> bool" where
  "roots_ok r (p # ps) (q # qs) (k # ks) = (root_ok r p q k \<and> roots_ok r ps qs ks)"
| "roots_ok r ps qs ks = (ps = [] \<and> ks = [])"

lemma root_ok_frac_bits:
  assumes "0 < r" "root_ok r p q k"
  shows "root_frac_bits r p = k"
proof -
  have "root_frac_bits r p = of_nat (unat k + q * 2 ^ 32)"
    using assms by (intro root_frac_bits_eqI) (simp_all add: root_ok_def)
  then show ?thesis by (simp add: two_pow_32_u32)
qed

lemma roots_ok_map: "0 < r \<Longrightarrow> roots_ok r ps qs ks \<Longrightarrow> ks = map (root_frac_bits r) ps"
  by (induction r ps qs ks rule: roots_ok.induct) (auto simp: root_ok_frac_bits)

lemma k_sha256_initial_state_fips: "k_sha256_initial_state = fips_H0"
  unfolding fips_H0_def first_primes_def k_sha256_initial_state_def
  by (rule roots_ok_map [where qs = "[1, 1, 2, 2, 3, 3, 4, 4]"]) (simp_all add: root_ok_def)

lemma k_sha256_round_constants_fips: "k_sha256_round_constants = fips_K"
  unfolding fips_K_def first_primes_def k_sha256_round_constants_def concat.simps append.simps
  by (rule roots_ok_map [where qs =
        "[1, 1, 1, 1, 2, 2, 2, 2, 2, 3, 3, 3, 3, 3, 3, 3,
          3, 3, 4, 4, 4, 4, 4, 4, 4, 4, 4, 4, 4, 4, 5, 5,
          5, 5, 5, 5, 5, 5, 5, 5, 5, 5, 5, 5, 5, 5, 5, 6,
          6, 6, 6, 6, 6, 6, 6, 6, 6, 6, 6, 6, 6, 6, 6, 6]"])
     (simp_all add: root_ok_def)

section \<open>The compression loop computes the standard's compression\<close>

lemma rotr32_word_rotr: "n \<le> 32 \<Longrightarrow> rotr32 x n = word_rotr n x"
proof (rule u32_eqI, goal_cases)
  case (1 m)
  show ?case
  proof (cases "m + n < 32")
    case True
    then show ?thesis using 1 by (auto simp: rotr32_def bit_simps add.commute)
  next
    case False
    then have "(m + n) mod 32 = m + n - 32" using 1 by (simp add: mod_if)
    moreover have "\<not> bit x (n + m)" using False by (auto dest: bit_imp_le_length)
    ultimately show ?thesis using 1 False by (auto simp: rotr32_def bit_simps add.commute)
  qed
qed

lemma sched_step_sigma:
  "sched_step w i = w[i := sigma1 (w ! (i - 2)) + w ! (i - 7) + sigma0 (w ! (i - 15)) + w ! (i - 16)]"
  by (simp add: sched_step_def Let_def sigma0_def sigma1_def rotr32_word_rotr ac_simps)

lemma length_sched_step [simp]: "length (sched_step w i) = length w"
  by (simp add: sched_step_def Let_def)

lemma length_foldl_sched_step [simp]: "length (foldl sched_step w is) = length w"
  by (induction "is" arbitrary: w) auto

lemma sched_loop:
  assumes "length w = 64" "n \<le> 64" "j < n" "16 \<le> n"
  shows "foldl sched_step w [16..<n] ! j = W (take 16 w) j"
  using assms(4, 2, 3)
proof (induction n arbitrary: j rule: dec_induct)
  case base
  then show ?case using assms(1) by (simp add: W.simps)
next
  case (step n)
  let ?w = "foldl sched_step w [16..<n]"
  have eq: "foldl sched_step w [16..<Suc n] = sched_step ?w n" using step by simp
  show ?case
  proof (cases "j = n")
    case True
    then show ?thesis using step assms(1)
      by (simp add: eq sched_step_sigma [of _ n] W.simps [of _ n])
  next
    case False
    then show ?thesis using step by (simp add: eq sched_step_sigma [of _ n])
  qed
qed

lemma round_step_sha_round:
  "round_step w v i = sha_round (k_sha256_round_constants ! i + w ! i) v"
  by (cases v rule: list_of_wvars.cases)
     (simp add: Let_def Sigma0_def Sigma1_def Ch_def Maj_def rotr32_word_rotr ac_simps)

lemma round_loop:
  assumes "length w = 64" "n \<le> 64"
  shows "foldl (round_step (foldl sched_step w [16..<64])) v [0..<n] = rounds (take 16 w) 0 n v"
  using assms(2)
  by (induction n)
     (simp_all add: rounds_Suc round_step_sha_round sched_loop assms(1)
        k_sha256_round_constants_fips)

lemma add_into_array8:
  "length s = 8 \<Longrightarrow>
   s[0 := s ! 0 + a, 1 := s ! 1 + b, 2 := s ! 2 + c, 3 := s ! 3 + d,
     4 := s ! 4 + e, 5 := s ! 5 + f, 6 := s ! 6 + g, 7 := s ! 7 + h]
   = map2 (+) s [a, b, c, d, e, f, g, h]"
  by (auto simp: length_eq_8_iff)

lemma sha256_compress_words_compress:
  assumes "length state = 8" "length w = 64"
  shows "fst (sha256_compress_words state w) = compress state (take 16 w)"
proof -
  obtain a b c d e f g h where v: "rounds (take 16 w) 0 64 (wvars_of state) = (a, b, c, d, e, f, g, h)"
    by (metis list_of_wvars.cases)
  then show ?thesis using assms add_into_array8 [OF assms(1), of a b c d e f g h]
    by (simp add: sha256_compress_words_def Let_def round_loop wvars_of_def compress_def)
qed

lemma length_sha256_compress_words [simp]:
  "length (snd (sha256_compress_words state w)) = length w"
  by (simp add: sha256_compress_words_def Let_def split: prod.splits)

lemma sha256_compress_words_pair:
  assumes "length state = 8" "length w = 64"
  obtains w' where "sha256_compress_words state w = (compress state (take 16 w), w')" "length w' = 64"
  using sha256_compress_words_compress [OF assms] length_sha256_compress_words [of state w] assms
  by (metis prod.collapse)

lemma load_be32_join: "load_be32 b p = join32 (b ! p) (b ! (p + 1)) (b ! (p + 2)) (b ! (p + 3))"
  by (simp add: load_be32_def join32_def)

lemma be32_words_nth: "i < length b div 4 \<Longrightarrow> be32_words b ! i = load_be32 b (i * 4)"
proof (induction b arbitrary: i rule: be32_words.induct)
  case (1 a b c d bs)
  then show ?case by (cases i) (simp_all add: load_be32_join add.commute)
qed auto

lemma load_be32_block: "length b = 4 * n \<Longrightarrow> map (\<lambda>i. load_be32 b (i * 4)) [0..<n] = be32_words b"
  by (simp add: list_eq_iff_nth_eq be32_words_nth length_be32_words)

lemma sha256_compress_block_compress:
  assumes "length state = 8" "length block = 64"
  shows "sha256_compress_block state block = compress state (be32_words block)"
  using assms load_be32_block [of block 16]
  by (simp add: sha256_compress_block_def Let_def store_loop local_array_def
      sha256_compress_words_compress length_be32_words)

text \<open>The two message arrays of the portable path.\<close>

lemma first_message_words:
  assumes "length tail = 4"
  defines "w \<equiv> (foldl (\<lambda>w i. w[i := 0])
     ((local_array 64)[0 := tail ! 0, 1 := tail ! 1, 2 := tail ! 2, 3 := tail ! 3,
                       4 := 0x80000000 :: u32]) [5..<15])[15 := 80 * 8]"
  shows "take 16 w = tail @ pad80_words" "length w = 64"
  using assms(1)
  by (auto simp: w_def local_array_def pad80_words_def length_eq_4_iff literal_arrays)

lemma second_message_words:
  assumes "length s = 8" "length v = 64"
  defines "w \<equiv> (foldl (\<lambda>w i. w[i := 0])
     ((foldl (\<lambda>w i. w[i := s ! i]) v [0..<8])[8 := 0x80000000 :: u32]) [9..<15])[15 := 32 * 8]"
  shows "take 16 w = s @ pad32_words" "length w = 64"
proof -
  obtain v0 v1 v2 v3 v4 v5 v6 v7 v8 v9 v10 v11 v12 v13 v14 v15 y where
    "v = [v0, v1, v2, v3, v4, v5, v6, v7, v8, v9, v10, v11, v12, v13, v14, v15] @ y" "length y = 48"
    using assms(2) by (auto simp: numeral_eq_Suc length_Suc_conv)
  then have "take 16 w = s @ pad32_words \<and> length w = 64"
    using assms(1) by (auto simp: w_def pad32_words_def length_eq_8_iff literal_arrays)
  then show "take 16 w = s @ pad32_words" "length w = 64" by auto
qed

lemma map_nth_8: "length s = 8 \<Longrightarrow> map (\<lambda>i. s ! i) [0..<8] = s"
  by (metis map_nth)

lemma fast_c_tail_hash:
  assumes "length tail = 4" "length (fast_state st) = 8"
  shows "sha256d_80_midstate_hash_fast_c st tail = tail_hash (fast_state st) tail"
proof -
  note m1 = first_message_words [OF assms(1)]
  obtain w2 where w2: "sha256_compress_words (fast_state st)
      ((foldl (\<lambda>w i. w[i := 0])
         ((local_array 64)[0 := tail ! 0, 1 := tail ! 1, 2 := tail ! 2, 3 := tail ! 3,
                           4 := 0x80000000]) [5..<15])[15 := 80 * 8])
      = (compress (fast_state st) (tail @ pad80_words), w2)" "length w2 = 64"
    using sha256_compress_words_pair [OF assms(2) m1(2)] m1(1) by metis
  have s: "length (compress (fast_state st) (tail @ pad80_words)) = 8" using assms by simp
  note m2 = second_message_words [OF s w2(2)]
  obtain w3 where w3: "sha256_compress_words k_sha256_initial_state
      ((foldl (\<lambda>w i. w[i := 0])
         ((foldl (\<lambda>w i. w[i := compress (fast_state st) (tail @ pad80_words) ! i]) w2 [0..<8])
            [8 := 0x80000000]) [9..<15])[15 := 32 * 8])
      = (tail_hash (fast_state st) tail, w3)"
    using sha256_compress_words_pair [OF _ m2(2), of k_sha256_initial_state] m2(1)
    by (metis k_sha256_initial_state_fips length_fips_H0 tail_hash_def)
  show ?thesis
    by (simp only: sha256d_80_midstate_hash_fast_c_def Let_def w2(1) w3 prod.case map_nth_8 length_tail_hash)
qed
section \<open>Writing into byte arrays\<close>

lemma put_be32_app: "length xs = p \<Longrightarrow> put_be32 (xs @ a # b # c # d # ys) p v = xs @ be32_bytes v @ ys"
  by (simp add: put_be32_def be32_bytes_def list_update_append)

lemma put_be64_app:
  "length xs = p \<Longrightarrow> length zs = 8 \<Longrightarrow> put_be64 (xs @ zs @ ys) p v = xs @ be64_bytes v @ ys"
  by (auto simp: put_be64_def be64_bytes_def list_update_append length_eq_8_iff drop_bit_drop_bit)

lemma memset_app:
  "length xs = p \<Longrightarrow> n \<le> length zs \<Longrightarrow> memset (xs @ zs) p x n = xs @ replicate n x @ drop n zs"
proof (induction n)
  case (Suc n)
  then have d: "drop n zs = zs ! n # drop (Suc n) zs" by (simp add: Cons_nth_drop_Suc)
  have "memset (xs @ zs) p x (Suc n) = (memset (xs @ zs) p x n)[p + n := x]" by (simp add: memset_def)
  with Suc d show ?case by (simp add: list_update_append replicate_app_Cons_same)
qed (simp add: memset_def)

lemma put_words_loop:
  assumes "length ws = n" "4 * n \<le> length out"
  shows "foldl (\<lambda>b i. put_be32 b (i * 4) (ws ! i)) out [0..<n] = concat (map be32_bytes ws) @ drop (4 * n) out"
  using assms
proof (induction n arbitrary: ws)
  case (Suc n)
  then obtain vs v where ws: "ws = vs @ [v]" "length vs = n" by (metis length_Suc_conv_rev)
  obtain a b c d ys where d: "drop (4 * n) out = a # b # c # d # ys" "drop (4 * Suc n) out = ys"
  proof -
    have "length (drop (4 * n) out) \<ge> 4" using Suc.prems by simp
    then obtain a b c d ys where "drop (4 * n) out = a # b # c # d # ys"
      by (auto simp: numeral_eq_Suc Suc_le_length_iff simp del: length_drop drop_drop)
    moreover have "drop (4 * Suc n) out = drop 4 (drop (4 * n) out)" by (simp add: drop_drop add.commute)
    ultimately show ?thesis using that by simp
  qed
  have "foldl (\<lambda>b i. put_be32 b (i * 4) (ws ! i)) out [0..<n]
      = foldl (\<lambda>b i. put_be32 b (i * 4) (vs ! i)) out [0..<n]"
    using ws by (intro foldl_cong) (auto simp: nth_append)
  with Suc.IH [OF ws(2)] Suc.prems d ws show ?case
    by (simp add: put_be32_app nth_append)
qed simp

lemma padded_block:
  assumes "length ws = n" "n \<le> 13"
  shows "put_be64 (memset ((foldl (\<lambda>b i. put_be32 b (i * 4) (ws ! i)) (local_array 64) [0..<n])[4 * n := 0x80])
           (4 * n + 1) 0 (55 - 4 * n)) 56 v
       = concat (map be32_bytes ws) @ 0x80 # replicate (55 - 4 * n) 0 @ be64_bytes v"
proof -
  let ?t = "concat (map be32_bytes ws)"
  obtain k where k: "64 - 4 * n = Suc k" "55 - 4 * n \<le> k" "k - (55 - 4 * n) = 8" using assms(2) 
    by (intro that [of "63 - 4 * n"]) auto
  have len: "length (?t @ [0x80]) = 4 * n + 1" "length (?t @ 0x80 # replicate (55 - 4 * n) 0) = 56"
    using assms by auto
  have 1: "(foldl (\<lambda>b i. put_be32 b (i * 4) (ws ! i)) (local_array 64) [0..<n])[4 * n := 0x80]
      = (?t @ [0x80]) @ replicate k 0"
    using assms k by (simp add: put_words_loop local_array_def list_update_append)
  have 2: "memset ((?t @ [0x80]) @ replicate k 0) (4 * n + 1) 0 (55 - 4 * n)
      = (?t @ 0x80 # replicate (55 - 4 * n) 0) @ replicate 8 0 @ []"
    using k by (subst memset_app [OF len(1)]) simp_all
  show ?thesis unfolding 1 2 by (subst put_be64_app [OF len(2)]) simp_all
qed

section \<open>The OpenSSL path\<close>

lemma first_block_bytes:
  assumes "length tail = 4"
  defines "b \<equiv> put_be64 (memset ((foldl (\<lambda>b i. put_be32 b (i * 4) (tail ! i)) (local_array 64) [0..<4])
                  [16 := 0x80]) 17 0 39) 56 (80 * 8)"
  shows "be32_words b = tail @ pad80_words" "length b = 64"
  using padded_block [OF assms(1), of 640] assms(1)
  by (simp_all add: b_def be32_words_append be32_words_pad80 length_be64_bytes)

lemma second_block_bytes:
  assumes "length s = 8"
  defines "b \<equiv> put_be64 (memset ((foldl (\<lambda>b i. put_be32 b (i * 4) (s ! i)) (local_array 64) [0..<8])
                  [32 := 0x80]) 33 0 23) 56 (32 * 8)"
  shows "be32_words b = s @ pad32_words" "length b = 64"
  using padded_block [OF assms(1), of 256] assms(1)
  by (simp_all add: b_def be32_words_append be32_words_pad32 length_be64_bytes)

lemma words_to_hash_bytes:
  assumes "length ws = 8"
  shows "sha256d_words_to_hash ws = concat (map be32_bytes ws)"
  using assms by (simp add: sha256d_words_to_hash_def put_words_loop local_array_def)

lemma openssl_tail_hash:
  assumes "openssl_contract ssl" "length tail = 4" "length first64 = 64"
  shows "sha256d_80_midstate_hash_openssl ssl (sha256d_80_midstate_prepare ssl first64) tail =
         tail_hash (compress fips_H0 (be32_words first64)) tail"
proof -
  let ?mid = "compress fips_H0 (be32_words first64)"
  let ?c1 = "SHA256_Transform ssl (SHA256_Update ssl (SHA256_Init ssl) first64)
    (put_be64 (memset ((foldl (\<lambda>b i. put_be32 b (i * 4) (tail ! i)) (local_array 64) [0..<4])
       [16 := 0x80]) 17 0 39) 56 (80 * 8))"
  note b1 = first_block_bytes [OF assms(2)]
  have c1: "ctx_h ssl ?c1 = compress ?mid (tail @ pad80_words)"
    using assms(1,3) b1 by (simp add: openssl_contract_def)
  have s: "length (ctx_h ssl ?c1) = 8" unfolding c1 by simp
  note b2 = second_block_bytes [OF s]
  have "ctx_h ssl (SHA256_Transform ssl (SHA256_Init ssl)
     (put_be64 (memset ((foldl (\<lambda>b i. put_be32 b (i * 4) (ctx_h ssl ?c1 ! i)) (local_array 64) [0..<8])
        [32 := 0x80]) 33 0 23) 56 (32 * 8))) = tail_hash ?mid tail"
    using assms(1) b2 c1 by (simp add: openssl_contract_def tail_hash_def)
  then show ?thesis
    by (simp only: sha256d_80_midstate_hash_openssl_def sha256d_80_midstate_prepare_def Let_def
        sha256_midstate_t.simps map_nth_8 length_tail_hash)
qed

lemma midstate_prepare_fast_state:
  assumes "length first64 = 64"
  shows "fast_state (sha256d_80_midstate_prepare ssl first64) = compress fips_H0 (be32_words first64)"
  using assms
  by (simp add: sha256d_80_midstate_prepare_def sha256_compress_block_compress k_sha256_initial_state_fips)

section \<open>Comparing with the target\<close>

text \<open>The number a word array stands for, least significant word first.\<close>

primrec le_words_val :: "u32 list \<Rightarrow> nat" where
  "le_words_val [] = 0"
| "le_words_val (w # ws) = unat w + 2 ^ 32 * le_words_val ws"

lemma le_words_val_bound: "le_words_val ws < 2 ^ (32 * length ws)"
proof (induction ws)
  case (Cons w ws)
  have "unat w < 2 ^ 32" using unsigned_less [of w] by simp
  moreover have "le_words_val ws + 1 \<le> 2 ^ (32 * length ws)" using Cons by simp
  then have "2 ^ 32 * (le_words_val ws + 1) \<le> 2 ^ 32 * 2 ^ (32 * length ws)" by (rule mult_le_mono2)
  ultimately show ?case by (simp add: power_add)
qed simp

lemma le_words_val_snoc: "le_words_val (ws @ [w]) = le_words_val ws + 2 ^ (32 * length ws) * unat w"
  by (induction ws) (simp_all add: power_add algebra_simps)

lemma digit_compare:
  fixes a b x y B :: nat
  assumes "a < B" "b < B"
  shows "a + B * x \<le> b + B * y \<longleftrightarrow> x < y \<or> x = y \<and> a \<le> b"
proof -
  have "a + B * x \<le> b + B * y" if "x < y"
  proof -
    have "B * (x + 1) \<le> B * y" using that by (intro mult_le_mono2) simp
    with assms(1) show ?thesis by simp
  qed
  moreover have "\<not> a + B * x \<le> b + B * y" if "y < x"
  proof -
    have "B * (y + 1) \<le> B * x" using that by (intro mult_le_mono2) simp
    with assms(2) show ?thesis by simp
  qed
  ultimately show ?thesis by (cases x y rule: linorder_cases) auto
qed

lemma meet_from_le:
  assumes "n \<le> length hs" "n \<le> length ts"
  shows "meet_from n hs ts \<longleftrightarrow> le_words_val (take n (map bswap32 hs)) \<le> le_words_val (take n ts)"
  using assms
proof (induction n)
  case (Suc n)
  have t: "take (Suc n) (map bswap32 hs) = take n (map bswap32 hs) @ [bswap32 (hs ! n)]"
    "take (Suc n) ts = take n ts @ [ts ! n]"
    using Suc.prems by (simp_all add: take_Suc_conv_app_nth)
  have b: "le_words_val (take n (map bswap32 hs)) < 2 ^ (32 * n)" "le_words_val (take n ts) < 2 ^ (32 * n)"
    using le_words_val_bound [of "take n (map bswap32 hs)"] le_words_val_bound [of "take n ts"] Suc.prems by simp_all
  have l: "length (take n (map bswap32 hs)) = n" "length (take n ts) = n" using Suc.prems by simp_all
  show ?case using Suc
    unfolding t le_words_val_snoc l digit_compare [OF b] 
    by (auto simp: Let_def word_less_nat_alt word_unat_eq_iff)
qed simp

lemma bswap32_join:
  "bswap32 v = join32 (ucast v) (ucast (drop_bit 8 v)) (ucast (drop_bit 16 v)) (ucast (drop_bit 24 v))"
proof -
  have m: "0xff = (mask 8 :: u32)" "0xff00 = push_bit 8 (mask 8 :: u32)"
    "0xff0000 = push_bit 16 (mask 8 :: u32)" "0xff000000 = push_bit 24 (mask 8 :: u32)"
    by (simp_all add: mask_eq_exp_minus_1)
  show ?thesis unfolding bswap32_def m join32_def
  proof (rule u32_eqI)
    fix n assume n: "n < (32 :: nat)"
    then show "bit (push_bit 24 (v AND mask 8) OR push_bit 8 (v AND push_bit 8 (mask 8)) OR
          drop_bit 8 (v AND push_bit 16 (mask 8)) OR drop_bit 24 (v AND push_bit 24 (mask 8))) n =
         bit (push_bit 24 (ucast (ucast v :: u8)) OR push_bit 16 (ucast (ucast (drop_bit 8 v) :: u8)) OR
          push_bit 8 (ucast (ucast (drop_bit 16 v) :: u8)) OR ucast (ucast (drop_bit 24 v) :: u8) :: u32) n"
      by (cases rule: u32_bit_cases) (simp_all add: bit_simps)
  qed
qed

lemma be32_bytes_bswap32: "be32_bytes (bswap32 v) = le32_bytes v"
  by (simp add: bswap32_join be32_bytes_def le32_bytes_def)

lemma bswap32_bswap32 [simp]: "bswap32 (bswap32 v) = v"
  by (simp add: bswap32_join)

text \<open>The bytes of the hash, read as a little-endian number, are its byte-swapped words.\<close>

lemma le_bytes_val_hash: "le_bytes_val (concat (map be32_bytes ws)) = le_words_val (map bswap32 ws)"
  by (induction ws) (simp_all add: le_bytes_val_be32 bswap32_join)

lemma hash_words_meet_target_le:
  assumes "length hs = 8" "length ts = 8"
  shows "hash_words_meet_target hs ts \<longleftrightarrow> le_words_val (map bswap32 hs) \<le> le_words_val ts"
  using assms by (simp add: hash_words_meet_target_def meet_from_le)
section \<open>What a scan reports\<close>

text \<open>The nonces of a range in the order the loops visit them, wrapping at \<open>2 ^ 32\<close>, and those of
  them whose hash meets the target, with the hash.\<close>

definition nonce_range :: "u32 \<Rightarrow> u32 \<Rightarrow> u32 list" where
  "nonce_range start_nonce nonce_count = map (\<lambda>i. start_nonce + of_nat i) [0..<unat nonce_count]"

definition scan_matches ::
  "(u32 list \<Rightarrow> u32 list) \<Rightarrow> u32 list \<Rightarrow> u32 list \<Rightarrow> u32 list \<Rightarrow> (u32 \<times> u32 list) list" where
  "scan_matches hash tail target nonces =
    filter (\<lambda>(nonce, h). hash_words_meet_target h target)
      (map (\<lambda>nonce. (nonce, hash (tail[3 := bswap32 nonce]))) nonces)"

lemma nonce_range_append:
  assumes "unat m + unat n < 2 ^ 32"
  shows "nonce_range start (m + n) = nonce_range start m @ nonce_range (start + m) n"
proof -
  have "unat (m + n) = unat m + unat n" using assms by (simp add: unat_word_ariths)
  moreover have "[0..<unat m + unat n] = [0..<unat m] @ [unat m..<unat m + unat n]"
    by (rule upt_add_eq_append) simp
  moreover have "[unat m..<unat m + unat n] = map (\<lambda>i. i + unat m) [0..<unat n]"
    unfolding map_add_upt by (simp only: add.commute)
  ultimately show ?thesis by (simp add: nonce_range_def comp_def ac_simps)
qed

lemma scan_report_fold:
  "foldl (\<lambda>opaque nonce. scan_report (Some f) target (hash (tail[3 := bswap32 nonce])) nonce opaque) opaque nonces
   = foldl (\<lambda>opaque (nonce, h). f opaque nonce h) opaque (scan_matches hash tail target nonces)"
  by (induction nonces arbitrary: opaque) (simp_all add: scan_matches_def scan_report_def)

lemma generic_scan_fold:
  "sha256d_scan_nonce_range_generic hash st tail target start n on_match opaque =
   foldl (\<lambda>opaque nonce. scan_report on_match target (hash st (tail[3 := bswap32 nonce])) nonce opaque)
     opaque (nonce_range start n)"
  by (simp add: sha256d_scan_nonce_range_generic_def nonce_range_def foldl_map Let_def)

lemma generic_scan_matches:
  "sha256d_scan_nonce_range_generic hash st tail target start n (Some f) opaque =
   foldl (\<lambda>opaque (nonce, h). f opaque nonce h) opaque
     (scan_matches (hash st) tail target (nonce_range start n))"
  by (simp add: generic_scan_fold scan_report_fold)

lemma generic_scan_null:
  "sha256d_scan_nonce_range_generic hash st tail target start n None opaque = opaque"
proof -
  have "foldl (\<lambda>opaque nonce. opaque) opaque ns = opaque" for ns :: "u32 list"
    by (induction ns) simp_all
  then show ?thesis by (simp add: generic_scan_fold scan_report_def)
qed

lemma collect_fold:
  "foldl (\<lambda>acc (n, h). acc @ [(n, h)]) acc ms = acc @ ms"
  by (induction ms arbitrary: acc) auto

section \<open>Contract of a hashing backend\<close>

text \<open>
  \<open>tail_backend\<close> is what the scan relies on: a function that hashes a header from the mid-state of
  its first 64 bytes. \<open>prepared st first64\<close> says that \<open>st\<close> is a mid-state of \<open>first64\<close> the backend
  may be given. \<open>nonce_scanner\<close> adds a scan function that behaves as the generic loop does.
\<close>

locale tail_backend =
  fixes hash_tail :: "'ctx sha256_midstate_t \<Rightarrow> u32 list \<Rightarrow> u32 list"
    and prepared :: "'ctx sha256_midstate_t \<Rightarrow> bytes \<Rightarrow> bool"
  assumes prepared_length: "prepared st first64 \<Longrightarrow> length first64 = 64"
    and hash_tail_spec: "prepared st first64 \<Longrightarrow> length tail = 4 \<Longrightarrow>
      hash_tail st tail = tail_hash (compress fips_H0 (be32_words first64)) tail"
begin

lemma hash_header:
  assumes "prepared st (take 64 header)" "length header = 80"
  shows "concat (map be32_bytes (hash_tail st (be32_words (drop 64 header)))) = sha256d header"
  using sha256d_tail_hash [of "take 64 header" "drop 64 header"] assms
  by (simp add: hash_tail_spec length_be32_words)

lemma hash_nonce:
  assumes "prepared st (take 64 h76)" "length h76 = 76" "length tail = 4"
    "take 3 tail = be32_words (drop 64 h76)"
  shows "concat (map be32_bytes (hash_tail st (tail[3 := bswap32 nonce]))) = sha256d (h76 @ le32_bytes nonce)"
proof -
  have "tail[3 := bswap32 nonce] = take 3 tail @ [bswap32 nonce]"
    using assms(3) by (auto simp: length_eq_4_iff)
  also have "\<dots> = be32_words (drop 64 (h76 @ le32_bytes nonce))"
    using assms be32_words_bytes [of "bswap32 nonce" "[]"]
    by (simp add: be32_words_append be32_bytes_bswap32)
  finally have t: "tail[3 := bswap32 nonce] = be32_words (drop 64 (h76 @ le32_bytes nonce))" .
  show ?thesis unfolding t
    by (rule hash_header) (use assms in simp_all)
qed

lemma match_iff:
  assumes "prepared st (take 64 h76)" "length h76 = 76" "length tail = 4"
    "take 3 tail = be32_words (drop 64 h76)" "length target = 8"
  shows "hash_words_meet_target (hash_tail st (tail[3 := bswap32 nonce])) target \<longleftrightarrow>
         le_bytes_val (sha256d (h76 @ le32_bytes nonce)) \<le> le_words_val target"
proof -
  have "length (hash_tail st (tail[3 := bswap32 nonce])) = 8"
    using assms by (simp add: hash_tail_spec)
  then show ?thesis
    using assms hash_nonce [OF assms(1-4), symmetric]
    by (simp add: hash_words_meet_target_le le_bytes_val_hash)
qed

lemma matched_nonces:
  assumes "prepared st (take 64 h76)" "length h76 = 76" "length tail = 4"
    "take 3 tail = be32_words (drop 64 h76)" "length target = 8"
  shows "map fst (scan_matches (hash_tail st) tail target nonces) =
         filter (\<lambda>n. le_bytes_val (sha256d (h76 @ le32_bytes n)) \<le> le_words_val target) nonces"
  by (induction nonces) (auto simp: scan_matches_def match_iff [OF assms])

end

locale nonce_scanner = tail_backend hash_tail prepared
  for hash_tail :: "'ctx sha256_midstate_t \<Rightarrow> u32 list \<Rightarrow> u32 list"
    and prepared :: "'ctx sha256_midstate_t \<Rightarrow> bytes \<Rightarrow> bool" +
  fixes scan :: "'ctx sha256_midstate_t \<Rightarrow> u32 list \<Rightarrow> u32 list \<Rightarrow> u32 \<Rightarrow> u32 \<Rightarrow>
     'o scan_match_func option \<Rightarrow> 'o \<Rightarrow> 'o"
  assumes scan_generic: "prepared st first64 \<Longrightarrow> length tail = 4 \<Longrightarrow>
    scan st tail target start n on_match opaque =
    sha256d_scan_nonce_range_generic hash_tail st tail target start n on_match opaque"
begin

lemma scan_reports:
  assumes "prepared st first64" "length tail = 4"
  shows "scan st tail target start n (Some f) opaque =
    foldl (\<lambda>opaque (nonce, h). f opaque nonce h) opaque
      (scan_matches (hash_tail st) tail target (nonce_range start n))"
  using assms by (simp add: scan_generic generic_scan_matches)

end

text \<open>A mid-state built by \<open>sha256d_80_midstate_prepare\<close>; the OpenSSL path also needs the library
  to keep its contract.\<close>

definition prepared_midstate :: "'ctx openssl \<Rightarrow> 'ctx sha256_midstate_t \<Rightarrow> bytes \<Rightarrow> bool" where
  "prepared_midstate ssl st first64 \<longleftrightarrow>
    length first64 = 64 \<and> st = sha256d_80_midstate_prepare ssl first64"

interpretation fast_c: nonce_scanner sha256d_80_midstate_hash_fast_c "prepared_midstate ssl"
    "sha256d_scan_nonce_range_generic sha256d_80_midstate_hash_fast_c" for ssl
  by unfold_locales
     (auto simp: prepared_midstate_def fast_c_tail_hash midstate_prepare_fast_state)

interpretation ossl: nonce_scanner "sha256d_80_midstate_hash_openssl ssl"
    "\<lambda>st first64. openssl_contract ssl \<and> prepared_midstate ssl st first64"
    "sha256d_scan_nonce_range_generic (sha256d_80_midstate_hash_openssl ssl)" for ssl
  by unfold_locales (auto simp: prepared_midstate_def openssl_tail_hash)

end
