(* ===== verification/Sha256d_Simd.thy ===== *)
theory Sha256d_Simd
  imports Sha256d
begin

text \<open>
  What the two vector backends share: 128-bit registers of four 32-bit lanes, the message schedule
  in groups of four words, the message vectors of the two blocks of a header hash, and the scan loop
  that handles two nonces per pass.
\<close>

section \<open>Registers and the schedule in groups of four\<close>

text \<open>A register, lane 0 first.\<close>

type_synonym u32x4 = "u32 \<times> u32 \<times> u32 \<times> u32"

fun lanes :: "u32x4 \<Rightarrow> u32 list" where
  "lanes (l0, l1, l2, l3) = [l0, l1, l2, l3]"

definition of_lanes :: "u32 list \<Rightarrow> u32x4" where
  "of_lanes ls = (ls ! 0, ls ! 1, ls ! 2, ls ! 3)"

definition sched_vec :: "u32 list \<Rightarrow> nat \<Rightarrow> u32x4" where
  "sched_vec M i = (W M i, W M (i + 1), W M (i + 2), W M (i + 3))"

lemma sched_vec_message:
  "sched_vec M 0 = (M ! 0, M ! 1, M ! 2, M ! 3)" "sched_vec M 4 = (M ! 4, M ! 5, M ! 6, M ! 7)"
  "sched_vec M 8 = (M ! 8, M ! 9, M ! 10, M ! 11)" "sched_vec M 12 = (M ! 12, M ! 13, M ! 14, M ! 15)"
  by (simp_all add: sched_vec_def W.simps numeral_2_eq_2)

text \<open>The four words after a window of sixteen.\<close>

lemma W_next4:
  "W M (16 + i) = sigma1 (W M (14 + i)) + W M (9 + i) + sigma0 (W M (1 + i)) + W M i"
  "W M (17 + i) = sigma1 (W M (15 + i)) + W M (10 + i) + sigma0 (W M (2 + i)) + W M (1 + i)"
  "W M (18 + i) = sigma1 (W M (16 + i)) + W M (11 + i) + sigma0 (W M (3 + i)) + W M (2 + i)"
  "W M (19 + i) = sigma1 (W M (17 + i)) + W M (12 + i) + sigma0 (W M (4 + i)) + W M (3 + i)"
  by (subst W.simps, simp)+

lemma rounds_next4:
  "rounds M 0 (i + 4) v =
    sha_round (fips_K ! (i + 3) + W M (i + 3)) (sha_round (fips_K ! (i + 2) + W M (i + 2))
      (sha_round (fips_K ! (i + 1) + W M (i + 1)) (sha_round (fips_K ! i + W M i) (rounds M 0 i v))))"
  using rounds_Suc [of 0 "i + 3" M v] rounds_Suc [of 0 "i + 2" M v]
    rounds_Suc [of 0 "i + 1" M v] rounds_Suc [of 0 i M v]
  by (simp add: eval_nat_numeral)

lemma first_message_vecs:
  assumes "length tail = 4"
  shows "sched_vec (tail @ pad80_words) 0 = (tail ! 0, tail ! 1, tail ! 2, tail ! 3)"
    "sched_vec (tail @ pad80_words) 4 = (0x80000000, 0, 0, 0)"
    "sched_vec (tail @ pad80_words) 8 = (0, 0, 0, 0)"
    "sched_vec (tail @ pad80_words) 12 = (0, 0, 0, 640)"
  using assms
  by (auto simp: length_eq_4_iff sched_vec_message pad80_words_def replicate_numeral)

lemma second_message_vecs:
  assumes "length s = 8"
  shows "sched_vec (s @ pad32_words) 0 = (s ! 0, s ! 1, s ! 2, s ! 3)"
    "sched_vec (s @ pad32_words) 4 = (s ! 4, s ! 5, s ! 6, s ! 7)"
    "sched_vec (s @ pad32_words) 8 = (0x80000000, 0, 0, 0)"
    "sched_vec (s @ pad32_words) 12 = (0, 0, 0, 256)"
  using assms
  by (auto simp: length_eq_8_iff sched_vec_message pad32_words_def replicate_numeral)

section \<open>Scanning two nonces per pass\<close>

text \<open>Report the \<open>k\<close>-th nonce of a range.\<close>

definition report_index ::
  "u32 list \<Rightarrow> u32 list \<Rightarrow> u32 list \<Rightarrow> u32 \<Rightarrow> 'o scan_match_func option \<Rightarrow> nat \<Rightarrow> 'o \<Rightarrow> 'o" where
  "report_index mid tail target start on_match k opaque =
    scan_report on_match target (tail_hash mid (tail[3 := bswap32 (start + of_nat k)]))
      (start + of_nat k) opaque"

lemma generic_scan_report_index:
  assumes "\<And>tail. length tail = 4 \<Longrightarrow> hash st tail = tail_hash mid tail" "length tail = 4"
  shows "sha256d_scan_nonce_range_generic hash st tail target start n on_match opaque =
    foldl (\<lambda>q k. report_index mid tail target start on_match k q) opaque [0..<unat n]"
  using assms by (simp add: sha256d_scan_nonce_range_generic_def Let_def report_index_def)

lemma even_part: "unat (n AND NOT 1 :: u32) = 2 * (unat n div 2)"
proof -
  have "(n AND NOT 1) AND (n AND 1) = 0" "n = (n AND NOT 1) OR (n AND 1)"
    by (rule bit_word_eqI, auto simp: bit_simps)+
  then have "unat n = unat (n AND NOT 1) + unat (n AND 1)"
    using unat_or_disjoint [of "n AND NOT 1" "n AND 1"] by metis
  moreover have "unat (n AND 1) = unat n mod 2"
    by (simp add: and_one_eq unat_mod_distrib)
  ultimately show ?thesis by presburger
qed

text \<open>A loop that handles two indices per pass visits the indices in order.\<close>

lemma pair_loop:
  fixes rep :: "nat \<Rightarrow> 'o \<Rightarrow> 'o"
  assumes step: "\<And>j q. step (of_nat (2 * j), q) = (of_nat (2 * Suc j), rep (2 * j + 1) (rep (2 * j) q))"
    and n: "2 * n < 2 ^ 32"
  shows "j \<le> n \<Longrightarrow> while (\<lambda>(i, q). i < (of_nat (2 * n) :: u32)) step (of_nat (2 * j), q) =
         (of_nat (2 * n), foldl (\<lambda>q i. rep i q) q [2 * j..<2 * n])"
proof (induction "n - j" arbitrary: j q)
  case 0
  then show ?case by (subst while_unfold) simp
next
  case (Suc k)
  then have j: "j < n" by simp
  have "(of_nat (2 * j) :: u32) < of_nat (2 * n)"
    using j n by (simp add: word_less_nat_alt unat_of_nat del: of_nat_mult)
  moreover have "[2 * j..<2 * n] = 2 * j # (2 * j + 1) # [2 * Suc j..<2 * n]"
    using j by (simp add: upt_conv_Cons)
  ultimately show ?case
    using Suc.hyps(1) [of "Suc j"] Suc.hyps(2) j
    by (subst while_unfold) (simp add: step del: of_nat_mult of_nat_Suc mult_Suc_right)
qed

lemma paired_scan:
  fixes rep :: "nat \<Rightarrow> 'o \<Rightarrow> 'o"
  assumes step: "\<And>j q. step (of_nat (2 * j), q) = (of_nat (2 * Suc j), rep (2 * j + 1) (rep (2 * j) q))"
    and final: "\<And>i q. final (i :: u32) q = rep (unat i) q"
  shows "(case while (\<lambda>(i, q). i < n AND NOT 1) step (0, q) of
            (i, q) \<Rightarrow> if i < n then final i q else q) = foldl (\<lambda>q k. rep k q) q [0..<unat n]"
proof -
  define m where "m = unat n div 2"
  have m: "2 * m < 2 ^ 32" using unat_u32_less [of n] by (simp add: m_def)
  have p: "n AND NOT 1 = of_nat (2 * m)"
    using even_part [of n] m by (simp add: word_unat_eq_iff unat_of_nat m_def del: of_nat_mult)
  have loop: "while (\<lambda>(i, q). i < n AND NOT 1) step (0, q)
      = (of_nat (2 * m), foldl (\<lambda>q k. rep k q) q [0..<2 * m])"
    unfolding p using pair_loop [of step rep m 0 q, OF step m] by simp
  have lt: "(of_nat (2 * m) < n) = (2 * m < unat n)" "unat (of_nat (2 * m) :: u32) = 2 * m"
    using m by (simp_all add: word_less_nat_alt unat_of_nat del: of_nat_mult)
  show ?thesis
  proof (cases "odd (unat n)")
    case True
    then have "unat n = Suc (2 * m)" by (simp add: m_def odd_two_times_div_two_succ)
    then show ?thesis unfolding loop prod.case lt final by simp
  next
    case False
    then have "unat n = 2 * m" by (simp add: m_def)
    then show ?thesis unfolding loop prod.case lt by simp
  qed
qed

text \<open>The pair loop ends: the counter stays even and never wraps below an even bound.\<close>

lemma pair_loop_ends:
  fixes n :: u32
  assumes "\<And>i q. fst (step (i, q)) = i + 2"
  shows "\<exists>s. while_option (\<lambda>(i, q). i < n AND NOT 1) step (0, q) = Some s"
proof (rule measure_while_option_Some
    [where P = "\<lambda>s. even (unat (fst s))" and f = "\<lambda>s. 2 ^ 32 - unat (fst s)"], goal_cases)
  case (1 s)
  obtain a b where s: "s = (a, b)" by fastforce
  with 1 have "unat a < 2 * (unat n div 2)" "even (unat a)"
    using even_part [of n] by (simp_all add: word_less_nat_alt)
  then have "unat a + 2 < 2 ^ 32"
    using unat_u32_less [of n] by presburger
  then have "unat (a + 2) = unat a + 2" by (simp add: unat_word_ariths)
  then show ?case using 1 \<open>unat a + 2 < 2 ^ 32\<close> by (simp add: s assms)
qed simp

end
