(* ===== verification/Sha256d_X86.thy ===== *)
theory Sha256d_X86
  imports Sha256d_Simd
begin

text \<open>
  The x86 SHA extensions path, \<open>src/src/sha256d_x86_sha_ni.c\<close>. The compiler intrinsics are the
  instructions of Intel's manual, on four 32-bit lanes, lane 0 first. The vector compression, its
  two-message interleaving and the scan that hashes two nonces at a time are shown to compute what
  the portable code computes, so the backend keeps the \<open>nonce_scanner\<close> contract.
\<close>

section \<open>Instructions\<close>

type_synonym m128i = u32x4

text \<open>\<open>_mm_set_epi32\<close> takes the highest lane first.\<close>

definition set_epi32 :: "u32 \<Rightarrow> u32 \<Rightarrow> u32 \<Rightarrow> u32 \<Rightarrow> m128i" where
  "set_epi32 d c b a = (a, b, c, d)"

definition setzero_si128 :: m128i where
  "setzero_si128 = (0, 0, 0, 0)"

definition loadu_si128 :: "u32 list \<Rightarrow> nat \<Rightarrow> m128i" where
  "loadu_si128 xs p = (xs ! p, xs ! (p + 1), xs ! (p + 2), xs ! (p + 3))"

definition storeu_si128 :: "u32 list \<Rightarrow> nat \<Rightarrow> m128i \<Rightarrow> u32 list" where
  "storeu_si128 xs p v =
    xs[p := lanes v ! 0, p + 1 := lanes v ! 1, p + 2 := lanes v ! 2, p + 3 := lanes v ! 3]"

fun add_epi32 :: "m128i \<Rightarrow> m128i \<Rightarrow> m128i" where
  "add_epi32 (a0, a1, a2, a3) (b0, b1, b2, b3) = (a0 + b0, a1 + b1, a2 + b2, a3 + b3)"

text \<open>Two bits of the immediate select each lane.\<close>

definition shuffle_epi32 :: "m128i \<Rightarrow> nat \<Rightarrow> m128i" where
  "shuffle_epi32 a imm = of_lanes (map (\<lambda>i. lanes a ! (imm div 4 ^ i mod 4)) [0, 1, 2, 3])"

text \<open>The 32 bytes \<open>a:b\<close> shifted right; the code shifts by whole lanes only.\<close>

definition alignr_epi8 :: "m128i \<Rightarrow> m128i \<Rightarrow> nat \<Rightarrow> m128i" where
  "alignr_epi8 a b n = of_lanes (drop (n div 4) (lanes b @ lanes a))"

text \<open>Bit \<open>j\<close> of the immediate takes the \<open>j\<close>-th 16-bit half-lane from \<open>b\<close>.\<close>

definition blend_epi16 :: "m128i \<Rightarrow> m128i \<Rightarrow> nat \<Rightarrow> m128i" where
  "blend_epi16 a b imm = of_lanes (map (\<lambda>i.
     ((if odd (imm div 2 ^ (2 * i)) then lanes b ! i else lanes a ! i) AND 0xffff) OR
     ((if odd (imm div 2 ^ (2 * i + 1)) then lanes b ! i else lanes a ! i) AND 0xffff0000)) [0, 1, 2, 3])"

text \<open>\<open>SHA256RNDS2\<close>: \<open>a\<close> holds C, D, G, H and \<open>b\<close> holds A, B, E, F (highest lane first); the two low
  lanes of \<open>k\<close> are the sums of schedule word and round constant. The result is the new A, B, E, F.\<close>

fun sha256rnds2_epu32 :: "m128i \<Rightarrow> m128i \<Rightarrow> m128i \<Rightarrow> m128i" where
  "sha256rnds2_epu32 (h, g, d, c) (f, e, b, a) (wk0, wk1, _, _) =
    (let T = Ch e f g + Sigma1 e + wk0 + h;
         a1 = T + Maj a b c + Sigma0 a; e1 = T + d;
         T' = Ch e1 e f + Sigma1 e1 + wk1 + g;
         a2 = T' + Maj a1 a b + Sigma0 a1; e2 = T' + c
     in (e1, e2, a1, a2))"

fun sha256msg1_epu32 :: "m128i \<Rightarrow> m128i \<Rightarrow> m128i" where
  "sha256msg1_epu32 (w0, w1, w2, w3) (w4, _, _, _) =
    (w0 + sigma0 w1, w1 + sigma0 w2, w2 + sigma0 w3, w3 + sigma0 w4)"

fun sha256msg2_epu32 :: "m128i \<Rightarrow> m128i \<Rightarrow> m128i" where
  "sha256msg2_epu32 (a0, a1, a2, a3) (_, _, w14, w15) =
    (let w16 = a0 + sigma1 w14; w17 = a1 + sigma1 w15
     in (w16, w17, a2 + sigma1 w16, a3 + sigma1 w17))"

section \<open>Compression\<close>

definition make_u32x4 :: "u32 \<Rightarrow> u32 \<Rightarrow> u32 \<Rightarrow> u32 \<Rightarrow> m128i" where
  "make_u32x4 a b c d = set_epi32 d c b a"

definition make_k :: "nat \<Rightarrow> m128i" where
  "make_k offset = set_epi32 (k_sha256_round_constants ! (offset + 3)) (k_sha256_round_constants ! (offset + 2))
     (k_sha256_round_constants ! (offset + 1)) (k_sha256_round_constants ! offset)"

definition sha256_x86_load_state_vec :: "u32 list \<Rightarrow> m128i \<times> m128i" where
  "sha256_x86_load_state_vec state =
    (let tmp = loadu_si128 state 0;
         state1 = loadu_si128 state 4;
         tmp = shuffle_epi32 tmp 0xb1;
         state1 = shuffle_epi32 state1 0x1b;
         state0 = alignr_epi8 tmp state1 8;
         state1 = blend_epi16 state1 tmp 0xf0
     in (state0, state1))"

definition sha256_x86_store_state_vec :: "u32 list \<Rightarrow> m128i \<Rightarrow> m128i \<Rightarrow> u32 list" where
  "sha256_x86_store_state_vec state state0 state1 =
    (let tmp = shuffle_epi32 state0 0x1b;
         state1 = shuffle_epi32 state1 0xb1;
         state0 = blend_epi16 tmp state1 0xf0;
         state1 = alignr_epi8 state1 tmp 8;
         state = storeu_si128 state 0 state0
     in storeu_si128 state 4 state1)"

text \<open>The macros \<open>BTC_SHA256_X86_ROUND4_MSG\<close> and \<open>BTC_SHA256_X86_MSG2\<close>.\<close>

fun x86_round4_msg :: "m128i \<Rightarrow> nat \<Rightarrow> m128i \<times> m128i \<Rightarrow> m128i \<times> m128i" where
  "x86_round4_msg msg_var offset (state0, state1) =
    (let msg = add_epi32 msg_var (make_k offset);
         state1 = sha256rnds2_epu32 state1 state0 msg;
         msg = shuffle_epi32 msg 0x0e;
         state0 = sha256rnds2_epu32 state0 state1 msg
     in (state0, state1))"

definition x86_msg2 :: "m128i \<Rightarrow> m128i \<Rightarrow> m128i \<Rightarrow> m128i" where
  "x86_msg2 dst prv lst =
    (let tmp = alignr_epi8 lst prv 4;
         dst = add_epi32 dst tmp
     in sha256msg2_epu32 dst lst)"

definition sha256_x86_compress_vec :: "u32 list \<Rightarrow> m128i \<Rightarrow> m128i \<Rightarrow> m128i \<Rightarrow> m128i \<Rightarrow> u32 list" where
  "sha256_x86_compress_vec state msg0 msg1 msg2 msg3 =
    (let (state0, state1) = sha256_x86_load_state_vec state;
         abef_save = state0;
         cdgh_save = state1;
         (state0, state1) = x86_round4_msg msg0 0 (state0, state1);
         (state0, state1) = x86_round4_msg msg1 4 (state0, state1);
         msg0 = sha256msg1_epu32 msg0 msg1;
         (state0, state1) = x86_round4_msg msg2 8 (state0, state1);
         msg1 = sha256msg1_epu32 msg1 msg2;
         (state0, state1) = x86_round4_msg msg3 12 (state0, state1);
         msg0 = x86_msg2 msg0 msg2 msg3;
         msg2 = sha256msg1_epu32 msg2 msg3;
         (state0, state1) = x86_round4_msg msg0 16 (state0, state1);
         msg1 = x86_msg2 msg1 msg3 msg0;
         msg3 = sha256msg1_epu32 msg3 msg0;
         (state0, state1) = x86_round4_msg msg1 20 (state0, state1);
         msg2 = x86_msg2 msg2 msg0 msg1;
         msg0 = sha256msg1_epu32 msg0 msg1;
         (state0, state1) = x86_round4_msg msg2 24 (state0, state1);
         msg3 = x86_msg2 msg3 msg1 msg2;
         msg1 = sha256msg1_epu32 msg1 msg2;
         (state0, state1) = x86_round4_msg msg3 28 (state0, state1);
         msg0 = x86_msg2 msg0 msg2 msg3;
         msg2 = sha256msg1_epu32 msg2 msg3;
         (state0, state1) = x86_round4_msg msg0 32 (state0, state1);
         msg1 = x86_msg2 msg1 msg3 msg0;
         msg3 = sha256msg1_epu32 msg3 msg0;
         (state0, state1) = x86_round4_msg msg1 36 (state0, state1);
         msg2 = x86_msg2 msg2 msg0 msg1;
         msg0 = sha256msg1_epu32 msg0 msg1;
         (state0, state1) = x86_round4_msg msg2 40 (state0, state1);
         msg3 = x86_msg2 msg3 msg1 msg2;
         msg1 = sha256msg1_epu32 msg1 msg2;
         (state0, state1) = x86_round4_msg msg3 44 (state0, state1);
         msg0 = x86_msg2 msg0 msg2 msg3;
         msg2 = sha256msg1_epu32 msg2 msg3;
         (state0, state1) = x86_round4_msg msg0 48 (state0, state1);
         msg1 = x86_msg2 msg1 msg3 msg0;
         msg3 = sha256msg1_epu32 msg3 msg0;
         (state0, state1) = x86_round4_msg msg1 52 (state0, state1);
         msg2 = x86_msg2 msg2 msg0 msg1;
         (state0, state1) = x86_round4_msg msg2 56 (state0, state1);
         msg3 = x86_msg2 msg3 msg1 msg2;
         (state0, state1) = x86_round4_msg msg3 60 (state0, state1);
         state0 = add_epi32 state0 abef_save;
         state1 = add_epi32 state1 cdgh_save
     in sha256_x86_store_state_vec state state0 state1)"

text \<open>The two-message version: \<open>BTC_SHA256_X86_ROUND4_MSG2\<close>, \<open>BTC_SHA256_X86_MSG2_PAIR\<close> and the
  interleaved compression of two states.\<close>

fun x86_round4_msg2 ::
  "m128i \<Rightarrow> m128i \<Rightarrow> nat \<Rightarrow> m128i \<times> m128i \<times> m128i \<times> m128i \<Rightarrow> m128i \<times> m128i \<times> m128i \<times> m128i" where
  "x86_round4_msg2 a_msg_var b_msg_var offset (a_state0, a_state1, b_state0, b_state1) =
    (let k_vec = make_k offset;
         a_msg = add_epi32 a_msg_var k_vec;
         b_msg = add_epi32 b_msg_var k_vec;
         a_state1 = sha256rnds2_epu32 a_state1 a_state0 a_msg;
         b_state1 = sha256rnds2_epu32 b_state1 b_state0 b_msg;
         a_msg = shuffle_epi32 a_msg 0x0e;
         b_msg = shuffle_epi32 b_msg 0x0e;
         a_state0 = sha256rnds2_epu32 a_state0 a_state1 a_msg;
         b_state0 = sha256rnds2_epu32 b_state0 b_state1 b_msg
     in (a_state0, a_state1, b_state0, b_state1))"

definition x86_msg2_pair ::
  "m128i \<Rightarrow> m128i \<Rightarrow> m128i \<Rightarrow> m128i \<Rightarrow> m128i \<Rightarrow> m128i \<Rightarrow> m128i \<times> m128i" where
  "x86_msg2_pair a_dst b_dst a_prev b_prev a_last b_last =
    (let a_tmp = alignr_epi8 a_last a_prev 4;
         b_tmp = alignr_epi8 b_last b_prev 4;
         a_dst = add_epi32 a_dst a_tmp;
         b_dst = add_epi32 b_dst b_tmp;
         a_dst = sha256msg2_epu32 a_dst a_last;
         b_dst = sha256msg2_epu32 b_dst b_last
     in (a_dst, b_dst))"

definition sha256_x86_compress_vec2 ::
  "u32 list \<Rightarrow> u32 list \<Rightarrow> m128i \<Rightarrow> m128i \<Rightarrow> m128i \<Rightarrow> m128i \<Rightarrow> m128i \<Rightarrow> m128i \<Rightarrow> m128i \<Rightarrow> m128i \<Rightarrow>
   u32 list \<times> u32 list" where
  "sha256_x86_compress_vec2 state_a state_b a_msg0 a_msg1 a_msg2 a_msg3 b_msg0 b_msg1 b_msg2 b_msg3 =
    (let (a_state0, a_state1) = sha256_x86_load_state_vec state_a;
         (b_state0, b_state1) = sha256_x86_load_state_vec state_b;
         a_abef_save = a_state0;
         a_cdgh_save = a_state1;
         b_abef_save = b_state0;
         b_cdgh_save = b_state1;
         (a_state0, a_state1, b_state0, b_state1) =
           x86_round4_msg2 a_msg0 b_msg0 0 (a_state0, a_state1, b_state0, b_state1);
         (a_state0, a_state1, b_state0, b_state1) =
           x86_round4_msg2 a_msg1 b_msg1 4 (a_state0, a_state1, b_state0, b_state1);
         a_msg0 = sha256msg1_epu32 a_msg0 a_msg1;
         b_msg0 = sha256msg1_epu32 b_msg0 b_msg1;
         (a_state0, a_state1, b_state0, b_state1) =
           x86_round4_msg2 a_msg2 b_msg2 8 (a_state0, a_state1, b_state0, b_state1);
         a_msg1 = sha256msg1_epu32 a_msg1 a_msg2;
         b_msg1 = sha256msg1_epu32 b_msg1 b_msg2;
         (a_state0, a_state1, b_state0, b_state1) =
           x86_round4_msg2 a_msg3 b_msg3 12 (a_state0, a_state1, b_state0, b_state1);
         (a_msg0, b_msg0) = x86_msg2_pair a_msg0 b_msg0 a_msg2 b_msg2 a_msg3 b_msg3;
         a_msg2 = sha256msg1_epu32 a_msg2 a_msg3;
         b_msg2 = sha256msg1_epu32 b_msg2 b_msg3;
         (a_state0, a_state1, b_state0, b_state1) =
           x86_round4_msg2 a_msg0 b_msg0 16 (a_state0, a_state1, b_state0, b_state1);
         (a_msg1, b_msg1) = x86_msg2_pair a_msg1 b_msg1 a_msg3 b_msg3 a_msg0 b_msg0;
         a_msg3 = sha256msg1_epu32 a_msg3 a_msg0;
         b_msg3 = sha256msg1_epu32 b_msg3 b_msg0;
         (a_state0, a_state1, b_state0, b_state1) =
           x86_round4_msg2 a_msg1 b_msg1 20 (a_state0, a_state1, b_state0, b_state1);
         (a_msg2, b_msg2) = x86_msg2_pair a_msg2 b_msg2 a_msg0 b_msg0 a_msg1 b_msg1;
         a_msg0 = sha256msg1_epu32 a_msg0 a_msg1;
         b_msg0 = sha256msg1_epu32 b_msg0 b_msg1;
         (a_state0, a_state1, b_state0, b_state1) =
           x86_round4_msg2 a_msg2 b_msg2 24 (a_state0, a_state1, b_state0, b_state1);
         (a_msg3, b_msg3) = x86_msg2_pair a_msg3 b_msg3 a_msg1 b_msg1 a_msg2 b_msg2;
         a_msg1 = sha256msg1_epu32 a_msg1 a_msg2;
         b_msg1 = sha256msg1_epu32 b_msg1 b_msg2;
         (a_state0, a_state1, b_state0, b_state1) =
           x86_round4_msg2 a_msg3 b_msg3 28 (a_state0, a_state1, b_state0, b_state1);
         (a_msg0, b_msg0) = x86_msg2_pair a_msg0 b_msg0 a_msg2 b_msg2 a_msg3 b_msg3;
         a_msg2 = sha256msg1_epu32 a_msg2 a_msg3;
         b_msg2 = sha256msg1_epu32 b_msg2 b_msg3;
         (a_state0, a_state1, b_state0, b_state1) =
           x86_round4_msg2 a_msg0 b_msg0 32 (a_state0, a_state1, b_state0, b_state1);
         (a_msg1, b_msg1) = x86_msg2_pair a_msg1 b_msg1 a_msg3 b_msg3 a_msg0 b_msg0;
         a_msg3 = sha256msg1_epu32 a_msg3 a_msg0;
         b_msg3 = sha256msg1_epu32 b_msg3 b_msg0;
         (a_state0, a_state1, b_state0, b_state1) =
           x86_round4_msg2 a_msg1 b_msg1 36 (a_state0, a_state1, b_state0, b_state1);
         (a_msg2, b_msg2) = x86_msg2_pair a_msg2 b_msg2 a_msg0 b_msg0 a_msg1 b_msg1;
         a_msg0 = sha256msg1_epu32 a_msg0 a_msg1;
         b_msg0 = sha256msg1_epu32 b_msg0 b_msg1;
         (a_state0, a_state1, b_state0, b_state1) =
           x86_round4_msg2 a_msg2 b_msg2 40 (a_state0, a_state1, b_state0, b_state1);
         (a_msg3, b_msg3) = x86_msg2_pair a_msg3 b_msg3 a_msg1 b_msg1 a_msg2 b_msg2;
         a_msg1 = sha256msg1_epu32 a_msg1 a_msg2;
         b_msg1 = sha256msg1_epu32 b_msg1 b_msg2;
         (a_state0, a_state1, b_state0, b_state1) =
           x86_round4_msg2 a_msg3 b_msg3 44 (a_state0, a_state1, b_state0, b_state1);
         (a_msg0, b_msg0) = x86_msg2_pair a_msg0 b_msg0 a_msg2 b_msg2 a_msg3 b_msg3;
         a_msg2 = sha256msg1_epu32 a_msg2 a_msg3;
         b_msg2 = sha256msg1_epu32 b_msg2 b_msg3;
         (a_state0, a_state1, b_state0, b_state1) =
           x86_round4_msg2 a_msg0 b_msg0 48 (a_state0, a_state1, b_state0, b_state1);
         (a_msg1, b_msg1) = x86_msg2_pair a_msg1 b_msg1 a_msg3 b_msg3 a_msg0 b_msg0;
         a_msg3 = sha256msg1_epu32 a_msg3 a_msg0;
         b_msg3 = sha256msg1_epu32 b_msg3 b_msg0;
         (a_state0, a_state1, b_state0, b_state1) =
           x86_round4_msg2 a_msg1 b_msg1 52 (a_state0, a_state1, b_state0, b_state1);
         (a_msg2, b_msg2) = x86_msg2_pair a_msg2 b_msg2 a_msg0 b_msg0 a_msg1 b_msg1;
         (a_state0, a_state1, b_state0, b_state1) =
           x86_round4_msg2 a_msg2 b_msg2 56 (a_state0, a_state1, b_state0, b_state1);
         (a_msg3, b_msg3) = x86_msg2_pair a_msg3 b_msg3 a_msg1 b_msg1 a_msg2 b_msg2;
         (a_state0, a_state1, b_state0, b_state1) =
           x86_round4_msg2 a_msg3 b_msg3 60 (a_state0, a_state1, b_state0, b_state1);
         a_state0 = add_epi32 a_state0 a_abef_save;
         a_state1 = add_epi32 a_state1 a_cdgh_save;
         b_state0 = add_epi32 b_state0 b_abef_save;
         b_state1 = add_epi32 b_state1 b_cdgh_save
     in (sha256_x86_store_state_vec state_a a_state0 a_state1,
         sha256_x86_store_state_vec state_b b_state0 b_state1))"

section \<open>Hashing and scanning\<close>

definition sha256d_hash_tail_words_x86_raw :: "'ctx sha256_midstate_t \<Rightarrow> u32 list \<Rightarrow> u32 list" where
  "sha256d_hash_tail_words_x86_raw state tail_words =
    (let first_state = fast_state state;
         first_state = sha256_x86_compress_vec first_state
           (make_u32x4 (tail_words ! 0) (tail_words ! 1) (tail_words ! 2) (tail_words ! 3))
           (make_u32x4 0x80000000 0 0 0)
           setzero_si128
           (make_u32x4 0 0 0 (80 * 8));
         second_state = k_sha256_initial_state;
         second_state = sha256_x86_compress_vec second_state
           (make_u32x4 (first_state ! 0) (first_state ! 1) (first_state ! 2) (first_state ! 3))
           (make_u32x4 (first_state ! 4) (first_state ! 5) (first_state ! 6) (first_state ! 7))
           (make_u32x4 0x80000000 0 0 0)
           (make_u32x4 0 0 0 (32 * 8))
     in map (\<lambda>i. second_state ! i) [0..<8])"

definition sha256d_hash_nonce_pair_x86_raw ::
  "'ctx sha256_midstate_t \<Rightarrow> u32 \<Rightarrow> u32 \<Rightarrow> u32 \<Rightarrow> u32 \<Rightarrow> u32 \<Rightarrow> u32 list \<times> u32 list" where
  "sha256d_hash_nonce_pair_x86_raw state tail0 tail1 tail2 nonce_a nonce_b =
    (let first_a = fast_state state;
         first_b = fast_state state;
         (first_a, first_b) = sha256_x86_compress_vec2 first_a first_b
           (make_u32x4 tail0 tail1 tail2 (bswap32 nonce_a))
           (make_u32x4 0x80000000 0 0 0)
           setzero_si128
           (make_u32x4 0 0 0 (80 * 8))
           (make_u32x4 tail0 tail1 tail2 (bswap32 nonce_b))
           (make_u32x4 0x80000000 0 0 0)
           setzero_si128
           (make_u32x4 0 0 0 (80 * 8));
         second_a = k_sha256_initial_state;
         second_b = k_sha256_initial_state;
         (second_a, second_b) = sha256_x86_compress_vec2 second_a second_b
           (make_u32x4 (first_a ! 0) (first_a ! 1) (first_a ! 2) (first_a ! 3))
           (make_u32x4 (first_a ! 4) (first_a ! 5) (first_a ! 6) (first_a ! 7))
           (make_u32x4 0x80000000 0 0 0)
           (make_u32x4 0 0 0 (32 * 8))
           (make_u32x4 (first_b ! 0) (first_b ! 1) (first_b ! 2) (first_b ! 3))
           (make_u32x4 (first_b ! 4) (first_b ! 5) (first_b ! 6) (first_b ! 7))
           (make_u32x4 0x80000000 0 0 0)
           (make_u32x4 0 0 0 (32 * 8))
     in (map (\<lambda>i. second_a ! i) [0..<8], map (\<lambda>i. second_b ! i) [0..<8]))"

definition sha256d_80_midstate_hash_tail_words_x86_sha_ni ::
  "'ctx sha256_midstate_t \<Rightarrow> u32 list \<Rightarrow> u32 list" where
  "sha256d_80_midstate_hash_tail_words_x86_sha_ni state tail_words =
    sha256d_hash_tail_words_x86_raw state tail_words"

text \<open>One pass of the loop on pairs: the counter and the state behind \<open>opaque\<close>.\<close>

definition x86_pair_step ::
  "'ctx sha256_midstate_t \<Rightarrow> u32 list \<Rightarrow> u32 list \<Rightarrow> u32 \<Rightarrow> 'o scan_match_func option \<Rightarrow> u32 \<times> 'o \<Rightarrow> u32 \<times> 'o"
  where
  "x86_pair_step state tail_words target_words start_nonce on_match = (\<lambda>(i, opaque).
    let nonce_a = start_nonce + i;
        nonce_b = nonce_a + 1;
        (hash_words_a, hash_words_b) = sha256d_hash_nonce_pair_x86_raw state
          (tail_words ! 0) (tail_words ! 1) (tail_words ! 2) nonce_a nonce_b;
        opaque = scan_report on_match target_words hash_words_a nonce_a opaque;
        opaque = scan_report on_match target_words hash_words_b nonce_b opaque
    in (i + 2, opaque))"

definition sha256d_scan_nonce_range_x86_sha_ni ::
  "'ctx sha256_midstate_t \<Rightarrow> u32 list \<Rightarrow> u32 list \<Rightarrow> u32 \<Rightarrow> u32 \<Rightarrow> 'o scan_match_func option \<Rightarrow> 'o \<Rightarrow> 'o" where
  "sha256d_scan_nonce_range_x86_sha_ni state base_tail_words target_words start_nonce nonce_count on_match opaque =
    (let tail_words = (local_array 4)[0 := base_tail_words ! 0, 1 := base_tail_words ! 1, 2 := base_tail_words ! 2];
         paired_count = nonce_count AND NOT 1;
         (i, opaque) = while (\<lambda>(i, opaque). i < paired_count)
           (x86_pair_step state tail_words target_words start_nonce on_match) (0, opaque)
     in if i < nonce_count then
          let nonce = start_nonce + i;
              tail_words = tail_words[3 := bswap32 nonce];
              hash_words_a = sha256d_hash_tail_words_x86_raw state tail_words
          in scan_report on_match target_words hash_words_a nonce opaque
        else opaque)"

section \<open>The vector code computes the standard's compression\<close>

text \<open>The partial sums \<open>sha256msg1\<close> leaves of four schedule words, and the two halves of the working
  variables as the instructions want them.\<close>

definition part_vec :: "u32 list \<Rightarrow> nat \<Rightarrow> m128i" where
  "part_vec M i = sha256msg1_epu32 (sched_vec M i) (sched_vec M (i + 4))"

fun abef :: "wvars \<Rightarrow> m128i" where
  "abef (a, b, c, d, e, f, g, h) = (f, e, b, a)"

fun cdgh :: "wvars \<Rightarrow> m128i" where
  "cdgh (a, b, c, d, e, f, g, h) = (h, g, d, c)"

lemma msg1_sched_vec: "j = i + 4 \<Longrightarrow> sha256msg1_epu32 (sched_vec M i) (sched_vec M j) = part_vec M i"
  by (simp add: part_vec_def)

lemma x86_msg2_sched_vec:
  assumes "j = i + 8" "k = i + 12"
  shows "x86_msg2 (part_vec M i) (sched_vec M j) (sched_vec M k) = sched_vec M (i + 16)"
  by (simp add: x86_msg2_def part_vec_def sched_vec_def assms alignr_epi8_def of_lanes_def Let_def
        add.commute [of i] W_next4) (simp add: ac_simps)

lemma x86_round4_rounds:
  "x86_round4_msg (sched_vec M i) i (abef (rounds M 0 i v), cdgh (rounds M 0 i v)) =
   (abef (rounds M 0 (i + 4) v), cdgh (rounds M 0 (i + 4) v))"
proof -
  obtain a b c d e f g h where v: "rounds M 0 i v = (a, b, c, d, e, f, g, h)"
    by (metis list_of_wvars.cases)
  show ?thesis
    by (simp add: rounds_next4 v Let_def sched_vec_def make_k_def set_epi32_def shuffle_epi32_def
        of_lanes_def k_sha256_round_constants_fips) (simp add: ac_simps)
qed

lemmas x86_round4_first = x86_round4_rounds [of _ 0, simplified rounds_refl add_0]

lemma half_lanes: "x AND 0xffff OR x AND 0xffff0000 = (x :: u32)"
proof -
  have "x AND 0xffff OR x AND 0xffff0000 = x AND (0xffff OR 0xffff0000)"
    by (rule bit.conj_disj_distrib [symmetric])
  also have "0xffff OR 0xffff0000 = (- 1 :: u32)" by simp
  finally show ?thesis by simp
qed

lemma load_state_vec:
  "sha256_x86_load_state_vec s = (abef (wvars_of s), cdgh (wvars_of s))"
  by (simp add: sha256_x86_load_state_vec_def Let_def loadu_si128_def shuffle_epi32_def of_lanes_def
     alignr_epi8_def blend_epi16_def wvars_of_def half_lanes numeral_2_eq_2 [symmetric])

lemma store_state_vec:
  assumes "length s = 8"
  shows "sha256_x86_store_state_vec s (add_epi32 (abef v) (abef (wvars_of s)))
           (add_epi32 (cdgh v) (cdgh (wvars_of s))) = map2 (+) s (list_of_wvars v)"
  using assms
  by (cases v rule: list_of_wvars.cases)
     (auto simp: length_eq_8_iff wvars_of_def sha256_x86_store_state_vec_def Let_def storeu_si128_def
        shuffle_epi32_def of_lanes_def alignr_epi8_def blend_epi16_def half_lanes)

lemmas x86_step_simps = msg1_sched_vec x86_msg2_sched_vec x86_round4_first x86_round4_rounds

lemma x86_compress_vec_compress:
  assumes "length s = 8"
  shows "sha256_x86_compress_vec s (sched_vec M 0) (sched_vec M 4) (sched_vec M 8) (sched_vec M 12) =
         compress s M"
  unfolding sha256_x86_compress_vec_def load_state_vec
  by (simp add: x86_step_simps store_state_vec [OF assms] Let_def compress_def del: x86_round4_msg.simps)

lemma x86_round4_msg2_pair:
  "x86_round4_msg2 ma mb off (a0, a1, b0, b1) =
   (let (a0, a1) = x86_round4_msg ma off (a0, a1); (b0, b1) = x86_round4_msg mb off (b0, b1)
    in (a0, a1, b0, b1))"
  by (simp add: Let_def)

lemma x86_msg2_pair_eq: "x86_msg2_pair ad bd ap bp al bl = (x86_msg2 ad ap al, x86_msg2 bd bp bl)"
  by (simp add: x86_msg2_pair_def x86_msg2_def Let_def)

lemma x86_compress_vec2_compress:
  assumes "length s = 8" "length s' = 8"
  shows "sha256_x86_compress_vec2 s s'
           (sched_vec M 0) (sched_vec M 4) (sched_vec M 8) (sched_vec M 12)
           (sched_vec N 0) (sched_vec N 4) (sched_vec N 8) (sched_vec N 12) =
         (compress s M, compress s' N)"
  unfolding sha256_x86_compress_vec2_def load_state_vec x86_round4_msg2_pair x86_msg2_pair_eq
  by (simp add: x86_step_simps store_state_vec [OF assms(1)] store_state_vec [OF assms(2)] Let_def
      compress_def del: x86_round4_msg.simps)

section \<open>Hashing\<close>

lemmas x86_vec_defs = make_u32x4_def set_epi32_def setzero_si128_def

lemma x86_first_block:
  assumes "length s = 8" "length tail = 4"
  shows "sha256_x86_compress_vec s (make_u32x4 (tail ! 0) (tail ! 1) (tail ! 2) (tail ! 3))
           (make_u32x4 0x80000000 0 0 0) setzero_si128 (make_u32x4 0 0 0 (80 * 8)) =
         compress s (tail @ pad80_words)"
  using x86_compress_vec_compress [OF assms(1), of "tail @ pad80_words"]
  by (simp add: first_message_vecs [OF assms(2)] x86_vec_defs)

lemma x86_second_block:
  assumes "length s = 8"
  shows "sha256_x86_compress_vec k_sha256_initial_state
           (make_u32x4 (s ! 0) (s ! 1) (s ! 2) (s ! 3)) (make_u32x4 (s ! 4) (s ! 5) (s ! 6) (s ! 7))
           (make_u32x4 0x80000000 0 0 0) (make_u32x4 0 0 0 (32 * 8)) =
         compress fips_H0 (s @ pad32_words)"
  using x86_compress_vec_compress [OF length_fips_H0, of "s @ pad32_words"]
  by (simp add: second_message_vecs [OF assms] x86_vec_defs k_sha256_initial_state_fips)

lemma x86_tail_hash:
  assumes "length tail = 4" "length (fast_state st) = 8"
  shows "sha256d_hash_tail_words_x86_raw st tail = tail_hash (fast_state st) tail"
  unfolding sha256d_hash_tail_words_x86_raw_def Let_def x86_first_block [OF assms(2,1)]
    x86_second_block [OF length_compress [OF assms(2)]]
  by (simp add: tail_hash_def map_nth_8)

lemma x86_first_blocks:
  assumes "length s = 8"
  shows "sha256_x86_compress_vec2 s s
           (make_u32x4 t0 t1 t2 na) (make_u32x4 0x80000000 0 0 0) setzero_si128 (make_u32x4 0 0 0 (80 * 8))
           (make_u32x4 t0 t1 t2 nb) (make_u32x4 0x80000000 0 0 0) setzero_si128 (make_u32x4 0 0 0 (80 * 8)) =
         (compress s ([t0, t1, t2, na] @ pad80_words), compress s ([t0, t1, t2, nb] @ pad80_words))"
proof -
  have l: "length [t0, t1, t2, n] = 4" for n by simp
  show ?thesis
    using x86_compress_vec2_compress [OF assms assms, of "[t0, t1, t2, na] @ pad80_words"
        "[t0, t1, t2, nb] @ pad80_words"]
    unfolding first_message_vecs [OF l] by (simp add: x86_vec_defs)
qed

lemma x86_second_blocks:
  assumes "length s = 8" "length s' = 8"
  shows "sha256_x86_compress_vec2 k_sha256_initial_state k_sha256_initial_state
           (make_u32x4 (s ! 0) (s ! 1) (s ! 2) (s ! 3)) (make_u32x4 (s ! 4) (s ! 5) (s ! 6) (s ! 7))
           (make_u32x4 0x80000000 0 0 0) (make_u32x4 0 0 0 (32 * 8))
           (make_u32x4 (s' ! 0) (s' ! 1) (s' ! 2) (s' ! 3)) (make_u32x4 (s' ! 4) (s' ! 5) (s' ! 6) (s' ! 7))
           (make_u32x4 0x80000000 0 0 0) (make_u32x4 0 0 0 (32 * 8)) =
         (compress fips_H0 (s @ pad32_words), compress fips_H0 (s' @ pad32_words))"
  using x86_compress_vec2_compress [OF length_fips_H0 length_fips_H0, of "s @ pad32_words" "s' @ pad32_words"]
  by (simp add: second_message_vecs [OF assms(1)] second_message_vecs [OF assms(2)] x86_vec_defs
      k_sha256_initial_state_fips)

lemma x86_pair_tail_hash:
  assumes "length (fast_state st) = 8"
  shows "sha256d_hash_nonce_pair_x86_raw st t0 t1 t2 na nb =
    (tail_hash (fast_state st) [t0, t1, t2, bswap32 na], tail_hash (fast_state st) [t0, t1, t2, bswap32 nb])"
  unfolding sha256d_hash_nonce_pair_x86_raw_def Let_def x86_first_blocks [OF assms] prod.case
    x86_second_blocks [OF length_compress [OF assms] length_compress [OF assms]]
  by (simp add: tail_hash_def map_nth_8)

section \<open>The paired scan\<close>

lemma x86_pair_step_reports:
  assumes "length (fast_state st) = 8" "length tail = 4"
  shows "x86_pair_step st ((local_array 4)[0 := tail ! 0, 1 := tail ! 1, 2 := tail ! 2]) target start on_match
           (of_nat (2 * j), q) =
         (of_nat (2 * Suc j),
          report_index (fast_state st) tail target start on_match (2 * j + 1)
            (report_index (fast_state st) tail target start on_match (2 * j) q))"
  using assms(2)
  by (auto simp: x86_pair_step_def Let_def report_index_def x86_pair_tail_hash [OF assms(1)]
      length_eq_4_iff local_array_def literal_arrays ac_simps)

lemma x86_scan_generic:
  assumes "length (fast_state st) = 8" "length tail = 4"
  shows "sha256d_scan_nonce_range_x86_sha_ni st tail target start n on_match q =
         sha256d_scan_nonce_range_generic sha256d_80_midstate_hash_tail_words_x86_sha_ni st tail target
           start n on_match q"
proof -
  let ?rep = "report_index (fast_state st) tail target start on_match"
  let ?tail' = "(local_array 4)[0 := tail ! 0, 1 := tail ! 1, 2 := tail ! 2]"
  have t: "?tail'[3 := x] = tail[3 := x]" for x
    using assms(2) by (auto simp: length_eq_4_iff local_array_def literal_arrays)
  have "sha256d_scan_nonce_range_x86_sha_ni st tail target start n on_match q =
    (case while (\<lambda>(i, q). i < n AND NOT 1) (x86_pair_step st ?tail' target start on_match) (0, q) of
       (i, q) \<Rightarrow> if i < n then ?rep (unat i) q else q)"
    unfolding sha256d_scan_nonce_range_x86_sha_ni_def Let_def t
    using assms by (auto simp: report_index_def x86_tail_hash split: prod.splits)
  also have "\<dots> = foldl (\<lambda>q k. ?rep k q) q [0..<unat n]"
    by (rule paired_scan [OF x86_pair_step_reports [OF assms] refl])
  finally show ?thesis
    using assms by (simp add: generic_scan_report_index [where mid = "fast_state st"]
      sha256d_80_midstate_hash_tail_words_x86_sha_ni_def x86_tail_hash)
qed

interpretation x86: nonce_scanner sha256d_80_midstate_hash_tail_words_x86_sha_ni "prepared_midstate ssl"
    sha256d_scan_nonce_range_x86_sha_ni for ssl
  by unfold_locales
     (auto simp: prepared_midstate_def sha256d_80_midstate_hash_tail_words_x86_sha_ni_def x86_tail_hash
        midstate_prepare_fast_state x86_scan_generic)

end
