(* ===== verification/Sha256d_Arm.thy ===== *)
theory Sha256d_Arm
  imports Sha256d_Simd
begin

text \<open>
  The ARMv8 SHA-2 path, \<open>src/src/sha256d_arm_sha2.c\<close>: the NEON intrinsics as Arm's manual defines
  them on four 32-bit lanes, the compression of the second header block with its precomputed sums of
  schedule word and round constant, the second hash, their two-message versions and the paired scan.
  The precomputed tables are shown to be the right sums, and the backend keeps the
  \<open>nonce_scanner\<close> contract.
\<close>

section \<open>Tables\<close>

definition k_first_tail_wk1 :: "u32 list" where
  "k_first_tail_wk1 = [0xb956c25b, 0x59f111f1, 0x923f82a4, 0xab1c5ed5]"

definition k_first_tail_wk2 :: "u32 list" where
  "k_first_tail_wk2 = [0xd807aa98, 0x12835b01, 0x243185be, 0x550c7dc3]"

definition k_first_tail_wk3 :: "u32 list" where
  "k_first_tail_wk3 = [0x72be5d74, 0x80deb1fe, 0x9bdc06a7, 0xc19bf3f4]"

definition k_second_hash_wk2 :: "u32 list" where
  "k_second_hash_wk2 = [0x5807aa98, 0x12835b01, 0x243185be, 0x550c7dc3]"

definition k_second_hash_wk3 :: "u32 list" where
  "k_second_hash_wk3 = [0x72be5d74, 0x80deb1fe, 0x9bdc06a7, 0xc19bf274]"

section \<open>Intrinsics\<close>

definition vld1q_u32 :: "u32 list \<Rightarrow> nat \<Rightarrow> u32x4" where
  "vld1q_u32 xs p = (xs ! p, xs ! (p + 1), xs ! (p + 2), xs ! (p + 3))"

definition vst1q_u32 :: "u32 list \<Rightarrow> nat \<Rightarrow> u32x4 \<Rightarrow> u32 list" where
  "vst1q_u32 xs p v =
    xs[p := lanes v ! 0, p + 1 := lanes v ! 1, p + 2 := lanes v ! 2, p + 3 := lanes v ! 3]"

fun vaddq_u32 :: "u32x4 \<Rightarrow> u32x4 \<Rightarrow> u32x4" where
  "vaddq_u32 (a0, a1, a2, a3) (b0, b1, b2, b3) = (a0 + b0, a1 + b1, a2 + b2, a3 + b3)"

text \<open>One step of \<open>SHA256hash(X, Y, W, part1)\<close>: update the top lanes, then rotate \<open>Y:X\<close> by one lane.\<close>

fun sha256hash_step :: "u32x4 \<times> u32x4 \<Rightarrow> u32 \<Rightarrow> u32x4 \<times> u32x4" where
  "sha256hash_step ((x0, x1, x2, x3), (y0, y1, y2, y3)) w =
    (let t = y3 + Sigma1 y0 + Ch y0 y1 y2 + w;
         x3' = t + x3;
         y3' = t + Sigma0 x0 + Maj x0 x1 x2
     in ((y3', x0, x1, x2), (x3', y0, y1, y2)))"

definition vsha256hq_u32 :: "u32x4 \<Rightarrow> u32x4 \<Rightarrow> u32x4 \<Rightarrow> u32x4" where
  "vsha256hq_u32 hash_abcd hash_efgh wk = fst (foldl sha256hash_step (hash_abcd, hash_efgh) (lanes wk))"

definition vsha256h2q_u32 :: "u32x4 \<Rightarrow> u32x4 \<Rightarrow> u32x4 \<Rightarrow> u32x4" where
  "vsha256h2q_u32 hash_efgh hash_abcd wk = snd (foldl sha256hash_step (hash_abcd, hash_efgh) (lanes wk))"

fun vsha256su0q_u32 :: "u32x4 \<Rightarrow> u32x4 \<Rightarrow> u32x4" where
  "vsha256su0q_u32 (w0, w1, w2, w3) (w4, _, _, _) =
    (sigma0 w1 + w0, sigma0 w2 + w1, sigma0 w3 + w2, sigma0 w4 + w3)"

fun vsha256su1q_u32 :: "u32x4 \<Rightarrow> u32x4 \<Rightarrow> u32x4 \<Rightarrow> u32x4" where
  "vsha256su1q_u32 (t0, t1, t2, t3) (_, w9, w10, w11) (w12, _, w14, w15) =
    (let r0 = sigma1 w14 + t0 + w9; r1 = sigma1 w15 + t1 + w10
     in (r0, r1, sigma1 r0 + t2 + w11, sigma1 r1 + t3 + w12))"

section \<open>Compression\<close>

definition make_u32x4 :: "u32 \<Rightarrow> u32 \<Rightarrow> u32 \<Rightarrow> u32 \<Rightarrow> u32x4" where
  "make_u32x4 a b c d = (a, b, c, d)"

text \<open>The macros \<open>BTC_SHA256_ARM_ROUND4\<close> and \<open>BTC_SHA256_ARM_ROUND4_WK\<close>.\<close>

fun arm_round4_wk :: "u32x4 \<times> u32x4 \<Rightarrow> u32x4 \<Rightarrow> u32x4 \<times> u32x4" where
  "arm_round4_wk (abcd, efgh) wk_vec =
    (let abcd_prev = abcd;
         abcd = vsha256hq_u32 abcd_prev efgh wk_vec;
         efgh = vsha256h2q_u32 efgh abcd_prev wk_vec
     in (abcd, efgh))"

fun arm_round4 :: "u32x4 \<times> u32x4 \<Rightarrow> u32x4 \<Rightarrow> nat \<Rightarrow> u32x4 \<times> u32x4" where
  "arm_round4 (abcd, efgh) schedule offset =
    (let wk = vaddq_u32 schedule (vld1q_u32 k_sha256_round_constants offset);
         abcd_prev = abcd;
         abcd = vsha256hq_u32 abcd_prev efgh wk;
         efgh = vsha256h2q_u32 efgh abcd_prev wk
     in (abcd, efgh))"

definition sha256_arm_compress_btc_tail :: "u32x4 \<Rightarrow> u32x4 \<Rightarrow> u32x4 \<Rightarrow> u32x4 \<times> u32x4" where
  "sha256_arm_compress_btc_tail start_abcd start_efgh sched0 =
    (let abcd = start_abcd;
         efgh = start_efgh;
         sched1 = make_u32x4 0x80000000 0 0 0;
         sched2 = make_u32x4 0 0 0 0;
         sched3 = make_u32x4 0 0 0 (80 * 8);
         abcd_orig = abcd;
         efgh_orig = efgh;
         (abcd, efgh) = arm_round4 (abcd, efgh) sched0 0;
         (abcd, efgh) = arm_round4_wk (abcd, efgh) (vld1q_u32 k_first_tail_wk1 0);
         (abcd, efgh) = arm_round4_wk (abcd, efgh) (vld1q_u32 k_first_tail_wk2 0);
         (abcd, efgh) = arm_round4_wk (abcd, efgh) (vld1q_u32 k_first_tail_wk3 0);
         sched0 = vsha256su1q_u32 (vsha256su0q_u32 sched0 sched1) sched2 sched3;
         (abcd, efgh) = arm_round4 (abcd, efgh) sched0 16;
         sched1 = vsha256su1q_u32 (vsha256su0q_u32 sched1 sched2) sched3 sched0;
         (abcd, efgh) = arm_round4 (abcd, efgh) sched1 20;
         sched2 = vsha256su1q_u32 (vsha256su0q_u32 sched2 sched3) sched0 sched1;
         (abcd, efgh) = arm_round4 (abcd, efgh) sched2 24;
         sched3 = vsha256su1q_u32 (vsha256su0q_u32 sched3 sched0) sched1 sched2;
         (abcd, efgh) = arm_round4 (abcd, efgh) sched3 28;
         sched0 = vsha256su1q_u32 (vsha256su0q_u32 sched0 sched1) sched2 sched3;
         (abcd, efgh) = arm_round4 (abcd, efgh) sched0 32;
         sched1 = vsha256su1q_u32 (vsha256su0q_u32 sched1 sched2) sched3 sched0;
         (abcd, efgh) = arm_round4 (abcd, efgh) sched1 36;
         sched2 = vsha256su1q_u32 (vsha256su0q_u32 sched2 sched3) sched0 sched1;
         (abcd, efgh) = arm_round4 (abcd, efgh) sched2 40;
         sched3 = vsha256su1q_u32 (vsha256su0q_u32 sched3 sched0) sched1 sched2;
         (abcd, efgh) = arm_round4 (abcd, efgh) sched3 44;
         sched0 = vsha256su1q_u32 (vsha256su0q_u32 sched0 sched1) sched2 sched3;
         (abcd, efgh) = arm_round4 (abcd, efgh) sched0 48;
         sched1 = vsha256su1q_u32 (vsha256su0q_u32 sched1 sched2) sched3 sched0;
         (abcd, efgh) = arm_round4 (abcd, efgh) sched1 52;
         sched2 = vsha256su1q_u32 (vsha256su0q_u32 sched2 sched3) sched0 sched1;
         (abcd, efgh) = arm_round4 (abcd, efgh) sched2 56;
         sched3 = vsha256su1q_u32 (vsha256su0q_u32 sched3 sched0) sched1 sched2;
         (abcd, efgh) = arm_round4 (abcd, efgh) sched3 60
     in (vaddq_u32 abcd abcd_orig, vaddq_u32 efgh efgh_orig))"

definition sha256_arm_compress_second_hash :: "u32x4 \<Rightarrow> u32x4 \<Rightarrow> u32x4 \<times> u32x4" where
  "sha256_arm_compress_second_hash sched0 sched1 =
    (let abcd = make_u32x4 (k_sha256_initial_state ! 0) (k_sha256_initial_state ! 1)
                           (k_sha256_initial_state ! 2) (k_sha256_initial_state ! 3);
         efgh = make_u32x4 (k_sha256_initial_state ! 4) (k_sha256_initial_state ! 5)
                           (k_sha256_initial_state ! 6) (k_sha256_initial_state ! 7);
         sched2 = make_u32x4 0x80000000 0 0 0;
         sched3 = make_u32x4 0 0 0 (32 * 8);
         abcd_orig = abcd;
         efgh_orig = efgh;
         (abcd, efgh) = arm_round4 (abcd, efgh) sched0 0;
         (abcd, efgh) = arm_round4 (abcd, efgh) sched1 4;
         (abcd, efgh) = arm_round4_wk (abcd, efgh) (vld1q_u32 k_second_hash_wk2 0);
         (abcd, efgh) = arm_round4_wk (abcd, efgh) (vld1q_u32 k_second_hash_wk3 0);
         sched0 = vsha256su1q_u32 (vsha256su0q_u32 sched0 sched1) sched2 sched3;
         (abcd, efgh) = arm_round4 (abcd, efgh) sched0 16;
         sched1 = vsha256su1q_u32 (vsha256su0q_u32 sched1 sched2) sched3 sched0;
         (abcd, efgh) = arm_round4 (abcd, efgh) sched1 20;
         sched2 = vsha256su1q_u32 (vsha256su0q_u32 sched2 sched3) sched0 sched1;
         (abcd, efgh) = arm_round4 (abcd, efgh) sched2 24;
         sched3 = vsha256su1q_u32 (vsha256su0q_u32 sched3 sched0) sched1 sched2;
         (abcd, efgh) = arm_round4 (abcd, efgh) sched3 28;
         sched0 = vsha256su1q_u32 (vsha256su0q_u32 sched0 sched1) sched2 sched3;
         (abcd, efgh) = arm_round4 (abcd, efgh) sched0 32;
         sched1 = vsha256su1q_u32 (vsha256su0q_u32 sched1 sched2) sched3 sched0;
         (abcd, efgh) = arm_round4 (abcd, efgh) sched1 36;
         sched2 = vsha256su1q_u32 (vsha256su0q_u32 sched2 sched3) sched0 sched1;
         (abcd, efgh) = arm_round4 (abcd, efgh) sched2 40;
         sched3 = vsha256su1q_u32 (vsha256su0q_u32 sched3 sched0) sched1 sched2;
         (abcd, efgh) = arm_round4 (abcd, efgh) sched3 44;
         sched0 = vsha256su1q_u32 (vsha256su0q_u32 sched0 sched1) sched2 sched3;
         (abcd, efgh) = arm_round4 (abcd, efgh) sched0 48;
         sched1 = vsha256su1q_u32 (vsha256su0q_u32 sched1 sched2) sched3 sched0;
         (abcd, efgh) = arm_round4 (abcd, efgh) sched1 52;
         sched2 = vsha256su1q_u32 (vsha256su0q_u32 sched2 sched3) sched0 sched1;
         (abcd, efgh) = arm_round4 (abcd, efgh) sched2 56;
         sched3 = vsha256su1q_u32 (vsha256su0q_u32 sched3 sched0) sched1 sched2;
         (abcd, efgh) = arm_round4 (abcd, efgh) sched3 60
     in (vaddq_u32 abcd abcd_orig, vaddq_u32 efgh efgh_orig))"

text \<open>The two-message macros \<open>BTC_SHA256_ARM_ROUND4_PAIR\<close> and \<open>BTC_SHA256_ARM_ROUND4_WK_PAIR\<close>.\<close>

type_synonym arm_pair = "u32x4 \<times> u32x4 \<times> u32x4 \<times> u32x4"

fun arm_round4_pair :: "arm_pair \<Rightarrow> u32x4 \<Rightarrow> u32x4 \<Rightarrow> nat \<Rightarrow> arm_pair" where
  "arm_round4_pair (a_abcd, a_efgh, b_abcd, b_efgh) a_schedule b_schedule offset =
    (let k_vec = vld1q_u32 k_sha256_round_constants offset;
         a_wk = vaddq_u32 a_schedule k_vec;
         b_wk = vaddq_u32 b_schedule k_vec;
         a_abcd_prev = a_abcd;
         b_abcd_prev = b_abcd;
         a_abcd = vsha256hq_u32 a_abcd_prev a_efgh a_wk;
         b_abcd = vsha256hq_u32 b_abcd_prev b_efgh b_wk;
         a_efgh = vsha256h2q_u32 a_efgh a_abcd_prev a_wk;
         b_efgh = vsha256h2q_u32 b_efgh b_abcd_prev b_wk
     in (a_abcd, a_efgh, b_abcd, b_efgh))"

fun arm_round4_wk_pair :: "arm_pair \<Rightarrow> u32x4 \<Rightarrow> arm_pair" where
  "arm_round4_wk_pair (a_abcd, a_efgh, b_abcd, b_efgh) wk =
    (let a_abcd_prev = a_abcd;
         b_abcd_prev = b_abcd;
         a_abcd = vsha256hq_u32 a_abcd_prev a_efgh wk;
         b_abcd = vsha256hq_u32 b_abcd_prev b_efgh wk;
         a_efgh = vsha256h2q_u32 a_efgh a_abcd_prev wk;
         b_efgh = vsha256h2q_u32 b_efgh b_abcd_prev wk
     in (a_abcd, a_efgh, b_abcd, b_efgh))"

definition sha256_arm_compress_btc_tail2 :: "u32x4 \<Rightarrow> u32x4 \<Rightarrow> u32x4 \<Rightarrow> u32x4 \<Rightarrow> arm_pair" where
  "sha256_arm_compress_btc_tail2 start_abcd start_efgh a_sched0 b_sched0 =
    (let a_abcd = start_abcd;
         a_efgh = start_efgh;
         b_abcd = start_abcd;
         b_efgh = start_efgh;
         a_sched1 = make_u32x4 0x80000000 0 0 0;
         a_sched2 = make_u32x4 0 0 0 0;
         a_sched3 = make_u32x4 0 0 0 (80 * 8);
         b_sched1 = a_sched1;
         b_sched2 = a_sched2;
         b_sched3 = a_sched3;
         (a_abcd, a_efgh, b_abcd, b_efgh) = arm_round4_pair (a_abcd, a_efgh, b_abcd, b_efgh) a_sched0 b_sched0 0;
         (a_abcd, a_efgh, b_abcd, b_efgh) =
           arm_round4_wk_pair (a_abcd, a_efgh, b_abcd, b_efgh) (vld1q_u32 k_first_tail_wk1 0);
         (a_abcd, a_efgh, b_abcd, b_efgh) =
           arm_round4_wk_pair (a_abcd, a_efgh, b_abcd, b_efgh) (vld1q_u32 k_first_tail_wk2 0);
         (a_abcd, a_efgh, b_abcd, b_efgh) =
           arm_round4_wk_pair (a_abcd, a_efgh, b_abcd, b_efgh) (vld1q_u32 k_first_tail_wk3 0);
         a_sched0 = vsha256su1q_u32 (vsha256su0q_u32 a_sched0 a_sched1) a_sched2 a_sched3;
         b_sched0 = vsha256su1q_u32 (vsha256su0q_u32 b_sched0 b_sched1) b_sched2 b_sched3;
         (a_abcd, a_efgh, b_abcd, b_efgh) =
           arm_round4_pair (a_abcd, a_efgh, b_abcd, b_efgh) a_sched0 b_sched0 16;
         a_sched1 = vsha256su1q_u32 (vsha256su0q_u32 a_sched1 a_sched2) a_sched3 a_sched0;
         b_sched1 = vsha256su1q_u32 (vsha256su0q_u32 b_sched1 b_sched2) b_sched3 b_sched0;
         (a_abcd, a_efgh, b_abcd, b_efgh) =
           arm_round4_pair (a_abcd, a_efgh, b_abcd, b_efgh) a_sched1 b_sched1 20;
         a_sched2 = vsha256su1q_u32 (vsha256su0q_u32 a_sched2 a_sched3) a_sched0 a_sched1;
         b_sched2 = vsha256su1q_u32 (vsha256su0q_u32 b_sched2 b_sched3) b_sched0 b_sched1;
         (a_abcd, a_efgh, b_abcd, b_efgh) =
           arm_round4_pair (a_abcd, a_efgh, b_abcd, b_efgh) a_sched2 b_sched2 24;
         a_sched3 = vsha256su1q_u32 (vsha256su0q_u32 a_sched3 a_sched0) a_sched1 a_sched2;
         b_sched3 = vsha256su1q_u32 (vsha256su0q_u32 b_sched3 b_sched0) b_sched1 b_sched2;
         (a_abcd, a_efgh, b_abcd, b_efgh) =
           arm_round4_pair (a_abcd, a_efgh, b_abcd, b_efgh) a_sched3 b_sched3 28;
         a_sched0 = vsha256su1q_u32 (vsha256su0q_u32 a_sched0 a_sched1) a_sched2 a_sched3;
         b_sched0 = vsha256su1q_u32 (vsha256su0q_u32 b_sched0 b_sched1) b_sched2 b_sched3;
         (a_abcd, a_efgh, b_abcd, b_efgh) =
           arm_round4_pair (a_abcd, a_efgh, b_abcd, b_efgh) a_sched0 b_sched0 32;
         a_sched1 = vsha256su1q_u32 (vsha256su0q_u32 a_sched1 a_sched2) a_sched3 a_sched0;
         b_sched1 = vsha256su1q_u32 (vsha256su0q_u32 b_sched1 b_sched2) b_sched3 b_sched0;
         (a_abcd, a_efgh, b_abcd, b_efgh) =
           arm_round4_pair (a_abcd, a_efgh, b_abcd, b_efgh) a_sched1 b_sched1 36;
         a_sched2 = vsha256su1q_u32 (vsha256su0q_u32 a_sched2 a_sched3) a_sched0 a_sched1;
         b_sched2 = vsha256su1q_u32 (vsha256su0q_u32 b_sched2 b_sched3) b_sched0 b_sched1;
         (a_abcd, a_efgh, b_abcd, b_efgh) =
           arm_round4_pair (a_abcd, a_efgh, b_abcd, b_efgh) a_sched2 b_sched2 40;
         a_sched3 = vsha256su1q_u32 (vsha256su0q_u32 a_sched3 a_sched0) a_sched1 a_sched2;
         b_sched3 = vsha256su1q_u32 (vsha256su0q_u32 b_sched3 b_sched0) b_sched1 b_sched2;
         (a_abcd, a_efgh, b_abcd, b_efgh) =
           arm_round4_pair (a_abcd, a_efgh, b_abcd, b_efgh) a_sched3 b_sched3 44;
         a_sched0 = vsha256su1q_u32 (vsha256su0q_u32 a_sched0 a_sched1) a_sched2 a_sched3;
         b_sched0 = vsha256su1q_u32 (vsha256su0q_u32 b_sched0 b_sched1) b_sched2 b_sched3;
         (a_abcd, a_efgh, b_abcd, b_efgh) =
           arm_round4_pair (a_abcd, a_efgh, b_abcd, b_efgh) a_sched0 b_sched0 48;
         a_sched1 = vsha256su1q_u32 (vsha256su0q_u32 a_sched1 a_sched2) a_sched3 a_sched0;
         b_sched1 = vsha256su1q_u32 (vsha256su0q_u32 b_sched1 b_sched2) b_sched3 b_sched0;
         (a_abcd, a_efgh, b_abcd, b_efgh) =
           arm_round4_pair (a_abcd, a_efgh, b_abcd, b_efgh) a_sched1 b_sched1 52;
         a_sched2 = vsha256su1q_u32 (vsha256su0q_u32 a_sched2 a_sched3) a_sched0 a_sched1;
         b_sched2 = vsha256su1q_u32 (vsha256su0q_u32 b_sched2 b_sched3) b_sched0 b_sched1;
         (a_abcd, a_efgh, b_abcd, b_efgh) =
           arm_round4_pair (a_abcd, a_efgh, b_abcd, b_efgh) a_sched2 b_sched2 56;
         a_sched3 = vsha256su1q_u32 (vsha256su0q_u32 a_sched3 a_sched0) a_sched1 a_sched2;
         b_sched3 = vsha256su1q_u32 (vsha256su0q_u32 b_sched3 b_sched0) b_sched1 b_sched2;
         (a_abcd, a_efgh, b_abcd, b_efgh) =
           arm_round4_pair (a_abcd, a_efgh, b_abcd, b_efgh) a_sched3 b_sched3 60
     in (vaddq_u32 a_abcd start_abcd, vaddq_u32 a_efgh start_efgh,
         vaddq_u32 b_abcd start_abcd, vaddq_u32 b_efgh start_efgh))"

definition sha256_arm_compress_second_hash2 :: "u32x4 \<Rightarrow> u32x4 \<Rightarrow> u32x4 \<Rightarrow> u32x4 \<Rightarrow> arm_pair" where
  "sha256_arm_compress_second_hash2 a_sched0 a_sched1 b_sched0 b_sched1 =
    (let initial_abcd = make_u32x4 (k_sha256_initial_state ! 0) (k_sha256_initial_state ! 1)
                                   (k_sha256_initial_state ! 2) (k_sha256_initial_state ! 3);
         initial_efgh = make_u32x4 (k_sha256_initial_state ! 4) (k_sha256_initial_state ! 5)
                                   (k_sha256_initial_state ! 6) (k_sha256_initial_state ! 7);
         a_abcd = initial_abcd;
         a_efgh = initial_efgh;
         b_abcd = initial_abcd;
         b_efgh = initial_efgh;
         a_sched2 = make_u32x4 0x80000000 0 0 0;
         a_sched3 = make_u32x4 0 0 0 (32 * 8);
         b_sched2 = a_sched2;
         b_sched3 = a_sched3;
         (a_abcd, a_efgh, b_abcd, b_efgh) = arm_round4_pair (a_abcd, a_efgh, b_abcd, b_efgh) a_sched0 b_sched0 0;
         (a_abcd, a_efgh, b_abcd, b_efgh) = arm_round4_pair (a_abcd, a_efgh, b_abcd, b_efgh) a_sched1 b_sched1 4;
         (a_abcd, a_efgh, b_abcd, b_efgh) =
           arm_round4_wk_pair (a_abcd, a_efgh, b_abcd, b_efgh) (vld1q_u32 k_second_hash_wk2 0);
         (a_abcd, a_efgh, b_abcd, b_efgh) =
           arm_round4_wk_pair (a_abcd, a_efgh, b_abcd, b_efgh) (vld1q_u32 k_second_hash_wk3 0);
         a_sched0 = vsha256su1q_u32 (vsha256su0q_u32 a_sched0 a_sched1) a_sched2 a_sched3;
         b_sched0 = vsha256su1q_u32 (vsha256su0q_u32 b_sched0 b_sched1) b_sched2 b_sched3;
         (a_abcd, a_efgh, b_abcd, b_efgh) =
           arm_round4_pair (a_abcd, a_efgh, b_abcd, b_efgh) a_sched0 b_sched0 16;
         a_sched1 = vsha256su1q_u32 (vsha256su0q_u32 a_sched1 a_sched2) a_sched3 a_sched0;
         b_sched1 = vsha256su1q_u32 (vsha256su0q_u32 b_sched1 b_sched2) b_sched3 b_sched0;
         (a_abcd, a_efgh, b_abcd, b_efgh) =
           arm_round4_pair (a_abcd, a_efgh, b_abcd, b_efgh) a_sched1 b_sched1 20;
         a_sched2 = vsha256su1q_u32 (vsha256su0q_u32 a_sched2 a_sched3) a_sched0 a_sched1;
         b_sched2 = vsha256su1q_u32 (vsha256su0q_u32 b_sched2 b_sched3) b_sched0 b_sched1;
         (a_abcd, a_efgh, b_abcd, b_efgh) =
           arm_round4_pair (a_abcd, a_efgh, b_abcd, b_efgh) a_sched2 b_sched2 24;
         a_sched3 = vsha256su1q_u32 (vsha256su0q_u32 a_sched3 a_sched0) a_sched1 a_sched2;
         b_sched3 = vsha256su1q_u32 (vsha256su0q_u32 b_sched3 b_sched0) b_sched1 b_sched2;
         (a_abcd, a_efgh, b_abcd, b_efgh) =
           arm_round4_pair (a_abcd, a_efgh, b_abcd, b_efgh) a_sched3 b_sched3 28;
         a_sched0 = vsha256su1q_u32 (vsha256su0q_u32 a_sched0 a_sched1) a_sched2 a_sched3;
         b_sched0 = vsha256su1q_u32 (vsha256su0q_u32 b_sched0 b_sched1) b_sched2 b_sched3;
         (a_abcd, a_efgh, b_abcd, b_efgh) =
           arm_round4_pair (a_abcd, a_efgh, b_abcd, b_efgh) a_sched0 b_sched0 32;
         a_sched1 = vsha256su1q_u32 (vsha256su0q_u32 a_sched1 a_sched2) a_sched3 a_sched0;
         b_sched1 = vsha256su1q_u32 (vsha256su0q_u32 b_sched1 b_sched2) b_sched3 b_sched0;
         (a_abcd, a_efgh, b_abcd, b_efgh) =
           arm_round4_pair (a_abcd, a_efgh, b_abcd, b_efgh) a_sched1 b_sched1 36;
         a_sched2 = vsha256su1q_u32 (vsha256su0q_u32 a_sched2 a_sched3) a_sched0 a_sched1;
         b_sched2 = vsha256su1q_u32 (vsha256su0q_u32 b_sched2 b_sched3) b_sched0 b_sched1;
         (a_abcd, a_efgh, b_abcd, b_efgh) =
           arm_round4_pair (a_abcd, a_efgh, b_abcd, b_efgh) a_sched2 b_sched2 40;
         a_sched3 = vsha256su1q_u32 (vsha256su0q_u32 a_sched3 a_sched0) a_sched1 a_sched2;
         b_sched3 = vsha256su1q_u32 (vsha256su0q_u32 b_sched3 b_sched0) b_sched1 b_sched2;
         (a_abcd, a_efgh, b_abcd, b_efgh) =
           arm_round4_pair (a_abcd, a_efgh, b_abcd, b_efgh) a_sched3 b_sched3 44;
         a_sched0 = vsha256su1q_u32 (vsha256su0q_u32 a_sched0 a_sched1) a_sched2 a_sched3;
         b_sched0 = vsha256su1q_u32 (vsha256su0q_u32 b_sched0 b_sched1) b_sched2 b_sched3;
         (a_abcd, a_efgh, b_abcd, b_efgh) =
           arm_round4_pair (a_abcd, a_efgh, b_abcd, b_efgh) a_sched0 b_sched0 48;
         a_sched1 = vsha256su1q_u32 (vsha256su0q_u32 a_sched1 a_sched2) a_sched3 a_sched0;
         b_sched1 = vsha256su1q_u32 (vsha256su0q_u32 b_sched1 b_sched2) b_sched3 b_sched0;
         (a_abcd, a_efgh, b_abcd, b_efgh) =
           arm_round4_pair (a_abcd, a_efgh, b_abcd, b_efgh) a_sched1 b_sched1 52;
         a_sched2 = vsha256su1q_u32 (vsha256su0q_u32 a_sched2 a_sched3) a_sched0 a_sched1;
         b_sched2 = vsha256su1q_u32 (vsha256su0q_u32 b_sched2 b_sched3) b_sched0 b_sched1;
         (a_abcd, a_efgh, b_abcd, b_efgh) =
           arm_round4_pair (a_abcd, a_efgh, b_abcd, b_efgh) a_sched2 b_sched2 56;
         a_sched3 = vsha256su1q_u32 (vsha256su0q_u32 a_sched3 a_sched0) a_sched1 a_sched2;
         b_sched3 = vsha256su1q_u32 (vsha256su0q_u32 b_sched3 b_sched0) b_sched1 b_sched2;
         (a_abcd, a_efgh, b_abcd, b_efgh) =
           arm_round4_pair (a_abcd, a_efgh, b_abcd, b_efgh) a_sched3 b_sched3 60
     in (vaddq_u32 a_abcd initial_abcd, vaddq_u32 a_efgh initial_efgh,
         vaddq_u32 b_abcd initial_abcd, vaddq_u32 b_efgh initial_efgh))"

section \<open>Hashing and scanning\<close>

definition sha256d_hash_nonce_pair_arm_raw ::
  "'ctx sha256_midstate_t \<Rightarrow> u32 \<Rightarrow> u32 \<Rightarrow> u32 \<Rightarrow> u32 \<Rightarrow> u32 \<Rightarrow> u32 list \<times> u32 list" where
  "sha256d_hash_nonce_pair_arm_raw state tail0 tail1 tail2 nonce_a nonce_b =
    (let start_abcd = vld1q_u32 (fast_state state) 0;
         start_efgh = vld1q_u32 (fast_state state) 4;
         (first_a_abcd, first_a_efgh, first_b_abcd, first_b_efgh) =
           sha256_arm_compress_btc_tail2 start_abcd start_efgh
             (make_u32x4 tail0 tail1 tail2 (bswap32 nonce_a)) (make_u32x4 tail0 tail1 tail2 (bswap32 nonce_b));
         (second_a_abcd, second_a_efgh, second_b_abcd, second_b_efgh) =
           sha256_arm_compress_second_hash2 first_a_abcd first_a_efgh first_b_abcd first_b_efgh
     in (vst1q_u32 (vst1q_u32 (local_array 8) 0 second_a_abcd) 4 second_a_efgh,
         vst1q_u32 (vst1q_u32 (local_array 8) 0 second_b_abcd) 4 second_b_efgh))"

definition sha256d_hash_tail_words_arm_raw :: "'ctx sha256_midstate_t \<Rightarrow> u32 list \<Rightarrow> u32 list" where
  "sha256d_hash_tail_words_arm_raw state tail_words =
    (let first_abcd = vld1q_u32 (fast_state state) 0;
         first_efgh = vld1q_u32 (fast_state state) 4;
         (first_abcd, first_efgh) = sha256_arm_compress_btc_tail first_abcd first_efgh
           (make_u32x4 (tail_words ! 0) (tail_words ! 1) (tail_words ! 2) (tail_words ! 3));
         (second_abcd, second_efgh) = sha256_arm_compress_second_hash first_abcd first_efgh
     in vst1q_u32 (vst1q_u32 (local_array 8) 0 second_abcd) 4 second_efgh)"

definition sha256d_80_midstate_hash_tail_words_arm_sha2 ::
  "'ctx sha256_midstate_t \<Rightarrow> u32 list \<Rightarrow> u32 list" where
  "sha256d_80_midstate_hash_tail_words_arm_sha2 state tail_words =
    sha256d_hash_tail_words_arm_raw state tail_words"

definition arm_pair_step ::
  "'ctx sha256_midstate_t \<Rightarrow> u32 \<Rightarrow> u32 \<Rightarrow> u32 \<Rightarrow> u32 list \<Rightarrow> u32 \<Rightarrow> 'o scan_match_func option \<Rightarrow>
   u32 \<times> 'o \<Rightarrow> u32 \<times> 'o" where
  "arm_pair_step state tail0 tail1 tail2 target_words start_nonce on_match = (\<lambda>(i, opaque).
    let nonce_a = start_nonce + i;
        nonce_b = nonce_a + 1;
        (hash_words_a, hash_words_b) = sha256d_hash_nonce_pair_arm_raw state tail0 tail1 tail2 nonce_a nonce_b;
        opaque = scan_report on_match target_words hash_words_a nonce_a opaque;
        opaque = scan_report on_match target_words hash_words_b nonce_b opaque
    in (i + 2, opaque))"

definition sha256d_scan_nonce_range_arm_sha2 ::
  "'ctx sha256_midstate_t \<Rightarrow> u32 list \<Rightarrow> u32 list \<Rightarrow> u32 \<Rightarrow> u32 \<Rightarrow> 'o scan_match_func option \<Rightarrow> 'o \<Rightarrow> 'o" where
  "sha256d_scan_nonce_range_arm_sha2 state base_tail_words target_words start_nonce nonce_count on_match opaque =
    (let start_abcd = vld1q_u32 (fast_state state) 0;
         start_efgh = vld1q_u32 (fast_state state) 4;
         tail0 = base_tail_words ! 0;
         tail1 = base_tail_words ! 1;
         tail2 = base_tail_words ! 2;
         paired_count = nonce_count AND NOT 1;
         (i, opaque) = while (\<lambda>(i, opaque). i < paired_count)
           (arm_pair_step state tail0 tail1 tail2 target_words start_nonce on_match) (0, opaque)
     in if i < nonce_count then
          let nonce = start_nonce + i;
              (first_abcd, first_efgh) = sha256_arm_compress_btc_tail start_abcd start_efgh
                (make_u32x4 tail0 tail1 tail2 (bswap32 nonce));
              (second_abcd, second_efgh) = sha256_arm_compress_second_hash first_abcd first_efgh;
              hash_words_a = vst1q_u32 (vst1q_u32 (local_array 8) 0 second_abcd) 4 second_efgh
          in scan_report on_match target_words hash_words_a nonce opaque
        else opaque)"

definition sha256d_80_midstate_hash_words_arm_sha2 :: "'ctx sha256_midstate_t \<Rightarrow> bytes \<Rightarrow> u32 list" where
  "sha256d_80_midstate_hash_words_arm_sha2 state header_tail16 =
    (let tail_words = foldl (\<lambda>t i. t[i := load_be32 header_tail16 (i * 4)]) (local_array 4) [0..<4]
     in sha256d_80_midstate_hash_tail_words_arm_sha2 state tail_words)"

section \<open>The vector code computes the standard's compression\<close>

fun abcd_of :: "wvars \<Rightarrow> u32x4" where
  "abcd_of (a, b, c, d, e, f, g, h) = (a, b, c, d)"

fun efgh_of :: "wvars \<Rightarrow> u32x4" where
  "efgh_of (a, b, c, d, e, f, g, h) = (e, f, g, h)"

lemma sha256hash_step_round: "sha256hash_step (abcd_of v, efgh_of v) kw = (abcd_of (sha_round kw v), efgh_of (sha_round kw v))"
  by (cases v rule: list_of_wvars.cases) (simp add: Let_def ac_simps)

lemma arm_round4_rounds:
  "arm_round4 (abcd_of (rounds M 0 i v), efgh_of (rounds M 0 i v)) (sched_vec M i) i =
   (abcd_of (rounds M 0 (i + 4) v), efgh_of (rounds M 0 (i + 4) v))"
  by (simp add: Let_def vsha256hq_u32_def vsha256h2q_u32_def sched_vec_def vld1q_u32_def rounds_next4
      sha256hash_step_round k_sha256_round_constants_fips add.commute del: sha256hash_step.simps)

lemmas arm_round4_first = arm_round4_rounds [of _ 0, simplified rounds_refl add_0]

lemma arm_sched_next:
  assumes "j = i + 4" "k = i + 8" "l = i + 12"
  shows "vsha256su1q_u32 (vsha256su0q_u32 (sched_vec M i) (sched_vec M j)) (sched_vec M k) (sched_vec M l) =
         sched_vec M (i + 16)"
  by (simp add: sched_vec_def assms Let_def add.commute [of i] W_next4) (simp add: ac_simps)

text \<open>The precomputed sums are those of the schedule words they replace.\<close>

definition wk_vec :: "u32 list \<Rightarrow> nat \<Rightarrow> u32x4" where
  "wk_vec M i = vaddq_u32 (sched_vec M i) (vld1q_u32 k_sha256_round_constants i)"

lemma arm_round4_wk_vec: "arm_round4_wk p (wk_vec M i) = arm_round4 p (sched_vec M i) i"
  by (cases p) (simp add: Let_def wk_vec_def)

lemma first_tail_wk:
  assumes "length tail = 4"
  shows "vld1q_u32 k_first_tail_wk1 0 = wk_vec (tail @ pad80_words) 4"
    "vld1q_u32 k_first_tail_wk2 0 = wk_vec (tail @ pad80_words) 8"
    "vld1q_u32 k_first_tail_wk3 0 = wk_vec (tail @ pad80_words) 12"
  unfolding first_message_vecs [OF assms] wk_vec_def
  by (simp_all add: vld1q_u32_def k_first_tail_wk1_def k_first_tail_wk2_def k_first_tail_wk3_def
      k_sha256_round_constants_def)

lemma second_hash_wk:
  assumes "length s = 8"
  shows "vld1q_u32 k_second_hash_wk2 0 = wk_vec (s @ pad32_words) 8"
    "vld1q_u32 k_second_hash_wk3 0 = wk_vec (s @ pad32_words) 12"
  unfolding second_message_vecs [OF assms] wk_vec_def
  by (simp_all add: vld1q_u32_def k_second_hash_wk2_def k_second_hash_wk3_def
      k_sha256_round_constants_def)

lemma first_message_make:
  assumes "length tail = 4"
  shows "make_u32x4 0x80000000 0 0 0 = sched_vec (tail @ pad80_words) 4"
    "make_u32x4 0 0 0 0 = sched_vec (tail @ pad80_words) 8"
    "make_u32x4 0 0 0 (80 * 8) = sched_vec (tail @ pad80_words) 12"
  unfolding first_message_vecs [OF assms] make_u32x4_def by simp_all

lemma second_message_make:
  assumes "length s = 8"
  shows "make_u32x4 0x80000000 0 0 0 = sched_vec (s @ pad32_words) 8"
    "make_u32x4 0 0 0 (32 * 8) = sched_vec (s @ pad32_words) 12"
  unfolding second_message_vecs [OF assms] make_u32x4_def by simp_all

lemmas arm_step_simps = arm_round4_first arm_round4_rounds arm_sched_next arm_round4_wk_vec

text \<open>The two registers holding a chaining value.\<close>

definition state_vecs :: "u32 list \<Rightarrow> u32x4 \<times> u32x4" where
  "state_vecs s = (abcd_of (wvars_of s), efgh_of (wvars_of s))"

lemma wvars_vecs: "vld1q_u32 s 0 = abcd_of (wvars_of s)" "vld1q_u32 s 4 = efgh_of (wvars_of s)"
  by (simp_all add: vld1q_u32_def wvars_of_def numeral_2_eq_2)

lemma initial_vecs:
  "make_u32x4 (k_sha256_initial_state ! 0) (k_sha256_initial_state ! 1) (k_sha256_initial_state ! 2)
     (k_sha256_initial_state ! 3) = abcd_of (wvars_of fips_H0)"
  "make_u32x4 (k_sha256_initial_state ! 4) (k_sha256_initial_state ! 5) (k_sha256_initial_state ! 6)
     (k_sha256_initial_state ! 7) = efgh_of (wvars_of fips_H0)"
  by (simp_all add: make_u32x4_def wvars_of_def k_sha256_initial_state_fips)

lemma state_vecs_compress:
  assumes "length s = 8"
  shows "vaddq_u32 (abcd_of (rounds M 0 64 (wvars_of s))) (abcd_of (wvars_of s)) =
           abcd_of (wvars_of (compress s M))"
    "vaddq_u32 (efgh_of (rounds M 0 64 (wvars_of s))) (efgh_of (wvars_of s)) =
           efgh_of (wvars_of (compress s M))"
  using assms
  by (cases "rounds M 0 64 (wvars_of s)" rule: list_of_wvars.cases;
      auto simp: compress_def length_eq_8_iff wvars_of_def add.commute)+

lemma arm_btc_tail_compress:
  assumes "length s = 8" "length tail = 4"
  shows "sha256_arm_compress_btc_tail (abcd_of (wvars_of s)) (efgh_of (wvars_of s))
           (sched_vec (tail @ pad80_words) 0) = state_vecs (compress s (tail @ pad80_words))"
  unfolding sha256_arm_compress_btc_tail_def first_message_make [OF assms(2)] first_tail_wk [OF assms(2)]
  by (simp add: arm_step_simps state_vecs_compress [OF assms(1)] Let_def state_vecs_def
      del: arm_round4.simps arm_round4_wk.simps)

lemma arm_second_hash_compress:
  assumes "length s = 8"
  shows "sha256_arm_compress_second_hash (sched_vec (s @ pad32_words) 0) (sched_vec (s @ pad32_words) 4) =
         state_vecs (compress fips_H0 (s @ pad32_words))"
  unfolding sha256_arm_compress_second_hash_def second_message_make [OF assms] second_hash_wk [OF assms]
    initial_vecs
  by (simp add: arm_step_simps state_vecs_compress Let_def state_vecs_def
      del: arm_round4.simps arm_round4_wk.simps)

text \<open>The two-message macros act on each message alone.\<close>

lemma arm_round4_pair_eq:
  "arm_round4_pair (a, b, c, d) sa sb off =
   (let (a, b) = arm_round4 (a, b) sa off; (c, d) = arm_round4 (c, d) sb off in (a, b, c, d))"
  "arm_round4_wk_pair (a, b, c, d) wk =
   (let (a, b) = arm_round4_wk (a, b) wk; (c, d) = arm_round4_wk (c, d) wk in (a, b, c, d))"
  by (simp_all add: Let_def)

text \<open>Two messages that share schedule vectors: the second may borrow them from the first.\<close>

lemma arm_shared_sched:
  assumes "sched_vec M 8 = sched_vec N 8" "sched_vec M 12 = sched_vec N 12"
  shows "arm_round4 (abcd_of (rounds N 0 8 v), efgh_of (rounds N 0 8 v)) (sched_vec M 8) 8 =
           (abcd_of (rounds N 0 12 v), efgh_of (rounds N 0 12 v))"
    "arm_round4 (abcd_of (rounds N 0 12 v), efgh_of (rounds N 0 12 v)) (sched_vec M 12) 12 =
           (abcd_of (rounds N 0 16 v), efgh_of (rounds N 0 16 v))"
    "vsha256su1q_u32 (vsha256su0q_u32 (sched_vec N 0) (sched_vec N 4)) (sched_vec M 8) (sched_vec M 12) =
           sched_vec N 16"
    "vsha256su1q_u32 (vsha256su0q_u32 (sched_vec N 4) (sched_vec M 8)) (sched_vec M 12) (sched_vec N 16) =
           sched_vec N 20"
    "vsha256su1q_u32 (vsha256su0q_u32 (sched_vec M 8) (sched_vec M 12)) (sched_vec N 16) (sched_vec N 20) =
           sched_vec N 24"
    "vsha256su1q_u32 (vsha256su0q_u32 (sched_vec M 12) (sched_vec N 16)) (sched_vec N 20) (sched_vec N 24) =
           sched_vec N 28"
  unfolding assms
  using arm_round4_rounds [of N 8 v] arm_round4_rounds [of N 12 v]
  by (simp_all add: arm_sched_next del: arm_round4.simps)

lemma arm_shared_sched1:
  assumes "sched_vec M 4 = sched_vec N 4" "sched_vec M 8 = sched_vec N 8" "sched_vec M 12 = sched_vec N 12"
  shows "arm_round4 (abcd_of (rounds N 0 4 v), efgh_of (rounds N 0 4 v)) (sched_vec M 4) 4 =
           (abcd_of (rounds N 0 8 v), efgh_of (rounds N 0 8 v))"
    "vsha256su1q_u32 (vsha256su0q_u32 (sched_vec N 0) (sched_vec M 4)) (sched_vec M 8) (sched_vec M 12) =
           sched_vec N 16"
    "vsha256su1q_u32 (vsha256su0q_u32 (sched_vec M 4) (sched_vec M 8)) (sched_vec M 12) (sched_vec N 16) =
           sched_vec N 20"
  unfolding assms
  using arm_round4_rounds [of N 4 v] by (simp_all add: arm_sched_next del: arm_round4.simps)

lemma arm_btc_tail2_compress:
  fixes tail tail' s :: "u32 list"
  assumes "length s = 8" "length tail = 4" "length tail' = 4"
  defines "r \<equiv> compress s (tail @ pad80_words)" and "r' \<equiv> compress s (tail' @ pad80_words)"
  shows "sha256_arm_compress_btc_tail2 (abcd_of (wvars_of s)) (efgh_of (wvars_of s))
           (sched_vec (tail @ pad80_words) 0) (sched_vec (tail' @ pad80_words) 0) =
         (abcd_of (wvars_of r), efgh_of (wvars_of r), abcd_of (wvars_of r'), efgh_of (wvars_of r'))"
proof -
  have e: "sched_vec (tail @ pad80_words) 4 = sched_vec (tail' @ pad80_words) 4"
    "sched_vec (tail @ pad80_words) 8 = sched_vec (tail' @ pad80_words) 8"
    "sched_vec (tail @ pad80_words) 12 = sched_vec (tail' @ pad80_words) 12"
    by (simp_all only: first_message_vecs [OF assms(2)] first_message_vecs [OF assms(3)])
  show ?thesis
    unfolding sha256_arm_compress_btc_tail2_def first_message_make [OF assms(2)] first_tail_wk [OF assms(2)]
      arm_round4_pair_eq
    by (simp add: arm_step_simps arm_shared_sched [OF e(2,3)] arm_shared_sched1 [OF e]
        state_vecs_compress [OF assms(1)] Let_def r_def r'_def del: arm_round4.simps arm_round4_wk.simps)
qed

lemma arm_second_hash2_compress:
  fixes s s' :: "u32 list"
  assumes "length s = 8" "length s' = 8"
  defines "r \<equiv> compress fips_H0 (s @ pad32_words)" and "r' \<equiv> compress fips_H0 (s' @ pad32_words)"
  shows "sha256_arm_compress_second_hash2 (sched_vec (s @ pad32_words) 0) (sched_vec (s @ pad32_words) 4)
           (sched_vec (s' @ pad32_words) 0) (sched_vec (s' @ pad32_words) 4) =
         (abcd_of (wvars_of r), efgh_of (wvars_of r), abcd_of (wvars_of r'), efgh_of (wvars_of r'))"
proof -
  have e: "sched_vec (s @ pad32_words) 8 = sched_vec (s' @ pad32_words) 8"
    "sched_vec (s @ pad32_words) 12 = sched_vec (s' @ pad32_words) 12"
    by (simp_all only: second_message_vecs [OF assms(1)] second_message_vecs [OF assms(2)])
  show ?thesis
    unfolding sha256_arm_compress_second_hash2_def second_message_make [OF assms(1)]
      second_hash_wk [OF assms(1)] initial_vecs arm_round4_pair_eq
    by (simp add: arm_step_simps arm_shared_sched [OF e]
        state_vecs_compress Let_def r_def r'_def del: arm_round4.simps arm_round4_wk.simps)
qed

section \<open>Hashing\<close>

text \<open>Registers of a chaining value as the first two vectors of the next message, and stored back.\<close>

lemma state_vecs_message:
  assumes "length s = 8"
  shows "abcd_of (wvars_of s) = sched_vec (s @ pad32_words) 0" "efgh_of (wvars_of s) = sched_vec (s @ pad32_words) 4"
  by (simp_all add: second_message_vecs [OF assms] wvars_of_def)

lemma store_state_vecs:
  assumes "length s = 8"
  shows "vst1q_u32 (vst1q_u32 (local_array 8) 0 (abcd_of (wvars_of s))) 4 (efgh_of (wvars_of s)) = s"
  using assms by (auto simp: length_eq_8_iff vst1q_u32_def wvars_of_def local_array_def literal_arrays)

lemma tail_message_make:
  assumes "length tail = 4"
  shows "make_u32x4 (tail ! 0) (tail ! 1) (tail ! 2) (tail ! 3) = sched_vec (tail @ pad80_words) 0"
  by (simp add: first_message_vecs [OF assms] make_u32x4_def)

lemma arm_two_blocks:
  assumes "length s = 8" "length tail = 4"
  shows "(case sha256_arm_compress_btc_tail (vld1q_u32 s 0) (vld1q_u32 s 4)
            (make_u32x4 (tail ! 0) (tail ! 1) (tail ! 2) (tail ! 3)) of
          (first_abcd, first_efgh) \<Rightarrow> case sha256_arm_compress_second_hash first_abcd first_efgh of
            (second_abcd, second_efgh) \<Rightarrow>
              vst1q_u32 (vst1q_u32 (local_array 8) 0 second_abcd) 4 second_efgh) = tail_hash s tail"
proof -
  let ?s = "compress s (tail @ pad80_words)"
  have l: "length ?s = 8" using assms by simp
  show ?thesis
    unfolding wvars_vecs [of s] tail_message_make [OF assms(2)] arm_btc_tail_compress [OF assms]
      state_vecs_def prod.case state_vecs_message [OF l] arm_second_hash_compress [OF l]
    by (simp add: store_state_vecs tail_hash_def)
qed

lemma arm_tail_hash:
  assumes "length tail = 4" "length (fast_state st) = 8"
  shows "sha256d_hash_tail_words_arm_raw st tail = tail_hash (fast_state st) tail"
  using arm_two_blocks [OF assms(2,1)] by (simp add: sha256d_hash_tail_words_arm_raw_def Let_def)

lemma arm_pair_tail_hash:
  assumes "length (fast_state st) = 8"
  shows "sha256d_hash_nonce_pair_arm_raw st t0 t1 t2 na nb =
    (tail_hash (fast_state st) [t0, t1, t2, bswap32 na], tail_hash (fast_state st) [t0, t1, t2, bswap32 nb])"
proof -
  let ?t = "\<lambda>n. [t0, t1, t2, bswap32 n]"
  have t: "length (?t n) = 4" for n by simp
  have m: "make_u32x4 t0 t1 t2 (bswap32 n) = sched_vec (?t n @ pad80_words) 0" for n
    using tail_message_make [OF t, of n] by simp
  have l: "length (compress (fast_state st) (?t n @ pad80_words)) = 8" for n using assms by simp
  show ?thesis
    unfolding sha256d_hash_nonce_pair_arm_raw_def Let_def wvars_vecs [of "fast_state st"] m
      arm_btc_tail2_compress [OF assms t t] prod.case state_vecs_message [OF l]
      arm_second_hash2_compress [OF l l]
    by (simp add: store_state_vecs tail_hash_def)
qed

section \<open>The paired scan\<close>

lemma arm_pair_step_reports:
  assumes "length (fast_state st) = 8" "length tail = 4"
  shows "arm_pair_step st (tail ! 0) (tail ! 1) (tail ! 2) target start on_match (of_nat (2 * j), q) =
         (of_nat (2 * Suc j),
          report_index (fast_state st) tail target start on_match (2 * j + 1)
            (report_index (fast_state st) tail target start on_match (2 * j) q))"
  using assms(2)
  by (auto simp: arm_pair_step_def Let_def report_index_def arm_pair_tail_hash [OF assms(1)]
      length_eq_4_iff ac_simps)

lemma arm_scan_generic:
  assumes "length (fast_state st) = 8" "length tail = 4"
  shows "sha256d_scan_nonce_range_arm_sha2 st tail target start n on_match q =
         sha256d_scan_nonce_range_generic sha256d_80_midstate_hash_tail_words_arm_sha2 st tail target
           start n on_match q"
proof -
  let ?rep = "report_index (fast_state st) tail target start on_match"
  have single: "(case sha256_arm_compress_btc_tail (vld1q_u32 (fast_state st) 0) (vld1q_u32 (fast_state st) 4)
            (make_u32x4 (tail ! 0) (tail ! 1) (tail ! 2) x) of
          (first_abcd, first_efgh) \<Rightarrow> case sha256_arm_compress_second_hash first_abcd first_efgh of
            (second_abcd, second_efgh) \<Rightarrow>
              scan_report on_match target
                (vst1q_u32 (vst1q_u32 (local_array 8) 0 second_abcd) 4 second_efgh) nonce q) =
       scan_report on_match target (tail_hash (fast_state st) (tail[3 := x])) nonce q" for x nonce q
    using arm_two_blocks [OF assms(1), of "tail[3 := x]"] assms(2)
    by (simp add: case_prod_beta)
  have "sha256d_scan_nonce_range_arm_sha2 st tail target start n on_match q =
    (case while (\<lambda>(i, q). i < n AND NOT 1)
            (arm_pair_step st (tail ! 0) (tail ! 1) (tail ! 2) target start on_match) (0, q) of
       (i, q) \<Rightarrow> if i < n then ?rep (unat i) q else q)"
    unfolding sha256d_scan_nonce_range_arm_sha2_def Let_def single report_index_def
    by (simp cong: if_cong)
  also have "\<dots> = foldl (\<lambda>q k. ?rep k q) q [0..<unat n]"
    by (rule paired_scan [OF arm_pair_step_reports [OF assms] refl])
  finally show ?thesis
    using assms by (simp add: generic_scan_report_index [where mid = "fast_state st"]
      sha256d_80_midstate_hash_tail_words_arm_sha2_def arm_tail_hash)
qed

interpretation arm: nonce_scanner sha256d_80_midstate_hash_tail_words_arm_sha2 "prepared_midstate ssl"
    sha256d_scan_nonce_range_arm_sha2 for ssl
  by unfold_locales
     (auto simp: prepared_midstate_def sha256d_80_midstate_hash_tail_words_arm_sha2_def arm_tail_hash
        midstate_prepare_fast_state arm_scan_generic)

end
