(* ===== verification/Sha256d_Dispatch.thy ===== *)
theory Sha256d_Dispatch
  imports Sha256d_X86 Sha256d_Arm
begin

text \<open>
  The entry points of \<open>src/src/sha256d.c\<close> that choose a backend at run time: the function pointers
  \<open>sha256d_tail_words_func\<close> and \<open>sha256d_nonce_range_func\<close> and the calls made through them. Whatever
  the build flags, the CPU and the selected backend, hashing a header from its mid-state is the double
  SHA-256 of the header, and a scan reports exactly the nonces that solve the block.
\<close>

section \<open>Definitions\<close>

text \<open>The configuration is the platform \<open>p\<close>, the OpenSSL library \<open>ssl\<close> and the global \<open>g_backend\<close>.\<close>

fun sha256d_tail_words_func ::
  "sha_platform \<Rightarrow> 'ctx openssl \<Rightarrow> sha256d_backend_t \<Rightarrow> 'ctx sha256_midstate_t \<Rightarrow> u32 list \<Rightarrow> u32 list" where
  "sha256d_tail_words_func p ssl SHA256D_BACKEND_FAST_C = sha256d_80_midstate_hash_fast_c"
| "sha256d_tail_words_func p ssl SHA256D_BACKEND_ARM_SHA2 =
    (if BTC_MINER_ARM_SHA2 p then sha256d_80_midstate_hash_tail_words_arm_sha2
     else sha256d_80_midstate_hash_openssl ssl)"
| "sha256d_tail_words_func p ssl SHA256D_BACKEND_X86_SHA_NI =
    (if BTC_MINER_X86_SHA_NI p then sha256d_80_midstate_hash_tail_words_x86_sha_ni
     else sha256d_80_midstate_hash_openssl ssl)"
| "sha256d_tail_words_func p ssl SHA256D_BACKEND_OPENSSL = sha256d_80_midstate_hash_openssl ssl"

fun sha256d_nonce_range_func ::
  "sha_platform \<Rightarrow> 'ctx openssl \<Rightarrow> sha256d_backend_t \<Rightarrow> 'ctx sha256_midstate_t \<Rightarrow> u32 list \<Rightarrow> u32 list \<Rightarrow>
   u32 \<Rightarrow> u32 \<Rightarrow> 'o scan_match_func option \<Rightarrow> 'o \<Rightarrow> 'o" where
  "sha256d_nonce_range_func p ssl SHA256D_BACKEND_X86_SHA_NI =
    (if BTC_MINER_X86_SHA_NI p then sha256d_scan_nonce_range_x86_sha_ni
     else sha256d_scan_nonce_range_generic (sha256d_tail_words_func p ssl SHA256D_BACKEND_X86_SHA_NI))"
| "sha256d_nonce_range_func p ssl SHA256D_BACKEND_ARM_SHA2 =
    (if BTC_MINER_ARM_SHA2 p then sha256d_scan_nonce_range_arm_sha2
     else sha256d_scan_nonce_range_generic (sha256d_tail_words_func p ssl SHA256D_BACKEND_ARM_SHA2))"
| "sha256d_nonce_range_func p ssl SHA256D_BACKEND_OPENSSL =
    sha256d_scan_nonce_range_generic (sha256d_tail_words_func p ssl SHA256D_BACKEND_OPENSSL)"
| "sha256d_nonce_range_func p ssl SHA256D_BACKEND_FAST_C =
    sha256d_scan_nonce_range_generic (sha256d_tail_words_func p ssl SHA256D_BACKEND_FAST_C)"

definition sha256d_80_midstate_hash_tail_words ::
  "sha_platform \<Rightarrow> 'ctx openssl \<Rightarrow> sha256d_backend_t \<Rightarrow> 'ctx sha256_midstate_t \<Rightarrow> u32 list \<Rightarrow> u32 list" where
  "sha256d_80_midstate_hash_tail_words p ssl g_backend state tail_words =
    sha256d_tail_words_func p ssl g_backend state tail_words"

definition sha256d_80_midstate_hash_words ::
  "sha_platform \<Rightarrow> 'ctx openssl \<Rightarrow> sha256d_backend_t \<Rightarrow> 'ctx sha256_midstate_t \<Rightarrow> bytes \<Rightarrow> u32 list" where
  "sha256d_80_midstate_hash_words p ssl g_backend state header_tail16 =
    (let tail_words = foldl (\<lambda>t i. t[i := load_be32 header_tail16 (i * 4)]) (local_array 4) [0..<4]
     in sha256d_80_midstate_hash_tail_words p ssl g_backend state tail_words)"

definition sha256d_80_midstate_hash ::
  "sha_platform \<Rightarrow> 'ctx openssl \<Rightarrow> sha256d_backend_t \<Rightarrow> 'ctx sha256_midstate_t \<Rightarrow> bytes \<Rightarrow> bytes" where
  "sha256d_80_midstate_hash p ssl g_backend state header_tail16 =
    (let words = sha256d_80_midstate_hash_words p ssl g_backend state header_tail16
     in sha256d_words_to_hash words)"

section \<open>Every backend keeps the contract\<close>

definition ready_midstate :: "'ctx openssl \<Rightarrow> 'ctx sha256_midstate_t \<Rightarrow> bytes \<Rightarrow> bool" where
  "ready_midstate ssl st first64 \<longleftrightarrow> openssl_contract ssl \<and> prepared_midstate ssl st first64"

interpretation dispatch: nonce_scanner "sha256d_tail_words_func p ssl g_backend" "ready_midstate ssl"
    "sha256d_nonce_range_func p ssl g_backend" for p ssl g_backend
proof (unfold_locales, goal_cases)
  case (1 st first64)
  then show ?case by (simp add: ready_midstate_def prepared_midstate_def)
next
  case (2 st first64 tail)
  then have r: "openssl_contract ssl" "prepared_midstate ssl st first64" by (simp_all add: ready_midstate_def)
  show ?case
    using 2(2) r fast_c.hash_tail_spec [OF r(2)] x86.hash_tail_spec [OF r(2)] arm.hash_tail_spec [OF r(2)]
      ossl.hash_tail_spec [of ssl st first64]
    by (cases g_backend) simp_all
next
  case (3 st first64 tail target start n on_match opaque)
  then have r: "prepared_midstate ssl st first64" by (simp add: ready_midstate_def)
  show ?case
    using 3(2) by (cases g_backend) (simp_all add: x86.scan_generic [OF r] arm.scan_generic [OF r])
qed

text \<open>A platform with the x86 instructions, and a reference library: the standard itself, with the
  chaining value as the context.\<close>

definition x86_platform :: sha_platform where
  "x86_platform = \<lparr>BTC_MINER_ARM_SHA2 = False, BTC_MINER_X86_SHA_NI = True,
     sha256d_arm_sha2_available = False, sha256d_x86_sha_ni_available = True\<rparr>"

definition openssl_ref :: "u32 list openssl" where
  "openssl_ref = \<lparr>SHA256 = sha256, SHA256_Init = fips_H0,
     SHA256_Update = (\<lambda>c b. compress c (be32_words b)),
     SHA256_Transform = (\<lambda>c b. compress c (be32_words b)), ctx_h = (\<lambda>c. c)\<rparr>"

lemma openssl_contract_ref: "openssl_contract openssl_ref"
  by (simp add: openssl_contract_def openssl_ref_def)

lemma ready_midstate_ref:
  "length f = 64 \<Longrightarrow> ready_midstate openssl_ref (sha256d_80_midstate_prepare openssl_ref f) f"
  by (simp add: ready_midstate_def prepared_midstate_def openssl_contract_ref)

lemma midstate_hash_words_header:
  assumes "length tail16 = 16"
  shows "sha256d_80_midstate_hash_words p ssl g st tail16 =
         sha256d_tail_words_func p ssl g st (be32_words tail16)"
  using load_be32_block [of tail16 4] assms
  by (simp add: sha256d_80_midstate_hash_words_def sha256d_80_midstate_hash_tail_words_def Let_def
      store_loop local_array_def)

section \<open>Properties\<close>

text \<open>C1. On every platform and with every backend, hashing the last 16 bytes of an 80-byte header
  from the mid-state prepared from its first 64 bytes gives the same 32 bytes as hashing the whole
  header twice, which is SHA-256 applied twice as FIPS 180-4 defines it.\<close>

theorem midstate_hash_correct:
  assumes "openssl_contract ssl" "length header = 80"
  shows "sha256d_80_midstate_hash p ssl g_backend (sha256d_80_midstate_prepare ssl (take 64 header))
           (drop 64 header) = sha256d_80 ssl header \<and>
         sha256d_80 ssl header = sha256d header"
proof -
  let ?st = "sha256d_80_midstate_prepare ssl (take 64 header)"
  have r: "ready_midstate ssl ?st (take 64 header)"
    using assms by (simp add: ready_midstate_def prepared_midstate_def)
  have "length (sha256d_tail_words_func p ssl g_backend ?st (be32_words (drop 64 header))) = 8"
    using dispatch.hash_tail_spec [OF r] assms by (simp add: length_be32_words)
  then have "sha256d_80_midstate_hash p ssl g_backend ?st (drop 64 header) = sha256d header"
    using dispatch.hash_header [OF r assms(2)] assms(2)
    by (simp add: sha256d_80_midstate_hash_def midstate_hash_words_header words_to_hash_bytes)
  moreover have "sha256d_80 ssl header = sha256d header"
    using assms(1) by (simp add: sha256d_80_def sha256d_def openssl_contract_def Let_def)
  ultimately show ?thesis by simp
qed

theorem midstate_hash_correct_witness:
  "openssl_contract openssl_ref \<and> length (replicate 80 (1 :: u8)) = 80 \<and>
   sha256d_80_midstate_hash x86_platform openssl_ref SHA256D_BACKEND_X86_SHA_NI
     (sha256d_80_midstate_prepare openssl_ref (take 64 (replicate 80 1))) (drop 64 (replicate 80 1)) =
   sha256d (replicate 80 1)"
  using midstate_hash_correct [OF openssl_contract_ref, of "replicate 80 1" x86_platform SHA256D_BACKEND_X86_SHA_NI]
  by (simp add: openssl_contract_ref)

text \<open>C2. A scan over any range of nonces (the range may wrap past \<open>2 ^ 32\<close>) reports, in the order of
  the range and each exactly once, precisely the nonces whose header has a double SHA-256 that, read
  as a little-endian number, is at most the target. The header is 76 bytes followed by the nonce,
  least significant byte first; the array passed to the scan holds its last words and any fourth word.\<close>

theorem scan_finds_exactly_the_solutions:
  assumes "openssl_contract ssl" "length h76 = 76" "length tail = 4"
    "take 3 tail = be32_words (drop 64 h76)" "length target = 8"
  shows "map fst (sha256d_nonce_range_func p ssl g_backend
           (sha256d_80_midstate_prepare ssl (take 64 h76)) tail target start count
           (Some (\<lambda>found nonce hash. found @ [(nonce, hash)])) []) =
         filter (\<lambda>n. le_bytes_val (sha256d (h76 @ le32_bytes n)) \<le> le_words_val target)
           (nonce_range start count)"
proof -
  have r: "ready_midstate ssl (sha256d_80_midstate_prepare ssl (take 64 h76)) (take 64 h76)"
    using assms by (simp add: ready_midstate_def prepared_midstate_def)
  show ?thesis
    by (simp add: dispatch.scan_reports [OF r assms(3)] dispatch.matched_nonces [OF r assms(2-5)]
        collect_fold)
qed

theorem scan_finds_exactly_the_solutions_witness:
  "openssl_contract openssl_ref \<and> length (replicate 76 (7 :: u8)) = 76 \<and>
   map fst (sha256d_nonce_range_func x86_platform openssl_ref SHA256D_BACKEND_X86_SHA_NI
     (sha256d_80_midstate_prepare openssl_ref (take 64 (replicate 76 7)))
     (be32_words (drop 64 (replicate 76 7)) @ [0]) (replicate 8 0xffffffff) 0xfffffffe 3
     (Some (\<lambda>found nonce hash. found @ [(nonce, hash)])) []) =
   filter (\<lambda>n. le_bytes_val (sha256d (replicate 76 7 @ le32_bytes n)) \<le> le_words_val (replicate 8 0xffffffff))
     (nonce_range 0xfffffffe 3)"
proof -
  have "take 3 (be32_words (drop 64 (replicate 76 7)) @ [0]) = be32_words (drop 64 (replicate 76 (7 :: u8)))"
    by (simp add: length_be32_words)
  then show ?thesis
    using scan_finds_exactly_the_solutions [OF openssl_contract_ref, of "replicate 76 7"
        "be32_words (drop 64 (replicate 76 7)) @ [0]" "replicate 8 0xffffffff" x86_platform
        SHA256D_BACKEND_X86_SHA_NI "0xfffffffe" 3]
    by (simp add: openssl_contract_ref length_be32_words)
qed

text \<open>Scanning a whole range reports the same matches, in the same order, as scanning its two
  halves one after the other: work can be cut into batches without losing or repeating a nonce.\<close>

theorem scan_splits:
  assumes "openssl_contract ssl" "length first64 = 64" "length tail = 4"
    "unat m + unat n < 2 ^ 32"
  shows "sha256d_nonce_range_func p ssl g_backend (sha256d_80_midstate_prepare ssl first64) tail target
           start (m + n) on_match opaque =
         sha256d_nonce_range_func p ssl g_backend (sha256d_80_midstate_prepare ssl first64) tail target
           (start + m) n on_match
           (sha256d_nonce_range_func p ssl g_backend (sha256d_80_midstate_prepare ssl first64) tail target
             start m on_match opaque)"
proof -
  have r: "ready_midstate ssl (sha256d_80_midstate_prepare ssl first64) first64"
    using assms by (simp add: ready_midstate_def prepared_midstate_def)
  have "nonce_range start (m + n) = nonce_range start m @ nonce_range (start + m) n"
    by (rule nonce_range_append [OF assms(4)])
  then show ?thesis
    by (simp add: dispatch.scan_generic [OF r assms(3)] generic_scan_fold)
qed

theorem scan_splits_witness:
  "openssl_contract openssl_ref \<and> unat (5 :: u32) + unat (4 :: u32) < 2 ^ 32 \<and>
   sha256d_nonce_range_func x86_platform openssl_ref SHA256D_BACKEND_FAST_C
     (sha256d_80_midstate_prepare openssl_ref (replicate 64 0)) [1, 2, 3, 0] (replicate 8 0) 10 (5 + 4)
     (Some (\<lambda>found nonce hash. found @ [nonce])) [] =
   sha256d_nonce_range_func x86_platform openssl_ref SHA256D_BACKEND_FAST_C
     (sha256d_80_midstate_prepare openssl_ref (replicate 64 0)) [1, 2, 3, 0] (replicate 8 0) (10 + 5) 4
     (Some (\<lambda>found nonce hash. found @ [nonce]))
     (sha256d_nonce_range_func x86_platform openssl_ref SHA256D_BACKEND_FAST_C
       (sha256d_80_midstate_prepare openssl_ref (replicate 64 0)) [1, 2, 3, 0] (replicate 8 0) 10 5
       (Some (\<lambda>found nonce hash. found @ [nonce])) [])"
  using scan_splits [OF openssl_contract_ref, of "replicate 64 0" "[1, 2, 3, 0]" 5 4 x86_platform
      SHA256D_BACKEND_FAST_C "replicate 8 0" 10 "Some (\<lambda>found nonce hash. found @ [nonce])" "[]"]
  by (simp add: openssl_contract_ref del: sha256d_nonce_range_func.simps)

text \<open>Choosing a backend: a refused request leaves the current backend alone and returns -1, an
  accepted one is the new backend; the automatic choice is always accepted; and the name of a backend
  parses back to it.\<close>

theorem backend_selection:
  "(\<not> sha256d_backend_available p b \<longrightarrow> sha256d_set_backend p b g = (g, - 1)) \<and>
   (sha256d_backend_available p b \<longrightarrow> sha256d_set_backend p b g = (b, 0)) \<and>
   sha256d_set_backend p (sha256d_auto_backend p) g = (sha256d_auto_backend p, 0) \<and>
   sha256d_parse_backend (Some (sha256d_backend_name b)) = Some b"
proof (intro conjI impI)
  show "sha256d_set_backend p (sha256d_auto_backend p) g = (sha256d_auto_backend p, 0)"
    unfolding sha256d_auto_backend_def sha256d_set_backend_def
    by (simp del: sha256d_backend_available.simps(3,4))
  show "sha256d_parse_backend (Some (sha256d_backend_name b)) = Some b"
    by (cases b) (simp_all add: sha256d_parse_backend_def)
qed (simp_all add: sha256d_set_backend_def)

theorem backend_selection_witness:
  "sha256d_backend_available x86_platform SHA256D_BACKEND_ARM_SHA2 = False \<and>
   sha256d_set_backend x86_platform SHA256D_BACKEND_ARM_SHA2 SHA256D_BACKEND_OPENSSL =
     (SHA256D_BACKEND_OPENSSL, - 1) \<and>
   sha256d_set_backend x86_platform (sha256d_auto_backend x86_platform) SHA256D_BACKEND_OPENSSL =
     (SHA256D_BACKEND_X86_SHA_NI, 0)"
  using backend_selection [of x86_platform SHA256D_BACKEND_ARM_SHA2 SHA256D_BACKEND_OPENSSL]
  by (simp add: x86_platform_def sha256d_auto_backend_def)

end
