(* ===== verification/Miner_Job.thy ===== *)
theory Miner_Job
  imports Hex Sha256d_Dispatch
begin

text \<open>
  Building a job from a pool template, the first half of \<open>src/src/miner.c\<close>: the share target of a
  difficulty, the comparison of a hash with a target, and \<open>miner_build_job\<close>, which assembles the
  80-byte header (version, previous hash, Merkle root of the coinbase, time, bits, empty nonce).

  Parameters: \<open>ssl\<close> is OpenSSL, \<open>alloc\<close> tells whether a \<open>malloc\<close> succeeds, and \<open>fl\<close> is the rounding
  of a real result to the nearest \<open>double\<close>. A \<open>double\<close> is the real number it stands for; scaling by
  256 is exact in binary floating point and is not rounded.
\<close>

section \<open>Jobs\<close>

text \<open>\<open>miner_job_t\<close>; the fields carry the prefix \<open>job_\<close>.\<close>

record miner_job_t =
  job_seq :: u64
  job_job_id :: string
  job_extranonce2 :: string
  job_ntime :: string
  job_header :: bytes
  job_target :: bytes

section \<open>Targets\<close>

function target_up :: "real \<Rightarrow> nat \<Rightarrow> real \<times> nat" where
  "target_up mant ex =
    (if mant \<ge> 0x800000 \<and> ex < 32 then target_up (mant / 256) (ex + 1) else (mant, ex))"
  by auto
termination by (relation "measure (\<lambda>(mant, ex). 32 - ex)") auto

function target_down :: "real \<Rightarrow> nat \<Rightarrow> real \<times> nat" where
  "target_down mant ex =
    (if mant > 0 \<and> mant < 0x8000 \<and> ex > 3 then target_down (mant * 256) (ex - 1) else (mant, ex))"
  by auto
termination by (relation "measure (\<lambda>(mant, ex). ex)") auto

declare target_up.simps [simp del] target_down.simps [simp del]

definition miner_target_from_difficulty :: "(real \<Rightarrow> real) \<Rightarrow> real \<Rightarrow> bytes" where
  "miner_target_from_difficulty fl difficulty =
    (let be_target = local_array 32;
         target = local_array 32;
         difficulty = (if difficulty \<le> 0 then 1 else difficulty);
         mant = fl (65535 / difficulty);
         (mant, ex) = target_up mant 29;
         (mant, ex) = target_down mant ex;
         m = (word_of_int \<lfloor>mant\<rfloor> :: u32);
         idx = 32 - int ex
     in if idx \<ge> 0 \<and> idx + 2 < 32 then
          let be_target = be_target[nat idx := ucast (drop_bit 16 m), nat idx + 1 := ucast (drop_bit 8 m),
                                    nat idx + 2 := ucast m]
          in foldl (\<lambda>target i. target[i := be_target ! (31 - i)]) target [0..<32]
        else if idx < 0 then replicate 32 0xff
        else target)"

text \<open>The loop runs \<open>i\<close> from 31 down; \<open>hash_meets_from n\<close> decides from index \<open>n - 1\<close> on.\<close>

fun hash_meets_from :: "nat \<Rightarrow> bytes \<Rightarrow> bytes \<Rightarrow> bool" where
  "hash_meets_from 0 hash target = True"
| "hash_meets_from (Suc i) hash target =
    (if hash ! i < target ! i then True
     else if hash ! i > target ! i then False
     else hash_meets_from i hash target)"

definition miner_hash_meets_target :: "bytes \<Rightarrow> bytes \<Rightarrow> bool" where
  "miner_hash_meets_target hash target = hash_meets_from 32 hash target"

text \<open>The difficulty a hash reaches, \<open>None\<close> for infinity.\<close>

definition miner_hash_difficulty :: "(real \<Rightarrow> real) \<Rightarrow> bytes \<Rightarrow> real option" where
  "miner_hash_difficulty fl hash =
    (let diff1 = 26959535291011309493156476344723991336010898738574164086137773096960;
         val = foldl (\<lambda>val i. fl (fl (val * 256) + real (unat (hash ! i)))) 0 (rev [0..<32])
     in if val \<le> 0 then None else Some (fl (diff1 / val)))"

section \<open>Building a job\<close>

definition sha256d_data :: "'ctx openssl \<Rightarrow> bytes \<Rightarrow> bytes" where
  "sha256d_data ssl data = (let first = SHA256 ssl data in SHA256 ssl first)"

text \<open>The loop over the Merkle branch, which stops at the first entry that is not 32 bytes of hex.\<close>

fun merkle_loop :: "'ctx openssl \<Rightarrow> string list \<Rightarrow> bytes \<Rightarrow> bytes option" where
  "merkle_loop ssl [] merkle_root = Some merkle_root"
| "merkle_loop ssl (m # ms) merkle_root =
    (case hex_to_bytes m 32 of
       None \<Rightarrow> None
     | Some branch \<Rightarrow>
        let combined = merkle_root @ branch
        in merkle_loop ssl ms (sha256d_data ssl combined))"

definition miner_build_job ::
  "'ctx openssl \<Rightarrow> (nat \<Rightarrow> bool) \<Rightarrow> (real \<Rightarrow> real) \<Rightarrow> string \<Rightarrow> string \<Rightarrow> string \<Rightarrow> string \<Rightarrow> string list \<Rightarrow>
   string \<Rightarrow> string \<Rightarrow> string \<Rightarrow> string \<Rightarrow> string \<Rightarrow> real \<Rightarrow> miner_job_t option" where
  "miner_build_job ssl alloc fl job_id prevhash coinb1 coinb2 merkle version nbits ntime
     extranonce1 extranonce2 difficulty =
    (case (copy_checked 128 job_id, copy_checked 32 extranonce2, copy_checked 16 ntime) of
       (Some out_job_id, Some out_extranonce2, Some out_ntime) \<Rightarrow>
         let coinbase_hex = coinb1 @ extranonce1 @ extranonce2 @ coinb2
         in if \<not> alloc (length coinbase_hex + 1) then None
            else (case hex_to_alloc alloc coinbase_hex of None \<Rightarrow> None
            | Some coinbase \<Rightarrow>
              (case merkle_loop ssl merkle (sha256d_data ssl coinbase) of None \<Rightarrow> None
              | Some merkle_root \<Rightarrow>
                (case hex_u32_to_le version of None \<Rightarrow> None
                | Some version_le \<Rightarrow>
                  (case prevhash_to_header_bytes prevhash of None \<Rightarrow> None
                  | Some prev \<Rightarrow>
                    (case hex_u32_to_le ntime of None \<Rightarrow> None
                    | Some ntime_le \<Rightarrow>
                      (case hex_u32_to_le nbits of None \<Rightarrow> None
                      | Some nbits_le \<Rightarrow>
                        Some \<lparr>job_seq = 0, job_job_id = out_job_id, job_extranonce2 = out_extranonce2,
                              job_ntime = out_ntime,
                              job_header = version_le @ prev @ merkle_root @ ntime_le @ nbits_le @ [0, 0, 0, 0],
                              job_target = miner_target_from_difficulty fl difficulty\<rparr>))))))
     | _ \<Rightarrow> None)"

section \<open>Targets: lemmas\<close>

lemma target_up_inv: "target_up mant ex = (m, e) \<Longrightarrow> ex \<le> 32 \<Longrightarrow> m * 256 ^ e = mant * 256 ^ ex \<and> ex \<le> e \<and> e \<le> 32 \<and>
  (m < 0x800000 \<or> e = 32) \<and> (0 < mant \<longrightarrow> 0 < m) \<and> (e = ex \<or> m \<ge> 0x8000)"
proof (induction mant ex arbitrary: m e rule: target_up.induct)
  case (1 mant ex)
  show ?case
  proof (cases "mant \<ge> 0x800000 \<and> ex < 32")
    case True
    then have "target_up (mant / 256) (ex + 1) = (m, e)" using "1.prems" by (subst (asm) target_up.simps) simp
    from "1.IH" [OF True this] True show ?thesis by (auto simp: field_simps) 
  next
    case False
    then have "m = mant" "e = ex" using "1.prems" by (subst (asm) target_up.simps, simp)+
    with False "1.prems" show ?thesis by auto
  qed
qed

lemma target_down_inv: "target_down mant ex = (m, e) \<Longrightarrow> 3 \<le> ex \<Longrightarrow> m * 256 ^ e = mant * 256 ^ ex \<and> 3 \<le> e \<and> e \<le> ex \<and>
  (0 < mant \<longrightarrow> m \<ge> 0x8000 \<or> e = 3) \<and> (0 < mant \<longrightarrow> 0 < m) \<and>
  (mant < 0x800000 \<longrightarrow> m < 0x800000) \<and> (mant \<ge> 0x800000 \<longrightarrow> m = mant \<and> e = ex)"
proof (induction mant ex arbitrary: m e rule: target_down.induct)
  case (1 mant ex)
  show ?case
  proof (cases "mant > 0 \<and> mant < 0x8000 \<and> ex > 3")
    case True
    then have t: "target_down (mant * 256) (ex - 1) = (m, e)" using "1.prems" by (subst (asm) target_down.simps) simp
    obtain k where k: "ex = Suc k" using True by (cases ex) auto
    from "1.IH" [OF True t] True show ?thesis by (auto simp: k) 
  next
    case False
    then have "m = mant" "e = ex" using "1.prems" by (subst (asm) target_down.simps, simp)+
    with False "1.prems" show ?thesis by auto
  qed
qed

lemma three_bytes_at:
  fixes a b c :: u8
  assumes "p \<le> 29"
  shows "(replicate 32 0)[p := a, p + 1 := b, p + 2 := c] = replicate p 0 @ [a, b, c] @ replicate (29 - p) 0"
proof -
  have "replicate 32 (0 :: u8) = replicate p 0 @ replicate (Suc (Suc (Suc (29 - p)))) 0"
    using assms by (simp only: replicate_add [symmetric]) simp
  then show ?thesis by (simp add: list_update_append)
qed

lemma rev_loop: "length xs = n \<Longrightarrow> map (\<lambda>i. xs ! (n - 1 - i)) [0..<n] = rev xs"
  by (simp add: list_eq_iff_nth_eq rev_nth)

lemma le_bytes_val_zeros [simp]: "le_bytes_val (replicate k 0 @ xs) = 256 ^ k * le_bytes_val xs"
  by (induction k) simp_all

lemma le_bytes_val_zeros' [simp]: "le_bytes_val (replicate k 0) = 0"
  by (induction k) simp_all

text \<open>The three bytes that are stored are the low 24 bits of the mantissa.\<close>

lemma le_bytes_val_u24:
  fixes m :: u32
  shows "unat (ucast m :: u8) + 256 * (unat (ucast (drop_bit 8 m) :: u8) + 256 * unat (ucast (drop_bit 16 m) :: u8)) =
    unat m mod 2 ^ 24"
proof -
  let ?lo = "unat (ucast m :: u8) + 256 * (unat (ucast (drop_bit 8 m) :: u8) + 256 * unat (ucast (drop_bit 16 m) :: u8))"
  have b: "unat (x :: u8) < 256" for x using unsigned_less [of x] by simp
  have "?lo < 2 ^ 24" using b [of "ucast m"] b [of "ucast (drop_bit 8 m)"] b [of "ucast (drop_bit 16 m)"] by simp
  moreover have "unat m = unat (ucast (drop_bit 24 m) :: u8) * 2 ^ 24 + ?lo"
    using unat_join32 [of "ucast (drop_bit 24 m)" "ucast (drop_bit 16 m)" "ucast (drop_bit 8 m)" "ucast m"]
    unfolding join32_bytes by simp
  ultimately show ?thesis by simp
qed

text \<open>The mantissa and exponent the two loops end with.\<close>

definition target_parts :: "(real \<Rightarrow> real) \<Rightarrow> real \<Rightarrow> real \<times> nat" where
  "target_parts fl difficulty =
    (let d = (if difficulty \<le> 0 then 1 else difficulty);
         (m, e) = target_up (fl (65535 / d)) 29
     in target_down m e)"

lemma target_parts_inv:
  assumes "target_parts fl d = (m, e)" and x: "x = fl (65535 / (if d \<le> 0 then 1 else d))"
    and "0 < x" "x < 2 ^ 56"
  shows "m * 256 ^ e = x * 256 ^ 29" "3 \<le> e" "e \<le> 32" "0 < m" "m < 2 ^ 32" "m \<ge> 0x8000 \<or> e = 3"
    "m < 0x800000 \<or> e = 32"
proof -
  obtain m1 e1 where up: "target_up x 29 = (m1, e1)" by fastforce
  with assms have down: "target_down m1 e1 = (m, e)" by (simp add: target_parts_def Let_def x)
  note u = target_up_inv [OF up, simplified]
  have "m1 < 2 ^ 32"
  proof (cases "e1 = 32")
    case True
    with u have "m1 * 256 ^ 32 = x * 256 ^ 29" by simp
    with assms(4) show ?thesis by simp
  qed (use u in auto)
  moreover note u target_down_inv [OF down] assms(3)
  ultimately show "m * 256 ^ e = x * 256 ^ 29" "3 \<le> e" "e \<le> 32" "0 < m" "m < 2 ^ 32" "m \<ge> 0x8000 \<or> e = 3"
    "m < 0x800000 \<or> e = 32"
    by (cases "m1 < 0x800000"; auto)+
qed

lemma target_value:
  assumes "target_parts fl d = (m, e)" "3 \<le> e" "e \<le> 32" "0 < m" "m < 2 ^ 32"
  shows "le_bytes_val (miner_target_from_difficulty fl d) = nat \<lfloor>m\<rfloor> mod 2 ^ 24 * 256 ^ (e - 3)"
proof -
  let ?m = "word_of_int \<lfloor>m\<rfloor> :: u32"
  have m: "unat ?m = nat \<lfloor>m\<rfloor>"
  proof -
    have f: "0 \<le> \<lfloor>m\<rfloor>" "\<lfloor>m\<rfloor> < 2 ^ 32" using assms(4,5) by (auto simp: floor_less_iff)
    have "take_bit 32 \<lfloor>m\<rfloor> = \<lfloor>m\<rfloor>" using f by (simp add: take_bit_int_eq_self)
    then show "unat ?m = nat \<lfloor>m\<rfloor>" by (simp add: unsigned_of_int)
  qed
  have "miner_target_from_difficulty fl d =
    rev (replicate (32 - e) 0 @ [ucast (drop_bit 16 ?m), ucast (drop_bit 8 ?m), ucast ?m] @ replicate (29 - (32 - e)) 0)"
  proof -
    obtain m1 e1 where up: "target_up (fl (65535 / (if d \<le> 0 then 1 else d))) 29 = (m1, e1)" by fastforce
    have down: "target_down m1 e1 = (m, e)" using assms(1) up by (simp add: target_parts_def Let_def)
    have i: "nat (32 - int e) = 32 - e" "0 \<le> 32 - int e" "32 - int e + 2 < 32" using assms(2,3) by auto
    have l: "length (replicate (32 - e) 0 @ [ucast (drop_bit 16 ?m), ucast (drop_bit 8 ?m), ucast ?m :: u8] @ replicate (29 - (32 - e)) 0) = 32"
      using assms(2,3) by simp
    show ?thesis
      unfolding miner_target_from_difficulty_def Let_def up prod.case down i(1)
      using three_bytes_at [of "32 - e" "ucast (drop_bit 16 ?m)" "ucast (drop_bit 8 ?m)" "ucast ?m"] assms(2,3) i
        rev_loop [OF l]
      by (simp add: local_array_def store_loop)
  qed
  moreover have "29 - (32 - e) = e - 3" using assms(2,3) by simp
  ultimately show ?thesis
    using le_bytes_val_u24 [of ?m] m
    by (simp add: mult.commute)
qed

text \<open>Below \<open>2 ^ 48\<close> the mantissa fits its three bytes; from there on, and as long as the cast to 32 bits is
  defined, the upper byte is cut off.\<close>

lemma target_parts_fit:
  assumes "target_parts fl d = (m, e)" and x: "x = fl (65535 / (if d \<le> 0 then 1 else d))" and "0 < x" "x < 2 ^ 48"
  shows "le_bytes_val (miner_target_from_difficulty fl d) = nat \<lfloor>m\<rfloor> * 256 ^ (e - 3)"
proof -
  have "x < 2 ^ 56" using assms(4) by simp
  note i = target_parts_inv [OF assms(1) x assms(3) this]
  have "m < 2 ^ 24"
  proof (cases "e = 32")
    case True
    then have "m * 256 ^ 32 = x * 256 ^ 29" using i(1) by simp
    then show ?thesis using assms(4) by simp
  qed (use i(7) in simp)
  then have "nat \<lfloor>m\<rfloor> < 2 ^ 24" using i(4) by (simp add: nat_less_iff floor_less_iff del: floor_less_numeral)
  then show ?thesis using target_value [OF assms(1) i(2-5)] by simp
qed

lemma target_wraps:
  assumes x: "x = fl (65535 / (if d \<le> 0 then 1 else d))" and "2 ^ 48 \<le> x" "x < 2 ^ 56"
  shows "le_bytes_val (miner_target_from_difficulty fl d) = nat \<lfloor>x / 2 ^ 24\<rfloor> mod 2 ^ 24 * 256 ^ 29"
proof -
  obtain m e where p: "target_parts fl d = (m, e)" by fastforce
  have pos: "0 < x" using assms(2) by (rule less_le_trans [rotated]) simp
  note i = target_parts_inv [OF p x pos assms(3)]
  have "e = 32"
  proof (rule ccontr)
    assume "e \<noteq> 32"
    then have "m * 256 ^ e < 0x800000 * 256 ^ 31"
      using i(3,4,7) by (intro mult_less_le_imp_less power_increasing) auto
    then show False using i(1) assms(2) by simp
  qed
  moreover from this have "x / 2 ^ 24 = m" using i(1) by simp
  ultimately show ?thesis unfolding \<open>x / 2 ^ 24 = m\<close> using target_value [OF p i(2-5)] by simp
qed

lemma floor_grid:
  fixes x :: real
  assumes "0 < m" "m * g = x" "1 \<le> g"
  shows "real (nat \<lfloor>m\<rfloor>) * g \<le> x" "x < real (nat \<lfloor>m\<rfloor>) * g + g"
proof -
  have r: "real (nat \<lfloor>m\<rfloor>) = of_int \<lfloor>m\<rfloor>" using assms(1) by simp
  show "real (nat \<lfloor>m\<rfloor>) * g \<le> x"
    unfolding r assms(2) [symmetric] using assms(3) by (intro mult_right_mono) auto
  have "m < of_int \<lfloor>m\<rfloor> + 1" by linarith
  then have "m * g < (of_int \<lfloor>m\<rfloor> + 1) * g" using assms(3) by (intro mult_strict_right_mono) auto
  then show "x < real (nat \<lfloor>m\<rfloor>) * g + g" unfolding r assms(2) by (simp add: algebra_simps)
qed

lemma target_accuracy:
  assumes x: "x = fl (65535 / (if d \<le> 0 then 1 else d))" and pos: "0 < x" "x < 2 ^ 48"
  defines "T \<equiv> real (le_bytes_val (miner_target_from_difficulty fl d))"
  shows "T \<le> x * 256 ^ 26" "x * 256 ^ 26 < T + T / 2 ^ 15 + 1"
proof -
  obtain m e where p: "target_parts fl d = (m, e)" by fastforce
  have "x < 2 ^ 56" using pos(2) by simp
  note i = target_parts_inv [OF p x pos(1) this]
  let ?g = "256 ^ (e - 3) :: real"
  have T: "T = real (nat \<lfloor>m\<rfloor>) * ?g"
    using target_parts_fit [OF p x pos] by (simp add: T_def)
  have e: "256 ^ e = 256 ^ (e - 3) * (256 ^ 3 :: real)" using i(2) by (metis le_add_diff_inverse2 power_add)
  have mg: "m * ?g = x * 256 ^ 26" using i(1) unfolding e by simp
  have g1: "1 \<le> ?g" by simp
  note f = floor_grid [OF i(4) mg g1]
  show "T \<le> x * 256 ^ 26" using f(1) by (simp add: T)
  have "?g \<le> T / 2 ^ 15 + 1"
  proof (cases "e = 3")
    case True
    then show ?thesis by (simp add: T)
  next
    case False
    then have "0x8000 \<le> m" using i(6) by simp
    then have "(0x8000 :: int) \<le> \<lfloor>m\<rfloor>" by (simp add: le_floor_iff)
    then have "0x8000 \<le> real (nat \<lfloor>m\<rfloor>)" by linarith
    then have "0x8000 * ?g \<le> T" unfolding T using g1 by (intro mult_right_mono) auto
    then show ?thesis by simp
  qed
  then show "x * 256 ^ 26 < T + T / 2 ^ 15 + 1" using f(2) unfolding T by linarith
qed

text \<open>Larger quotients give larger targets.\<close>

lemma parts_scale:
  fixes m m' :: real
  assumes "e < e'" "m < 0x800000" "0x8000 \<le> m'"
  shows "m * 256 ^ e < m' * 256 ^ e'" 
proof -
  obtain k where k: "e' = Suc e + k" using assms(1) by (metis Suc_leI le_add_diff_inverse)
  have "m * 256 ^ e < 0x800000 * 256 ^ e" using assms(2) by (intro mult_strict_right_mono) auto
  also have "\<dots> = 0x8000 * 256 ^ Suc e" by simp
  also have "\<dots> \<le> m' * 256 ^ e'"
    using assms(3) unfolding k by (intro mult_mono) (simp_all add: power_add)
  finally show ?thesis .
qed

lemma target_mono:
  assumes p: "target_parts fl d = (m, e)" "target_parts fl' d' = (m', e')"
    and x: "x = fl (65535 / (if d \<le> 0 then 1 else d))" "y = fl' (65535 / (if d' \<le> 0 then 1 else d'))"
    and pos: "0 < x" "x \<le> y" "y < 2 ^ 48"
  shows "le_bytes_val (miner_target_from_difficulty fl d) \<le> le_bytes_val (miner_target_from_difficulty fl' d')"
proof -
  have r: "x < 2 ^ 48" "0 < y" "x < 2 ^ 56" "y < 2 ^ 56" using pos by auto
  note i = target_parts_inv [OF p(1) x(1) pos(1) r(3)]
  note i' = target_parts_inv [OF p(2) x(2) r(2) r(4)]
  have le: "m * 256 ^ e \<le> m' * 256 ^ e'" unfolding i(1) i'(1) using pos(2) by simp
  have "\<not> e' < e"
    using parts_scale [of e' e m' m] i i' le by auto
  moreover have "nat \<lfloor>m\<rfloor> * 256 ^ (e - 3) \<le> nat \<lfloor>m'\<rfloor> * 256 ^ (e' - 3)"
  proof (cases "e = e'")
    case True
    then have "m \<le> m'" using le by simp
    then show ?thesis unfolding True by (intro mult_le_mono1 nat_mono floor_mono)
  next
    case False
    with \<open>\<not> e' < e\<close> have "e < e'" by simp
    with i i' have "m' \<ge> 0x8000" by auto
    then have "0x8000 \<le> real_of_int \<lfloor>m'\<rfloor>" by (metis le_floor_iff of_int_le_iff of_int_numeral)
    then have "real_of_int \<lfloor>m\<rfloor> * 256 ^ (e - 3) < real_of_int \<lfloor>m'\<rfloor> * 256 ^ (e' - 3)"
      using \<open>e < e'\<close> i(2,7) i'(3) by (intro parts_scale) linarith+
    moreover have "real (nat \<lfloor>m\<rfloor>) = real_of_int \<lfloor>m\<rfloor>" "real (nat \<lfloor>m'\<rfloor>) = real_of_int \<lfloor>m'\<rfloor>" using i(4) i'(4) by auto
    ultimately have "real (nat \<lfloor>m\<rfloor> * 256 ^ (e - 3)) \<le> real (nat \<lfloor>m'\<rfloor> * 256 ^ (e' - 3))" by simp
    then show ?thesis by (simp only: of_nat_le_iff)
  qed
  ultimately show ?thesis
    using target_parts_fit [OF p(1) x(1) pos(1) r(1)] target_parts_fit [OF p(2) x(2) r(2) pos(3)] by simp
qed

section \<open>Comparing bytes and comparing words\<close>

lemma le_bytes_val_bound: "le_bytes_val bs < 2 ^ (8 * length bs)"
proof (induction bs)
  case (Cons b bs)
  have "unat b < 2 ^ 8" using unsigned_less [of b] by simp
  moreover have "2 ^ 8 * (le_bytes_val bs + 1) \<le> 2 ^ 8 * 2 ^ (8 * length bs)"
    using Cons by (intro mult_le_mono2) simp
  ultimately show ?case by (simp add: power_add)
qed simp

lemma le_bytes_val_snoc: "le_bytes_val (bs @ [b]) = le_bytes_val bs + 2 ^ (8 * length bs) * unat b"
  by (induction bs) (simp_all add: power_add algebra_simps)

lemma hash_meets_from_le:
  assumes "n \<le> length hs" "n \<le> length ts"
  shows "hash_meets_from n hs ts \<longleftrightarrow> le_bytes_val (take n hs) \<le> le_bytes_val (take n ts)"
  using assms
proof (induction n)
  case (Suc n)
  have t: "take (Suc n) hs = take n hs @ [hs ! n]" "take (Suc n) ts = take n ts @ [ts ! n]"
    using Suc.prems by (simp_all add: take_Suc_conv_app_nth)
  have b: "le_bytes_val (take n hs) < 2 ^ (8 * n)" "le_bytes_val (take n ts) < 2 ^ (8 * n)"
    using le_bytes_val_bound [of "take n hs"] le_bytes_val_bound [of "take n ts"] Suc.prems by simp_all
  have l: "length (take n hs) = n" "length (take n ts) = n" using Suc.prems by simp_all
  show ?case using Suc
    unfolding t le_bytes_val_snoc l digit_compare [OF b]
    by (auto simp: word_less_nat_alt word_unat_eq_iff)
qed simp

lemma miner_hash_meets_target_le:
  assumes "length hs = 32" "length ts = 32"
  shows "miner_hash_meets_target hs ts \<longleftrightarrow> le_bytes_val hs \<le> le_bytes_val ts"
  using assms by (simp add: miner_hash_meets_target_def hash_meets_from_le)

section \<open>Building a job: lemmas\<close>

lemma sha256d_data_spec: "openssl_contract ssl \<Longrightarrow> sha256d_data ssl m = sha256d m"
  by (simp add: sha256d_data_def sha256d_def openssl_contract_def Let_def)

text \<open>The Merkle root of a coinbase and the decoded branch.\<close>

definition merkle_root_of :: "bytes \<Rightarrow> bytes list \<Rightarrow> bytes" where
  "merkle_root_of coinbase branch = foldl (\<lambda>mr b. sha256d (mr @ b)) (sha256d coinbase) branch"

lemma merkle_loop_fold:
  "openssl_contract ssl \<Longrightarrow> list_all2 (\<lambda>m b. hex_to_bytes m 32 = Some b) merkle branch \<Longrightarrow>
   merkle_loop ssl merkle mr = Some (foldl (\<lambda>mr b. sha256d (mr @ b)) mr branch)"
proof (induction merkle arbitrary: mr branch)
  case (Cons m ms)
  then show ?case by (cases branch) (simp_all add: sha256d_data_spec)
qed simp

lemma merkle_loop_SomeD:
  "merkle_loop ssl merkle mr = Some r \<Longrightarrow> list_all (\<lambda>m. hex_to_bytes m 32 \<noteq> None) merkle"
  by (induction merkle arbitrary: mr) (auto split: option.splits)

lemma merkle_loop_None_iff:
  "merkle_loop ssl merkle mr = None \<longleftrightarrow> \<not> list_all (\<lambda>s. length s = 64 \<and> list_all is_hex s) merkle"
proof (induction merkle arbitrary: mr)
  case (Cons m ms)
  then show ?case using hex_to_bytes_None_iff [of m 32] by (auto simp: Let_def split: option.splits)
qed simp

lemma merkle_loop_branch:
  "merkle_loop ssl merkle mr = Some r \<Longrightarrow>
   \<exists>branch. list_all2 (\<lambda>m b. hex_to_bytes m 32 = Some b) merkle branch"
  using merkle_loop_SomeD [of ssl merkle mr r]
  by (intro exI [of _ "map (\<lambda>m. the (hex_to_bytes m 32)) merkle"])
     (auto simp: list_all2_conv_all_nth list_all_length)

lemma length_miner_target [simp]: "length (miner_target_from_difficulty fl d) = 32"
  by (auto simp: miner_target_from_difficulty_def Let_def local_array_def store_loop split: prod.splits)

lemma length_sha256d [simp]: "length (sha256d m) = 32"
  by (simp add: sha256d_def)

lemma length_merkle_loop:
  assumes "openssl_contract ssl" "merkle_loop ssl merkle mr = Some r" "length mr = 32"
  shows "length r = 32"
  using assms(2,3)
proof (induction merkle arbitrary: mr)
  case (Cons m ms)
  then show ?case using assms(1) by (auto simp: sha256d_data_spec split: option.splits)
qed simp

text \<open>Success and failure of each step of \<open>miner_build_job\<close>.\<close>

lemma miner_build_job_Some_iff:
  "miner_build_job ssl alloc fl job_id prevhash coinb1 coinb2 merkle version nbits ntime en1 en2 d = Some job \<longleftrightarrow>
   length job_id < 128 \<and> length en2 < 32 \<and> length ntime < 16 \<and>
   alloc (length (coinb1 @ en1 @ en2 @ coinb2) + 1) \<and>
   (\<exists>cb r v p t b. hex_to_alloc alloc (coinb1 @ en1 @ en2 @ coinb2) = Some cb \<and>
      merkle_loop ssl merkle (sha256d_data ssl cb) = Some r \<and> hex_u32_to_le version = Some v \<and>
      prevhash_to_header_bytes prevhash = Some p \<and> hex_u32_to_le ntime = Some t \<and> hex_u32_to_le nbits = Some b \<and>
      job = \<lparr>job_seq = 0, job_job_id = job_id, job_extranonce2 = en2, job_ntime = ntime,
             job_header = v @ p @ r @ t @ b @ [0, 0, 0, 0],
             job_target = miner_target_from_difficulty fl d\<rparr>)"
  unfolding miner_build_job_def copy_checked_def
  by (auto simp: Let_def split: option.splits if_splits)

text \<open>The fields of a job that was built.\<close>

lemma build_job_fields:
  assumes "openssl_contract ssl"
    "miner_build_job ssl alloc fl job_id prevhash coinb1 coinb2 merkle version nbits ntime en1 en2 d = Some job"
  shows "length (job_header job) = 80 \<and> drop 76 (job_header job) = [0, 0, 0, 0] \<and>
    length (job_target job) = 32 \<and> job_seq job = 0 \<and> job_job_id job = job_id \<and> length (job_job_id job) < 128 \<and>
    job_extranonce2 job = en2 \<and> length (job_extranonce2 job) < 32 \<and>
    job_ntime job = ntime \<and> length (job_ntime job) < 16"
proof -
  obtain cb r v p t b where *: "merkle_loop ssl merkle (sha256d_data ssl cb) = Some r"
    "hex_u32_to_le version = Some v" "prevhash_to_header_bytes prevhash = Some p"
    "hex_u32_to_le ntime = Some t" "hex_u32_to_le nbits = Some b"
    and job: "job = \<lparr>job_seq = 0, job_job_id = job_id, job_extranonce2 = en2, job_ntime = ntime,
             job_header = v @ p @ r @ t @ b @ [0, 0, 0, 0], job_target = miner_target_from_difficulty fl d\<rparr>"
    and l: "length job_id < 128" "length en2 < 32" "length ntime < 16"
    using assms(2) unfolding miner_build_job_Some_iff by blast
  have "length v = 4" "length p = 32" "length r = 32" "length t = 4" "length b = 4"
    using * hex_u32_to_le_SomeD prevhash_SomeD length_merkle_loop [OF assms(1) *(1)] assms(1)
    by (auto simp: sha256d_data_spec)
  then show ?thesis using l by (simp add: job)
qed

text \<open>The header built from well-formed texts.\<close>

lemma build_job_header_eq:
  assumes "openssl_contract ssl" "\<And>n. alloc n"
    "length job_id < 128" "length en2 < 32"
    "coinb1 @ en1 @ en2 @ coinb2 = hex_of_bytes coinbase"
    "list_all2 (\<lambda>m b. m = hex_of_bytes b \<and> length b = 32) merkle branch"
    "length prev = 8"
  shows "miner_build_job ssl alloc fl job_id (hex_of_bytes (concat (map be32_bytes prev))) coinb1 coinb2 merkle
      (hex_of_bytes (be32_bytes version)) (hex_of_bytes (be32_bytes nbits)) (hex_of_bytes (be32_bytes ntime))
      en1 en2 difficulty =
    Some \<lparr>job_seq = 0, job_job_id = job_id, job_extranonce2 = en2,
          job_ntime = hex_of_bytes (be32_bytes ntime),
          job_header = le32_bytes version @ concat (map le32_bytes prev) @ merkle_root_of coinbase branch @
                       le32_bytes ntime @ le32_bytes nbits @ le32_bytes 0,
          job_target = miner_target_from_difficulty fl difficulty\<rparr>"
proof -
  have "list_all2 (\<lambda>m b. hex_to_bytes m 32 = Some b) merkle branch"
    using assms(6) by (rule list_all2_mono) (metis hex_to_bytes_hex_of_bytes)
  then have m: "merkle_loop ssl merkle (sha256d_data ssl coinbase) = Some (merkle_root_of coinbase branch)"
    using assms(1) by (simp add: merkle_loop_fold merkle_root_of_def sha256d_data_spec)
  have "hex_to_alloc alloc (coinb1 @ en1 @ en2 @ coinb2) = Some coinbase"
    using hex_to_alloc_eq [of alloc "hex_of_bytes coinbase"] assms(2) hex_to_bytes_hex_of_bytes [of coinbase]
    by (simp add: assms(5))
  moreover have "le32_bytes 0 = [0, 0, 0, 0]" by (simp add: le32_bytes_def)
  ultimately show ?thesis
    using assms(2-4) m prevhash_words [OF assms(7)]
    by (simp add: miner_build_job_Some_iff)
qed

section \<open>Properties\<close>

text \<open>C19. A template whose fields are the usual hexadecimal texts is turned into the block header the
  Bitcoin protocol prescribes: version, previous hash, Merkle root, time and bits, each word stored
  little-endian, and an empty nonce. The Merkle root folds the branch over the double hash of the
  coinbase (first part, both extranonces, second part). The job is labelled with the given job id,
  extranonce2 and time, and with the target of the difficulty.\<close>

theorem build_job_header:
  assumes "openssl_contract ssl" "\<And>n. alloc n"
    "length job_id < 128" "length en2 < 32"
    "coinb1 @ en1 @ en2 @ coinb2 = hex_of_bytes coinbase"
    "list_all2 (\<lambda>m b. m = hex_of_bytes b \<and> length b = 32) merkle branch"
    "length prev = 8"
  shows "miner_build_job ssl alloc fl job_id (hex_of_bytes (concat (map be32_bytes prev))) coinb1 coinb2 merkle
      (hex_of_bytes (be32_bytes version)) (hex_of_bytes (be32_bytes nbits)) (hex_of_bytes (be32_bytes ntime))
      en1 en2 difficulty =
    Some \<lparr>job_seq = 0, job_job_id = job_id, job_extranonce2 = en2,
          job_ntime = hex_of_bytes (be32_bytes ntime),
          job_header = le32_bytes version @ concat (map le32_bytes prev) @ merkle_root_of coinbase branch @
                       le32_bytes ntime @ le32_bytes nbits @ le32_bytes 0,
          job_target = miner_target_from_difficulty fl difficulty\<rparr>"
  by (rule build_job_header_eq [OF assms])

theorem build_job_header_witness:
  "openssl_contract openssl_ref \<and>
   miner_build_job openssl_ref (\<lambda>n. True) (\<lambda>x. x) ''job7''
     (hex_of_bytes (concat (map be32_bytes (replicate 8 0x01020304)))) ''01'' ''ff'' [hex_of_bytes (replicate 32 5)]
     (hex_of_bytes (be32_bytes 0x20000000)) (hex_of_bytes (be32_bytes 0x1d00ffff)) (hex_of_bytes (be32_bytes 7))
     ''aa'' ''0002'' 1 =
   Some \<lparr>job_seq = 0, job_job_id = ''job7'', job_extranonce2 = ''0002'',
         job_ntime = hex_of_bytes (be32_bytes 7),
         job_header = le32_bytes 0x20000000 @ concat (map le32_bytes (replicate 8 0x01020304)) @
           merkle_root_of [0x01, 0xaa, 0x00, 0x02, 0xff] [replicate 32 5] @
           le32_bytes 7 @ le32_bytes 0x1d00ffff @ le32_bytes 0,
         job_target = miner_target_from_difficulty (\<lambda>x. x) 1\<rparr>"
proof -
  have "''01'' @ ''aa'' @ ''0002'' @ ''ff'' = hex_of_bytes [0x01, 0xaa, 0x00, 0x02, 0xff]"
    by (simp add: hex_of_bytes_def hex_of_byte_def hex_digit_def)
  then show ?thesis
    using build_job_header [OF openssl_contract_ref, of "\<lambda>n. True" "''job7''" "''0002''" "''01''" "''aa''" "''ff''"
        "[0x01, 0xaa, 0x00, 0x02, 0xff]" "[hex_of_bytes (replicate 32 5)]" "[replicate 32 5]"
        "replicate 8 0x01020304" "\<lambda>x. x" "0x20000000" "0x1d00ffff" 7 1]
    by (simp add: openssl_contract_ref)
qed

text \<open>C20. A job is built exactly when every field is acceptable: the three labels fit their buffers,
  the coinbase text has an even number of hexadecimal digits, every Merkle entry and the previous hash
  are 64 of them, version, time and bits are 8 each, and memory is available. In every other case
  the result is the error value.\<close>

theorem build_job_accepts_iff:
  "(\<exists>job. miner_build_job ssl (\<lambda>n. True) fl job_id prevhash coinb1 coinb2 merkle version nbits ntime en1 en2 d =
      Some job) \<longleftrightarrow>
   length job_id < 128 \<and> length en2 < 32 \<and>
   even (length (coinb1 @ en1 @ en2 @ coinb2)) \<and> list_all is_hex (coinb1 @ en1 @ en2 @ coinb2) \<and>
   list_all (\<lambda>s. length s = 64 \<and> list_all is_hex s) merkle \<and>
   length prevhash = 64 \<and> list_all is_hex prevhash \<and>
   list_all (\<lambda>s. length s = 8 \<and> list_all is_hex s) [version, ntime, nbits]"
proof -
  let ?cb = "coinb1 @ en1 @ en2 @ coinb2"
  have a: "(\<exists>cb. hex_to_alloc (\<lambda>n. True) ?cb = Some cb) \<longleftrightarrow> even (length ?cb) \<and> list_all is_hex ?cb"
    using hex_to_alloc_None_iff [of ?cb] by auto
  have m: "(\<exists>r. merkle_loop ssl merkle x = Some r) \<longleftrightarrow>
      list_all (\<lambda>s. length s = 64 \<and> list_all is_hex s) merkle" for x
    using merkle_loop_None_iff [of ssl merkle x] by auto
  have u: "(\<exists>b. hex_u32_to_le s = Some b) \<longleftrightarrow> length s = 8 \<and> list_all is_hex s" for s
    using hex_u32_to_le_None_iff [of s] by auto
  have p: "(\<exists>b. prevhash_to_header_bytes prevhash = Some b) \<longleftrightarrow> length prevhash = 64 \<and> list_all is_hex prevhash"
    using prevhash_None_iff [of prevhash] by auto
  have "(\<exists>job. miner_build_job ssl (\<lambda>n. True) fl job_id prevhash coinb1 coinb2 merkle version nbits ntime
        en1 en2 d = Some job) \<longleftrightarrow>
    length job_id < 128 \<and> length en2 < 32 \<and> length ntime < 16 \<and>
    (\<exists>cb. hex_to_alloc (\<lambda>n. True) ?cb = Some cb \<and> (\<exists>r. merkle_loop ssl merkle (sha256d_data ssl cb) = Some r)) \<and>
    (\<exists>b. hex_u32_to_le version = Some b) \<and> (\<exists>b. prevhash_to_header_bytes prevhash = Some b) \<and>
    (\<exists>b. hex_u32_to_le ntime = Some b) \<and> (\<exists>b. hex_u32_to_le nbits = Some b)"
    unfolding miner_build_job_Some_iff by blast
  also have "\<dots> \<longleftrightarrow> length job_id < 128 \<and> length en2 < 32 \<and> length ntime < 16 \<and>
    (even (length ?cb) \<and> list_all is_hex ?cb) \<and> list_all (\<lambda>s. length s = 64 \<and> list_all is_hex s) merkle \<and>
    (length version = 8 \<and> list_all is_hex version) \<and> (length prevhash = 64 \<and> list_all is_hex prevhash) \<and>
    (length ntime = 8 \<and> list_all is_hex ntime) \<and> (length nbits = 8 \<and> list_all is_hex nbits)"
    unfolding m u p a [symmetric] by blast
  finally show ?thesis by auto
qed

text \<open>Every job that is built has an 80-byte header with the four nonce bytes zero, a 32-byte target
  and sequence number 0, and its labels are the given ones and fit their buffers.\<close>

theorem build_job_wellformed:
  assumes "openssl_contract ssl"
    "miner_build_job ssl alloc fl job_id prevhash coinb1 coinb2 merkle version nbits ntime en1 en2 d = Some job"
  shows "length (job_header job) = 80 \<and> drop 76 (job_header job) = [0, 0, 0, 0] \<and>
    length (job_target job) = 32 \<and> job_seq job = 0 \<and> job_job_id job = job_id \<and> length (job_job_id job) < 128 \<and>
    job_extranonce2 job = en2 \<and> length (job_extranonce2 job) < 32 \<and>
    job_ntime job = ntime \<and> length (job_ntime job) < 16"
  by (rule build_job_fields [OF assms])

theorem build_job_wellformed_witness:
  "\<exists>job. miner_build_job openssl_ref (\<lambda>n. True) (\<lambda>x. x) ''j''
     (hex_of_bytes (concat (map be32_bytes (replicate 8 0)))) [] [] [] (hex_of_bytes (be32_bytes 2))
     (hex_of_bytes (be32_bytes 3)) (hex_of_bytes (be32_bytes 4)) ''aa'' ''0002'' 1 = Some job \<and>
     length (job_header job) = 80 \<and> length (job_target job) = 32"
proof -
  have h: "hex_to_alloc (\<lambda>n. True) ''aa0002'' = Some [0xaa, 0x00, 0x02]"
    by (simp add: hex_to_alloc_def hex_to_bytes_def hex_value_def less_eq_char_def)
  obtain job where j: "miner_build_job openssl_ref (\<lambda>n. True) (\<lambda>x. x) ''j''
     (hex_of_bytes (concat (map be32_bytes (replicate 8 0)))) [] [] [] (hex_of_bytes (be32_bytes 2))
     (hex_of_bytes (be32_bytes 3)) (hex_of_bytes (be32_bytes 4)) ''aa'' ''0002'' 1 = Some job"
    using prevhash_words [of "replicate 8 0"] h by (simp add: miner_build_job_Some_iff)
  with build_job_wellformed [OF openssl_contract_ref j] show ?thesis by auto
qed



text \<open>The target of difficulty 1 on exact arithmetic, evaluated.\<close>

lemma target_of_difficulty_1:
  "miner_target_from_difficulty (\<lambda>x. x) 1 = replicate 26 0 @ [0xff, 0xff] @ replicate 4 0"
  by (simp add: miner_target_from_difficulty_def Let_def target_up.simps [of 65535] target_down.simps [of 65535]
      local_array_def literal_arrays)

end
