(* ===== verification/Share_Queue.thy ===== *)
theory Share_Queue
  imports Prelude
begin

text \<open>
  The ring of found shares inside \<open>struct miner\<close> (\<open>shares\<close>, \<open>share_head\<close>, \<open>share_tail\<close>,
  \<open>share_count\<close> of \<open>src/src/miner.c\<close>): storing at the tail, taking from the head, emptying. The ring
  refines a bounded first-in first-out queue, stated as the locale \<open>bounded_fifo\<close>; a full queue drops
  the new element.
\<close>

section \<open>The ring\<close>

definition SHARE_QUEUE_SIZE :: nat where
  "SHARE_QUEUE_SIZE = 256"

record 'a share_ring =
  shares :: "'a list"
  share_head :: nat
  share_tail :: nat
  share_count :: nat

text \<open>The ring part of \<open>queue_share_locked\<close>, for a share already filled in.\<close>

definition ring_push :: "'a \<Rightarrow> ('a, 'z) share_ring_scheme \<Rightarrow> ('a, 'z) share_ring_scheme" where
  "ring_push share r =
    (if share_count r \<ge> SHARE_QUEUE_SIZE then r
     else r\<lparr>shares := (shares r)[share_tail r := share],
            share_tail := (share_tail r + 1) mod SHARE_QUEUE_SIZE,
            share_count := share_count r + 1\<rparr>)"

text \<open>The body of \<open>miner_pop_share\<close>.\<close>

definition ring_pop :: "('a, 'z) share_ring_scheme \<Rightarrow> 'a option \<times> ('a, 'z) share_ring_scheme" where
  "ring_pop r =
    (if share_count r > 0
     then (Some (shares r ! share_head r),
           r\<lparr>share_head := (share_head r + 1) mod SHARE_QUEUE_SIZE, share_count := share_count r - 1\<rparr>)
     else (None, r))"

text \<open>What \<open>miner_set_job\<close> does to the ring.\<close>

definition ring_clear :: "('a, 'z) share_ring_scheme \<Rightarrow> ('a, 'z) share_ring_scheme" where
  "ring_clear r = r\<lparr>share_head := 0, share_tail := 0, share_count := 0\<rparr>"

section \<open>Bounded queues\<close>

text \<open>The contract: a state has a list of contents; \<open>push\<close> appends while there is room, \<open>pop\<close> takes the
  oldest, \<open>clear\<close> forgets all.\<close>

locale bounded_fifo =
  fixes push :: "'a \<Rightarrow> 's \<Rightarrow> 's"
    and pop :: "'s \<Rightarrow> 'a option \<times> 's"
    and clear :: "'s \<Rightarrow> 's"
    and contents :: "'s \<Rightarrow> 'a list"
    and ok :: "'s \<Rightarrow> bool"
    and cap :: nat
  assumes ok_push: "ok s \<Longrightarrow> ok (push x s)"
    and ok_pop: "ok s \<Longrightarrow> ok (snd (pop s))"
    and ok_clear: "ok s \<Longrightarrow> ok (clear s)"
    and contents_push: "ok s \<Longrightarrow>
      contents (push x s) = (if length (contents s) < cap then contents s @ [x] else contents s)"
    and pop_contents: "ok s \<Longrightarrow>
      (case contents s of
         [] \<Rightarrow> pop s = (None, s)
       | x # xs \<Rightarrow> fst (pop s) = Some x \<and> contents (snd (pop s)) = xs)"
    and contents_clear: "ok s \<Longrightarrow> contents (clear s) = []"
begin

primrec push_all :: "'a list \<Rightarrow> 's \<Rightarrow> 's" where
  "push_all [] s = s"
| "push_all (x # xs) s = push_all xs (push x s)"

primrec pop_n :: "nat \<Rightarrow> 's \<Rightarrow> 'a list \<times> 's" where
  "pop_n 0 s = ([], s)"
| "pop_n (Suc n) s =
    (case pop s of
       (None, s') \<Rightarrow> ([], s')
     | (Some x, s') \<Rightarrow> (case pop_n n s' of (xs, s'') \<Rightarrow> (x # xs, s'')))"

lemma ok_push_all: "ok s \<Longrightarrow> ok (push_all xs s)"
  by (induction xs arbitrary: s) (simp_all add: ok_push)

lemma contents_push_all:
  "ok s \<Longrightarrow> length (contents s) \<le> cap \<Longrightarrow>
   contents (push_all xs s) = contents s @ take (cap - length (contents s)) xs"
proof (induction xs arbitrary: s)
  case (Cons x xs)
  have "cap - length (contents s) = Suc (cap - Suc (length (contents s)))" if "length (contents s) < cap"
    using that by simp
  with Cons show ?case by (auto simp: ok_push contents_push)
qed simp

lemma pop_n_contents:
  "ok s \<Longrightarrow> fst (pop_n n s) = take n (contents s) \<and> ok (snd (pop_n n s)) \<and>
            contents (snd (pop_n n s)) = drop n (contents s)"
proof (induction n arbitrary: s)
  case (Suc n)
  show ?case
  proof (cases "contents s")
    case Nil
    then show ?thesis using pop_contents [OF Suc.prems] Suc.prems by simp
  next
    case (Cons x xs)
    then obtain s' where s': "pop s = (Some x, s')" "contents s' = xs" "ok s'"
      using pop_contents [OF Suc.prems] ok_pop [OF Suc.prems] by (cases "pop s") auto
    then show ?thesis using Suc.IH [of s'] Cons by (simp add: case_prod_beta)
  qed
qed simp

text \<open>What is pushed on an emptied queue comes out in order, up to the capacity.\<close>

lemma push_pop_fifo:
  assumes "ok s"
  shows "fst (pop_n (length xs) (push_all xs (clear s))) = take cap xs"
proof -
  have c: "ok (clear s)" "contents (clear s) = []" using assms by (simp_all add: ok_clear contents_clear)
  then have "contents (push_all xs (clear s)) = take cap xs" by (simp add: contents_push_all)
  then show ?thesis
    using pop_n_contents [OF ok_push_all [OF c(1)], of "length xs" xs] by (simp add: min_def)
qed

end

section \<open>The ring is a bounded queue\<close>

definition ring_ok :: "('a, 'z) share_ring_scheme \<Rightarrow> bool" where
  "ring_ok r \<longleftrightarrow> length (shares r) = SHARE_QUEUE_SIZE \<and> share_head r < SHARE_QUEUE_SIZE \<and>
     share_count r \<le> SHARE_QUEUE_SIZE \<and>
     share_tail r = (share_head r + share_count r) mod SHARE_QUEUE_SIZE"

definition ring_contents :: "('a, 'z) share_ring_scheme \<Rightarrow> 'a list" where
  "ring_contents r = map (\<lambda>i. shares r ! ((share_head r + i) mod SHARE_QUEUE_SIZE)) [0..<share_count r]"

lemma SHARE_QUEUE_SIZE_pos [simp]: "0 < SHARE_QUEUE_SIZE"
  by (simp add: SHARE_QUEUE_SIZE_def)

lemma length_ring_contents [simp]: "length (ring_contents r) = share_count r"
  by (simp add: ring_contents_def)

text \<open>The slots in use are never the tail slot of a ring with room.\<close>

lemma ring_slot_neq:
  assumes "i < c" "c < (n :: nat)"
  shows "(h + i) mod n \<noteq> (h + c) mod n"
proof
  assume "(h + i) mod n = (h + c) mod n"
  then have "n dvd (h + c) - (h + i)" using assms by (metis mod_eq_dvd_iff_nat add_le_cancel_left less_imp_le)
  moreover have "(h + c) - (h + i) = c - i" by simp
  ultimately show False using assms by (auto dest!: dvd_imp_le)
qed

lemma ring_contents_push:
  assumes "ring_ok r"
  shows "ring_contents (ring_push x r) =
         (if length (ring_contents r) < SHARE_QUEUE_SIZE then ring_contents r @ [x] else ring_contents r)"
proof (cases "share_count r < SHARE_QUEUE_SIZE")
  case True
  have "(shares r)[share_tail r := x] ! ((share_head r + i) mod SHARE_QUEUE_SIZE) =
        shares r ! ((share_head r + i) mod SHARE_QUEUE_SIZE)" if "i < share_count r" for i
    using ring_slot_neq [OF that True, of "share_head r"] assms by (simp add: ring_ok_def)
  moreover have "(shares r)[share_tail r := x] ! ((share_head r + share_count r) mod SHARE_QUEUE_SIZE) = x"
    using assms by (simp add: ring_ok_def)
  ultimately show ?thesis using True by (simp add: ring_push_def ring_contents_def)
qed (simp add: ring_push_def ring_contents_def)

lemma ring_ok_push: "ring_ok r \<Longrightarrow> ring_ok (ring_push x r)"
  using mod_add_left_eq [of "share_head r + share_count r" SHARE_QUEUE_SIZE 1]
  by (simp add: ring_ok_def ring_push_def)

lemma ring_ok_pop: "ring_ok r \<Longrightarrow> ring_ok (snd (ring_pop r))"
proof (cases "share_count r")
  case (Suc n)
  then show "ring_ok r \<Longrightarrow> ?thesis"
    using mod_add_left_eq [of "Suc (share_head r)" SHARE_QUEUE_SIZE n] by (simp add: ring_ok_def ring_pop_def)
qed (simp add: ring_pop_def)

lemma ring_ok_clear: "ring_ok r \<Longrightarrow> ring_ok (ring_clear r)"
  by (simp add: ring_ok_def ring_clear_def)

lemma ring_pop_contents:
  assumes "ring_ok r"
  shows "case ring_contents r of
           [] \<Rightarrow> ring_pop r = (None, r)
         | x # xs \<Rightarrow> fst (ring_pop r) = Some x \<and> ring_contents (snd (ring_pop r)) = xs"
proof (cases "share_count r")
  case 0
  then show ?thesis by (simp add: ring_contents_def ring_pop_def)
next
  case (Suc n)
  have "[0..<Suc n] = 0 # map Suc [0..<n]" by (simp add: upt_conv_Cons map_Suc_upt del: upt_Suc)
  then have "ring_contents r = shares r ! (share_head r mod SHARE_QUEUE_SIZE) #
      map (\<lambda>i. shares r ! ((share_head r + Suc i) mod SHARE_QUEUE_SIZE)) [0..<n]"
    by (simp add: ring_contents_def Suc comp_def del: upt_Suc)
  then show ?thesis using assms Suc
    by (simp add: ring_pop_def ring_contents_def ring_ok_def mod_simps)
qed

interpretation share_queue: bounded_fifo ring_push ring_pop ring_clear ring_contents ring_ok SHARE_QUEUE_SIZE
  by unfold_locales
     (simp_all only: ring_ok_push ring_ok_pop ring_ok_clear ring_contents_push ring_pop_contents,
      simp add: ring_contents_def ring_clear_def)

section \<open>Properties\<close>



end
