(* ===== verification/Gpu_Config.thy ===== *)
theory Gpu_Config
  imports Prelude
begin

text \<open>
  The GPU settings of \<open>src/src/miner.h\<close> and the functions of \<open>src/src/miner.c\<close> that fill them in:
  defaults, the settings of one resolved OpenCL device, and the repair of out-of-range values that
  \<open>miner_create_with_backend_options\<close> applies to what the caller passes.
\<close>

section \<open>Settings\<close>

definition MINER_OPENCL_MAX_DEVICES :: int where "MINER_OPENCL_MAX_DEVICES = 8"
definition MINER_OPENCL_KERNEL_AUTO :: int where "MINER_OPENCL_KERNEL_AUTO = 0"
definition MINER_OPENCL_KERNEL_REGISTER_HEAVY :: int where "MINER_OPENCL_KERNEL_REGISTER_HEAVY = 6"
definition MINER_OPENCL_BACKEND_AUTO :: int where "MINER_OPENCL_BACKEND_AUTO = 0"
definition MINER_OPENCL_BACKEND_MODERN :: int where "MINER_OPENCL_BACKEND_MODERN = 2"
definition MINER_OPENCL_DEFAULT_BATCH_SIZE :: u32 where "MINER_OPENCL_DEFAULT_BATCH_SIZE = 1048576"
definition MINER_OPENCL_DEFAULT_NONCES_PER_WORK_ITEM :: u32 where "MINER_OPENCL_DEFAULT_NONCES_PER_WORK_ITEM = 1"
definition MINER_OPENCL_DEFAULT_MAX_RESULTS :: u32 where "MINER_OPENCL_DEFAULT_MAX_RESULTS = 256"
definition MINER_CUDA_DEFAULT_BATCH_SIZE :: u32 where "MINER_CUDA_DEFAULT_BATCH_SIZE = 4194304"
definition MINER_CUDA_DEFAULT_THREADS_PER_BLOCK :: u32 where "MINER_CUDA_DEFAULT_THREADS_PER_BLOCK = 256"
definition MINER_CUDA_DEFAULT_NONCES_PER_THREAD :: u32 where "MINER_CUDA_DEFAULT_NONCES_PER_THREAD = 1"
definition MINER_CUDA_DEFAULT_MAX_RESULTS :: u32 where "MINER_CUDA_DEFAULT_MAX_RESULTS = 256"
definition MINER_CUDA_KERNEL_STANDARD :: int where "MINER_CUDA_KERNEL_STANDARD = 0"
definition MINER_CUDA_KERNEL_LAST :: int where "MINER_CUDA_KERNEL_LAST = 8"
definition MINER_CUDA_DEFAULT_KERNEL_VARIANT :: int where "MINER_CUDA_DEFAULT_KERNEL_VARIANT = 0"

lemmas gpu_constants =
  MINER_OPENCL_KERNEL_AUTO_def MINER_OPENCL_KERNEL_REGISTER_HEAVY_def MINER_OPENCL_BACKEND_AUTO_def
  MINER_OPENCL_BACKEND_MODERN_def MINER_OPENCL_DEFAULT_BATCH_SIZE_def
  MINER_OPENCL_DEFAULT_NONCES_PER_WORK_ITEM_def MINER_OPENCL_DEFAULT_MAX_RESULTS_def
  MINER_CUDA_DEFAULT_BATCH_SIZE_def MINER_CUDA_DEFAULT_THREADS_PER_BLOCK_def
  MINER_CUDA_DEFAULT_NONCES_PER_THREAD_def MINER_CUDA_DEFAULT_MAX_RESULTS_def
  MINER_CUDA_KERNEL_STANDARD_def MINER_CUDA_KERNEL_LAST_def MINER_CUDA_DEFAULT_KERNEL_VARIANT_def

text \<open>One resolved device; the prefix \<open>dev_\<close> keeps the field names apart.\<close>

record miner_opencl_device_config_t =
  dev_platform :: int
  dev_device :: int
  dev_batch_size :: u32
  dev_local_work_size :: u32
  dev_nonces_per_work_item :: u32
  dev_max_results :: u32
  dev_backend_variant :: int
  dev_kernel_variant :: int

record miner_opencl_config_t =
  ocl_enabled :: bool
  ocl_all_devices :: bool
  ocl_platform :: int
  ocl_device :: int
  ocl_batch_size :: u32
  ocl_local_work_size :: u32
  ocl_nonces_per_work_item :: u32
  ocl_max_results :: u32
  ocl_backend_variant :: int
  ocl_kernel_variant :: int
  ocl_device_count :: int
  ocl_devices :: "miner_opencl_device_config_t list"

record miner_cuda_config_t =
  cuda_enabled :: bool
  cuda_device_index :: int
  cuda_batch_size :: u32
  cuda_threads_per_block :: u32
  cuda_nonces_per_thread :: u32
  cuda_max_results :: u32
  cuda_kernel_variant :: int

text \<open>An all-zero device entry.\<close>

definition zero_device :: miner_opencl_device_config_t where
  "zero_device = \<lparr>dev_platform = 0, dev_device = 0, dev_batch_size = 0, dev_local_work_size = 0,
     dev_nonces_per_work_item = 0, dev_max_results = 0, dev_backend_variant = 0, dev_kernel_variant = 0\<rparr>"

definition miner_opencl_config_defaults :: miner_opencl_config_t where
  "miner_opencl_config_defaults =
    \<lparr>ocl_enabled = False, ocl_all_devices = True, ocl_platform = 0, ocl_device = 0,
     ocl_batch_size = MINER_OPENCL_DEFAULT_BATCH_SIZE, ocl_local_work_size = 0,
     ocl_nonces_per_work_item = MINER_OPENCL_DEFAULT_NONCES_PER_WORK_ITEM,
     ocl_max_results = MINER_OPENCL_DEFAULT_MAX_RESULTS,
     ocl_backend_variant = MINER_OPENCL_BACKEND_AUTO, ocl_kernel_variant = MINER_OPENCL_KERNEL_AUTO,
     ocl_device_count = 0, ocl_devices = replicate 8 zero_device\<rparr>"

definition opencl_device_to_config ::
  "miner_opencl_config_t option \<Rightarrow> miner_opencl_device_config_t option \<Rightarrow> miner_opencl_config_t" where
  "opencl_device_to_config base device =
    (let out = miner_opencl_config_defaults;
         out = (case base of None \<Rightarrow> out | Some b \<Rightarrow> b);
         out = out\<lparr>ocl_enabled := True, ocl_all_devices := False, ocl_device_count := 0\<rparr>
     in case device of
          None \<Rightarrow> out
        | Some d \<Rightarrow>
           out\<lparr>ocl_platform := dev_platform d,
               ocl_device := dev_device d,
               ocl_batch_size := (if dev_batch_size d \<noteq> 0 then dev_batch_size d else ocl_batch_size out),
               ocl_local_work_size :=
                 (if dev_local_work_size d \<noteq> 0 then dev_local_work_size d else ocl_local_work_size out),
               ocl_nonces_per_work_item :=
                 (if dev_nonces_per_work_item d \<noteq> 0 then dev_nonces_per_work_item d
                  else ocl_nonces_per_work_item out),
               ocl_max_results := (if dev_max_results d \<noteq> 0 then dev_max_results d else ocl_max_results out),
               ocl_backend_variant :=
                 (if dev_backend_variant d \<noteq> MINER_OPENCL_BACKEND_AUTO then dev_backend_variant d
                  else ocl_backend_variant out),
               ocl_kernel_variant :=
                 (if dev_kernel_variant d \<noteq> MINER_OPENCL_KERNEL_AUTO then dev_kernel_variant d
                  else ocl_kernel_variant out)\<rparr>)"

definition miner_cuda_config_defaults :: miner_cuda_config_t where
  "miner_cuda_config_defaults =
    \<lparr>cuda_enabled = False, cuda_device_index = 0, cuda_batch_size = MINER_CUDA_DEFAULT_BATCH_SIZE,
     cuda_threads_per_block = MINER_CUDA_DEFAULT_THREADS_PER_BLOCK,
     cuda_nonces_per_thread = MINER_CUDA_DEFAULT_NONCES_PER_THREAD,
     cuda_max_results = MINER_CUDA_DEFAULT_MAX_RESULTS,
     cuda_kernel_variant = MINER_CUDA_DEFAULT_KERNEL_VARIANT\<rparr>"

text \<open>The two repair blocks of \<open>miner_create_with_backend_options\<close>.\<close>

definition repair_opencl_config :: "miner_opencl_config_t \<Rightarrow> miner_opencl_config_t" where
  "repair_opencl_config c =
    (let c = (if ocl_batch_size c = 0 then c\<lparr>ocl_batch_size := MINER_OPENCL_DEFAULT_BATCH_SIZE\<rparr> else c);
         c = (if ocl_nonces_per_work_item c = 0
              then c\<lparr>ocl_nonces_per_work_item := MINER_OPENCL_DEFAULT_NONCES_PER_WORK_ITEM\<rparr> else c);
         c = (if ocl_max_results c = 0 then c\<lparr>ocl_max_results := MINER_OPENCL_DEFAULT_MAX_RESULTS\<rparr> else c);
         c = (if ocl_backend_variant c < MINER_OPENCL_BACKEND_AUTO \<or>
                 ocl_backend_variant c > MINER_OPENCL_BACKEND_MODERN
              then c\<lparr>ocl_backend_variant := MINER_OPENCL_BACKEND_AUTO\<rparr> else c)
     in if ocl_kernel_variant c < MINER_OPENCL_KERNEL_AUTO \<or>
           ocl_kernel_variant c > MINER_OPENCL_KERNEL_REGISTER_HEAVY
        then c\<lparr>ocl_kernel_variant := MINER_OPENCL_KERNEL_AUTO\<rparr> else c)"

definition repair_cuda_config :: "miner_cuda_config_t \<Rightarrow> miner_cuda_config_t" where
  "repair_cuda_config c =
    (let c = (if cuda_batch_size c = 0 then c\<lparr>cuda_batch_size := MINER_CUDA_DEFAULT_BATCH_SIZE\<rparr> else c);
         c = (if cuda_threads_per_block c = 0
              then c\<lparr>cuda_threads_per_block := MINER_CUDA_DEFAULT_THREADS_PER_BLOCK\<rparr> else c);
         c = (if cuda_nonces_per_thread c = 0
              then c\<lparr>cuda_nonces_per_thread := MINER_CUDA_DEFAULT_NONCES_PER_THREAD\<rparr> else c);
         c = (if cuda_max_results c = 0 then c\<lparr>cuda_max_results := MINER_CUDA_DEFAULT_MAX_RESULTS\<rparr> else c)
     in if cuda_kernel_variant c < MINER_CUDA_KERNEL_STANDARD \<or> cuda_kernel_variant c > MINER_CUDA_KERNEL_LAST
        then c\<lparr>cuda_kernel_variant := MINER_CUDA_DEFAULT_KERNEL_VARIANT\<rparr> else c)"

section \<open>What a usable setting is\<close>

definition opencl_config_ok :: "miner_opencl_config_t \<Rightarrow> bool" where
  "opencl_config_ok c \<longleftrightarrow> ocl_batch_size c \<noteq> 0 \<and> ocl_nonces_per_work_item c \<noteq> 0 \<and> ocl_max_results c \<noteq> 0 \<and>
     0 \<le> ocl_backend_variant c \<and> ocl_backend_variant c \<le> 2 \<and>
     0 \<le> ocl_kernel_variant c \<and> ocl_kernel_variant c \<le> 6"

definition cuda_config_ok :: "miner_cuda_config_t \<Rightarrow> bool" where
  "cuda_config_ok c \<longleftrightarrow> cuda_batch_size c \<noteq> 0 \<and> cuda_threads_per_block c \<noteq> 0 \<and> cuda_nonces_per_thread c \<noteq> 0 \<and>
     cuda_max_results c \<noteq> 0 \<and> 0 \<le> cuda_kernel_variant c \<and> cuda_kernel_variant c \<le> 8"

lemma repair_opencl_ok: "opencl_config_ok (repair_opencl_config c)"
  by (simp add: opencl_config_ok_def repair_opencl_config_def Let_def gpu_constants)

lemma repair_opencl_id: "opencl_config_ok c \<Longrightarrow> repair_opencl_config c = c"
  by (simp add: opencl_config_ok_def repair_opencl_config_def Let_def gpu_constants)

lemma repair_cuda_ok: "cuda_config_ok (repair_cuda_config c)"
  by (simp add: cuda_config_ok_def repair_cuda_config_def Let_def gpu_constants)

lemma repair_cuda_id: "cuda_config_ok c \<Longrightarrow> repair_cuda_config c = c"
  by (simp add: cuda_config_ok_def repair_cuda_config_def Let_def gpu_constants)

text \<open>A device entry whose variants are known ones keeps the settings usable.\<close>

lemma opencl_device_to_config_ok:
  assumes "opencl_config_ok base"
    "0 \<le> dev_backend_variant d" "dev_backend_variant d \<le> 2" "0 \<le> dev_kernel_variant d" "dev_kernel_variant d \<le> 6"
  shows "opencl_config_ok (opencl_device_to_config (Some base) (Some d))"
  using assms by (simp add: opencl_config_ok_def opencl_device_to_config_def Let_def gpu_constants)

section \<open>Properties\<close>

text \<open>The settings an engine is created with are usable whatever the caller passes: no batch size,
  work size or result limit is zero and every variant is a known one; settings that already are usable are
  kept as they are, and the defaults are.\<close>

theorem config_repair:
  "opencl_config_ok (repair_opencl_config oc) \<and> cuda_config_ok (repair_cuda_config cc) \<and>
   (opencl_config_ok oc \<longrightarrow> repair_opencl_config oc = oc) \<and>
   (cuda_config_ok cc \<longrightarrow> repair_cuda_config cc = cc) \<and>
   opencl_config_ok miner_opencl_config_defaults \<and> cuda_config_ok miner_cuda_config_defaults"
  by (simp add: repair_opencl_ok repair_cuda_ok repair_opencl_id repair_cuda_id)
     (simp add: opencl_config_ok_def cuda_config_ok_def miner_opencl_config_defaults_def
       miner_cuda_config_defaults_def gpu_constants)

theorem config_repair_witness:
  "opencl_config_ok miner_opencl_config_defaults \<and>
   repair_opencl_config miner_opencl_config_defaults = miner_opencl_config_defaults \<and>
   opencl_config_ok (repair_opencl_config (miner_opencl_config_defaults\<lparr>ocl_batch_size := 0\<rparr>))"
  using config_repair [of miner_opencl_config_defaults miner_cuda_config_defaults]
    config_repair [of "miner_opencl_config_defaults\<lparr>ocl_batch_size := 0\<rparr>" miner_cuda_config_defaults]
  by blast

end
