(* ===== verification/Miner.thy ===== *)
theory Miner
  imports Miner_Job Share_Queue Gpu_Config
begin

text \<open>
  The mining engine, the second half of \<open>src/src/miner.c\<close>: \<open>struct miner\<close>, the operations of the
  network thread (\<open>miner_set_job\<close>, \<open>miner_set_paused\<close>, \<open>miner_pop_share\<close> and the rest) and of the
  workers (\<open>copy_job_and_nonce_range\<close>, \<open>queue_scan_match\<close>, the hash counters). Every operation holds the
  lock \<open>miner->lock\<close> for its whole body, so each is one atomic step on the record.

  A pointer argument that may be NULL is not modelled: the callers pass a live miner. \<open>pthread_cond_broadcast\<close>
  has no effect on the state; waiting is modelled in \<open>Miner_System\<close>.
\<close>

section \<open>Data\<close>

definition MINER_BATCH_SIZE :: u32 where "MINER_BATCH_SIZE = 262144"
definition MINER_MIXED_CPU_BATCH_SIZE :: u32 where "MINER_MIXED_CPU_BATCH_SIZE = 65536"

record miner_share_t =
  share_seq :: u64
  share_nonce :: u32
  share_difficulty :: "real option"
  share_hash :: bytes
  share_job_id :: string
  share_extranonce2 :: string
  share_ntime :: string

record 'ctx active_job_t =
  public_job :: miner_job_t
  midstate :: "'ctx sha256_midstate_t"
  tail_words :: "u32 list"
  target_words :: "u32 list"
  aj_pause_epoch :: u64
  aj_valid :: bool

text \<open>The build flags \<open>BTC_MINER_OPENCL\<close> and \<open>BTC_MINER_CUDA\<close>.\<close>

record build_flags =
  BTC_MINER_OPENCL :: bool
  BTC_MINER_CUDA :: bool

text \<open>\<open>struct miner\<close> without its lock, condition variable and thread handles. The ring fields come from
  \<open>share_ring\<close>. A device is present or NULL; \<open>'dev\<close> is the type of OpenCL devices.\<close>

record ('ctx, 'dev) miner = "miner_share_t share_ring" +
  opencl_devices :: "'dev option list"
  opencl_hashes :: "u64 list"
  cuda_device :: "'dev option"
  cuda_hashes :: u64
  thread_count :: int
  cpu_affinity_enabled :: bool
  cpu_affinity_count :: int
  cpu_affinity_plan :: "int list"
  started :: bool
  opencl_started :: int
  cuda_started :: int
  stop :: bool
  paused :: bool
  pause_epoch :: u64
  opencl_config :: miner_opencl_config_t
  cuda_config :: miner_cuda_config_t
  job :: "'ctx active_job_t"
  next_nonce :: u64
  nonce_exhausted :: bool
  hashes :: u64
  thread_hashes :: "u64 list"

section \<open>Creation\<close>

text \<open>\<open>zero_ctx\<close> is the all-zero context \<open>calloc\<close> leaves in the job; \<open>calloc_ok\<close> tells which of the three
  allocations (miner, thread handles, thread counters) succeed.\<close>

definition zero_job :: "'ctx \<Rightarrow> 'ctx active_job_t" where
  "zero_job zero_ctx =
    \<lparr>public_job = \<lparr>job_seq = 0, job_job_id = [], job_extranonce2 = [], job_ntime = [],
                  job_header = replicate 80 0, job_target = replicate 32 0\<rparr>,
     midstate = \<lparr>ctx = zero_ctx, second_ctx = zero_ctx, fast_state = replicate 8 0\<rparr>,
     tail_words = replicate 4 0, target_words = replicate 8 0, aj_pause_epoch = 0, aj_valid = False\<rparr>"

definition zero_share :: miner_share_t where
  "zero_share = \<lparr>share_seq = 0, share_nonce = 0, share_difficulty = Some 0, share_hash = replicate 32 0,
                 share_job_id = [], share_extranonce2 = [], share_ntime = []\<rparr>"

definition zero_cuda_config :: miner_cuda_config_t where
  "zero_cuda_config = \<lparr>cuda_enabled = False, cuda_device_index = 0, cuda_batch_size = 0,
     cuda_threads_per_block = 0, cuda_nonces_per_thread = 0, cuda_max_results = 0, cuda_kernel_variant = 0\<rparr>"

definition miner_create_with_backend_options ::
  "build_flags \<Rightarrow> bool \<times> bool \<times> bool \<Rightarrow> 'ctx \<Rightarrow> int \<Rightarrow> miner_opencl_config_t option \<Rightarrow>
   miner_cuda_config_t option \<Rightarrow> ('ctx, 'dev) miner option" where
  "miner_create_with_backend_options flags calloc_ok zero_ctx n_threads ocl_cfg cuda_cfg =
    (let n_threads = (if n_threads < 0 then 0 else n_threads);
         (miner_ok, threads_ok, hashes_ok) = calloc_ok
     in if \<not> miner_ok then None
        else if n_threads > 0 \<and> (\<not> threads_ok \<or> \<not> hashes_ok) then None
        else Some
          \<lparr>shares = replicate SHARE_QUEUE_SIZE zero_share, share_head = 0, share_tail = 0, share_count = 0,
           opencl_devices = [], opencl_hashes = [], cuda_device = None, cuda_hashes = 0,
           thread_count = n_threads, cpu_affinity_enabled = False, cpu_affinity_count = 0,
           cpu_affinity_plan = replicate 256 0, started = False, opencl_started = 0, cuda_started = 0,
           stop = False, paused = False, pause_epoch = 0,
           opencl_config = (case ocl_cfg of None \<Rightarrow> miner_opencl_config_defaults
                            | Some c \<Rightarrow> repair_opencl_config c),
           cuda_config = (case cuda_cfg of
                            None \<Rightarrow> if BTC_MINER_CUDA flags then miner_cuda_config_defaults else zero_cuda_config
                          | Some c \<Rightarrow> repair_cuda_config c),
           job = zero_job zero_ctx, next_nonce = 0, nonce_exhausted = False, hashes = 0,
           thread_hashes = replicate (nat n_threads) 0\<rparr>)"

definition miner_set_cpu_affinity :: "bool \<Rightarrow> ('ctx, 'dev) miner \<Rightarrow> ('ctx, 'dev) miner" where
  "miner_set_cpu_affinity enabled m = (if started m then m else m\<lparr>cpu_affinity_enabled := enabled\<rparr>)"

section \<open>Operations of the network thread\<close>

definition load_le32 :: "bytes \<Rightarrow> nat \<Rightarrow> u32" where
  "load_le32 b p = ucast (b ! p) OR push_bit 8 (ucast (b ! (p + 1))) OR
                   push_bit 16 (ucast (b ! (p + 2))) OR push_bit 24 (ucast (b ! (p + 3)))"

definition miner_set_job ::
  "'ctx openssl \<Rightarrow> miner_job_t \<Rightarrow> ('ctx, 'dev) miner \<Rightarrow> ('ctx, 'dev) miner" where
  "miner_set_job ssl j m =
    (let active = \<lparr>public_job = j,
                   midstate = sha256d_80_midstate_prepare ssl (take 64 (job_header j)),
                   tail_words = map (\<lambda>i. load_be32 (job_header j) (64 + i * 4)) [0..<4],
                   target_words = map (\<lambda>i. load_le32 (job_target j) (i * 4)) [0..<8],
                   aj_pause_epoch = 0, aj_valid = True\<rparr>;
         active = active\<lparr>public_job := (public_job active)\<lparr>job_seq := job_seq (public_job (job m)) + 1\<rparr>\<rparr>
     in ring_clear (m\<lparr>job := active, next_nonce := 0, nonce_exhausted := False\<rparr>))"

definition miner_set_paused :: "bool \<Rightarrow> ('ctx, 'dev) miner \<Rightarrow> ('ctx, 'dev) miner" where
  "miner_set_paused next_paused m =
    (let m = (if \<not> paused m \<and> next_paused then m\<lparr>pause_epoch := pause_epoch m + 1\<rparr> else m)
     in m\<lparr>paused := next_paused\<rparr>)"

definition miner_is_paused :: "('ctx, 'dev) miner \<Rightarrow> bool" where
  "miner_is_paused m = paused m"

definition miner_take_nonce_exhausted :: "('ctx, 'dev) miner \<Rightarrow> bool \<times> ('ctx, 'dev) miner" where
  "miner_take_nonce_exhausted m = (nonce_exhausted m, m\<lparr>nonce_exhausted := False\<rparr>)"

definition miner_pop_share :: "('ctx, 'dev) miner \<Rightarrow> miner_share_t option \<times> ('ctx, 'dev) miner" where
  "miner_pop_share m = ring_pop m"

definition miner_hashes :: "('ctx, 'dev) miner \<Rightarrow> u64" where
  "miner_hashes m = hashes m"

text \<open>The OpenCL devices that run, and whether the CUDA device does.\<close>

definition opencl_live :: "build_flags \<Rightarrow> ('ctx, 'dev) miner \<Rightarrow> nat list" where
  "opencl_live flags m =
    (if BTC_MINER_OPENCL flags
     then filter (\<lambda>i. opencl_devices m \<noteq> [] \<and> opencl_devices m ! i \<noteq> None) [0..<nat (opencl_started m)]
     else [])"

definition cuda_live :: "build_flags \<Rightarrow> ('ctx, 'dev) miner \<Rightarrow> bool" where
  "cuda_live flags m \<longleftrightarrow> BTC_MINER_CUDA flags \<and> cuda_started m > 0 \<and> cuda_device m \<noteq> None"

definition miner_thread_count :: "build_flags \<Rightarrow> ('ctx, 'dev) miner \<Rightarrow> int" where
  "miner_thread_count flags m =
    (let opencl_count = int (length (opencl_live flags m));
         cuda_count = (if cuda_live flags m then 1 else 0)
     in thread_count m + opencl_count + cuda_count)"

text \<open>The counters written to \<open>out\<close>, in order: CPU threads, live OpenCL devices, CUDA; at most \<open>max_count\<close>.\<close>

definition miner_snapshot_thread_hashes :: "build_flags \<Rightarrow> int \<Rightarrow> ('ctx, 'dev) miner \<Rightarrow> u64 list" where
  "miner_snapshot_thread_hashes flags max_count m =
    (if max_count \<le> 0 then []
     else
       let count = miner_thread_count flags m;
           count = (if count > max_count then max_count else count);
           cpu_count = (if thread_count m < count then thread_count m else count);
           out = map (\<lambda>i. thread_hashes m ! i) [0..<nat cpu_count];
           out = out @ take (nat count - length out) (map (\<lambda>i. opencl_hashes m ! i) (opencl_live flags m));
           out = out @ (if cuda_live flags m \<and> int (length out) < count then [cuda_hashes m] else [])
       in out)"

section \<open>Operations of the workers\<close>

definition queue_share_locked ::
  "(real \<Rightarrow> real) \<Rightarrow> miner_job_t \<Rightarrow> u32 \<Rightarrow> bytes \<Rightarrow> ('ctx, 'dev) miner \<Rightarrow> ('ctx, 'dev) miner" where
  "queue_share_locked fl j nonce hash m =
    (let copy = (\<lambda>n s. case copy_checked n s of None \<Rightarrow> [] | Some t \<Rightarrow> t);
         share = \<lparr>share_seq = job_seq j, share_nonce = nonce, share_difficulty = miner_hash_difficulty fl hash,
                  share_hash = hash, share_job_id = copy 128 (job_job_id j),
                  share_extranonce2 = copy 32 (job_extranonce2 j), share_ntime = copy 16 (job_ntime j)\<rparr>
     in ring_push share m)"

definition copy_job_and_nonce_range_sized ::
  "u32 \<Rightarrow> ('ctx, 'dev) miner \<Rightarrow> ('ctx active_job_t \<times> u32 \<times> u32) option \<times> ('ctx, 'dev) miner" where
  "copy_job_and_nonce_range_sized batch_size m =
    (let batch_size = (if batch_size = 0 then MINER_BATCH_SIZE else batch_size)
     in if \<not> stop m \<and> \<not> paused m \<and> aj_valid (job m) then
          if next_nonce m > 0xffffffff then
            (None, m\<lparr>job := (job m)\<lparr>aj_valid := False\<rparr>, nonce_exhausted := True\<rparr>)
          else
            let remaining = 0xffffffff - next_nonce m + 1;
                range = (if remaining < ucast batch_size then ucast remaining else batch_size)
            in (Some ((job m)\<lparr>aj_pause_epoch := pause_epoch m\<rparr>, ucast (next_nonce m), range),
                m\<lparr>next_nonce := next_nonce m + ucast range\<rparr>)
        else (None, m))"

definition miner_cpu_batch_size :: "build_flags \<Rightarrow> ('ctx, 'dev) miner \<Rightarrow> u32" where
  "miner_cpu_batch_size flags m =
    (if BTC_MINER_OPENCL flags \<and> opencl_started m > 0 then MINER_MIXED_CPU_BATCH_SIZE
     else if BTC_MINER_CUDA flags \<and> cuda_started m > 0 then MINER_MIXED_CPU_BATCH_SIZE
     else MINER_BATCH_SIZE)"

definition copy_job_and_nonce_range ::
  "build_flags \<Rightarrow> ('ctx, 'dev) miner \<Rightarrow> ('ctx active_job_t \<times> u32 \<times> u32) option \<times> ('ctx, 'dev) miner" where
  "copy_job_and_nonce_range flags m =
    (let batch_size = MINER_BATCH_SIZE;
         batch_size = (if BTC_MINER_OPENCL flags \<and> opencl_started m > 0
                       then MINER_MIXED_CPU_BATCH_SIZE else batch_size);
         batch_size = (if BTC_MINER_CUDA flags \<and> cuda_started m > 0
                       then MINER_MIXED_CPU_BATCH_SIZE else batch_size)
     in copy_job_and_nonce_range_sized batch_size m)"

definition scan_result_still_current_locked :: "('ctx, 'dev) miner \<Rightarrow> 'ctx active_job_t \<Rightarrow> bool" where
  "scan_result_still_current_locked m j \<longleftrightarrow>
    \<not> stop m \<and> \<not> paused m \<and> pause_epoch m = aj_pause_epoch j \<and>
    job_seq (public_job (job m)) = job_seq (public_job j)"

definition queue_scan_match ::
  "(real \<Rightarrow> real) \<Rightarrow> 'ctx active_job_t \<Rightarrow> u32 \<Rightarrow> u32 list \<Rightarrow> ('ctx, 'dev) miner \<Rightarrow> ('ctx, 'dev) miner" where
  "queue_scan_match fl j nonce hash_words m =
    (let hash = sha256d_words_to_hash hash_words
     in if scan_result_still_current_locked m j then queue_share_locked fl (public_job j) nonce hash m else m)"

text \<open>The counting of a finished scan by a CPU, OpenCL or CUDA worker.\<close>

definition count_cpu_hashes ::
  "int \<Rightarrow> 'ctx active_job_t \<Rightarrow> u32 \<Rightarrow> ('ctx, 'dev) miner \<Rightarrow> ('ctx, 'dev) miner" where
  "count_cpu_hashes wid j nonce_count m =
    (if scan_result_still_current_locked m j then
       let m = m\<lparr>hashes := hashes m + ucast nonce_count\<rparr>
       in if wid \<ge> 0 \<and> wid < thread_count m
          then m\<lparr>thread_hashes := (thread_hashes m)[nat wid := thread_hashes m ! nat wid + ucast nonce_count]\<rparr>
          else m
     else m)"

definition count_opencl_hashes ::
  "int \<Rightarrow> 'ctx active_job_t \<Rightarrow> u32 \<Rightarrow> ('ctx, 'dev) miner \<Rightarrow> ('ctx, 'dev) miner" where
  "count_opencl_hashes wid j nonce_count m =
    (if scan_result_still_current_locked m j then
       let m = m\<lparr>hashes := hashes m + ucast nonce_count\<rparr>
       in if wid \<ge> 0 \<and> wid < opencl_started m
          then m\<lparr>opencl_hashes := (opencl_hashes m)[nat wid := opencl_hashes m ! nat wid + ucast nonce_count]\<rparr>
          else m
     else m)"

definition count_cuda_hashes :: "'ctx active_job_t \<Rightarrow> u32 \<Rightarrow> ('ctx, 'dev) miner \<Rightarrow> ('ctx, 'dev) miner" where
  "count_cuda_hashes j nonce_count m =
    (if scan_result_still_current_locked m j
     then m\<lparr>hashes := hashes m + ucast nonce_count, cuda_hashes := cuda_hashes m + ucast nonce_count\<rparr>
     else m)"

section \<open>Handing out nonces\<close>

lemma remaining_range:
  fixes n :: u64 and b :: u32
  assumes "\<not> n > 0xffffffff" "b \<noteq> 0"
  defines "r \<equiv> (if 0xffffffff - n + 1 < ucast b then ucast (0xffffffff - n + 1) else b)"
  shows "unat n < 2 ^ 32" "unat r = min (2 ^ 32 - unat n) (unat b)" "0 < unat r"
    "unat (n + ucast r) = unat n + unat r" "unat n + unat r \<le> 2 ^ 32"
proof -
  show n: "unat n < 2 ^ 32" using assms(1) by (simp add: word_less_nat_alt not_less)
  have rem: "unat (0xffffffff - n + 1) = 2 ^ 32 - unat n"
  proof -
    have "n \<le> 0x100000000" using n by (simp add: word_le_nat_alt)
    then have "unat (0x100000000 - n) = 0x100000000 - unat n" by (simp add: unat_sub)
    then show ?thesis by simp
  qed
  have b: "unat (ucast b :: u64) = unat b" by (simp add: unsigned_ucast_eq take_bit_nat_eq_self unat_u32_less order_less_trans [OF unat_u32_less])
  show r: "unat r = min (2 ^ 32 - unat n) (unat b)"
  proof (cases "0xffffffff - n + 1 < (ucast b :: u64)")
    case True
    then have lt: "2 ^ 32 - unat n < unat b" using rem b by (simp add: word_less_nat_alt)
    then have "2 ^ 32 - unat n < 2 ^ 32" using unat_u32_less [of b] by simp
    then have "unat (ucast (0xffffffff - n + 1) :: u32) = 2 ^ 32 - unat n"
      unfolding unsigned_ucast_eq rem by (simp add: take_bit_nat_eq_self)
    with True lt show ?thesis by (simp add: r_def)
  next
    case False
    then show ?thesis using rem b by (simp add: r_def word_less_nat_alt not_less)
  qed
  show "0 < unat r" using r n assms(2) by (simp add: unat_gt_0)
  show le: "unat n + unat r \<le> 2 ^ 32" using r n by simp
  have "unat (ucast r :: u64) = unat r"
    by (simp add: unsigned_ucast_eq take_bit_nat_eq_self order_less_trans [OF unat_u32_less])
  then show "unat (n + ucast r) = unat n + unat r" using le by (simp add: unat_word_ariths)
qed

lemma nonce_range_unat:
  assumes "unat s + unat c \<le> 2 ^ 32"
  shows "map unat (nonce_range s c) = [unat s..<unat s + unat c]"
proof -
  have "unat (s + of_nat i) = unat s + i" if "i < unat c" for i
    using that assms by (simp add: unat_word_ariths unat_of_nat)
  then show ?thesis by (simp add: nonce_range_def list_eq_iff_nth_eq)
qed

text \<open>What taking a range returns and changes.\<close>

text \<open>No range is longer than the batch asked for, 0 standing for the default.\<close>

definition batch_limit :: "u32 \<Rightarrow> u32" where
  "batch_limit b = (if b = 0 then MINER_BATCH_SIZE else b)"

lemma copy_range_bound:
  assumes "copy_job_and_nonce_range_sized b m = (Some (j, s, c), m')"
  shows "unat c \<le> unat (batch_limit b)"
proof -
  let ?r = "0xffffffff - next_nonce m + 1"
  have "c = (if ?r < ucast (batch_limit b) then ucast ?r else batch_limit b)"
    using assms by (auto simp: copy_job_and_nonce_range_sized_def Let_def batch_limit_def split: if_splits)
  moreover have "unat (ucast ?r :: u32) \<le> unat ?r"
    by (simp add: unsigned_ucast_eq take_bit_eq_mod)
  moreover have "unat ?r < unat (batch_limit b)" if "?r < ucast (batch_limit b)"
    using that unat_u32_less [of "batch_limit b"]
    by (simp add: word_less_nat_alt unsigned_ucast_eq take_bit_nat_eq_self)
  ultimately show ?thesis by (auto split: if_splits)
qed

lemma copy_range_Some:
  assumes "copy_job_and_nonce_range_sized b m = (Some (j, s, c), m')"
  shows "\<not> stop m" "\<not> paused m" "aj_valid (job m)" "j = (job m)\<lparr>aj_pause_epoch := pause_epoch m\<rparr>"
    "m' = m\<lparr>next_nonce := next_nonce m + ucast c\<rparr>"
    "unat (next_nonce m) < 2 ^ 32" "unat s = unat (next_nonce m)" "0 < unat c"
    "unat (next_nonce m') = unat (next_nonce m) + unat c" "unat (next_nonce m') \<le> 2 ^ 32"
    "map unat (nonce_range s c) = [unat (next_nonce m)..<unat (next_nonce m')]"
proof -
  define b' where "b' = (if b = 0 then MINER_BATCH_SIZE else b)"
  have b': "b' \<noteq> 0" by (simp add: b'_def MINER_BATCH_SIZE_def)
  have g: "\<not> stop m \<and> \<not> paused m \<and> aj_valid (job m)" "\<not> next_nonce m > 0xffffffff"
    using assms by (auto simp: copy_job_and_nonce_range_sized_def Let_def split: if_splits)
  then show "\<not> stop m" "\<not> paused m" "aj_valid (job m)" by auto
  have e: "j = (job m)\<lparr>aj_pause_epoch := pause_epoch m\<rparr>" "s = ucast (next_nonce m)"
    "c = (if 0xffffffff - next_nonce m + 1 < ucast b' then ucast (0xffffffff - next_nonce m + 1) else b')"
    "m' = m\<lparr>next_nonce := next_nonce m + ucast c\<rparr>"
    using assms g by (auto simp: copy_job_and_nonce_range_sized_def Let_def b'_def)
  show "j = (job m)\<lparr>aj_pause_epoch := pause_epoch m\<rparr>" "m' = m\<lparr>next_nonce := next_nonce m + ucast c\<rparr>"
    by (fact e)+
  note r = remaining_range [OF g(2) b', folded e(3)]
  show "unat (next_nonce m) < 2 ^ 32" "0 < unat c" by (fact r)+
  show s: "unat s = unat (next_nonce m)"
    using r(1) unfolding e(2) unsigned_ucast_eq by (simp add: take_bit_nat_eq_self)
  show n: "unat (next_nonce m') = unat (next_nonce m) + unat c" "unat (next_nonce m') \<le> 2 ^ 32"
    using r(4,5) by (simp_all add: e(4))
  show "map unat (nonce_range s c) = [unat (next_nonce m)..<unat (next_nonce m')]"
    using nonce_range_unat [of s c] s n by simp
qed

text \<open>When nothing is handed out, only the two flags of exhaustion may change.\<close>

lemma copy_range_None:
  assumes "copy_job_and_nonce_range_sized b m = (None, m')"
  shows "m' = m \<or> 2 ^ 32 \<le> unat (next_nonce m) \<and>
                  m' = m\<lparr>job := (job m)\<lparr>aj_valid := False\<rparr>, nonce_exhausted := True\<rparr>"
  using assms
  by (auto simp: copy_job_and_nonce_range_sized_def Let_def word_less_nat_alt split: if_splits)

section \<open>Jobs installed in the engine\<close>

definition job_shape :: "miner_job_t \<Rightarrow> bool" where
  "job_shape j \<longleftrightarrow> length (job_header j) = 80 \<and> length (job_target j) = 32 \<and>
     length (job_job_id j) < 128 \<and> length (job_extranonce2 j) < 32 \<and> length (job_ntime j) < 16"

text \<open>The derived fields of an active job are those of its public job.\<close>

definition active_ok :: "'ctx openssl \<Rightarrow> 'ctx active_job_t \<Rightarrow> bool" where
  "active_ok ssl a \<longleftrightarrow> job_shape (public_job a) \<and>
     midstate a = sha256d_80_midstate_prepare ssl (take 64 (job_header (public_job a))) \<and>
     length (tail_words a) = 4 \<and>
     take 3 (tail_words a) = be32_words (drop 64 (take 76 (job_header (public_job a)))) \<and>
     length (target_words a) = 8 \<and> le_words_val (target_words a) = le_bytes_val (job_target (public_job a))"

fun le32_words :: "bytes \<Rightarrow> u32 list" where
  "le32_words (a # b # c # d # bs) = join32 d c b a # le32_words bs"
| "le32_words _ = []"

lemma load_le32_join: "load_le32 b p = join32 (b ! (p + 3)) (b ! (p + 2)) (b ! (p + 1)) (b ! p)"
  by (simp add: load_le32_def join32_def or.commute or.left_commute)

lemma length_le32_words: "length (le32_words bs) = length bs div 4"
  by (induction bs rule: le32_words.induct) auto

lemma le32_words_nth: "i < length b div 4 \<Longrightarrow> le32_words b ! i = load_le32 b (i * 4)"
proof (induction b arbitrary: i rule: le32_words.induct)
  case (1 a b c d bs)
  then show ?case by (cases i) (simp_all add: load_le32_join add.commute)
qed auto

lemma load_le32_block: "length b = 4 * n \<Longrightarrow> map (\<lambda>i. load_le32 b (i * 4)) [0..<n] = le32_words b"
  by (simp add: list_eq_iff_nth_eq le32_words_nth length_le32_words)

lemma le_words_val_le32_words: "4 dvd length bs \<Longrightarrow> le_words_val (le32_words bs) = le_bytes_val bs"
proof (induction bs rule: le32_words.induct)
  case (1 a b c d bs)
  have "length (a # b # c # d # bs) = length bs + 4" by simp
  with "1.prems" have "4 dvd length bs" by (metis dvd_add_left_iff dvd_refl)
  with 1 show ?case by (simp add: unat_join32)
qed (auto dest: dvd_imp_le)

lemma load_be32_drop: "p \<le> length b \<Longrightarrow> load_be32 b (p + i) = load_be32 (drop p b) i"
  by (simp add: load_be32_def add.assoc)

lemma set_job_tail_words:
  assumes "length h = 80"
  defines "t \<equiv> map (\<lambda>i. load_be32 h (64 + i * 4)) [0..<4]"
  shows "length t = 4" "take 3 t = be32_words (drop 64 (take 76 h))"
proof -
  show "length t = 4" by (simp add: t_def)
  have l: "length (drop 64 (take 76 h)) = 4 * 3" using assms(1) by simp
  have "take 3 t = map (\<lambda>i. load_be32 h (64 + i * 4)) [0..<3]"
    by (simp add: t_def take_map)
  also have "\<dots> = map (\<lambda>i. load_be32 (drop 64 (take 76 h)) (i * 4)) [0..<3]"
    using assms(1) by (intro map_cong refl) (simp add: load_be32_def)
  also have "\<dots> = be32_words (drop 64 (take 76 h))" by (rule load_be32_block [OF l])
  finally show "take 3 t = be32_words (drop 64 (take 76 h))" .
qed

lemma active_ok_set_job:
  assumes "job_shape j"
  shows "active_ok ssl (job (miner_set_job ssl j m))"
  using assms set_job_tail_words [of "job_header j"]
    load_le32_block [of "job_target j" 8] le_words_val_le32_words [of "job_target j"]
  by (simp add: active_ok_def miner_set_job_def Let_def ring_clear_def job_shape_def length_le32_words)

section \<open>Matches and shares\<close>

text \<open>A proof of work for a job: the double SHA-256 of the header with this nonce, at most the target.\<close>

definition solves :: "miner_job_t \<Rightarrow> u32 \<Rightarrow> bytes \<Rightarrow> bool" where
  "solves j nonce hash \<longleftrightarrow>
     hash = sha256d (take 76 (job_header j) @ le32_bytes nonce) \<and> le_bytes_val hash \<le> le_bytes_val (job_target j)"

definition match_ok :: "miner_job_t \<Rightarrow> u32 \<times> u32 list \<Rightarrow> bool" where
  "match_ok j = (\<lambda>(nonce, h). solves j nonce (sha256d_words_to_hash h))"

definition share_ok :: "miner_job_t \<Rightarrow> miner_share_t \<Rightarrow> bool" where
  "share_ok j s \<longleftrightarrow> share_seq s = job_seq j \<and> share_job_id s = job_job_id j \<and>
     share_extranonce2 s = job_extranonce2 j \<and> share_ntime s = job_ntime j \<and>
     solves j (share_nonce s) (share_hash s)"

lemma cpu_scan_matches_ok:
  assumes "openssl_contract ssl" "active_ok ssl a"
  shows "list_all (match_ok (public_job a))
    (sha256d_nonce_range_func p ssl g (midstate a) (tail_words a) (target_words a) start n
      (Some (\<lambda>found nonce h. found @ [(nonce, h)])) [])"
proof -
  let ?h76 = "take 76 (job_header (public_job a))"
  have r: "ready_midstate ssl (midstate a) (take 64 ?h76)"
    using assms by (simp add: ready_midstate_def prepared_midstate_def active_ok_def job_shape_def)
  have a: "length ?h76 = 76" "length (tail_words a) = 4" "take 3 (tail_words a) = be32_words (drop 64 ?h76)"
    "length (target_words a) = 8" "le_words_val (target_words a) = le_bytes_val (job_target (public_job a))"
    using assms(2) by (simp_all add: active_ok_def job_shape_def)
  let ?hash = "\<lambda>nonce. sha256d_tail_words_func p ssl g (midstate a) ((tail_words a)[3 := bswap32 nonce])"
  have len: "length (?hash nonce) = 8" for nonce
    using dispatch.hash_tail_spec [OF r, of "(tail_words a)[3 := bswap32 nonce]" p g] a(2) by simp
  have "sha256d_words_to_hash (?hash nonce) = sha256d (?h76 @ le32_bytes nonce)" for nonce
    using dispatch.hash_nonce [OF r a(1-3), of p g nonce] len by (simp add: words_to_hash_bytes)
  moreover have "hash_words_meet_target (?hash nonce) (target_words a) \<longleftrightarrow>
      le_bytes_val (sha256d (?h76 @ le32_bytes nonce)) \<le> le_bytes_val (job_target (public_job a))" for nonce
    using dispatch.match_iff [OF r a(1-4), of p g nonce] a(5) by simp
  ultimately show ?thesis
    unfolding dispatch.scan_reports [OF r a(2)] collect_fold
    by (auto simp: list_all_iff scan_matches_def match_ok_def solves_def)
qed

lemma cpu_scan_nonces:
  assumes "openssl_contract ssl" "active_ok ssl a"
  shows "map fst (sha256d_nonce_range_func p ssl g (midstate a) (tail_words a) (target_words a) start n
      (Some (\<lambda>found nonce h. found @ [(nonce, h)])) []) =
    filter (\<lambda>nonce. solves (public_job a) nonce (sha256d (take 76 (job_header (public_job a)) @ le32_bytes nonce)))
      (nonce_range start n)"
proof -
  let ?h76 = "take 76 (job_header (public_job a))"
  have r: "ready_midstate ssl (midstate a) (take 64 ?h76)"
    using assms by (simp add: ready_midstate_def prepared_midstate_def active_ok_def job_shape_def)
  have a: "length ?h76 = 76" "length (tail_words a) = 4" "take 3 (tail_words a) = be32_words (drop 64 ?h76)"
    "length (target_words a) = 8" "le_words_val (target_words a) = le_bytes_val (job_target (public_job a))"
    using assms(2) by (simp_all add: active_ok_def job_shape_def)
  show ?thesis
    unfolding dispatch.scan_reports [OF r a(2)] collect_fold
    using dispatch.matched_nonces [OF r a(1-4), of p g "nonce_range start n"] a(5)
    by (simp add: solves_def)
qed

lemma queue_share_locked_contents:
  assumes "ring_ok m" "job_shape j" "solves j nonce hash" "list_all (share_ok j) (ring_contents m)"
  shows "list_all (share_ok j) (ring_contents (queue_share_locked fl j nonce hash m))"
  using assms
  by (auto simp: queue_share_locked_def Let_def ring_contents_push share_ok_def copy_checked_def job_shape_def)

section \<open>Counters\<close>

text \<open>The sum of the counters of all workers.\<close>

definition counted :: "('ctx, 'dev) miner \<Rightarrow> u64" where
  "counted m = sum_list (thread_hashes m) + sum_list (opencl_hashes m) + cuda_hashes m"

lemma sum_list_bump: "i < length xs \<Longrightarrow> sum_list (xs[i := d + xs ! i]) = d + (sum_list xs :: 'a::comm_monoid_add)"
  by (induction xs arbitrary: i) (auto simp: nth_Cons' ac_simps split: nat.splits)

lemma length_opencl_live: "length (opencl_live flags m) \<le> nat (opencl_started m)"
  using length_filter_le [of _ "[0..<nat (opencl_started m)]"] by (auto simp: opencl_live_def)

lemma length_snapshot:
  assumes "0 \<le> thread_count m"
  shows "length (miner_snapshot_thread_hashes flags max_count m) = nat (min max_count (miner_thread_count flags m))"
proof -
  define l where "l = length (opencl_live flags m)"
  show ?thesis
    using assms
    by (cases "cuda_live flags m")
       (simp_all add: miner_snapshot_thread_hashes_def miner_thread_count_def Let_def min_def flip: l_def, linarith+)
qed

lemma snapshot_all:
  assumes "0 \<le> thread_count m" "miner_thread_count flags m \<le> max_count" "0 < max_count"
  shows "miner_snapshot_thread_hashes flags max_count m =
    map ((!) (thread_hashes m)) [0..<nat (thread_count m)] @
    map ((!) (opencl_hashes m)) (opencl_live flags m) @ (if cuda_live flags m then [cuda_hashes m] else [])"
  using assms
  by (cases "cuda_live flags m")
     (simp_all add: miner_snapshot_thread_hashes_def miner_thread_count_def Let_def nat_add_distrib)

section \<open>Properties\<close>

text \<open>Handing out work. Nothing is handed out when the engine is stopped, paused or has no job. When all
  \<open>2 ^ 32\<close> nonces are gone the job is retired and the exhaustion flag raised. Otherwise the caller gets the
  current job, stamped with the pause epoch, and the next nonces: the batch size (the default one when 0 was
  asked), or what remains when that is less; the counter moves on by exactly that amount and never exceeds
  \<open>2 ^ 32\<close>, though the range is computed with 32-bit and the counter with 64-bit arithmetic.\<close>

theorem nonce_range_handout:
  "((stop m \<or> paused m \<or> \<not> aj_valid (job m)) \<longrightarrow> copy_job_and_nonce_range_sized b m = (None, m)) \<and>
   (\<not> stop m \<and> \<not> paused m \<and> aj_valid (job m) \<and> 2 ^ 32 \<le> unat (next_nonce m) \<longrightarrow>
      copy_job_and_nonce_range_sized b m =
        (None, m\<lparr>job := (job m)\<lparr>aj_valid := False\<rparr>, nonce_exhausted := True\<rparr>)) \<and>
   (\<not> stop m \<and> \<not> paused m \<and> aj_valid (job m) \<and> unat (next_nonce m) < 2 ^ 32 \<longrightarrow>
      (\<exists>start count. copy_job_and_nonce_range_sized b m =
         (Some ((job m)\<lparr>aj_pause_epoch := pause_epoch m\<rparr>, start, count), m\<lparr>next_nonce := next_nonce m + ucast count\<rparr>) \<and>
         unat start = unat (next_nonce m) \<and>
         unat count = min (2 ^ 32 - unat (next_nonce m)) (if b = 0 then 262144 else unat b) \<and>
         unat (next_nonce m + ucast count) = unat start + unat count \<and> unat start + unat count \<le> 2 ^ 32))"
proof (intro conjI impI)
  show "copy_job_and_nonce_range_sized b m = (None, m)" if "stop m \<or> paused m \<or> \<not> aj_valid (job m)"
    using that by (auto simp: copy_job_and_nonce_range_sized_def)
  show "copy_job_and_nonce_range_sized b m =
      (None, m\<lparr>job := (job m)\<lparr>aj_valid := False\<rparr>, nonce_exhausted := True\<rparr>)"
    if "\<not> stop m \<and> \<not> paused m \<and> aj_valid (job m) \<and> 2 ^ 32 \<le> unat (next_nonce m)"
    using that by (simp add: copy_job_and_nonce_range_sized_def word_less_nat_alt)
next
  assume g: "\<not> stop m \<and> \<not> paused m \<and> aj_valid (job m) \<and> unat (next_nonce m) < 2 ^ 32"
  define b' where "b' = (if b = 0 then MINER_BATCH_SIZE else b)"
  have b': "b' \<noteq> 0" "unat b' = (if b = 0 then 262144 else unat b)" by (simp_all add: b'_def MINER_BATCH_SIZE_def)
  define c where "c = (if 0xffffffff - next_nonce m + 1 < ucast b' then ucast (0xffffffff - next_nonce m + 1) else b')"
  have n: "\<not> next_nonce m > 0xffffffff" using g by (simp add: word_less_nat_alt)
  note r = remaining_range [OF n b'(1), folded c_def]
  have s: "unat (ucast (next_nonce m) :: u32) = unat (next_nonce m)"
    using r(1) unfolding unsigned_ucast_eq by (simp add: take_bit_nat_eq_self)
  have "copy_job_and_nonce_range_sized b m = (Some ((job m)\<lparr>aj_pause_epoch := pause_epoch m\<rparr>,
      ucast (next_nonce m), c), m\<lparr>next_nonce := next_nonce m + ucast c\<rparr>)"
    using g n by (simp add: copy_job_and_nonce_range_sized_def Let_def b'_def c_def)
  with r s b'(2) show "\<exists>start count. copy_job_and_nonce_range_sized b m =
      (Some ((job m)\<lparr>aj_pause_epoch := pause_epoch m\<rparr>, start, count), m\<lparr>next_nonce := next_nonce m + ucast count\<rparr>) \<and>
      unat start = unat (next_nonce m) \<and>
      unat count = min (2 ^ 32 - unat (next_nonce m)) (if b = 0 then 262144 else unat b) \<and>
      unat (next_nonce m + ucast count) = unat start + unat count \<and> unat start + unat count \<le> 2 ^ 32"
    by (intro exI [of _ "ucast (next_nonce m)"] exI [of _ c]) simp
qed

text \<open>A created engine with a job and two nonces left.\<close>

definition almost_exhausted :: "(nat, nat) miner" where
  "almost_exhausted =
    (let m = the (miner_create_with_backend_options \<lparr>BTC_MINER_OPENCL = False, BTC_MINER_CUDA = False\<rparr>
                    (True, True, True) 0 2 None None)
     in m\<lparr>job := (job m)\<lparr>aj_valid := True\<rparr>, next_nonce := 0xfffffffe\<rparr>)"

lemma almost_exhausted_state:
  "\<not> stop almost_exhausted" "\<not> paused almost_exhausted" "aj_valid (job almost_exhausted)"
  "next_nonce almost_exhausted = 0xfffffffe" "thread_count almost_exhausted = 2"
  "thread_hashes almost_exhausted = [0, 0]" "opencl_hashes almost_exhausted = []" "cuda_hashes almost_exhausted = 0"
  "opencl_started almost_exhausted = 0" "hashes almost_exhausted = 0" "pause_epoch almost_exhausted = 0"
  "cuda_started almost_exhausted = 0"
  by (simp_all add: almost_exhausted_def miner_create_with_backend_options_def Let_def numeral_2_eq_2)

theorem nonce_range_handout_witness:
  "(\<exists>start count. copy_job_and_nonce_range_sized 1000 almost_exhausted =
      (Some ((job almost_exhausted)\<lparr>aj_pause_epoch := 0\<rparr>, start, count),
       almost_exhausted\<lparr>next_nonce := 0xfffffffe + ucast count\<rparr>) \<and>
      unat start = 0xfffffffe \<and> unat count = 2)"
  using nonce_range_handout [of almost_exhausted 1000]
  by (simp add: almost_exhausted_state) blast

text \<open>The hash counters agree: when a worker of a valid index counts a finished scan, the total and the
  sum of the workers' own counters, modulo \<open>2 ^ 64\<close>, stay equal; they grow by the size of the range, or not at
  all when the result is stale.\<close>

theorem hash_counters_agree:
  assumes "hashes m = counted m" "thread_count m = int (length (thread_hashes m))"
    "opencl_started m \<le> int (length (opencl_hashes m))" "0 \<le> wid"
  shows "(wid < thread_count m \<longrightarrow> hashes (count_cpu_hashes wid a c m) = counted (count_cpu_hashes wid a c m)) \<and>
    (wid < opencl_started m \<longrightarrow> hashes (count_opencl_hashes wid a c m) = counted (count_opencl_hashes wid a c m)) \<and>
    hashes (count_cuda_hashes a c m) = counted (count_cuda_hashes a c m) \<and>
    hashes (count_cuda_hashes a c m) =
      hashes m + (if scan_result_still_current_locked m a then ucast c else 0)"
  using assms
  by (auto simp: count_cpu_hashes_def count_opencl_hashes_def count_cuda_hashes_def counted_def Let_def
      sum_list_bump ac_simps nat_less_iff)

theorem hash_counters_agree_witness:
  "hashes almost_exhausted = counted almost_exhausted \<and>
   hashes (count_cpu_hashes 1 (job almost_exhausted) 50 almost_exhausted) =
   counted (count_cpu_hashes 1 (job almost_exhausted) 50 almost_exhausted)"
  using hash_counters_agree [of almost_exhausted 1 "job almost_exhausted" 50]
  by (simp add: almost_exhausted_state counted_def)

text \<open>The snapshot of the counters never writes more than the caller's buffer holds, and reports as many
  workers as there are, or as fit: the CPU threads, the live OpenCL devices, the CUDA device.\<close>

theorem snapshot_fits:
  assumes "0 \<le> thread_count m"
  shows "length (miner_snapshot_thread_hashes flags max_count m) =
           nat (min max_count (miner_thread_count flags m)) \<and>
         (miner_thread_count flags m \<le> max_count \<and> 0 < max_count \<longrightarrow>
           miner_snapshot_thread_hashes flags max_count m =
             map ((!) (thread_hashes m)) [0..<nat (thread_count m)] @
             map ((!) (opencl_hashes m)) (opencl_live flags m) @
             (if cuda_live flags m then [cuda_hashes m] else []))"
  using length_snapshot [OF assms] snapshot_all [OF assms] by blast

theorem snapshot_fits_witness:
  "0 \<le> thread_count almost_exhausted \<and>
   length (miner_snapshot_thread_hashes \<lparr>BTC_MINER_OPENCL = True, BTC_MINER_CUDA = True\<rparr> 1 almost_exhausted) = 1"
  using snapshot_fits [of almost_exhausted "\<lparr>BTC_MINER_OPENCL = True, BTC_MINER_CUDA = True\<rparr>" 1]
  by (simp add: almost_exhausted_state miner_thread_count_def opencl_live_def cuda_live_def)

end
