(* ===== verification/Miner_System.thy ===== *)
theory Miner_System
  imports Miner
begin

text \<open>
  The engine at work: the network thread and any number of workers (\<open>worker_main\<close>,
  \<open>opencl_worker_main\<close>, \<open>cuda_worker_main\<close> of \<open>src/src/miner.c\<close>) interleaved at the granularity of the
  lock. A worker is a small state machine; scanning touches no shared state until a match is reported, so
  a scan is the list of matches still to be reported. What a GPU returns is an input of the model.

  The ghost fields record the jobs installed so far and the ranges handed out for the current one.
  Invariants, by rule induction over the steps: the ranges handed out for a job tile the nonce space in
  order, and every share in the queue is a proof of work for the current job.
\<close>

section \<open>Workers\<close>

datatype worker_kind = CPU_WORKER | OPENCL_WORKER | CUDA_WORKER

text \<open>\<open>W_check\<close> is the head of the loop, \<open>W_wait\<close> the call of \<open>miner_wait_for_work\<close>, \<open>W_take\<close> the call that
  takes a range, \<open>W_scan\<close> a scan with the matches still to report, \<open>W_done\<close> a finished thread.\<close>

datatype 'ctx worker_state =
    W_check
  | W_wait
  | W_take
  | W_scan "'ctx active_job_t" u32 u32 "(u32 \<times> u32 list) list"
  | W_done

record 'ctx miner_env =
  env_flags :: build_flags
  env_platform :: sha_platform
  env_ssl :: "'ctx openssl"
  env_backend :: sha256d_backend_t
  env_fl :: "real \<Rightarrow> real"
  env_kind :: "nat \<Rightarrow> worker_kind"
  env_id :: "nat \<Rightarrow> int"
  env_batch :: "nat \<Rightarrow> u32"
  env_gpu_scan :: "nat \<Rightarrow> 'ctx active_job_t \<Rightarrow> u32 \<Rightarrow> u32 \<Rightarrow> (u32 \<times> u32 list) list option"

definition wait_over :: "('ctx, 'dev) miner \<Rightarrow> bool" where
  "wait_over m \<longleftrightarrow> \<not> (\<not> stop m \<and> (paused m \<or> \<not> aj_valid (job m)))"

definition worker_take ::
  "'ctx miner_env \<Rightarrow> nat \<Rightarrow> ('ctx, 'dev) miner \<Rightarrow>
   ('ctx active_job_t \<times> u32 \<times> u32) option \<times> ('ctx, 'dev) miner" where
  "worker_take env i m =
    (if env_kind env i = CPU_WORKER then copy_job_and_nonce_range (env_flags env) m
     else copy_job_and_nonce_range_sized (env_batch env i) m)"

text \<open>The matches of a scan, \<open>None\<close> when a GPU reports a failure.\<close>

definition worker_scan ::
  "'ctx miner_env \<Rightarrow> nat \<Rightarrow> 'ctx active_job_t \<Rightarrow> u32 \<Rightarrow> u32 \<Rightarrow> (u32 \<times> u32 list) list option" where
  "worker_scan env i a start_nonce nonce_count =
    (if env_kind env i = CPU_WORKER
     then Some (sha256d_nonce_range_func (env_platform env) (env_ssl env) (env_backend env)
            (midstate a) (tail_words a) (target_words a) start_nonce nonce_count
            (Some (\<lambda>found nonce h. found @ [(nonce, h)])) [])
     else env_gpu_scan env i a start_nonce nonce_count)"

definition worker_count ::
  "'ctx miner_env \<Rightarrow> nat \<Rightarrow> 'ctx active_job_t \<Rightarrow> u32 \<Rightarrow> ('ctx, 'dev) miner \<Rightarrow> ('ctx, 'dev) miner" where
  "worker_count env i a nonce_count m =
    (case env_kind env i of
       CPU_WORKER \<Rightarrow> count_cpu_hashes (env_id env i) a nonce_count m
     | OPENCL_WORKER \<Rightarrow> count_opencl_hashes (env_id env i) a nonce_count m
     | CUDA_WORKER \<Rightarrow> count_cuda_hashes a nonce_count m)"

text \<open>One atomic step of worker \<open>i\<close>: the next local state, the engine, and the range taken if any.
  \<open>None\<close> means that the thread is blocked or finished.\<close>

fun worker_step ::
  "'ctx miner_env \<Rightarrow> nat \<Rightarrow> 'ctx worker_state \<Rightarrow> ('ctx, 'dev) miner \<Rightarrow>
   ('ctx worker_state \<times> ('ctx, 'dev) miner \<times> (u32 \<times> u32) option) option" where
  "worker_step env i W_check m =
    (if stop m then Some (W_done, m, None)
     else if paused m then Some (W_wait, m, None)
     else Some (W_take, m, None))"
| "worker_step env i W_wait m = (if wait_over m then Some (W_check, m, None) else None)"
| "worker_step env i W_take m =
    (case worker_take env i m of
       (None, m') \<Rightarrow> Some (W_wait, m', None)
     | (Some (a, start_nonce, nonce_count), m') \<Rightarrow>
        (case worker_scan env i a start_nonce nonce_count of
           None \<Rightarrow> Some (W_check, m', Some (start_nonce, nonce_count))
         | Some ms \<Rightarrow> Some (W_scan a start_nonce nonce_count ms, m', Some (start_nonce, nonce_count))))"
| "worker_step env i (W_scan a start_nonce nonce_count ((nonce, h) # ms)) m =
    Some (W_scan a start_nonce nonce_count ms, queue_scan_match (env_fl env) a nonce h m, None)"
| "worker_step env i (W_scan a start_nonce nonce_count []) m =
    Some (W_check, worker_count env i a nonce_count m, None)"
| "worker_step env i W_done m = None"

text \<open>The locked part of \<open>miner_stop\<close>, and what it does once all threads are joined.\<close>

definition miner_stop_signal :: "('ctx, 'dev) miner \<Rightarrow> ('ctx, 'dev) miner" where
  "miner_stop_signal m = (if \<not> started m then m else m\<lparr>stop := True\<rparr>)"

definition miner_stop_finish :: "build_flags \<Rightarrow> ('ctx, 'dev) miner \<Rightarrow> ('ctx, 'dev) miner" where
  "miner_stop_finish flags m =
    (if \<not> started m then m
     else
       let m = (if BTC_MINER_OPENCL flags
                then m\<lparr>opencl_devices := map (\<lambda>i. if int i < opencl_started m then None else opencl_devices m ! i)
                         [0..<length (opencl_devices m)], opencl_started := 0\<rparr> else m);
           m = (if BTC_MINER_CUDA flags
                then m\<lparr>cuda_device := (if cuda_started m > 0 then None else cuda_device m), cuda_started := 0\<rparr>
                else m)
       in m\<lparr>started := False\<rparr>)"

section \<open>The interleaved system\<close>

record ('ctx, 'dev) system =
  sys_miner :: "('ctx, 'dev) miner"
  sys_workers :: "nat \<Rightarrow> 'ctx worker_state"
  sys_jobs :: "'ctx active_job_t list"
  sys_ranges :: "(u32 \<times> u32) list"

inductive sys_step :: "'ctx miner_env \<Rightarrow> ('ctx, 'dev) system \<Rightarrow> ('ctx, 'dev) system \<Rightarrow> bool" for env where
  set_job: "job_shape j \<Longrightarrow> m' = miner_set_job (env_ssl env) j (sys_miner s) \<Longrightarrow>
    sys_step env s (s\<lparr>sys_miner := m', sys_jobs := sys_jobs s @ [job m'], sys_ranges := []\<rparr>)"
| set_paused: "sys_step env s (s\<lparr>sys_miner := miner_set_paused b (sys_miner s)\<rparr>)"
| pop_share: "sys_step env s (s\<lparr>sys_miner := snd (miner_pop_share (sys_miner s))\<rparr>)"
| take_exhausted: "sys_step env s (s\<lparr>sys_miner := snd (miner_take_nonce_exhausted (sys_miner s))\<rparr>)"
| stop_signal: "sys_step env s (s\<lparr>sys_miner := miner_stop_signal (sys_miner s)\<rparr>)"
| worker: "worker_step env i (sys_workers s i) (sys_miner s) = Some (w', m', r) \<Longrightarrow>
    sys_step env s (s\<lparr>sys_miner := m', sys_workers := (sys_workers s)(i := w'),
      sys_ranges := sys_ranges s @ (case r of None \<Rightarrow> [] | Some x \<Rightarrow> [x])\<rparr>)"

inductive_cases sys_stepE: "sys_step env s s'"

text \<open>A fresh engine: no job, no share, nothing handed out, all workers at the head of their loop.\<close>

definition fresh_miner :: "('ctx, 'dev) miner \<Rightarrow> bool" where
  "fresh_miner m \<longleftrightarrow> ring_ok m \<and> share_count m = 0 \<and> \<not> aj_valid (job m) \<and> job_seq (public_job (job m)) = 0 \<and>
     next_nonce m = 0"

inductive reachable :: "'ctx miner_env \<Rightarrow> ('ctx, 'dev) system \<Rightarrow> bool" for env where
  init: "fresh_miner m \<Longrightarrow>
    reachable env \<lparr>sys_miner = m, sys_workers = (\<lambda>i. W_check), sys_jobs = [], sys_ranges = []\<rparr>"
| step: "reachable env s \<Longrightarrow> sys_step env s s' \<Longrightarrow> reachable env s'"

lemma fresh_miner_create:
  "miner_create_with_backend_options flags c z n oc cc = Some m \<Longrightarrow> fresh_miner m"
  by (auto simp: miner_create_with_backend_options_def fresh_miner_def ring_ok_def zero_job_def Let_def
      split: if_splits prod.splits)

section \<open>Invariants\<close>

definition same_job :: "'ctx active_job_t \<Rightarrow> 'ctx active_job_t \<Rightarrow> bool" where
  "same_job a b \<longleftrightarrow> public_job a = public_job b \<and> midstate a = midstate b \<and>
     tail_words a = tail_words b \<and> target_words a = target_words b"

text \<open>The jobs installed so far are well formed and numbered from 1.\<close>

definition jobs_ok :: "'ctx openssl \<Rightarrow> 'ctx active_job_t list \<Rightarrow> bool" where
  "jobs_ok ssl js \<longleftrightarrow>
    (\<forall>k < length js. active_ok ssl (js ! k) \<and> job_seq (public_job (js ! k)) = of_nat (Suc k))"

definition engine_inv :: "'ctx openssl \<Rightarrow> 'ctx active_job_t list \<Rightarrow> ('ctx, 'dev) miner \<Rightarrow> bool" where
  "engine_inv ssl js m \<longleftrightarrow> ring_ok m \<and> jobs_ok ssl js \<and>
     (if js = [] then \<not> aj_valid (job m) \<and> job_seq (public_job (job m)) = 0 \<and> share_count m = 0
      else same_job (job m) (last js)) \<and>
     list_all (share_ok (public_job (job m))) (ring_contents m)"

fun worker_inv :: "'ctx active_job_t list \<Rightarrow> 'ctx worker_state \<Rightarrow> bool" where
  "worker_inv js (W_scan a s c ms) = ((\<exists>k < length js. same_job a (js ! k)) \<and> list_all (match_ok (public_job a)) ms)"
| "worker_inv js _ = True"

definition ranges_inv :: "(u32 \<times> u32) list \<Rightarrow> ('ctx, 'dev) miner \<Rightarrow> bool" where
  "ranges_inv rs m \<longleftrightarrow> unat (next_nonce m) \<le> 2 ^ 32 \<and>
     concat (map (\<lambda>(s, c). map unat (nonce_range s c)) rs) = [0..<unat (next_nonce m)]"

definition sys_inv :: "'ctx miner_env \<Rightarrow> ('ctx, 'dev) system \<Rightarrow> bool" where
  "sys_inv env s \<longleftrightarrow> engine_inv (env_ssl env) (sys_jobs s) (sys_miner s) \<and>
     (\<forall>i. worker_inv (sys_jobs s) (sys_workers s i)) \<and> ranges_inv (sys_ranges s) (sys_miner s)"

text \<open>What is asked of a GPU: for ranges no longer than its batch, it reports only matches.\<close>

definition gpu_sound :: "'ctx miner_env \<Rightarrow> bool" where
  "gpu_sound env \<longleftrightarrow> (\<forall>i a s c ms. active_ok (env_ssl env) a \<longrightarrow> unat c \<le> unat (batch_limit (env_batch env i)) \<longrightarrow>
     env_gpu_scan env i a s c = Some ms \<longrightarrow> list_all (match_ok (public_job a)) ms)"

section \<open>Preservation, operation by operation\<close>

lemma worker_inv_mono: "worker_inv js w \<Longrightarrow> worker_inv (js @ js') w"
  by (cases w) (auto simp: nth_append)

lemma same_job_refl [simp]: "same_job a a"
  by (simp add: same_job_def)

lemma same_job_valid [simp]: "same_job (a\<lparr>aj_valid := b\<rparr>) c \<longleftrightarrow> same_job a c"
  "same_job (a\<lparr>aj_pause_epoch := e\<rparr>) c \<longleftrightarrow> same_job a c"
  by (simp_all add: same_job_def)

text \<open>Operations that leave job, queue and nonce counter alone.\<close>

lemma engine_inv_frame:
  assumes "engine_inv ssl js m" "job m' = job m" "share_ring.truncate m' = share_ring.truncate m"
  shows "engine_inv ssl js m'"
proof -
  have "shares m' = shares m" "share_head m' = share_head m" "share_tail m' = share_tail m"
    "share_count m' = share_count m"
    using assms(3) by (simp_all add: share_ring.truncate_def)
  then show ?thesis using assms(1,2) by (simp add: engine_inv_def ring_ok_def ring_contents_def)
qed

lemma ranges_inv_frame: "ranges_inv rs m \<Longrightarrow> next_nonce m' = next_nonce m \<Longrightarrow> ranges_inv rs m'"
  by (simp add: ranges_inv_def)

lemmas frame_defs = miner_set_paused_def miner_take_nonce_exhausted_def miner_stop_signal_def
  count_cpu_hashes_def count_opencl_hashes_def count_cuda_hashes_def worker_count_def Let_def
  share_ring.truncate_def

lemma set_paused_frame: "engine_inv ssl js m \<Longrightarrow> engine_inv ssl js (miner_set_paused b m)"
  "next_nonce (miner_set_paused b m) = next_nonce m"
  by (auto elim!: engine_inv_frame simp: frame_defs)

lemma take_exhausted_frame: "engine_inv ssl js m \<Longrightarrow> engine_inv ssl js (snd (miner_take_nonce_exhausted m))"
  "next_nonce (snd (miner_take_nonce_exhausted m)) = next_nonce m"
  by (auto elim!: engine_inv_frame simp: frame_defs)

lemma stop_signal_frame: "engine_inv ssl js m \<Longrightarrow> engine_inv ssl js (miner_stop_signal m)"
  "next_nonce (miner_stop_signal m) = next_nonce m"
  by (auto elim!: engine_inv_frame simp: frame_defs)

lemma worker_count_frame: "engine_inv ssl js m \<Longrightarrow> engine_inv ssl js (worker_count env i a c m)"
  "next_nonce (worker_count env i a c m) = next_nonce m"
  by (auto elim!: engine_inv_frame simp: frame_defs split: worker_kind.splits)

lemma pop_share_inv:
  assumes "engine_inv ssl js m"
  shows "engine_inv ssl js (snd (miner_pop_share m))"
proof -
  have ok: "ring_ok m" using assms by (simp add: engine_inv_def)
  have j: "job (snd (ring_pop m)) = job m" "share_count (snd (ring_pop m)) \<le> share_count m"
    by (simp_all add: ring_pop_def)
  have "set (ring_contents (snd (ring_pop m))) \<subseteq> set (ring_contents m)"
    using ring_pop_contents [OF ok] by (cases "ring_contents m") auto
  then show ?thesis
    using assms j ring_ok_pop [OF ok]
    by (auto simp: engine_inv_def miner_pop_share_def list_all_iff split: if_splits)
qed

lemma pop_share_frame: "next_nonce (snd (miner_pop_share m)) = next_nonce m"
  by (simp add: miner_pop_share_def ring_pop_def)

lemma set_job_inv:
  assumes "engine_inv ssl js m" "job_shape j" "length js + 1 < 2 ^ 64"
  defines "m' \<equiv> miner_set_job ssl j m"
  shows "engine_inv ssl (js @ [job m']) m'" "ranges_inv [] m'"
proof -
  have "job_seq (public_job (job m)) = of_nat (length js)"
    using assms(1) by (cases js rule: rev_cases)
      (auto simp: engine_inv_def jobs_ok_def same_job_def nth_append)
  then have "job_seq (public_job (job m')) = of_nat (Suc (length js))"
    by (simp add: m'_def miner_set_job_def Let_def ring_clear_def add.commute)
  moreover have "active_ok ssl (job m')" unfolding m'_def by (rule active_ok_set_job [OF assms(2)])
  ultimately have "jobs_ok ssl (js @ [job m'])"
    using assms(1) by (auto simp: engine_inv_def jobs_ok_def nth_append less_Suc_eq)
  moreover have "ring_ok m'" "share_count m' = 0"
    using assms(1) by (auto simp: m'_def miner_set_job_def Let_def engine_inv_def ring_ok_def ring_clear_def)
  ultimately show "engine_inv ssl (js @ [job m']) m'"
    by (simp add: engine_inv_def ring_contents_def)
  show "ranges_inv [] m'"
    by (simp add: ranges_inv_def m'_def miner_set_job_def Let_def ring_clear_def)
qed

text \<open>Equal sequence numbers mean equal jobs, as long as the counter has not wrapped.\<close>

lemma jobs_ok_seq_inj:
  assumes "jobs_ok ssl js" "length js < 2 ^ 64" "k < length js" "l < length js"
    "job_seq (public_job (js ! k)) = job_seq (public_job (js ! l))"
  shows "k = l"
proof -
  have "(of_nat (Suc k) :: u64) = of_nat (Suc l)" using assms by (simp add: jobs_ok_def)
  then have "unat (of_nat (Suc k) :: u64) = unat (of_nat (Suc l) :: u64)" by (simp only:)
  then show ?thesis using assms(2-4) by (simp add: unat_of_nat del: of_nat_Suc)
qed

lemma queue_scan_match_inv:
  assumes "engine_inv ssl js m" "length js < 2 ^ 64" "\<exists>k < length js. same_job a (js ! k)"
    "match_ok (public_job a) (nonce, h)"
  shows "engine_inv ssl js (queue_scan_match fl a nonce h m)"
proof (cases "scan_result_still_current_locked m a")
  case True
  obtain k where k: "k < length js" "same_job a (js ! k)" using assms(3) by blast
  then have "js \<noteq> []" by auto
  then have l: "same_job (job m) (last js)" "jobs_ok ssl js" using assms(1) by (simp_all add: engine_inv_def)
  have "k = length js - 1"
    using True k l \<open>js \<noteq> []\<close>
    by (intro jobs_ok_seq_inj [OF l(2) assms(2)])
       (auto simp: scan_result_still_current_locked_def same_job_def last_conv_nth)
  then have pj: "public_job a = public_job (job m)"
    using k l \<open>js \<noteq> []\<close> by (simp add: same_job_def last_conv_nth)
  have "job_shape (public_job a)" using k l(2) by (auto simp: jobs_ok_def active_ok_def same_job_def)
  then have "list_all (share_ok (public_job (job m)))
      (ring_contents (queue_share_locked fl (public_job a) nonce (sha256d_words_to_hash h) m))"
    using assms(1,4) unfolding pj
    by (intro queue_share_locked_contents) (auto simp: engine_inv_def match_ok_def)
  moreover have "job (ring_push x m) = job m" for x by (simp add: ring_push_def)
  moreover have "ring_ok m" using assms(1) by (simp add: engine_inv_def)
  ultimately show ?thesis
    using True assms(1) \<open>js \<noteq> []\<close>
    by (simp add: queue_scan_match_def engine_inv_def queue_share_locked_def Let_def ring_ok_push)
qed (simp add: queue_scan_match_def assms(1))

lemma queue_scan_match_frame: "next_nonce (queue_scan_match fl a nonce h m) = next_nonce m"
  by (simp add: queue_scan_match_def queue_share_locked_def ring_push_def Let_def)

lemma worker_take_sized: "\<exists>b. worker_take env i m = copy_job_and_nonce_range_sized b m"
  by (auto simp: worker_take_def copy_job_and_nonce_range_def Let_def)

lemma worker_take_bound:
  "worker_take env i m = (Some (a, s, c), m') \<Longrightarrow> env_kind env i \<noteq> CPU_WORKER \<Longrightarrow>
   unat c \<le> unat (batch_limit (env_batch env i))"
  by (simp add: worker_take_def copy_range_bound)

lemma worker_take_None_inv:
  assumes "worker_take env i m = (None, m')" "engine_inv ssl js m" "ranges_inv rs m"
  shows "engine_inv ssl js m'" "ranges_inv rs m'"
proof -
  obtain b where "copy_job_and_nonce_range_sized b m = (None, m')"
    using worker_take_sized [of env i m] assms(1) by metis
  note n = copy_range_None [OF this]
  have e: "engine_inv ssl js (m\<lparr>job := (job m)\<lparr>aj_valid := False\<rparr>, nonce_exhausted := True\<rparr>)"
    using assms(2) by (auto simp: engine_inv_def ring_ok_def ring_contents_def)
  from n e assms(2,3) show "engine_inv ssl js m'" "ranges_inv rs m'"
    by (auto simp: ranges_inv_def)
qed

lemma worker_take_Some_inv:
  assumes "worker_take env i m = (Some (a, s, c), m')" "engine_inv ssl js m" "ranges_inv rs m"
  shows "engine_inv ssl js m'" "ranges_inv (rs @ [(s, c)]) m'" "\<exists>k < length js. same_job a (js ! k)"
    "active_ok ssl a"
proof -
  obtain b where "copy_job_and_nonce_range_sized b m = (Some (a, s, c), m')"
    using worker_take_sized [of env i m] assms(1) by metis
  note c = copy_range_Some [OF this]
  show "engine_inv ssl js m'"
    using assms(2) by (rule engine_inv_frame) (simp_all add: c(5) share_ring.truncate_def)
  show "ranges_inv (rs @ [(s, c)]) m'"
    using assms(3) c(9-11) upt_add_eq_append [of 0 "unat (next_nonce m)" "unat c"]
    by (simp add: ranges_inv_def)
  have j: "js \<noteq> []" using c(3) assms(2) by (auto simp: engine_inv_def)
  then have "same_job a (last js)" using c(4) assms(2) by (simp add: engine_inv_def)
  then show k: "\<exists>k < length js. same_job a (js ! k)"
    using j by (intro exI [of _ "length js - 1"]) (simp add: last_conv_nth)
  then show "active_ok ssl a"
    using assms(2) by (auto simp: engine_inv_def jobs_ok_def same_job_def active_ok_def)
qed

lemma worker_scan_ok:
  assumes "openssl_contract (env_ssl env)" "gpu_sound env" "active_ok (env_ssl env) a"
    "worker_scan env i a s c = Some ms"
    "env_kind env i \<noteq> CPU_WORKER \<Longrightarrow> unat c \<le> unat (batch_limit (env_batch env i))"
  shows "list_all (match_ok (public_job a)) ms"
  using assms cpu_scan_matches_ok [OF assms(1,3)]
  by (auto simp: worker_scan_def gpu_sound_def split: if_splits)

lemma worker_step_inv:
  assumes "worker_step env i w m = Some (w', m', r)" "openssl_contract (env_ssl env)" "gpu_sound env"
    "engine_inv (env_ssl env) js m" "worker_inv js w" "ranges_inv rs m" "length js < 2 ^ 64"
  shows "engine_inv (env_ssl env) js m' \<and> worker_inv js w' \<and>
         ranges_inv (rs @ (case r of None \<Rightarrow> [] | Some x \<Rightarrow> [x])) m'"
proof (cases w)
  case W_take
  show ?thesis
  proof (cases "worker_take env i m")
    case (Pair t m1)
    then show ?thesis
    proof (cases t)
      case None
      then show ?thesis
        using W_take Pair assms worker_take_None_inv [of env i m m1 "env_ssl env" js rs] by simp
    next
      case (Some x)
      obtain a s c where x: "x = (a, s, c)" by (cases x)
      note inv = worker_take_Some_inv [of env i m a s c m1 "env_ssl env" js rs]
      show ?thesis
        using W_take Pair Some x assms inv worker_take_bound [of env i m a s c m1]
          worker_scan_ok [OF assms(2,3), of a i s c]
        by (auto split: option.splits)
    qed
  qed
next
  case (W_scan a s c ms)
  show ?thesis
  proof (cases ms)
    case Nil
    then show ?thesis
      using W_scan assms worker_count_frame [where m = m and a = a and c = c and i = i and env = env]
        ranges_inv_frame [of rs m m'] by auto
  next
    case (Cons y ys)
    obtain nonce h where y: "y = (nonce, h)" by (cases y)
    show ?thesis
      using W_scan Cons y assms queue_scan_match_inv [of "env_ssl env" js m a nonce h "env_fl env"]
        queue_scan_match_frame [of "env_fl env" a nonce h m] ranges_inv_frame [of rs m m'] by auto
  qed
qed (use assms in \<open>auto split: if_splits\<close>)

lemma sys_step_inv:
  assumes "sys_step env s s'" "openssl_contract (env_ssl env)" "gpu_sound env" "sys_inv env s"
    "length (sys_jobs s') < 2 ^ 64"
  shows "sys_inv env s'"
  using assms(1)
proof cases
  case (set_job j m')
  then show ?thesis
    using assms set_job_inv [of "env_ssl env" "sys_jobs s" "sys_miner s" j]
    by (simp add: sys_inv_def worker_inv_mono)
next
  case (worker i w' m' r)
  then show ?thesis
    using assms worker_step_inv [OF worker(2) assms(2,3), of "sys_jobs s" "sys_ranges s"]
    by (simp add: sys_inv_def)
qed (use assms in \<open>auto simp: sys_inv_def set_paused_frame take_exhausted_frame stop_signal_frame
       pop_share_inv pop_share_frame elim!: ranges_inv_frame\<close>)

lemma sys_jobs_mono: "sys_step env s s' \<Longrightarrow> length (sys_jobs s) \<le> length (sys_jobs s')"
  by (cases rule: sys_step.cases) auto

lemma reachable_inv:
  assumes "reachable env s" "openssl_contract (env_ssl env)" "gpu_sound env" "length (sys_jobs s) < 2 ^ 64"
  shows "sys_inv env s"
  using assms(1,4)
proof induction
  case (init m)
  then show ?case
    by (simp add: sys_inv_def engine_inv_def ranges_inv_def fresh_miner_def jobs_ok_def ring_contents_def)
next
  case (step s s')
  then show ?case using sys_jobs_mono [OF step(2)] sys_step_inv [OF step(2) assms(2,3)] by simp
qed

section \<open>Stopping\<close>

text \<open>\<open>n\<close> steps of one worker while nobody else moves.\<close>

fun worker_run ::
  "'ctx miner_env \<Rightarrow> nat \<Rightarrow> nat \<Rightarrow> 'ctx worker_state \<Rightarrow> ('ctx, 'dev) miner \<Rightarrow>
   ('ctx worker_state \<times> ('ctx, 'dev) miner) option" where
  "worker_run env i 0 w m = Some (w, m)"
| "worker_run env i (Suc n) w m =
    (case worker_step env i w m of None \<Rightarrow> None | Some (w', m', r) \<Rightarrow> worker_run env i n w' m')"

definition steps_to_stop :: "'ctx worker_state \<Rightarrow> nat" where
  "steps_to_stop w = (case w of W_check \<Rightarrow> 1 | W_wait \<Rightarrow> 2 | W_take \<Rightarrow> 3 | W_scan a s c ms \<Rightarrow> length ms + 2 | W_done \<Rightarrow> 0)"

lemma stopped_engine_frozen:
  assumes "stop m"
  shows "queue_scan_match fl a nonce h m = m" "worker_count env i a c m = m" "worker_take env i m = (None, m)"
    "wait_over m"
  using assms
  by (auto simp: queue_scan_match_def scan_result_still_current_locked_def worker_count_def count_cpu_hashes_def
      count_opencl_hashes_def count_cuda_hashes_def worker_take_def copy_job_and_nonce_range_def Let_def
      copy_job_and_nonce_range_sized_def wait_over_def split: worker_kind.splits)

lemma worker_run_scan:
  "stop m \<Longrightarrow> worker_run env i (length ms + 2) (W_scan a s c ms) m = Some (W_done, m)"
  by (induction ms) (auto simp: stopped_engine_frozen numeral_2_eq_2)

section \<open>A small run\<close>

definition demo_env :: "u32 list miner_env" where
  "demo_env = \<lparr>env_flags = \<lparr>BTC_MINER_OPENCL = False, BTC_MINER_CUDA = False\<rparr>, env_platform = x86_platform,
     env_ssl = openssl_ref, env_backend = SHA256D_BACKEND_FAST_C, env_fl = (\<lambda>x. x),
     env_kind = (\<lambda>i. CPU_WORKER), env_id = int, env_batch = (\<lambda>i. 0), env_gpu_scan = (\<lambda>i a s c. None)\<rparr>"

definition demo_job :: miner_job_t where
  "demo_job = \<lparr>job_seq = 0, job_job_id = ''j1'', job_extranonce2 = ''00000001'', job_ntime = ''5f5e1000'',
     job_header = replicate 80 1, job_target = replicate 32 255\<rparr>"

definition demo_miner :: "(u32 list, unit) miner" where
  "demo_miner = the (miner_create_with_backend_options (env_flags demo_env) (True, True, True) [] 1 None None)"

lemma demo_assumptions: "openssl_contract (env_ssl demo_env)" "gpu_sound demo_env" "job_shape demo_job"
  by (simp_all add: demo_env_def openssl_contract_ref gpu_sound_def demo_job_def job_shape_def)

lemma fresh_demo_miner: "fresh_miner demo_miner"
  by (rule fresh_miner_create [where flags = "env_flags demo_env" and c = "(True, True, True)" and z = "[]"
        and n = 1 and oc = None and cc = None])
     (simp add: demo_miner_def miner_create_with_backend_options_def Let_def)

lemma demo_set_job:
  "reachable demo_env \<lparr>sys_miner = miner_set_job openssl_ref demo_job demo_miner, sys_workers = (\<lambda>i. W_check),
     sys_jobs = [job (miner_set_job openssl_ref demo_job demo_miner)], sys_ranges = []\<rparr>"
  using reachable.step [OF reachable.init [OF fresh_demo_miner, of demo_env]
      sys_step.set_job [OF demo_assumptions(3) refl]]
  by (simp add: demo_env_def)

abbreviation demo_loaded :: "(u32 list, unit) miner" where
  "demo_loaded \<equiv> miner_set_job openssl_ref demo_job demo_miner"

lemma demo_loaded_state:
  "\<not> stop demo_loaded" "\<not> paused demo_loaded" "aj_valid (job demo_loaded)" "next_nonce demo_loaded = 0"
  "share_count demo_loaded = 0" "ring_ok demo_loaded" "pause_epoch demo_loaded = 0"
  "public_job (job demo_loaded) = demo_job\<lparr>job_seq := 1\<rparr>" "active_ok openssl_ref (job demo_loaded)"
  by (rule active_ok_set_job [OF demo_assumptions(3)] |
      simp add: demo_miner_def miner_create_with_backend_options_def miner_set_job_def Let_def ring_clear_def
        ring_ok_def zero_job_def)+

text \<open>Every hash meets the target of the demonstration job, so the first scan has something to report.\<close>

lemma le_bytes_val_max: "le_bytes_val (replicate n 255) + 1 = 256 ^ n"
  by (induction n) auto

lemma demo_scan:
  assumes "same_job a (job demo_loaded)"
  obtains nonce h ms where "worker_scan demo_env 0 a 0 MINER_BATCH_SIZE = Some ((nonce, h) # ms)"
proof -
  let ?r = "sha256d_nonce_range_func x86_platform openssl_ref SHA256D_BACKEND_FAST_C (midstate a) (tail_words a)
    (target_words a) 0 MINER_BATCH_SIZE (Some (\<lambda>found nonce h. found @ [(nonce, h)])) []"
  have pj: "public_job a = demo_job\<lparr>job_seq := 1\<rparr>" and ok: "active_ok openssl_ref a"
    using assms demo_loaded_state(8,9) by (auto simp: same_job_def active_ok_def)
  have "le_bytes_val (sha256d x) \<le> le_bytes_val (replicate 32 255)" for x
    using le_bytes_val_bound [of "sha256d x"] le_bytes_val_max [of 32] by simp
  then have all: "solves (public_job a) nonce (sha256d (take 76 (job_header (public_job a)) @ le32_bytes nonce))" for nonce
    by (simp add: solves_def pj demo_job_def)
  have "map fst ?r = nonce_range 0 MINER_BATCH_SIZE"
    using cpu_scan_nonces [OF openssl_contract_ref ok, of x86_platform SHA256D_BACKEND_FAST_C 0 MINER_BATCH_SIZE] all
    by (simp del: sha256d_nonce_range_func.simps)
  then have "length (map fst ?r) = length (nonce_range 0 MINER_BATCH_SIZE)" by (simp only:)
  then have "length ?r = 262144"
    by (simp add: nonce_range_def MINER_BATCH_SIZE_def del: sha256d_nonce_range_func.simps)
  then show ?thesis
    using that by (cases ?r) (auto simp: worker_scan_def demo_env_def simp del: sha256d_nonce_range_func.simps)
qed

lemma demo_take:
  "worker_take demo_env 0 demo_loaded =
    (Some ((job demo_loaded)\<lparr>aj_pause_epoch := 0\<rparr>, 0, MINER_BATCH_SIZE), demo_loaded\<lparr>next_nonce := 262144\<rparr>)"
  using demo_loaded_state
  by (simp add: worker_take_def demo_env_def copy_job_and_nonce_range_def copy_job_and_nonce_range_sized_def
      MINER_BATCH_SIZE_def)

lemma demo_run:
  obtains s :: "(u32 list, unit) system"
  where "reachable demo_env s" "length (sys_jobs s) = 1" "ring_contents (sys_miner s) \<noteq> []"
    "sys_ranges s = [(0, MINER_BATCH_SIZE)]" "next_nonce (sys_miner s) = 262144"
proof -
  let ?a = "(job demo_loaded)\<lparr>aj_pause_epoch := 0\<rparr>"
  let ?m2 = "demo_loaded\<lparr>next_nonce := 262144\<rparr>"
  obtain nonce h ms where sc: "worker_scan demo_env 0 ?a 0 MINER_BATCH_SIZE = Some ((nonce, h) # ms)"
    by (rule demo_scan [of ?a]) simp
  let ?s = "\<lambda>m w rs. \<lparr>sys_miner = m, sys_workers = (\<lambda>i. W_check)(0 := w), sys_jobs = [job demo_loaded], sys_ranges = rs\<rparr>"
  have s2: "reachable demo_env (?s demo_loaded W_take [])"
    using reachable.step [OF demo_set_job sys_step.worker [where i = 0 and r = None]] demo_loaded_state
    by simp
  have "worker_step demo_env 0 W_take demo_loaded =
      Some (W_scan ?a 0 MINER_BATCH_SIZE ((nonce, h) # ms), ?m2, Some (0, MINER_BATCH_SIZE))"
    using demo_take sc by simp
  then have s3: "reachable demo_env (?s ?m2 (W_scan ?a 0 MINER_BATCH_SIZE ((nonce, h) # ms)) [(0, MINER_BATCH_SIZE)])"
    using reachable.step [OF s2 sys_step.worker [where i = 0 and r = "Some (0, MINER_BATCH_SIZE)"]]
    by (simp del: worker_step.simps)
  let ?m3 = "queue_scan_match (env_fl demo_env) ?a nonce h ?m2"
  have s4: "reachable demo_env (?s ?m3 (W_scan ?a 0 MINER_BATCH_SIZE ms) [(0, MINER_BATCH_SIZE)])"
    using reachable.step [OF s3 sys_step.worker [where i = 0 and r = None]] by simp
  have "ring_contents ?m3 \<noteq> []"
    using demo_loaded_state
    by (simp add: queue_scan_match_def scan_result_still_current_locked_def queue_share_locked_def Let_def
        ring_contents_push ring_ok_def)
  moreover have "next_nonce ?m3 = 262144" by (simp add: queue_scan_match_frame)
  ultimately show ?thesis using that [OF s4] by simp
qed

section \<open>Properties\<close>

text \<open>C6. Whatever the interleaving of the network thread and the workers, every share waiting in the
  queue is a proof of work for the job that is current now: its hash is the double SHA-256 of the job's
  header with the share's nonce and meets the job's target, and its labels are the job's. The sequence
  number is a 64-bit counter, so at most \<open>2 ^ 64 - 1\<close> jobs may have been installed; a GPU is trusted to
  report only matches.\<close>

theorem queued_shares_are_proofs:
  assumes "reachable env s" "openssl_contract (env_ssl env)" "gpu_sound env" "length (sys_jobs s) < 2 ^ 64"
  shows "list_all (share_ok (public_job (job (sys_miner s)))) (ring_contents (sys_miner s))"
  using reachable_inv [OF assms] by (simp add: sys_inv_def engine_inv_def)

theorem queued_shares_are_proofs_witness:
  "\<exists>s :: (u32 list, unit) system. reachable demo_env s \<and> openssl_contract (env_ssl demo_env) \<and>
     gpu_sound demo_env \<and> length (sys_jobs s) < 2 ^ 64 \<and> ring_contents (sys_miner s) \<noteq> [] \<and>
     list_all (share_ok (public_job (job (sys_miner s)))) (ring_contents (sys_miner s))"
proof -
  obtain s :: "(u32 list, unit) system" where
    s: "reachable demo_env s" "length (sys_jobs s) = 1" "ring_contents (sys_miner s) \<noteq> []"
    by (rule demo_run)
  then show ?thesis
    using queued_shares_are_proofs [OF s(1) demo_assumptions(1,2)] demo_assumptions(1,2) by auto
qed

text \<open>C10. The ranges handed out to the workers for the current job, in the order in which they were handed
  out, are exactly the nonces below \<open>next_nonce\<close>, each once: no two workers scan the same nonce and none is
  skipped. When the job is declared exhausted every one of the \<open>2 ^ 32\<close> nonces has been handed out.\<close>

theorem handed_out_ranges_tile:
  assumes "reachable env s" "openssl_contract (env_ssl env)" "gpu_sound env" "length (sys_jobs s) < 2 ^ 64"
  shows "concat (map (\<lambda>(start, count). map unat (nonce_range start count)) (sys_ranges s)) =
           [0..<unat (next_nonce (sys_miner s))] \<and>
         unat (next_nonce (sys_miner s)) \<le> 2 ^ 32 \<and>
         (worker_take env i (sys_miner s) = (None, m') \<and> m' \<noteq> sys_miner s \<longrightarrow>
            concat (map (\<lambda>(start, count). map unat (nonce_range start count)) (sys_ranges s)) = [0..<2 ^ 32])"
proof -
  have r: "ranges_inv (sys_ranges s) (sys_miner s)"
    using reachable_inv [OF assms] by (simp add: sys_inv_def)
  have "unat (next_nonce (sys_miner s)) = 2 ^ 32"
    if t: "worker_take env i (sys_miner s) = (None, m')" "m' \<noteq> sys_miner s"
  proof -
    obtain b where "copy_job_and_nonce_range_sized b (sys_miner s) = (None, m')"
      using worker_take_sized [of env i "sys_miner s"] t(1) by metis
    from copy_range_None [OF this] r t(2) show ?thesis by (simp add: ranges_inv_def)
  qed
  with r show ?thesis by (simp add: ranges_inv_def)
qed

theorem handed_out_ranges_tile_witness:
  "\<exists>s :: (u32 list, unit) system. reachable demo_env s \<and> openssl_contract (env_ssl demo_env) \<and>
     gpu_sound demo_env \<and> length (sys_jobs s) < 2 ^ 64 \<and> sys_ranges s = [(0, MINER_BATCH_SIZE)] \<and>
     concat (map (\<lambda>(start, count). map unat (nonce_range start count)) (sys_ranges s)) = [0..<262144]"
proof -
  obtain s :: "(u32 list, unit) system" where
    s: "reachable demo_env s" "length (sys_jobs s) = 1" "sys_ranges s = [(0, MINER_BATCH_SIZE)]"
      "next_nonce (sys_miner s) = 262144"
    by (rule demo_run)
  then show ?thesis
    using handed_out_ranges_tile [OF s(1) demo_assumptions(1,2), of 0 "sys_miner s"] demo_assumptions(1,2)
    by (intro exI [of _ s]) simp
qed

text \<open>C22. A result that belongs to work that is no longer wanted is dropped: after the pool sent a new
  job, or after mining was paused and resumed, reporting a match of the old range leaves the engine as it
  is, and so does counting its hashes.\<close>

theorem stale_results_dropped:
  assumes "scan_result_still_current_locked m a"
    "m' = miner_set_job ssl j m \<or> m' = miner_set_paused True m \<or>
     m' = miner_set_paused False (miner_set_paused True m) \<or> m' = miner_stop_signal m \<and> started m"
  shows "queue_scan_match fl a nonce h m' = m' \<and> worker_count env i a count m' = m'"
proof -
  have "\<not> scan_result_still_current_locked m' a"
    using assms
    by (auto simp: scan_result_still_current_locked_def miner_set_job_def miner_set_paused_def Let_def
        ring_clear_def miner_stop_signal_def)
  then show ?thesis
    by (simp add: queue_scan_match_def worker_count_def count_cpu_hashes_def count_opencl_hashes_def
        count_cuda_hashes_def split: worker_kind.splits)
qed

theorem stale_results_dropped_witness:
  "scan_result_still_current_locked demo_loaded (job demo_loaded) \<and>
   queue_scan_match (\<lambda>x. x) (job demo_loaded) 7 (replicate 8 0)
     (miner_set_paused False (miner_set_paused True demo_loaded)) =
   miner_set_paused False (miner_set_paused True demo_loaded)"
proof -
  have "scan_result_still_current_locked demo_loaded (job demo_loaded)"
    using demo_loaded_state
    by (simp add: scan_result_still_current_locked_def) (simp add: miner_set_job_def Let_def ring_clear_def)
  then show ?thesis
    using stale_results_dropped [of demo_loaded "job demo_loaded"] by blast
qed

text \<open>C37. Once the engine is told to stop, every worker ends, whatever it was doing: within the number of
  matches it still has to report plus three steps, without being blocked and without changing the engine.\<close>

theorem workers_stop:
  assumes "stop m"
  shows "worker_run env i (steps_to_stop w) w m = Some (W_done, m)"
proof (cases w)
  case (W_scan a s c ms)
  then show ?thesis using worker_run_scan [OF assms] by (simp add: steps_to_stop_def)
qed (use assms in \<open>simp_all add: steps_to_stop_def stopped_engine_frozen numeral_2_eq_2 numeral_3_eq_3\<close>)

theorem workers_stop_witness:
  "stop (demo_loaded\<lparr>stop := True\<rparr>) \<and>
   worker_run demo_env 0 3 W_take (demo_loaded\<lparr>stop := True\<rparr>) = Some (W_done, demo_loaded\<lparr>stop := True\<rparr>)"
  using workers_stop [of "demo_loaded\<lparr>stop := True\<rparr>" demo_env 0 W_take] by (simp add: steps_to_stop_def)

text \<open>A CPU worker loses no solution: the matches of a scan of any range of a job are precisely the
  nonces of that range that solve the job, in order.\<close>

theorem cpu_scan_complete:
  assumes "openssl_contract (env_ssl env)" "job_shape j" "env_kind env i = CPU_WORKER"
    "a = job (miner_set_job (env_ssl env) j m)"
  shows "\<exists>ms. worker_scan env i a start count = Some ms \<and> list_all (match_ok (public_job a)) ms \<and>
    map fst ms = filter (\<lambda>nonce. le_bytes_val (sha256d (take 76 (job_header j) @ le32_bytes nonce)) \<le> le_bytes_val (job_target j))
      (nonce_range start count)"
proof -
  have ok: "active_ok (env_ssl env) a" unfolding assms(4) by (rule active_ok_set_job [OF assms(2)])
  have "job_header (public_job a) = job_header j" "job_target (public_job a) = job_target j"
    by (simp_all add: assms(4) miner_set_job_def Let_def ring_clear_def)
  then show ?thesis
    using cpu_scan_nonces [OF assms(1) ok] cpu_scan_matches_ok [OF assms(1) ok] assms(3)
    by (simp add: worker_scan_def solves_def del: sha256d_nonce_range_func.simps)
qed

theorem cpu_scan_complete_witness:
  "openssl_contract (env_ssl demo_env) \<and> job_shape demo_job \<and> env_kind demo_env 0 = CPU_WORKER \<and>
   (\<exists>ms. worker_scan demo_env 0 (job demo_loaded) 5 9 = Some ms \<and>
     list_all (match_ok (public_job (job demo_loaded))) ms \<and>
     map fst ms = filter (\<lambda>nonce. le_bytes_val (sha256d (take 76 (job_header demo_job) @ le32_bytes nonce)) \<le>
       le_bytes_val (job_target demo_job)) (nonce_range 5 9))"
  using cpu_scan_complete [OF demo_assumptions(1,3), of 0 "job demo_loaded" demo_miner 5 9] demo_assumptions(1,3)
  by (simp add: demo_env_def)

end
