(* ===== verification/Gpu_Sha256.thy ===== *)
theory Gpu_Sha256
  imports Sha256d
begin

text \<open>
  The SHA-256 code the GPU kernels share: the macros of \<open>src/src/cuda_sha256d_kernel.cu\<close>. The
  OpenCL kernel text of \<open>src/src/opencl_miner.c\<close> has the same macros and the same 64 round lines. A
  round updates two of the eight working variables in place and the callers rotate the names; from
  round 16 on, a line also updates one of the sixteen schedule words in place. \<open>rotr32\<close> and \<open>bswap32\<close>
  are the functions of \<open>Sha256d\<close>, which the kernels repeat word for word.

  Main result: the unrolled code, in its plain, three-input-logic and two-lane forms, computes the
  compression function of the standard.
\<close>

section \<open>Macros\<close>

definition SS0 :: "u32 \<Rightarrow> u32" where
  "SS0 x = rotr32 x 7 XOR rotr32 x 18 XOR drop_bit 3 x"

definition SS1 :: "u32 \<Rightarrow> u32" where
  "SS1 x = rotr32 x 17 XOR rotr32 x 19 XOR drop_bit 10 x"

definition BS0 :: "u32 \<Rightarrow> u32" where
  "BS0 x = rotr32 x 2 XOR rotr32 x 13 XOR rotr32 x 22"

definition BS1 :: "u32 \<Rightarrow> u32" where
  "BS1 x = rotr32 x 6 XOR rotr32 x 11 XOR rotr32 x 25"

type_synonym ternary = "u32 \<Rightarrow> u32 \<Rightarrow> u32 \<Rightarrow> u32"

definition CH :: ternary where
  "CH x y z = (x AND y) XOR (NOT x AND z)"

definition MAJ :: ternary where
  "MAJ x y z = (x AND y) XOR (x AND z) XOR (y AND z)"

text \<open>The instruction \<open>lop3.b32\<close>: bit \<open>n\<close> of the result is the bit of the look-up byte that the three
  input bits number, the first input giving the most significant bit.\<close>

definition lop3_b32 :: "u32 \<Rightarrow> u32 \<Rightarrow> u32 \<Rightarrow> u8 \<Rightarrow> u32" where
  "lop3_b32 x y z lut =
    foldl (\<lambda>r i. if bit lut i
        then r OR ((if bit i 2 then x else NOT x) AND (if bit i 1 then y else NOT y) AND
                   (if bit i 0 then z else NOT z))
        else r) 0 [0, 1, 2, 3, 4, 5, 6, 7 :: nat]"

definition ch_lop3 :: ternary where
  "ch_lop3 x y z = lop3_b32 x y z 0xca"

definition maj_lop3 :: ternary where
  "maj_lop3 x y z = lop3_b32 x y z 0xe8"

text \<open>The new value of the first argument.\<close>

definition MSG :: "u32 \<Rightarrow> u32 \<Rightarrow> u32 \<Rightarrow> u32 \<Rightarrow> u32" where
  "MSG w0 w1 w9 w14 = w0 + (SS0 w1 + w9 + SS1 w14)"

text \<open>The new values of \<open>d\<close> and \<open>h\<close>. The macros \<open>CH\<close> and \<open>MAJ\<close> are those in force where \<open>ROUND\<close> is
  expanded, so they are parameters.\<close>

definition ROUND ::
  "ternary \<Rightarrow> ternary \<Rightarrow> u32 \<Rightarrow> u32 \<Rightarrow> u32 \<Rightarrow> u32 \<Rightarrow> u32 \<Rightarrow> u32 \<Rightarrow> u32 \<Rightarrow> u32 \<Rightarrow> u32 \<Rightarrow> u32 \<Rightarrow> u32 \<times> u32" where
  "ROUND ch maj a b c d e f g h w k =
    (let t1 = h + BS1 e + ch e f g + k + w;
         t2 = BS0 a + maj a b c
     in (d + t1, t1 + t2))"

text \<open>The sixteen schedule words.\<close>

type_synonym wmsg = "u32 \<times> u32 \<times> u32 \<times> u32 \<times> u32 \<times> u32 \<times> u32 \<times> u32 \<times>
  u32 \<times> u32 \<times> u32 \<times> u32 \<times> u32 \<times> u32 \<times> u32 \<times> u32"

section \<open>The unrolled rounds\<close>

definition rounds_00_15 :: "ternary \<Rightarrow> ternary \<Rightarrow> wvars \<Rightarrow> wmsg \<Rightarrow> wvars \<times> wmsg" where
  "rounds_00_15 ch maj v w =
    (let (a, b, c, d, e, f, g, h) = v;
         (w0, w1, w2, w3, w4, w5, w6, w7, w8, w9, w10, w11, w12, w13, w14, w15) = w;
         (d, h) = ROUND ch maj a b c d e f g h w0 0x428a2f98;
         (c, g) = ROUND ch maj h a b c d e f g w1 0x71374491;
         (b, f) = ROUND ch maj g h a b c d e f w2 0xb5c0fbcf;
         (a, e) = ROUND ch maj f g h a b c d e w3 0xe9b5dba5;
         (h, d) = ROUND ch maj e f g h a b c d w4 0x3956c25b;
         (g, c) = ROUND ch maj d e f g h a b c w5 0x59f111f1;
         (f, b) = ROUND ch maj c d e f g h a b w6 0x923f82a4;
         (e, a) = ROUND ch maj b c d e f g h a w7 0xab1c5ed5;
         (d, h) = ROUND ch maj a b c d e f g h w8 0xd807aa98;
         (c, g) = ROUND ch maj h a b c d e f g w9 0x12835b01;
         (b, f) = ROUND ch maj g h a b c d e f w10 0x243185be;
         (a, e) = ROUND ch maj f g h a b c d e w11 0x550c7dc3;
         (h, d) = ROUND ch maj e f g h a b c d w12 0x72be5d74;
         (g, c) = ROUND ch maj d e f g h a b c w13 0x80deb1fe;
         (f, b) = ROUND ch maj c d e f g h a b w14 0x9bdc06a7;
         (e, a) = ROUND ch maj b c d e f g h a w15 0xc19bf174
     in ((a, b, c, d, e, f, g, h), (w0, w1, w2, w3, w4, w5, w6, w7, w8, w9, w10, w11, w12, w13, w14, w15)))"

definition rounds_16_31 :: "ternary \<Rightarrow> ternary \<Rightarrow> wvars \<Rightarrow> wmsg \<Rightarrow> wvars \<times> wmsg" where
  "rounds_16_31 ch maj v w =
    (let (a, b, c, d, e, f, g, h) = v;
         (w0, w1, w2, w3, w4, w5, w6, w7, w8, w9, w10, w11, w12, w13, w14, w15) = w;
         w0 = MSG w0 w1 w9 w14; (d, h) = ROUND ch maj a b c d e f g h w0 0xe49b69c1;
         w1 = MSG w1 w2 w10 w15; (c, g) = ROUND ch maj h a b c d e f g w1 0xefbe4786;
         w2 = MSG w2 w3 w11 w0; (b, f) = ROUND ch maj g h a b c d e f w2 0x0fc19dc6;
         w3 = MSG w3 w4 w12 w1; (a, e) = ROUND ch maj f g h a b c d e w3 0x240ca1cc;
         w4 = MSG w4 w5 w13 w2; (h, d) = ROUND ch maj e f g h a b c d w4 0x2de92c6f;
         w5 = MSG w5 w6 w14 w3; (g, c) = ROUND ch maj d e f g h a b c w5 0x4a7484aa;
         w6 = MSG w6 w7 w15 w4; (f, b) = ROUND ch maj c d e f g h a b w6 0x5cb0a9dc;
         w7 = MSG w7 w8 w0 w5; (e, a) = ROUND ch maj b c d e f g h a w7 0x76f988da;
         w8 = MSG w8 w9 w1 w6; (d, h) = ROUND ch maj a b c d e f g h w8 0x983e5152;
         w9 = MSG w9 w10 w2 w7; (c, g) = ROUND ch maj h a b c d e f g w9 0xa831c66d;
         w10 = MSG w10 w11 w3 w8; (b, f) = ROUND ch maj g h a b c d e f w10 0xb00327c8;
         w11 = MSG w11 w12 w4 w9; (a, e) = ROUND ch maj f g h a b c d e w11 0xbf597fc7;
         w12 = MSG w12 w13 w5 w10; (h, d) = ROUND ch maj e f g h a b c d w12 0xc6e00bf3;
         w13 = MSG w13 w14 w6 w11; (g, c) = ROUND ch maj d e f g h a b c w13 0xd5a79147;
         w14 = MSG w14 w15 w7 w12; (f, b) = ROUND ch maj c d e f g h a b w14 0x06ca6351;
         w15 = MSG w15 w0 w8 w13; (e, a) = ROUND ch maj b c d e f g h a w15 0x14292967
     in ((a, b, c, d, e, f, g, h), (w0, w1, w2, w3, w4, w5, w6, w7, w8, w9, w10, w11, w12, w13, w14, w15)))"

definition rounds_32_47 :: "ternary \<Rightarrow> ternary \<Rightarrow> wvars \<Rightarrow> wmsg \<Rightarrow> wvars \<times> wmsg" where
  "rounds_32_47 ch maj v w =
    (let (a, b, c, d, e, f, g, h) = v;
         (w0, w1, w2, w3, w4, w5, w6, w7, w8, w9, w10, w11, w12, w13, w14, w15) = w;
         w0 = MSG w0 w1 w9 w14; (d, h) = ROUND ch maj a b c d e f g h w0 0x27b70a85;
         w1 = MSG w1 w2 w10 w15; (c, g) = ROUND ch maj h a b c d e f g w1 0x2e1b2138;
         w2 = MSG w2 w3 w11 w0; (b, f) = ROUND ch maj g h a b c d e f w2 0x4d2c6dfc;
         w3 = MSG w3 w4 w12 w1; (a, e) = ROUND ch maj f g h a b c d e w3 0x53380d13;
         w4 = MSG w4 w5 w13 w2; (h, d) = ROUND ch maj e f g h a b c d w4 0x650a7354;
         w5 = MSG w5 w6 w14 w3; (g, c) = ROUND ch maj d e f g h a b c w5 0x766a0abb;
         w6 = MSG w6 w7 w15 w4; (f, b) = ROUND ch maj c d e f g h a b w6 0x81c2c92e;
         w7 = MSG w7 w8 w0 w5; (e, a) = ROUND ch maj b c d e f g h a w7 0x92722c85;
         w8 = MSG w8 w9 w1 w6; (d, h) = ROUND ch maj a b c d e f g h w8 0xa2bfe8a1;
         w9 = MSG w9 w10 w2 w7; (c, g) = ROUND ch maj h a b c d e f g w9 0xa81a664b;
         w10 = MSG w10 w11 w3 w8; (b, f) = ROUND ch maj g h a b c d e f w10 0xc24b8b70;
         w11 = MSG w11 w12 w4 w9; (a, e) = ROUND ch maj f g h a b c d e w11 0xc76c51a3;
         w12 = MSG w12 w13 w5 w10; (h, d) = ROUND ch maj e f g h a b c d w12 0xd192e819;
         w13 = MSG w13 w14 w6 w11; (g, c) = ROUND ch maj d e f g h a b c w13 0xd6990624;
         w14 = MSG w14 w15 w7 w12; (f, b) = ROUND ch maj c d e f g h a b w14 0xf40e3585;
         w15 = MSG w15 w0 w8 w13; (e, a) = ROUND ch maj b c d e f g h a w15 0x106aa070
     in ((a, b, c, d, e, f, g, h), (w0, w1, w2, w3, w4, w5, w6, w7, w8, w9, w10, w11, w12, w13, w14, w15)))"

definition rounds_48_63 :: "ternary \<Rightarrow> ternary \<Rightarrow> wvars \<Rightarrow> wmsg \<Rightarrow> wvars \<times> wmsg" where
  "rounds_48_63 ch maj v w =
    (let (a, b, c, d, e, f, g, h) = v;
         (w0, w1, w2, w3, w4, w5, w6, w7, w8, w9, w10, w11, w12, w13, w14, w15) = w;
         w0 = MSG w0 w1 w9 w14; (d, h) = ROUND ch maj a b c d e f g h w0 0x19a4c116;
         w1 = MSG w1 w2 w10 w15; (c, g) = ROUND ch maj h a b c d e f g w1 0x1e376c08;
         w2 = MSG w2 w3 w11 w0; (b, f) = ROUND ch maj g h a b c d e f w2 0x2748774c;
         w3 = MSG w3 w4 w12 w1; (a, e) = ROUND ch maj f g h a b c d e w3 0x34b0bcb5;
         w4 = MSG w4 w5 w13 w2; (h, d) = ROUND ch maj e f g h a b c d w4 0x391c0cb3;
         w5 = MSG w5 w6 w14 w3; (g, c) = ROUND ch maj d e f g h a b c w5 0x4ed8aa4a;
         w6 = MSG w6 w7 w15 w4; (f, b) = ROUND ch maj c d e f g h a b w6 0x5b9cca4f;
         w7 = MSG w7 w8 w0 w5; (e, a) = ROUND ch maj b c d e f g h a w7 0x682e6ff3;
         w8 = MSG w8 w9 w1 w6; (d, h) = ROUND ch maj a b c d e f g h w8 0x748f82ee;
         w9 = MSG w9 w10 w2 w7; (c, g) = ROUND ch maj h a b c d e f g w9 0x78a5636f;
         w10 = MSG w10 w11 w3 w8; (b, f) = ROUND ch maj g h a b c d e f w10 0x84c87814;
         w11 = MSG w11 w12 w4 w9; (a, e) = ROUND ch maj f g h a b c d e w11 0x8cc70208;
         w12 = MSG w12 w13 w5 w10; (h, d) = ROUND ch maj e f g h a b c d w12 0x90befffa;
         w13 = MSG w13 w14 w6 w11; (g, c) = ROUND ch maj d e f g h a b c w13 0xa4506ceb;
         w14 = MSG w14 w15 w7 w12; (f, b) = ROUND ch maj c d e f g h a b w14 0xbef9a3f7;
         w15 = MSG w15 w0 w8 w13; (e, a) = ROUND ch maj b c d e f g h a w15 0xc67178f2
     in ((a, b, c, d, e, f, g, h), (w0, w1, w2, w3, w4, w5, w6, w7, w8, w9, w10, w11, w12, w13, w14, w15)))"

text \<open>The new values of \<open>s0\<close> to \<open>s7\<close> and of the schedule words.\<close>

definition SHA256_COMPRESS :: "ternary \<Rightarrow> ternary \<Rightarrow> wvars \<Rightarrow> wmsg \<Rightarrow> wvars \<times> wmsg" where
  "SHA256_COMPRESS ch maj s w =
    (let (v, w) = rounds_00_15 ch maj s w;
         (v, w) = rounds_16_31 ch maj v w;
         (v, w) = rounds_32_47 ch maj v w;
         (v, w) = rounds_48_63 ch maj v w;
         (a, b, c, d, e, f, g, h) = v;
         (s0, s1, s2, s3, s4, s5, s6, s7) = s
     in ((s0 + a, s1 + b, s2 + c, s3 + d, s4 + e, s5 + f, s6 + g, s7 + h), w))"

section \<open>Two lanes\<close>

text \<open>\<open>SHA256_COMPRESS_DUAL\<close> is expanded only where \<open>CH\<close> and \<open>MAJ\<close> are the plain ones.\<close>

definition ROUND_PAIR ::
  "u32 \<Rightarrow> u32 \<Rightarrow> u32 \<Rightarrow> u32 \<Rightarrow> u32 \<Rightarrow> u32 \<Rightarrow> u32 \<Rightarrow> u32 \<Rightarrow> u32 \<Rightarrow>
   u32 \<Rightarrow> u32 \<Rightarrow> u32 \<Rightarrow> u32 \<Rightarrow> u32 \<Rightarrow> u32 \<Rightarrow> u32 \<Rightarrow> u32 \<Rightarrow> u32 \<Rightarrow> u32 \<Rightarrow> u32 \<times> u32 \<times> u32 \<times> u32" where
  "ROUND_PAIR a b c d e f g h w aa bb cc dd ee ff gg hh ww k =
    (let (d, h) = ROUND CH MAJ a b c d e f g h w k;
         (dd, hh) = ROUND CH MAJ aa bb cc dd ee ff gg hh ww k
     in (d, h, dd, hh))"

definition dual_00_15 :: "wvars \<Rightarrow> wmsg \<Rightarrow> wvars \<Rightarrow> wmsg \<Rightarrow> wvars \<times> wmsg \<times> wvars \<times> wmsg" where
  "dual_00_15 v w v2 x =
    (let (a, b, c, d, e, f, g, h) = v;
         (w0, w1, w2, w3, w4, w5, w6, w7, w8, w9, w10, w11, w12, w13, w14, w15) = w;
         (aa, bb, cc, dd, ee, ff, gg, hh) = v2;
         (x0, x1, x2, x3, x4, x5, x6, x7, x8, x9, x10, x11, x12, x13, x14, x15) = x;
         (d, h, dd, hh) = ROUND_PAIR a b c d e f g h w0
            aa bb cc dd ee ff gg hh x0 0x428a2f98;
         (c, g, cc, gg) = ROUND_PAIR h a b c d e f g w1
            hh aa bb cc dd ee ff gg x1 0x71374491;
         (b, f, bb, ff) = ROUND_PAIR g h a b c d e f w2
            gg hh aa bb cc dd ee ff x2 0xb5c0fbcf;
         (a, e, aa, ee) = ROUND_PAIR f g h a b c d e w3
            ff gg hh aa bb cc dd ee x3 0xe9b5dba5;
         (h, d, hh, dd) = ROUND_PAIR e f g h a b c d w4
            ee ff gg hh aa bb cc dd x4 0x3956c25b;
         (g, c, gg, cc) = ROUND_PAIR d e f g h a b c w5
            dd ee ff gg hh aa bb cc x5 0x59f111f1;
         (f, b, ff, bb) = ROUND_PAIR c d e f g h a b w6
            cc dd ee ff gg hh aa bb x6 0x923f82a4;
         (e, a, ee, aa) = ROUND_PAIR b c d e f g h a w7
            bb cc dd ee ff gg hh aa x7 0xab1c5ed5;
         (d, h, dd, hh) = ROUND_PAIR a b c d e f g h w8
            aa bb cc dd ee ff gg hh x8 0xd807aa98;
         (c, g, cc, gg) = ROUND_PAIR h a b c d e f g w9
            hh aa bb cc dd ee ff gg x9 0x12835b01;
         (b, f, bb, ff) = ROUND_PAIR g h a b c d e f w10
            gg hh aa bb cc dd ee ff x10 0x243185be;
         (a, e, aa, ee) = ROUND_PAIR f g h a b c d e w11
            ff gg hh aa bb cc dd ee x11 0x550c7dc3;
         (h, d, hh, dd) = ROUND_PAIR e f g h a b c d w12
            ee ff gg hh aa bb cc dd x12 0x72be5d74;
         (g, c, gg, cc) = ROUND_PAIR d e f g h a b c w13
            dd ee ff gg hh aa bb cc x13 0x80deb1fe;
         (f, b, ff, bb) = ROUND_PAIR c d e f g h a b w14
            cc dd ee ff gg hh aa bb x14 0x9bdc06a7;
         (e, a, ee, aa) = ROUND_PAIR b c d e f g h a w15
            bb cc dd ee ff gg hh aa x15 0xc19bf174
     in ((a, b, c, d, e, f, g, h), (w0, w1, w2, w3, w4, w5, w6, w7, w8, w9, w10, w11, w12, w13, w14, w15),
         (aa, bb, cc, dd, ee, ff, gg, hh), (x0, x1, x2, x3, x4, x5, x6, x7, x8, x9, x10, x11, x12, x13, x14, x15)))"

definition dual_16_31 :: "wvars \<Rightarrow> wmsg \<Rightarrow> wvars \<Rightarrow> wmsg \<Rightarrow> wvars \<times> wmsg \<times> wvars \<times> wmsg" where
  "dual_16_31 v w v2 x =
    (let (a, b, c, d, e, f, g, h) = v;
         (w0, w1, w2, w3, w4, w5, w6, w7, w8, w9, w10, w11, w12, w13, w14, w15) = w;
         (aa, bb, cc, dd, ee, ff, gg, hh) = v2;
         (x0, x1, x2, x3, x4, x5, x6, x7, x8, x9, x10, x11, x12, x13, x14, x15) = x;
         w0 = MSG w0 w1 w9 w14; x0 = MSG x0 x1 x9 x14;
         (d, h, dd, hh) = ROUND_PAIR a b c d e f g h w0
            aa bb cc dd ee ff gg hh x0 0xe49b69c1;
         w1 = MSG w1 w2 w10 w15; x1 = MSG x1 x2 x10 x15;
         (c, g, cc, gg) = ROUND_PAIR h a b c d e f g w1
            hh aa bb cc dd ee ff gg x1 0xefbe4786;
         w2 = MSG w2 w3 w11 w0; x2 = MSG x2 x3 x11 x0;
         (b, f, bb, ff) = ROUND_PAIR g h a b c d e f w2
            gg hh aa bb cc dd ee ff x2 0x0fc19dc6;
         w3 = MSG w3 w4 w12 w1; x3 = MSG x3 x4 x12 x1;
         (a, e, aa, ee) = ROUND_PAIR f g h a b c d e w3
            ff gg hh aa bb cc dd ee x3 0x240ca1cc;
         w4 = MSG w4 w5 w13 w2; x4 = MSG x4 x5 x13 x2;
         (h, d, hh, dd) = ROUND_PAIR e f g h a b c d w4
            ee ff gg hh aa bb cc dd x4 0x2de92c6f;
         w5 = MSG w5 w6 w14 w3; x5 = MSG x5 x6 x14 x3;
         (g, c, gg, cc) = ROUND_PAIR d e f g h a b c w5
            dd ee ff gg hh aa bb cc x5 0x4a7484aa;
         w6 = MSG w6 w7 w15 w4; x6 = MSG x6 x7 x15 x4;
         (f, b, ff, bb) = ROUND_PAIR c d e f g h a b w6
            cc dd ee ff gg hh aa bb x6 0x5cb0a9dc;
         w7 = MSG w7 w8 w0 w5; x7 = MSG x7 x8 x0 x5;
         (e, a, ee, aa) = ROUND_PAIR b c d e f g h a w7
            bb cc dd ee ff gg hh aa x7 0x76f988da;
         w8 = MSG w8 w9 w1 w6; x8 = MSG x8 x9 x1 x6;
         (d, h, dd, hh) = ROUND_PAIR a b c d e f g h w8
            aa bb cc dd ee ff gg hh x8 0x983e5152;
         w9 = MSG w9 w10 w2 w7; x9 = MSG x9 x10 x2 x7;
         (c, g, cc, gg) = ROUND_PAIR h a b c d e f g w9
            hh aa bb cc dd ee ff gg x9 0xa831c66d;
         w10 = MSG w10 w11 w3 w8; x10 = MSG x10 x11 x3 x8;
         (b, f, bb, ff) = ROUND_PAIR g h a b c d e f w10
            gg hh aa bb cc dd ee ff x10 0xb00327c8;
         w11 = MSG w11 w12 w4 w9; x11 = MSG x11 x12 x4 x9;
         (a, e, aa, ee) = ROUND_PAIR f g h a b c d e w11
            ff gg hh aa bb cc dd ee x11 0xbf597fc7;
         w12 = MSG w12 w13 w5 w10; x12 = MSG x12 x13 x5 x10;
         (h, d, hh, dd) = ROUND_PAIR e f g h a b c d w12
            ee ff gg hh aa bb cc dd x12 0xc6e00bf3;
         w13 = MSG w13 w14 w6 w11; x13 = MSG x13 x14 x6 x11;
         (g, c, gg, cc) = ROUND_PAIR d e f g h a b c w13
            dd ee ff gg hh aa bb cc x13 0xd5a79147;
         w14 = MSG w14 w15 w7 w12; x14 = MSG x14 x15 x7 x12;
         (f, b, ff, bb) = ROUND_PAIR c d e f g h a b w14
            cc dd ee ff gg hh aa bb x14 0x06ca6351;
         w15 = MSG w15 w0 w8 w13; x15 = MSG x15 x0 x8 x13;
         (e, a, ee, aa) = ROUND_PAIR b c d e f g h a w15
            bb cc dd ee ff gg hh aa x15 0x14292967
     in ((a, b, c, d, e, f, g, h), (w0, w1, w2, w3, w4, w5, w6, w7, w8, w9, w10, w11, w12, w13, w14, w15),
         (aa, bb, cc, dd, ee, ff, gg, hh), (x0, x1, x2, x3, x4, x5, x6, x7, x8, x9, x10, x11, x12, x13, x14, x15)))"

definition dual_32_47 :: "wvars \<Rightarrow> wmsg \<Rightarrow> wvars \<Rightarrow> wmsg \<Rightarrow> wvars \<times> wmsg \<times> wvars \<times> wmsg" where
  "dual_32_47 v w v2 x =
    (let (a, b, c, d, e, f, g, h) = v;
         (w0, w1, w2, w3, w4, w5, w6, w7, w8, w9, w10, w11, w12, w13, w14, w15) = w;
         (aa, bb, cc, dd, ee, ff, gg, hh) = v2;
         (x0, x1, x2, x3, x4, x5, x6, x7, x8, x9, x10, x11, x12, x13, x14, x15) = x;
         w0 = MSG w0 w1 w9 w14; x0 = MSG x0 x1 x9 x14;
         (d, h, dd, hh) = ROUND_PAIR a b c d e f g h w0
            aa bb cc dd ee ff gg hh x0 0x27b70a85;
         w1 = MSG w1 w2 w10 w15; x1 = MSG x1 x2 x10 x15;
         (c, g, cc, gg) = ROUND_PAIR h a b c d e f g w1
            hh aa bb cc dd ee ff gg x1 0x2e1b2138;
         w2 = MSG w2 w3 w11 w0; x2 = MSG x2 x3 x11 x0;
         (b, f, bb, ff) = ROUND_PAIR g h a b c d e f w2
            gg hh aa bb cc dd ee ff x2 0x4d2c6dfc;
         w3 = MSG w3 w4 w12 w1; x3 = MSG x3 x4 x12 x1;
         (a, e, aa, ee) = ROUND_PAIR f g h a b c d e w3
            ff gg hh aa bb cc dd ee x3 0x53380d13;
         w4 = MSG w4 w5 w13 w2; x4 = MSG x4 x5 x13 x2;
         (h, d, hh, dd) = ROUND_PAIR e f g h a b c d w4
            ee ff gg hh aa bb cc dd x4 0x650a7354;
         w5 = MSG w5 w6 w14 w3; x5 = MSG x5 x6 x14 x3;
         (g, c, gg, cc) = ROUND_PAIR d e f g h a b c w5
            dd ee ff gg hh aa bb cc x5 0x766a0abb;
         w6 = MSG w6 w7 w15 w4; x6 = MSG x6 x7 x15 x4;
         (f, b, ff, bb) = ROUND_PAIR c d e f g h a b w6
            cc dd ee ff gg hh aa bb x6 0x81c2c92e;
         w7 = MSG w7 w8 w0 w5; x7 = MSG x7 x8 x0 x5;
         (e, a, ee, aa) = ROUND_PAIR b c d e f g h a w7
            bb cc dd ee ff gg hh aa x7 0x92722c85;
         w8 = MSG w8 w9 w1 w6; x8 = MSG x8 x9 x1 x6;
         (d, h, dd, hh) = ROUND_PAIR a b c d e f g h w8
            aa bb cc dd ee ff gg hh x8 0xa2bfe8a1;
         w9 = MSG w9 w10 w2 w7; x9 = MSG x9 x10 x2 x7;
         (c, g, cc, gg) = ROUND_PAIR h a b c d e f g w9
            hh aa bb cc dd ee ff gg x9 0xa81a664b;
         w10 = MSG w10 w11 w3 w8; x10 = MSG x10 x11 x3 x8;
         (b, f, bb, ff) = ROUND_PAIR g h a b c d e f w10
            gg hh aa bb cc dd ee ff x10 0xc24b8b70;
         w11 = MSG w11 w12 w4 w9; x11 = MSG x11 x12 x4 x9;
         (a, e, aa, ee) = ROUND_PAIR f g h a b c d e w11
            ff gg hh aa bb cc dd ee x11 0xc76c51a3;
         w12 = MSG w12 w13 w5 w10; x12 = MSG x12 x13 x5 x10;
         (h, d, hh, dd) = ROUND_PAIR e f g h a b c d w12
            ee ff gg hh aa bb cc dd x12 0xd192e819;
         w13 = MSG w13 w14 w6 w11; x13 = MSG x13 x14 x6 x11;
         (g, c, gg, cc) = ROUND_PAIR d e f g h a b c w13
            dd ee ff gg hh aa bb cc x13 0xd6990624;
         w14 = MSG w14 w15 w7 w12; x14 = MSG x14 x15 x7 x12;
         (f, b, ff, bb) = ROUND_PAIR c d e f g h a b w14
            cc dd ee ff gg hh aa bb x14 0xf40e3585;
         w15 = MSG w15 w0 w8 w13; x15 = MSG x15 x0 x8 x13;
         (e, a, ee, aa) = ROUND_PAIR b c d e f g h a w15
            bb cc dd ee ff gg hh aa x15 0x106aa070
     in ((a, b, c, d, e, f, g, h), (w0, w1, w2, w3, w4, w5, w6, w7, w8, w9, w10, w11, w12, w13, w14, w15),
         (aa, bb, cc, dd, ee, ff, gg, hh), (x0, x1, x2, x3, x4, x5, x6, x7, x8, x9, x10, x11, x12, x13, x14, x15)))"

definition dual_48_63 :: "wvars \<Rightarrow> wmsg \<Rightarrow> wvars \<Rightarrow> wmsg \<Rightarrow> wvars \<times> wmsg \<times> wvars \<times> wmsg" where
  "dual_48_63 v w v2 x =
    (let (a, b, c, d, e, f, g, h) = v;
         (w0, w1, w2, w3, w4, w5, w6, w7, w8, w9, w10, w11, w12, w13, w14, w15) = w;
         (aa, bb, cc, dd, ee, ff, gg, hh) = v2;
         (x0, x1, x2, x3, x4, x5, x6, x7, x8, x9, x10, x11, x12, x13, x14, x15) = x;
         w0 = MSG w0 w1 w9 w14; x0 = MSG x0 x1 x9 x14;
         (d, h, dd, hh) = ROUND_PAIR a b c d e f g h w0
            aa bb cc dd ee ff gg hh x0 0x19a4c116;
         w1 = MSG w1 w2 w10 w15; x1 = MSG x1 x2 x10 x15;
         (c, g, cc, gg) = ROUND_PAIR h a b c d e f g w1
            hh aa bb cc dd ee ff gg x1 0x1e376c08;
         w2 = MSG w2 w3 w11 w0; x2 = MSG x2 x3 x11 x0;
         (b, f, bb, ff) = ROUND_PAIR g h a b c d e f w2
            gg hh aa bb cc dd ee ff x2 0x2748774c;
         w3 = MSG w3 w4 w12 w1; x3 = MSG x3 x4 x12 x1;
         (a, e, aa, ee) = ROUND_PAIR f g h a b c d e w3
            ff gg hh aa bb cc dd ee x3 0x34b0bcb5;
         w4 = MSG w4 w5 w13 w2; x4 = MSG x4 x5 x13 x2;
         (h, d, hh, dd) = ROUND_PAIR e f g h a b c d w4
            ee ff gg hh aa bb cc dd x4 0x391c0cb3;
         w5 = MSG w5 w6 w14 w3; x5 = MSG x5 x6 x14 x3;
         (g, c, gg, cc) = ROUND_PAIR d e f g h a b c w5
            dd ee ff gg hh aa bb cc x5 0x4ed8aa4a;
         w6 = MSG w6 w7 w15 w4; x6 = MSG x6 x7 x15 x4;
         (f, b, ff, bb) = ROUND_PAIR c d e f g h a b w6
            cc dd ee ff gg hh aa bb x6 0x5b9cca4f;
         w7 = MSG w7 w8 w0 w5; x7 = MSG x7 x8 x0 x5;
         (e, a, ee, aa) = ROUND_PAIR b c d e f g h a w7
            bb cc dd ee ff gg hh aa x7 0x682e6ff3;
         w8 = MSG w8 w9 w1 w6; x8 = MSG x8 x9 x1 x6;
         (d, h, dd, hh) = ROUND_PAIR a b c d e f g h w8
            aa bb cc dd ee ff gg hh x8 0x748f82ee;
         w9 = MSG w9 w10 w2 w7; x9 = MSG x9 x10 x2 x7;
         (c, g, cc, gg) = ROUND_PAIR h a b c d e f g w9
            hh aa bb cc dd ee ff gg x9 0x78a5636f;
         w10 = MSG w10 w11 w3 w8; x10 = MSG x10 x11 x3 x8;
         (b, f, bb, ff) = ROUND_PAIR g h a b c d e f w10
            gg hh aa bb cc dd ee ff x10 0x84c87814;
         w11 = MSG w11 w12 w4 w9; x11 = MSG x11 x12 x4 x9;
         (a, e, aa, ee) = ROUND_PAIR f g h a b c d e w11
            ff gg hh aa bb cc dd ee x11 0x8cc70208;
         w12 = MSG w12 w13 w5 w10; x12 = MSG x12 x13 x5 x10;
         (h, d, hh, dd) = ROUND_PAIR e f g h a b c d w12
            ee ff gg hh aa bb cc dd x12 0x90befffa;
         w13 = MSG w13 w14 w6 w11; x13 = MSG x13 x14 x6 x11;
         (g, c, gg, cc) = ROUND_PAIR d e f g h a b c w13
            dd ee ff gg hh aa bb cc x13 0xa4506ceb;
         w14 = MSG w14 w15 w7 w12; x14 = MSG x14 x15 x7 x12;
         (f, b, ff, bb) = ROUND_PAIR c d e f g h a b w14
            cc dd ee ff gg hh aa bb x14 0xbef9a3f7;
         w15 = MSG w15 w0 w8 w13; x15 = MSG x15 x0 x8 x13;
         (e, a, ee, aa) = ROUND_PAIR b c d e f g h a w15
            bb cc dd ee ff gg hh aa x15 0xc67178f2
     in ((a, b, c, d, e, f, g, h), (w0, w1, w2, w3, w4, w5, w6, w7, w8, w9, w10, w11, w12, w13, w14, w15),
         (aa, bb, cc, dd, ee, ff, gg, hh), (x0, x1, x2, x3, x4, x5, x6, x7, x8, x9, x10, x11, x12, x13, x14, x15)))"

definition SHA256_COMPRESS_DUAL :: "wvars \<Rightarrow> wmsg \<Rightarrow> wvars \<Rightarrow> wmsg \<Rightarrow> wvars \<times> wmsg \<times> wvars \<times> wmsg" where
  "SHA256_COMPRESS_DUAL s w q x =
    (let (v, w, v2, x) = dual_00_15 s w q x;
         (v, w, v2, x) = dual_16_31 v w v2 x;
         (v, w, v2, x) = dual_32_47 v w v2 x;
         (v, w, v2, x) = dual_48_63 v w v2 x;
         (a, b, c, d, e, f, g, h) = v;
         (aa, bb, cc, dd, ee, ff, gg, hh) = v2;
         (s0, s1, s2, s3, s4, s5, s6, s7) = s;
         (q0, q1, q2, q3, q4, q5, q6, q7) = q
     in ((s0 + a, s1 + b, s2 + c, s3 + d, s4 + e, s5 + f, s6 + g, s7 + h), w,
         (q0 + aa, q1 + bb, q2 + cc, q3 + dd, q4 + ee, q5 + ff, q6 + gg, q7 + hh), x))"

section \<open>One round\<close>

text \<open>The macros \<open>CH\<close> and \<open>MAJ\<close> in force compute the functions of the standard.\<close>

definition sha_logic :: "ternary \<Rightarrow> ternary \<Rightarrow> bool" where
  "sha_logic ch maj \<longleftrightarrow> ch = Ch \<and> maj = Maj"

lemma sha_logic_plain: "sha_logic CH MAJ"
  by (simp add: sha_logic_def fun_eq_iff CH_def MAJ_def Ch_def Maj_def)

lemma sha_logic_lop3: "sha_logic ch_lop3 maj_lop3"
proof -
  have "ch_lop3 x y z = Ch x y z" for x y z
    by (rule u32_eqI) (simp add: ch_lop3_def lop3_b32_def Ch_def bit_iff_odd [of "202 :: u8"] bit_iff_odd [of "_ :: nat"],
        auto simp: bit_simps)
  moreover have "maj_lop3 x y z = Maj x y z" for x y z
    by (rule u32_eqI) (simp add: maj_lop3_def lop3_b32_def Maj_def bit_iff_odd [of "232 :: u8"] bit_iff_odd [of "_ :: nat"],
        auto simp: bit_simps)
  ultimately show ?thesis by (simp add: sha_logic_def fun_eq_iff)
qed

lemma MSG_W:
  "j = i + 1 \<Longrightarrow> k = i + 9 \<Longrightarrow> l = i + 14 \<Longrightarrow> MSG (W M i) (W M j) (W M k) (W M l) = W M (i + 16)"
  by (simp add: MSG_def SS0_def SS1_def sigma0_def sigma1_def rotr32_word_rotr W.simps [of M "i + 16"] ac_simps)

lemma ROUND_sha_round:
  assumes "sha_logic ch maj" "ROUND ch maj a b c d e f g h w k = (d', h')"
  shows "sha_round (k + w) (a, b, c, d, e, f, g, h) = (h', a, b, c, d', e, f, g)"
  using assms
  by (auto simp: ROUND_def Let_def sha_logic_def BS0_def BS1_def Sigma0_def Sigma1_def rotr32_word_rotr ac_simps)

lemma rounds_Cons:
  assumes "sha_logic ch maj" "ROUND ch maj a b c d e f g h w k = (d', h')" "k = fips_K ! i" "w = W M i" "i < j"
  shows "rounds M i j (a, b, c, d, e, f, g, h) = rounds M (i + 1) j (h', a, b, c, d', e, f, g)"
  using ROUND_sha_round [OF assms(1,2)] assms(3-5) by (simp add: rounds_def upt_conv_Cons)

fun msg_of :: "u32 list \<Rightarrow> nat \<Rightarrow> wmsg" where
  "msg_of M i = (W M i, W M (i + 1), W M (i + 2), W M (i + 3), W M (i + 4), W M (i + 5), W M (i + 6), W M (i + 7),
    W M (i + 8), W M (i + 9), W M (i + 10), W M (i + 11), W M (i + 12), W M (i + 13), W M (i + 14), W M (i + 15))"

text \<open>Facts of literal index arithmetic that would turn small numerals into successors.\<close>

lemmas keep_numerals = One_nat_def add_2_eq_Suc add_2_eq_Suc'

lemmas fips_K_nth = k_sha256_round_constants_fips [symmetric] k_sha256_round_constants_def

lemma ROUND_PAIR_case:
  "(case ROUND_PAIR a b c d e f g h w aa bb cc dd ee ff gg hh ww k of (d, h, dd, hh) \<Rightarrow> F d h dd hh) =
   (case ROUND CH MAJ a b c d e f g h w k of (d, h) \<Rightarrow>
    case ROUND CH MAJ aa bb cc dd ee ff gg hh ww k of (dd, hh) \<Rightarrow> F d h dd hh)"
  by (simp add: ROUND_PAIR_def split: prod.splits)

section \<open>Sixteen rounds at a time\<close>

text \<open>Each group is opened in two passes: line by line, the schedule words become words of the standard's
  schedule and the new values get names; then the standard's rounds are peeled off one by one.\<close>

lemma rounds_00_15_spec:
  assumes "sha_logic ch maj"
  shows "rounds_00_15 ch maj v (msg_of M 0) = (rounds M 0 16 v, msg_of M 0)"
  by (cases v rule: list_of_wvars.cases)
    (simp add: rounds_00_15_def MSG_W Let_def del: keep_numerals cong: let_weak_cong prod.case_cong_weak
       split: prod.splits,
     intro allI impI, simp (no_asm_simp) add: rounds_Cons [OF assms] fips_K_nth del: keep_numerals)

lemma rounds_16_31_spec:
  assumes "sha_logic ch maj"
  shows "rounds_16_31 ch maj v (msg_of M 0) = (rounds M 16 32 v, msg_of M 16)"
  by (cases v rule: list_of_wvars.cases)
    (simp add: rounds_16_31_def MSG_W Let_def del: keep_numerals cong: let_weak_cong prod.case_cong_weak
       split: prod.splits,
     intro allI impI, simp (no_asm_simp) add: rounds_Cons [OF assms] fips_K_nth del: keep_numerals)

lemma rounds_32_47_spec:
  assumes "sha_logic ch maj"
  shows "rounds_32_47 ch maj v (msg_of M 16) = (rounds M 32 48 v, msg_of M 32)"
  by (cases v rule: list_of_wvars.cases)
    (simp add: rounds_32_47_def MSG_W Let_def del: keep_numerals cong: let_weak_cong prod.case_cong_weak
       split: prod.splits,
     intro allI impI, simp (no_asm_simp) add: rounds_Cons [OF assms] fips_K_nth del: keep_numerals)

lemma rounds_48_63_spec:
  assumes "sha_logic ch maj"
  shows "rounds_48_63 ch maj v (msg_of M 32) = (rounds M 48 64 v, msg_of M 48)"
  by (cases v rule: list_of_wvars.cases)
    (simp add: rounds_48_63_def MSG_W Let_def del: keep_numerals cong: let_weak_cong prod.case_cong_weak
       split: prod.splits,
     intro allI impI, simp (no_asm_simp) add: rounds_Cons [OF assms] fips_K_nth del: keep_numerals)

lemma dual_00_15_spec:
  "dual_00_15 v (msg_of M 0) u (msg_of N 0) = (rounds M 0 16 v, msg_of M 0, rounds N 0 16 u, msg_of N 0)"
  by (cases v rule: list_of_wvars.cases; cases u rule: list_of_wvars.cases)
    (simp add: dual_00_15_def MSG_W ROUND_PAIR_case Let_def del: keep_numerals cong: let_weak_cong prod.case_cong_weak
       split: prod.splits,
     intro allI impI, simp (no_asm_simp) add: rounds_Cons [OF sha_logic_plain] fips_K_nth del: keep_numerals)

lemma dual_16_31_spec:
  "dual_16_31 v (msg_of M 0) u (msg_of N 0) = (rounds M 16 32 v, msg_of M 16, rounds N 16 32 u, msg_of N 16)"
  by (cases v rule: list_of_wvars.cases; cases u rule: list_of_wvars.cases)
    (simp add: dual_16_31_def MSG_W ROUND_PAIR_case Let_def del: keep_numerals cong: let_weak_cong prod.case_cong_weak
       split: prod.splits,
     intro allI impI, simp (no_asm_simp) add: rounds_Cons [OF sha_logic_plain] fips_K_nth del: keep_numerals)

lemma dual_32_47_spec:
  "dual_32_47 v (msg_of M 16) u (msg_of N 16) = (rounds M 32 48 v, msg_of M 32, rounds N 32 48 u, msg_of N 32)"
  by (cases v rule: list_of_wvars.cases; cases u rule: list_of_wvars.cases)
    (simp add: dual_32_47_def MSG_W ROUND_PAIR_case Let_def del: keep_numerals cong: let_weak_cong prod.case_cong_weak
       split: prod.splits,
     intro allI impI, simp (no_asm_simp) add: rounds_Cons [OF sha_logic_plain] fips_K_nth del: keep_numerals)

lemma dual_48_63_spec:
  "dual_48_63 v (msg_of M 32) u (msg_of N 32) = (rounds M 48 64 v, msg_of M 48, rounds N 48 64 u, msg_of N 48)"
  by (cases v rule: list_of_wvars.cases; cases u rule: list_of_wvars.cases)
    (simp add: dual_48_63_def MSG_W ROUND_PAIR_case Let_def del: keep_numerals cong: let_weak_cong prod.case_cong_weak
       split: prod.splits,
     intro allI impI, simp (no_asm_simp) add: rounds_Cons [OF sha_logic_plain] fips_K_nth del: keep_numerals)

section \<open>The compression function\<close>

fun wmsg_of :: "u32 list \<Rightarrow> wmsg" where
  "wmsg_of M = (M ! 0, M ! 1, M ! 2, M ! 3, M ! 4, M ! 5, M ! 6, M ! 7,
    M ! 8, M ! 9, M ! 10, M ! 11, M ! 12, M ! 13, M ! 14, M ! 15)"

lemma wmsg_of_msg: "wmsg_of M = msg_of M 0"
  by (simp add: W.simps numeral_2_eq_2)

lemma rounds_groups:
  "rounds M 48 64 (rounds M 32 48 (rounds M 16 32 (rounds M 0 16 v))) = rounds M 0 64 v"
  using rounds_split [of 0 16 64 M v] rounds_split [of 16 32 64 M] rounds_split [of 32 48 64 M] by simp

lemma wvars_of_compress:
  assumes "length H = 8" "rounds M 0 64 (wvars_of H) = (a, b, c, d, e, f, g, h)"
  shows "wvars_of (compress H M) =
    (H ! 0 + a, H ! 1 + b, H ! 2 + c, H ! 3 + d, H ! 4 + e, H ! 5 + f, H ! 6 + g, H ! 7 + h)"
  using assms by (simp add: compress_def wvars_of_def)

lemma SHA256_COMPRESS_spec:
  assumes "sha_logic ch maj" "length H = 8"
  shows "SHA256_COMPRESS ch maj (wvars_of H) (wmsg_of M) = (wvars_of (compress H M), msg_of M 48)"
proof -
  obtain a b c d e f g h where v: "rounds M 0 64 (wvars_of H) = (a, b, c, d, e, f, g, h)"
    by (metis list_of_wvars.cases)
  show ?thesis
    using wvars_of_compress [OF assms(2) v]
    by (simp add: SHA256_COMPRESS_def wmsg_of_msg rounds_00_15_spec rounds_16_31_spec rounds_32_47_spec
        rounds_48_63_spec rounds_groups v assms(1) del: wmsg_of.simps msg_of.simps)
       (simp add: wvars_of_def)
qed

lemma SHA256_COMPRESS_DUAL_spec:
  assumes "length H = 8" "length G = 8"
  shows "SHA256_COMPRESS_DUAL (wvars_of H) (wmsg_of M) (wvars_of G) (wmsg_of N) =
    (wvars_of (compress H M), msg_of M 48, wvars_of (compress G N), msg_of N 48)"
proof -
  obtain a b c d e f g h where v: "rounds M 0 64 (wvars_of H) = (a, b, c, d, e, f, g, h)"
    by (metis list_of_wvars.cases)
  obtain aa bb cc dd ee ff gg hh where u: "rounds N 0 64 (wvars_of G) = (aa, bb, cc, dd, ee, ff, gg, hh)"
    by (metis list_of_wvars.cases)
  show ?thesis
    using wvars_of_compress [OF assms(1) v] wvars_of_compress [OF assms(2) u]
    by (simp add: SHA256_COMPRESS_DUAL_def wmsg_of_msg dual_00_15_spec dual_16_31_spec dual_32_47_spec
        dual_48_63_spec rounds_groups v u del: wmsg_of.simps msg_of.simps)
       (simp add: wvars_of_def)
qed

section \<open>Properties\<close>

text \<open>C13. The unrolled GPU code computes the compression function of FIPS 180-4: the plain rounds, the
  rounds with \<open>CH\<close> and \<open>MAJ\<close> as single \<open>lop3\<close> instructions, and both lanes of the dual rounds leave in
  \<open>s0\<close> to \<open>s7\<close> the new chaining value, whatever the chaining value and the message block.\<close>

theorem gpu_compression:
  assumes "length H = 8" "length G = 8"
  shows "fst (SHA256_COMPRESS CH MAJ (wvars_of H) (wmsg_of M)) = wvars_of (compress H M) \<and>
    fst (SHA256_COMPRESS ch_lop3 maj_lop3 (wvars_of H) (wmsg_of M)) = wvars_of (compress H M) \<and>
    (case SHA256_COMPRESS_DUAL (wvars_of H) (wmsg_of M) (wvars_of G) (wmsg_of N) of
       (s, w, q, x) \<Rightarrow> s = wvars_of (compress H M) \<and> q = wvars_of (compress G N))"
  using assms
  by (simp add: SHA256_COMPRESS_spec sha_logic_plain sha_logic_lop3 SHA256_COMPRESS_DUAL_spec
      del: wmsg_of.simps msg_of.simps)

theorem gpu_compression_witness:
  "length k_sha256_initial_state = 8 \<and>
   fst (SHA256_COMPRESS ch_lop3 maj_lop3 (wvars_of k_sha256_initial_state) (wmsg_of (replicate 16 7))) =
     wvars_of (compress k_sha256_initial_state (replicate 16 7))"
  using gpu_compression [of k_sha256_initial_state k_sha256_initial_state "replicate 16 7" "replicate 16 7"]
  by (simp add: k_sha256_initial_state_fips del: wmsg_of.simps)

end
