(* ===== verification/Gpu_Device.thy ===== *)
theory Gpu_Device
  imports Sha256d "HOL-Library.Multiset"
begin

text \<open>
  How GPU threads share memory. The device code of \<open>src/src/cuda_sha256d_kernel.cu\<close> and of the OpenCL
  kernel text in \<open>src/src/opencl_miner.c\<close> touches memory in two ways only: an atomic addition to
  \<open>*result_count\<close> and stores into the \<open>matches\<close> array. A thread is therefore a tree of these accesses
  (\<open>dprog\<close>; everything between two accesses is a function of what the atomic additions returned), and
  a launch is any interleaving of the accesses of its threads.

  Main result: threads that report their matches through the slot protocol of \<open>store_match_words\<close> never
  store out of bounds, always finish, and leave in the array the matches of all threads, each intact
  and once, in the order of the atomic additions, up to the size of the array.
\<close>

section \<open>Threads and memory\<close>

datatype dprog =
    Done
  | Atomic_Add u32 "u32 \<Rightarrow> dprog"
  | Store u32 u32 dprog

primrec dseq :: "dprog \<Rightarrow> dprog \<Rightarrow> dprog" where
  "dseq Done q = q"
| "dseq (Atomic_Add v k) q = Atomic_Add v (\<lambda>x. dseq (k x) q)"
| "dseq (Store p v r) q = Store p v (dseq r q)"

record gpu_mem =
  result_count :: u32
  matches :: "u32 list"

type_synonym gpu_state = "gpu_mem \<times> dprog list"

text \<open>The state a launch starts in: the host has cleared the counter.\<close>

definition launch_state :: "dprog list \<Rightarrow> u32 list \<Rightarrow> gpu_state" where
  "launch_state ps buf = (\<lparr>result_count = 0, matches = buf\<rparr>, ps)"

text \<open>One access of one thread. A store out of bounds has no step: \<open>gpu_fault\<close> names such states.\<close>

inductive gpu_step :: "gpu_state \<Rightarrow> gpu_state \<Rightarrow> bool" where
  atomic: "i < length ps \<Longrightarrow> ps ! i = Atomic_Add v k \<Longrightarrow>
    gpu_step (m, ps) (m\<lparr>result_count := result_count m + v\<rparr>, ps[i := k (result_count m)])"
| store: "i < length ps \<Longrightarrow> ps ! i = Store p v q \<Longrightarrow> unat p < length (matches m) \<Longrightarrow>
    gpu_step (m, ps) (m\<lparr>matches := (matches m)[unat p := v]\<rparr>, ps[i := q])"

fun store_fault :: "gpu_mem \<Rightarrow> dprog \<Rightarrow> bool" where
  "store_fault m (Store p v q) \<longleftrightarrow> length (matches m) \<le> unat p"
| "store_fault m _ \<longleftrightarrow> False"

definition gpu_fault :: "gpu_state \<Rightarrow> bool" where
  "gpu_fault s \<longleftrightarrow> list_ex (store_fault (fst s)) (snd s)"

definition all_done :: "gpu_state \<Rightarrow> bool" where
  "all_done s \<longleftrightarrow> list_all (\<lambda>p. p = Done) (snd s)"

text \<open>The interleaving a list of thread numbers describes; a number whose thread cannot move is skipped.\<close>

definition thread_step :: "gpu_state \<Rightarrow> nat \<Rightarrow> gpu_state" where
  "thread_step s i = (case s of (m, ps) \<Rightarrow>
    if i < length ps
    then (case ps ! i of
        Done \<Rightarrow> s
      | Atomic_Add v k \<Rightarrow> (m\<lparr>result_count := result_count m + v\<rparr>, ps[i := k (result_count m)])
      | Store p v q \<Rightarrow> if unat p < length (matches m)
          then (m\<lparr>matches := (matches m)[unat p := v]\<rparr>, ps[i := q]) else s)
    else s)"

definition run_schedule :: "nat list \<Rightarrow> gpu_state \<Rightarrow> gpu_state" where
  "run_schedule is s = foldl thread_step s is"

lemma run_schedule_steps: "gpu_step\<^sup>*\<^sup>* s (run_schedule is s)"
proof (induction "is" arbitrary: s)
  case (Cons i "is")
  have "gpu_step\<^sup>*\<^sup>* s (thread_step s i)"
    by (cases s) (auto simp: thread_step_def split: dprog.splits intro: r_into_rtranclp gpu_step.intros)
  with Cons show ?case by (simp add: run_schedule_def) (metis rtranclp_trans)
qed (simp add: run_schedule_def)

text \<open>What a device promises for a launch that has completed without an error: it has run some
  interleaving until nothing is left to do.\<close>

definition device_contract :: "(gpu_state \<Rightarrow> gpu_state) \<Rightarrow> bool" where
  "device_contract dev \<longleftrightarrow> (\<forall>s. gpu_step\<^sup>*\<^sup>* s (dev s) \<and> (gpu_fault (dev s) \<or> all_done (dev s)))"

text \<open>A device that runs one thread after the other.\<close>

primrec exec_prog :: "dprog \<Rightarrow> gpu_mem \<Rightarrow> gpu_mem \<times> dprog" where
  "exec_prog Done m = (m, Done)"
| "exec_prog (Atomic_Add v k) m = exec_prog (k (result_count m)) (m\<lparr>result_count := result_count m + v\<rparr>)"
| "exec_prog (Store p v q) m =
    (if unat p < length (matches m) then exec_prog q (m\<lparr>matches := (matches m)[unat p := v]\<rparr>)
     else (m, Store p v q))"

fun exec_all :: "dprog list \<Rightarrow> gpu_mem \<Rightarrow> gpu_mem \<times> dprog list" where
  "exec_all [] m = (m, [])"
| "exec_all (p # ps) m =
    (case exec_prog p m of (m, q) \<Rightarrow>
       if store_fault m q then (m, q # ps) else (case exec_all ps m of (m, qs) \<Rightarrow> (m, q # qs)))"

definition seq_device :: "gpu_state \<Rightarrow> gpu_state" where
  "seq_device s = (case s of (m, ps) \<Rightarrow> exec_all ps m)"

lemma gpu_step_at: "gpu_step\<^sup>*\<^sup>* (m, us @ p # vs) (case exec_prog p m of (m', q) \<Rightarrow> (m', us @ q # vs))"
proof (induction p arbitrary: m)
  case (Atomic_Add v k)
  have "gpu_step (m, us @ Atomic_Add v k # vs) (m\<lparr>result_count := result_count m + v\<rparr>, us @ k (result_count m) # vs)"
    using gpu_step.atomic [of "length us" "us @ Atomic_Add v k # vs" v k m] by simp
  then show ?case using Atomic_Add [of "k (result_count m)" "m\<lparr>result_count := result_count m + v\<rparr>"]
    by (simp add: converse_rtranclp_into_rtranclp)
next
  case (Store p v q)
  show ?case
  proof (cases "unat p < length (matches m)")
    case True
    then have "gpu_step (m, us @ Store p v q # vs) (m\<lparr>matches := (matches m)[unat p := v]\<rparr>, us @ q # vs)"
      using gpu_step.store [of "length us" "us @ Store p v q # vs" p v q m] by simp
    then show ?thesis using Store [of "m\<lparr>matches := (matches m)[unat p := v]\<rparr>"] True
      by (simp add: converse_rtranclp_into_rtranclp)
  qed simp
qed simp

lemma exec_prog_end: "exec_prog p m = (m', q) \<Longrightarrow> q = Done \<or> store_fault m' q"
  by (induction p arbitrary: m) (auto split: if_splits)

lemma exec_all_steps:
  "gpu_step\<^sup>*\<^sup>* (m, us @ ps) (case exec_all ps m of (m', qs) \<Rightarrow> (m', us @ qs))"
proof (induction ps arbitrary: m us)
  case (Cons p ps)
  obtain m' q where e: "exec_prog p m = (m', q)" by (cases "exec_prog p m")
  have 1: "gpu_step\<^sup>*\<^sup>* (m, us @ p # ps) (m', us @ q # ps)" using gpu_step_at [of m us p ps] e by simp
  show ?case
    using 1 rtranclp_trans [OF 1] Cons [of m' "us @ [q]"] by (simp add: e split: prod.splits)
qed simp

lemma exec_all_end: "exec_all ps m = (m', qs) \<Longrightarrow> gpu_fault (m', qs) \<or> all_done (m', qs)"
proof (induction ps arbitrary: m qs)
  case (Cons p ps)
  then show ?case
    by (fastforce simp: gpu_fault_def all_done_def split: prod.splits if_splits dest: exec_prog_end)
qed (simp add: all_done_def)

lemma seq_device_contract: "device_contract seq_device"
proof -
  have "gpu_step\<^sup>*\<^sup>* (m, ps) (seq_device (m, ps)) \<and> (gpu_fault (seq_device (m, ps)) \<or> all_done (seq_device (m, ps)))"
    for m ps
    using exec_all_steps [of m "[]" ps] exec_all_end [of ps m]
    by (cases "exec_all ps m") (simp add: seq_device_def)
  then show ?thesis by (auto simp: device_contract_def)
qed

text \<open>A state that is neither finished nor faulty can move.\<close>

lemma gpu_progress: "all_done s \<or> gpu_fault s \<or> (\<exists>t. gpu_step s t)"
proof (cases s)
  case (Pair m ps)
  show ?thesis
  proof (cases "all_done s")
    case False
    then obtain i where i: "i < length ps" "ps ! i \<noteq> Done"
      by (auto simp: Pair all_done_def list_all_length)
    show ?thesis
    proof (cases "ps ! i")
      case (Store p v q)
      then show ?thesis using i gpu_step.store [OF i(1) Store, of m]
        by (cases "unat p < length (matches m)") (auto simp: Pair gpu_fault_def list_ex_length)
    next
      case (Atomic_Add v k)
      then show ?thesis using gpu_step.atomic [OF i(1) Atomic_Add] by (auto simp: Pair)
    qed (use i in simp)
  qed simp
qed

section \<open>Reporting matches\<close>

text \<open>The accesses of one report: the nine words of a match go to the slot the atomic addition gave.\<close>

primrec stores :: "u32 \<Rightarrow> u32 list \<Rightarrow> dprog \<Rightarrow> dprog" where
  "stores p [] q = q"
| "stores p (v # vs) q = Store p v (stores (p + 1) vs q)"

type_synonym gpu_match = "u32 \<times> u32 list"

fun match_words :: "gpu_match \<Rightarrow> u32 list" where
  "match_words (nonce, h) = nonce # h"

definition report :: "u32 \<Rightarrow> gpu_match \<Rightarrow> dprog" where
  "report max_results r =
    Atomic_Add 1 (\<lambda>idx. if idx < max_results then stores (idx * 9) (match_words r) Done else Done)"

primrec report_all :: "u32 \<Rightarrow> gpu_match list \<Rightarrow> dprog" where
  "report_all max_results [] = Done"
| "report_all max_results (r # rs) = dseq (report max_results r) (report_all max_results rs)"

text \<open>What the host reads back from slot \<open>i\<close>.\<close>

definition read_slot :: "u32 list \<Rightarrow> nat \<Rightarrow> gpu_match" where
  "read_slot ms i = (ms ! (9 * i), map (\<lambda>j. ms ! (9 * i + 1 + j)) [0..<8])"

lemma dseq_assoc: "dseq (dseq p q) r = dseq p (dseq q r)"
  by (induction p) auto

lemma dseq_Done [simp]: "dseq p Done = p"
  by (induction p) auto

lemma dseq_stores: "dseq (stores p vs q) r = stores p vs (dseq q r)"
  by (induction vs arbitrary: p) auto

lemma report_all_append: "report_all mx (rs @ rs') = dseq (report_all mx rs) (report_all mx rs')"
  by (induction rs) (auto simp: dseq_assoc)

lemma report_dseq:
  "dseq (report mx r) q = Atomic_Add 1 (\<lambda>idx. if idx < mx then stores (idx * 9) (match_words r) q else q)"
  by (auto simp: report_def fun_eq_iff dseq_stores)

lemma report_all_Cons:
  "report_all mx (r # rs) =
    Atomic_Add 1 (\<lambda>idx. if idx < mx then stores (idx * 9) (match_words r) (report_all mx rs) else report_all mx rs)"
  by (simp add: report_dseq)

lemma report_all_eq_Done [simp]: "report_all mx rs = Done \<longleftrightarrow> rs = []"
  by (cases rs) (simp_all add: report_dseq)

lemma report_all_neq_Store [simp]: "report_all mx rs \<noteq> Store p v q"
  by (cases rs) (simp_all add: report_dseq)

section \<open>The slot protocol under interleaving\<close>

text \<open>
  A thread in the course of a run: the address and the words it still has to store for the match it
  has a slot for, and the matches it has not reported yet. \<open>L\<close> is the list of matches in the order of
  their atomic additions, so that slot \<open>j\<close> belongs to \<open>L ! j\<close>.
\<close>

type_synonym gpu_thread = "u32 \<times> u32 list \<times> gpu_match list"

fun thread_prog :: "u32 \<Rightarrow> gpu_thread \<Rightarrow> dprog" where
  "thread_prog mx (p, vs, rs) = stores p vs (report_all mx rs)"

fun pending :: "gpu_thread \<Rightarrow> (nat \<times> u32) set" where
  "pending (p, vs, rs) = (\<lambda>k. (unat p + k, vs ! k)) ` {..<length vs}"

fun unreported :: "gpu_thread \<Rightarrow> gpu_match list" where
  "unreported (p, vs, rs) = rs"

fun thread_cost :: "gpu_thread \<Rightarrow> nat" where
  "thread_cost (p, vs, rs) = length vs + 10 * length rs"

fun cell_of :: "u32 \<Rightarrow> gpu_match list \<Rightarrow> nat \<times> u32 \<Rightarrow> bool" where
  "cell_of mx L (c, v) \<longleftrightarrow>
    c div 9 < length L \<and> c div 9 < unat mx \<and> v = match_words (L ! (c div 9)) ! (c mod 9)"

definition ths_inv :: "u32 \<Rightarrow> gpu_match list \<Rightarrow> gpu_thread list \<Rightarrow> bool" where
  "ths_inv mx L ths \<longleftrightarrow> (\<forall>t\<in>set ths. \<forall>cv\<in>pending t. cell_of mx L cv)"

definition cells_inv :: "u32 \<Rightarrow> gpu_match list \<Rightarrow> gpu_thread list \<Rightarrow> u32 list \<Rightarrow> bool" where
  "cells_inv mx L ths ms \<longleftrightarrow>
    (\<forall>c v. cell_of mx L (c, v) \<longrightarrow> ms ! c = v \<or> (\<exists>t\<in>set ths. (c, v) \<in> pending t))"

definition gpu_inv ::
  "u32 \<Rightarrow> gpu_match multiset \<Rightarrow> gpu_match list \<Rightarrow> gpu_thread list \<Rightarrow> gpu_state \<Rightarrow> bool" where
  "gpu_inv mx all L ths s \<longleftrightarrow>
    snd s = map (thread_prog mx) ths \<and> mset L + mset (concat (map unreported ths)) = all \<and>
    result_count (fst s) = of_nat (length L) \<and> length (matches (fst s)) = 9 * unat mx \<and>
    ths_inv mx L ths \<and> cells_inv mx L ths (matches (fst s))"

definition total_cost :: "gpu_thread list \<Rightarrow> nat" where
  "total_cost ths = sum_list (map thread_cost ths)"

text \<open>What is assumed of a launch: matches have eight hash words, the counter and the addresses do not
  wrap.\<close>

definition launch_ok :: "u32 \<Rightarrow> gpu_match multiset \<Rightarrow> bool" where
  "launch_ok mx all \<longleftrightarrow> size all < 2 ^ 32 \<and> 9 * unat mx \<le> 2 ^ 32 \<and> (\<forall>r\<in>#all. length (snd r) = 8)"

lemma bex_update:
  assumes "\<exists>t\<in>set ths. P t" "i < length ths" "P (ths ! i) \<Longrightarrow> P t'"
  shows "\<exists>t\<in>set (ths[i := t']). P t"
proof -
  obtain j where j: "j < length ths" "P (ths ! j)" using assms(1) by (auto simp: in_set_conv_nth)
  show ?thesis
  proof (cases "j = i")
    case True
    then show ?thesis using assms j set_update_memI [of i ths t'] by auto
  next
    case False
    then show ?thesis using j by (metis length_list_update nth_list_update_neq nth_mem)
  qed
qed

lemma ths_inv_update:
  "ths_inv mx L ths \<Longrightarrow> \<forall>cv\<in>pending t'. cell_of mx L cv \<Longrightarrow> ths_inv mx L (ths[i := t'])"
  using set_update_subset_insert [of ths i t'] by (auto simp: ths_inv_def)

lemma total_cost_update:
  assumes "i < length ths" "thread_cost t' < thread_cost (ths ! i)"
  shows "total_cost (ths[i := t']) < total_cost ths"
  using assms by (simp add: total_cost_def upd_conv_take_nth_drop id_take_nth_drop [of i ths, symmetric]) 
    (subst id_take_nth_drop [of i ths], assumption, simp)

lemma concat_unreported_update:
  assumes "i < length ths" "unreported (ths ! i) = xs @ unreported t'"
  shows "mset (concat (map unreported ths)) = mset xs + mset (concat (map unreported (ths[i := t'])))"
proof -
  have "concat (map unreported ths) =
      concat (map unreported (take i ths)) @ unreported (ths ! i) @ concat (map unreported (drop (Suc i) ths))"
    by (subst id_take_nth_drop [OF assms(1)]) simp
  then show ?thesis using assms by (simp add: upd_conv_take_nth_drop)
qed

lemma gpu_inv_store:
  assumes "gpu_inv mx all L ths (m, ps)" "launch_ok mx all" "i < length ths" "ths ! i = (p, v # vs, rs)"
  defines "t' \<equiv> (p + 1, vs, rs)"
  shows "unat p < length (matches m)"
    and "gpu_inv mx all L (ths[i := t']) (m\<lparr>matches := (matches m)[unat p := v]\<rparr>, map (thread_prog mx) (ths[i := t']))"
proof -
  have t: "(p, v # vs, rs) \<in> set ths" using assms(3,4) by (metis nth_mem)
  have cells: "cell_of mx L (unat p + k, (v # vs) ! k)" if "k < Suc (length vs)" for k
    using assms(1) t that by (force simp: gpu_inv_def ths_inv_def)
  show p: "unat p < length (matches m)"
    using cells [of 0] assms(1) by (auto simp: gpu_inv_def)
  have p1: "unat (p + 1) = unat p + 1" if "vs \<noteq> []"
  proof -
    have "unat p + 1 < 2 ^ 32" using cells [of 1] that assms(2) by (auto simp: launch_ok_def)
    then show ?thesis by (simp add: unat_word_ariths)
  qed
  have sub: "pending t' \<subseteq> pending (ths ! i)"
    using p1 unfolding t'_def assms(4) by (cases "vs = []") (auto simp: image_iff intro!: bexI [where x = "Suc _"])
  have old: "(c, x) \<in> pending t' \<or> c = unat p \<and> x = v" if cx: "(c, x) \<in> pending (ths ! i)" for c x
  proof -
    obtain k where k: "k < Suc (length vs)" "c = unat p + k" "x = (v # vs) ! k"
      using cx assms(4) by auto
    show ?thesis
    proof (cases k)
      case (Suc k')
      then have "vs \<noteq> []" using k by auto
      then show ?thesis using k p1 Suc unfolding t'_def by (auto simp: image_iff intro!: bexI [of _ k'])
    qed (use k in simp)
  qed
  have "ths_inv mx L (ths[i := t'])"
    using assms(1) sub nth_mem [OF assms(3)] by (intro ths_inv_update) (auto simp: gpu_inv_def ths_inv_def)
  moreover have "cells_inv mx L (ths[i := t']) ((matches m)[unat p := v])"
    unfolding cells_inv_def
  proof (intro allI impI)
    fix c x assume c: "cell_of mx L (c, x)"
    show "(matches m)[unat p := v] ! c = x \<or> (\<exists>t\<in>set (ths[i := t']). (c, x) \<in> pending t)"
    proof (cases "c = unat p")
      case True
      then show ?thesis using c cells [of 0] p by simp
    next
      case False
      then show ?thesis using c assms(1) old bex_update [of ths "\<lambda>t. (c, x) \<in> pending t" i t'] assms(3)
        by (auto simp: gpu_inv_def cells_inv_def)
    qed
  qed
  moreover have "mset (concat (map unreported ths)) = mset (concat (map unreported (ths[i := t'])))"
    using concat_unreported_update [OF assms(3), of "[]" t'] assms(4) by (simp add: t'_def)
  ultimately show "gpu_inv mx all L (ths[i := t'])
      (m\<lparr>matches := (matches m)[unat p := v]\<rparr>, map (thread_prog mx) (ths[i := t']))"
    using assms(1) by (simp add: gpu_inv_def)
qed

lemma div_mod_9:
  "(c :: nat) div 9 = n \<Longrightarrow> \<exists>k<9. c = 9 * n + k \<and> c mod 9 = k"
  by (intro exI [of _ "c mod 9"]) (metis mod_less_divisor mult_div_mod_eq zero_less_numeral)

lemma gpu_inv_atomic:
  assumes "gpu_inv mx all L ths (m, ps)" "launch_ok mx all" "i < length ths" "ths ! i = (p, [], r # rs)"
  defines "idx \<equiv> result_count m"
  defines "t' \<equiv> (idx * 9, if idx < mx then match_words r else [], rs)"
  shows "gpu_inv mx all (L @ [r]) (ths[i := t']) (m\<lparr>result_count := idx + 1\<rparr>, map (thread_prog mx) (ths[i := t']))"
proof -
  have ms: "mset (concat (map unreported ths)) = {#r#} + mset (concat (map unreported (ths[i := t'])))"
    using concat_unreported_update [OF assms(3), of "[r]" t'] assms(4) by (simp add: t'_def)
  have all: "mset L + mset (concat (map unreported ths)) = all" using assms(1) by (simp add: gpu_inv_def)
  then have r: "r \<in># all" "length L < size all" using ms by (auto simp flip: all)
  obtain n h where rh: "r = (n, h)" "length h = 8" using r(1) assms(2) by (cases r) (auto simp: launch_ok_def)
  have idx: "unat idx = length L"
    using r(2) assms(1,2) unfolding idx_def by (simp add: gpu_inv_def launch_ok_def unat_of_nat take_bit_nat_eq_self)
  have base: "unat (idx * 9) = 9 * length L" if "idx < mx"
  proof -
    have "9 * unat idx < 2 ^ 32" using that assms(2) by (simp add: launch_ok_def word_less_nat_alt)
    then show ?thesis by (simp add: unat_word_ariths idx mult.commute)
  qed
  have new: "pending t' = {(9 * length L + k, match_words r ! k) |k. k < 9}" if "idx < mx"
    using that base rh by (auto simp: t'_def image_iff lessThan_def numeral_eq_Suc)
  have lt: "idx < mx \<longleftrightarrow> length L < unat mx" by (simp add: word_less_nat_alt idx)
  have mono: "cell_of mx (L @ [r]) cv" if "cell_of mx L cv" for cv
    using that by (cases cv) (auto simp: nth_append)
  have "ths_inv mx (L @ [r]) (ths[i := t'])"
  proof (rule ths_inv_update)
    show "ths_inv mx (L @ [r]) ths" using assms(1) mono by (auto simp: gpu_inv_def ths_inv_def)
    show "\<forall>cv\<in>pending t'. cell_of mx (L @ [r]) cv"
      using new lt by (cases "idx < mx") (auto simp: t'_def)
  qed
  moreover have "cells_inv mx (L @ [r]) (ths[i := t']) (matches m)"
    unfolding cells_inv_def
  proof (intro allI impI)
    fix c x assume c: "cell_of mx (L @ [r]) (c, x)"
    show "matches m ! c = x \<or> (\<exists>t\<in>set (ths[i := t']). (c, x) \<in> pending t)"
    proof (cases "c div 9 = length L")
      case True
      then have "(c, x) \<in> pending t'" using c new lt div_mod_9 [OF True] by auto
      then show ?thesis using assms(3) by (metis set_update_memI)
    next
      case False
      then have "cell_of mx L (c, x)" using c by (auto simp: nth_append)
      then show ?thesis using assms(1,4) bex_update [of ths "\<lambda>t. (c, x) \<in> pending t" i t'] assms(3)
        by (auto simp: gpu_inv_def cells_inv_def)
    qed
  qed
  ultimately show ?thesis using assms(1) ms all by (simp add: gpu_inv_def idx_def ac_simps)
qed

text \<open>Every step keeps the invariant and makes the work left smaller.\<close>

lemma gpu_inv_step:
  assumes "gpu_inv mx all L ths s" "launch_ok mx all" "gpu_step s s'"
  obtains L' ths' where "gpu_inv mx all L' ths' s'" "total_cost ths' < total_cost ths"
proof -
  obtain m ps where s: "s = (m, ps)" by (cases s)
  have ps: "ps = map (thread_prog mx) ths" using assms(1) by (simp add: s gpu_inv_def)
  show ?thesis using assms(3) unfolding s
  proof (cases rule: gpu_step.cases)
    case (atomic i v k)
    obtain p vs rs where t: "ths ! i = (p, vs, rs)" by (cases "ths ! i")
    have i: "i < length ths" using atomic ps by simp
    have "stores p vs (report_all mx rs) = Atomic_Add v k" using atomic ps t i by simp
    then have vs: "vs = []" and rs: "rs \<noteq> []" by (cases vs; cases rs; simp)+
    obtain r rs' where rs': "rs = r # rs'" using rs by (cases rs) auto
    let ?t = "(result_count m * 9, if result_count m < mx then match_words r else [], rs')"
    have k: "v = 1" "k (result_count m) = thread_prog mx ?t"
      using atomic ps t i vs rs' by (auto simp: report_dseq)
    have inv: "gpu_inv mx all (L @ [r]) (ths[i := ?t]) s'"
      using gpu_inv_atomic [OF assms(1)[unfolded s] assms(2) i, of p r rs'] t vs rs' atomic k ps
      by (simp add: map_update)
    have "r \<in># all" using assms(1) i t rs' nth_mem [OF i] by (fastforce simp: gpu_inv_def)
    then have "length (match_words r) = 9" using assms(2) by (cases r) (auto simp: launch_ok_def)
    then have "thread_cost ?t < thread_cost (ths ! i)" using t vs rs' by simp
    then show ?thesis using that inv total_cost_update [OF i] by blast
  next
    case (store i p' v q)
    obtain p vs rs where t: "ths ! i = (p, vs, rs)" by (cases "ths ! i")
    have i: "i < length ths" using store ps by simp
    obtain vs' where vs: "vs = v # vs'" "p = p'" "q = thread_prog mx (p + 1, vs', rs)"
      using store ps t i by (cases vs) auto
    then show ?thesis
      using that gpu_inv_store(2) [OF assms(1)[unfolded s] assms(2) i, of p v vs' rs] t store ps
        total_cost_update [OF i, of "(p + 1, vs', rs)"]
      by (simp add: map_update)
  qed
qed

section \<open>Complete runs\<close>

lemma gpu_inv_run:
  assumes "(gpu_step ^^ n) s s'" "gpu_inv mx all L ths s" "launch_ok mx all"
  obtains L' ths' where "gpu_inv mx all L' ths' s'" "n + total_cost ths' \<le> total_cost ths"
proof -
  have "\<exists>L' ths'. gpu_inv mx all L' ths' s' \<and> n + total_cost ths' \<le> total_cost ths"
    using assms(1)
  proof (induction n arbitrary: s')
    case 0
    then show ?case using assms(2) by auto
  next
    case (Suc n)
    then obtain s1 where s1: "(gpu_step ^^ n) s s1" "gpu_step s1 s'" by auto
    obtain L1 ths1 where inv: "gpu_inv mx all L1 ths1 s1" "n + total_cost ths1 \<le> total_cost ths"
      using Suc.IH [OF s1(1)] by blast
    obtain L' ths' where "gpu_inv mx all L' ths' s'" "total_cost ths' < total_cost ths1"
      by (rule gpu_inv_step [OF inv(1) assms(3) s1(2)])
    then show ?case using inv(2) by (intro exI [of _ L'] exI [of _ ths']) simp
  qed
  then show ?thesis using that by blast
qed

lemma gpu_inv_init:
  assumes "length buf = 9 * unat mx"
  shows "gpu_inv mx (mset (concat rss)) [] (map (\<lambda>rs. (0, [], rs)) rss)
    (\<lparr>result_count = 0, matches = buf\<rparr>, map (report_all mx) rss)"
  using assms by (simp add: gpu_inv_def ths_inv_def cells_inv_def comp_def)

lemma gpu_inv_no_fault:
  assumes "gpu_inv mx all L ths s" "launch_ok mx all"
  shows "\<not> gpu_fault s"
proof
  assume "gpu_fault s"
  then obtain i where i: "i < length ths" "store_fault (fst s) (thread_prog mx (ths ! i))"
    using assms(1) by (auto simp: gpu_inv_def gpu_fault_def list_ex_length)
  obtain p vs rs where t: "ths ! i = (p, vs, rs)" by (cases "ths ! i")
  obtain v vs' where vs: "vs = v # vs'"
    using i(2) t report_all_neq_Store [of mx rs] by (cases vs; cases "report_all mx rs") auto
  have "unat p < length (matches (fst s))"
    using gpu_inv_store(1) [of mx all L ths "fst s" "snd s" i p v vs' rs] assms i(1) t vs by simp
  then show False using i(2) t vs by simp
qed

text \<open>When every thread is done, the slots hold the matches in the order of the atomic additions.\<close>

lemma gpu_inv_done:
  assumes "gpu_inv mx all L ths s" "launch_ok mx all" "all_done s"
  shows "mset L = all" and "result_count (fst s) = of_nat (length L)"
    and "map (read_slot (matches (fst s))) [0..<min (length L) (unat mx)] = take (unat mx) L"
proof -
  have t: "\<exists>p. t = (p, [], [])" if "t \<in> set ths" for t
  proof -
    obtain p vs rs where "t = (p, vs, rs)" by (cases t)
    moreover have "thread_prog mx t = Done" using assms(1,3) that by (auto simp: gpu_inv_def all_done_def list_all_iff)
    ultimately show ?thesis by (cases vs) auto
  qed
  have "unreported t = []" if "t \<in> set ths" for t using t [OF that] by auto
  then have "concat (map unreported ths) = []" by simp
  then show L: "mset L = all" using assms(1) by (auto simp: gpu_inv_def)
  show "result_count (fst s) = of_nat (length L)" using assms(1) by (simp add: gpu_inv_def)
  have cell: "matches (fst s) ! c = v" if "cell_of mx L (c, v)" for c v
    using assms(1) that t by (fastforce simp: gpu_inv_def cells_inv_def)
  have "read_slot (matches (fst s)) j = L ! j" if j: "j < length L" "j < unat mx" for j
  proof -
    obtain n h where r: "L ! j = (n, h)" by (cases "L ! j")
    have h: "length h = 8" using nth_mem [OF j(1)] r L assms(2) by (force simp: launch_ok_def)
    have c: "matches (fst s) ! (9 * j + k) = match_words (L ! j) ! k" if "k < 9" for k
      using that j by (intro cell) simp
    have "map (\<lambda>k. matches (fst s) ! (9 * j + 1 + k)) [0..<8] = h"
      using c [of "Suc _"] h r by (intro nth_equalityI) auto
    then show ?thesis using c [of 0] r by (simp add: read_slot_def)
  qed
  then show "map (read_slot (matches (fst s))) [0..<min (length L) (unat mx)] = take (unat mx) L"
    by (intro nth_equalityI) auto
qed

section \<open>Contract of a kernel\<close>

text \<open>
  What a launch of a kernel has to be for the host to rely on it: every thread reports the matches of
  its share, through the slot protocol. \<open>l\<close> ranges over launches (arguments and dimensions).
\<close>

locale reporting_kernel =
  fixes progs :: "'l \<Rightarrow> dprog list"
    and found :: "'l \<Rightarrow> gpu_match list list"
    and capacity :: "'l \<Rightarrow> u32"
    and good :: "'l \<Rightarrow> bool"
  assumes progs_report: "good l \<Longrightarrow> progs l = map (report_all (capacity l)) (found l)"
    and found_ok: "good l \<Longrightarrow> launch_ok (capacity l) (mset (concat (found l)))"
begin

lemma run_inv:
  assumes "good l" "length buf = 9 * unat (capacity l)" "(gpu_step ^^ n) (launch_state (progs l) buf) s"
  obtains L ths where "gpu_inv (capacity l) (mset (concat (found l))) L ths s"
    "n + total_cost ths \<le> 10 * length (concat (found l))"
proof -
  have c: "total_cost (map (\<lambda>rs. (0, [], rs)) rss) = 10 * length (concat rss)" for rss :: "gpu_match list list"
    by (induction rss) (simp_all add: total_cost_def)
  show ?thesis
    using gpu_inv_run [OF _ gpu_inv_init [OF assms(2)] found_ok [OF assms(1)]] assms(3) c that
    by (metis launch_state_def progs_report [OF assms(1)])
qed

lemma no_fault:
  assumes "good l" "length buf = 9 * unat (capacity l)" "gpu_step\<^sup>*\<^sup>* (launch_state (progs l) buf) s"
  shows "\<not> gpu_fault s"
  using assms run_inv gpu_inv_no_fault found_ok by (metis rtranclp_imp_relpowp)

lemma run_length:
  assumes "good l" "length buf = 9 * unat (capacity l)" "(gpu_step ^^ n) (launch_state (progs l) buf) s"
  shows "n \<le> 10 * length (concat (found l))"
  using run_inv [OF assms] by (metis add_leE)

lemma completes:
  assumes "good l" "length buf = 9 * unat (capacity l)" "gpu_step\<^sup>*\<^sup>* (launch_state (progs l) buf) s"
  shows "\<exists>t. gpu_step\<^sup>*\<^sup>* s t \<and> all_done t"
proof (rule ccontr)
  assume no: "\<not> ?thesis"
  have "\<exists>t. (gpu_step ^^ n) s t" for n
  proof (induction n)
    case (Suc n)
    then obtain t where t: "(gpu_step ^^ n) s t" by blast
    then have "gpu_step\<^sup>*\<^sup>* s t" by (rule relpowp_imp_rtranclp)
    then have "\<not> all_done t" "\<not> gpu_fault t" using no no_fault [OF assms(1,2)] assms(3) by (metis rtranclp_trans)+
    then obtain u where "gpu_step t u" using gpu_progress by blast
    then show ?case using t by (metis relpowp_Suc_I)
  qed auto
  moreover obtain k where "(gpu_step ^^ k) (launch_state (progs l) buf) s" using assms(3) by (metis rtranclp_imp_relpowp)
  ultimately obtain t where "(gpu_step ^^ (k + Suc (10 * length (concat (found l))))) (launch_state (progs l) buf) t"
    by (metis relpowp_add relcomppI)
  then show False using run_length [OF assms(1,2)] by fastforce
qed

lemma results:
  assumes "good l" "length buf = 9 * unat (capacity l)" "gpu_step\<^sup>*\<^sup>* (launch_state (progs l) buf) s" "all_done s"
  obtains L where "mset L = mset (concat (found l))" "unat (result_count (fst s)) = length L"
    "map (read_slot (matches (fst s))) [0..<min (length L) (unat (capacity l))] = take (unat (capacity l)) L"
proof -
  obtain n where "(gpu_step ^^ n) (launch_state (progs l) buf) s" using assms(3) by (metis rtranclp_imp_relpowp)
  then obtain L ths where "gpu_inv (capacity l) (mset (concat (found l))) L ths s"
    using run_inv [OF assms(1,2)] by blast
  note d = gpu_inv_done [OF this found_ok [OF assms(1)] assms(4)]
  have "length L < 2 ^ 32" using found_ok [OF assms(1)] arg_cong [OF d(1), of size] by (simp add: launch_ok_def)
  then have "unat (result_count (fst s)) = length L" by (simp add: d(2) unat_of_nat take_bit_nat_eq_self)
  from that [OF d(1) this d(3)] show ?thesis .
qed

lemma device_results:
  assumes "good l" "length buf = 9 * unat (capacity l)" "device_contract dev" "s = dev (launch_state (progs l) buf)"
  obtains L where "mset L = mset (concat (found l))" "unat (result_count (fst s)) = length L"
    "map (read_slot (matches (fst s))) [0..<min (length L) (unat (capacity l))] = take (unat (capacity l)) L"
proof -
  have steps: "gpu_step\<^sup>*\<^sup>* (launch_state (progs l) buf) s" and ends: "gpu_fault s \<or> all_done s"
    using assms(3,4) unfolding device_contract_def by blast+
  have "all_done s" using no_fault [OF assms(1,2) steps] ends by simp
  then show ?thesis by (rule results [OF assms(1,2) steps]) (rule that)
qed

end

end
