(* ===== verification/Cuda_Kernel.thy ===== *)
theory Cuda_Kernel
  imports Gpu_Sha256 Gpu_Device
begin

text \<open>
  The CUDA kernels, \<open>src/src/cuda_sha256d_kernel.cu\<close>: the target comparison, the slot protocol, the
  scan of one nonce and of two, and the nine kernels. The parameters every function of the file passes
  on are bundled: \<open>fast0\<close> to \<open>fast7\<close>, \<open>target0\<close> to \<open>target7\<close> and \<open>tail0\<close> to \<open>tail2\<close> are tuples. A
  function that writes device memory is the tree of its accesses (\<open>dprog\<close>).

  Main result: every kernel makes every thread report exactly the matches of its share of the nonces,
  so that a launch reports exactly the matches of the range, whatever the interleaving.
\<close>

section \<open>Comparison and report\<close>

definition meets_target_words :: "wvars \<Rightarrow> wvars \<Rightarrow> bool" where
  "meets_target_words hs ts =
    (let (h0, h1, h2, h3, h4, h5, h6, h7) = hs;
         (t0, t1, t2, t3, t4, t5, t6, t7) = ts;
         h = bswap32 h7 in if h < t7 then True else if h > t7 then False else
     let h = bswap32 h6 in if h < t6 then True else if h > t6 then False else
     let h = bswap32 h5 in if h < t5 then True else if h > t5 then False else
     let h = bswap32 h4 in if h < t4 then True else if h > t4 then False else
     let h = bswap32 h3 in if h < t3 then True else if h > t3 then False else
     let h = bswap32 h2 in if h < t2 then True else if h > t2 then False else
     let h = bswap32 h1 in if h < t1 then True else if h > t1 then False else
     let h = bswap32 h0 in if h < t0 then True else if h > t0 then False else
     True)"

definition store_match_words :: "u32 \<Rightarrow> wvars \<Rightarrow> u32 \<Rightarrow> dprog" where
  "store_match_words nonce hs max_results =
    (let (h0, h1, h2, h3, h4, h5, h6, h7) = hs
     in Atomic_Add 1 (\<lambda>idx.
       if idx < max_results
       then let base = idx * 9 in
         Store base nonce (
         Store (base + 1) h0 (
         Store (base + 2) h1 (
         Store (base + 3) h2 (
         Store (base + 4) h3 (
         Store (base + 5) h4 (
         Store (base + 6) h5 (
         Store (base + 7) h6 (
         Store (base + 8) h7 Done))))))))
       else Done))"

section \<open>Scanning nonces\<close>

definition sha256_iv :: wvars where
  "sha256_iv = (0x6a09e667, 0xbb67ae85, 0x3c6ef372, 0xa54ff53a, 0x510e527f, 0x9b05688c, 0x1f83d9ab, 0x5be0cd19)"

text \<open>The schedule words of the first and of the second block.\<close>

definition first_words :: "u32 \<times> u32 \<times> u32 \<Rightarrow> u32 \<Rightarrow> wmsg" where
  "first_words tail nonce =
    (let (tail0, tail1, tail2) = tail
     in (tail0, tail1, tail2, bswap32 nonce, 0x80000000, 0, 0, 0, 0, 0, 0, 0, 0, 0, 0, 640))"

definition second_words :: "wvars \<Rightarrow> wmsg" where
  "second_words s =
    (let (s0, s1, s2, s3, s4, s5, s6, s7) = s
     in (s0, s1, s2, s3, s4, s5, s6, s7, 0x80000000, 0, 0, 0, 0, 0, 0, 256))"

text \<open>\<open>scan_one_nonce\<close> and \<open>scan_one_nonce_lop3\<close> have the same text under different \<open>CH\<close> and \<open>MAJ\<close>.\<close>

definition scan_nonce_with ::
  "ternary \<Rightarrow> ternary \<Rightarrow> wvars \<Rightarrow> wvars \<Rightarrow> u32 \<times> u32 \<times> u32 \<Rightarrow> u32 \<Rightarrow> u32 \<Rightarrow> dprog" where
  "scan_nonce_with ch maj fast target tail nonce max_results =
    (let (s, w) = SHA256_COMPRESS ch maj fast (first_words tail nonce);
         (h, w) = SHA256_COMPRESS ch maj sha256_iv (second_words s)
     in if meets_target_words h target then store_match_words nonce h max_results else Done)"

definition scan_one_nonce :: "wvars \<Rightarrow> wvars \<Rightarrow> u32 \<times> u32 \<times> u32 \<Rightarrow> u32 \<Rightarrow> u32 \<Rightarrow> dprog" where
  "scan_one_nonce = scan_nonce_with CH MAJ"

definition scan_one_nonce_lop3 :: "wvars \<Rightarrow> wvars \<Rightarrow> u32 \<times> u32 \<times> u32 \<Rightarrow> u32 \<Rightarrow> u32 \<Rightarrow> dprog" where
  "scan_one_nonce_lop3 = scan_nonce_with ch_lop3 maj_lop3"

definition scan_two_nonces ::
  "wvars \<Rightarrow> wvars \<Rightarrow> u32 \<times> u32 \<times> u32 \<Rightarrow> u32 \<Rightarrow> u32 \<Rightarrow> u32 \<Rightarrow> dprog" where
  "scan_two_nonces fast target tail nonce0 nonce1 max_results =
    (let (s, w, q, x) = SHA256_COMPRESS_DUAL fast (first_words tail nonce0) fast (first_words tail nonce1);
         (h, w, y, x) = SHA256_COMPRESS_DUAL sha256_iv (second_words s) sha256_iv (second_words q)
     in dseq (if meets_target_words h target then store_match_words nonce0 h max_results else Done)
             (if meets_target_words y target then store_match_words nonce1 y max_results else Done))"

section \<open>Kernels\<close>

record kernel_args =
  arg_fast :: wvars
  arg_target :: wvars
  arg_tail :: "u32 \<times> u32 \<times> u32"
  arg_start_nonce :: u32
  arg_nonce_count :: u32
  arg_nonces_per_thread :: u32
  arg_max_results :: u32

text \<open>\<open>for (u32 item = 0U; item < limit; ++item) body(item)\<close>.\<close>

definition for_items :: "u32 \<Rightarrow> (u32 \<Rightarrow> dprog) \<Rightarrow> dprog" where
  "for_items limit body = foldr (\<lambda>i p. dseq (body (of_nat i)) p) [0..<unat limit] Done"

text \<open>The calls the kernels make, with the arguments they pass on.\<close>

definition scan_one_at :: "kernel_args \<Rightarrow> u32 \<Rightarrow> dprog" where
  "scan_one_at A nonce = scan_one_nonce (arg_fast A) (arg_target A) (arg_tail A) nonce (arg_max_results A)"

definition scan_one_lop3_at :: "kernel_args \<Rightarrow> u32 \<Rightarrow> dprog" where
  "scan_one_lop3_at A nonce = scan_one_nonce_lop3 (arg_fast A) (arg_target A) (arg_tail A) nonce (arg_max_results A)"

definition scan_two_at :: "kernel_args \<Rightarrow> u32 \<Rightarrow> u32 \<Rightarrow> dprog" where
  "scan_two_at A nonce0 nonce1 =
    scan_two_nonces (arg_fast A) (arg_target A) (arg_tail A) nonce0 nonce1 (arg_max_results A)"

text \<open>The field \<open>arg_nonces_per_thread\<close> is \<open>nonces_per_work_item\<close> for OpenCL. A CUDA kernel runs once per thread, with the block number, block size and thread number of the thread.\<close>

type_synonym cuda_kernel = "kernel_args \<Rightarrow> u32 \<Rightarrow> u32 \<Rightarrow> u32 \<Rightarrow> dprog"

text \<open>The loop of the dual kernel and the odd item after it. The recursion depth is bounded by the
  limit: \<open>item\<close> grows by two in every round and stays below it.\<close>

fun dual_items :: "nat \<Rightarrow> kernel_args \<Rightarrow> u32 \<Rightarrow> u32 \<Rightarrow> u32 \<Rightarrow> dprog" where
  "dual_items 0 A base_nonce limit item = Done"
| "dual_items (Suc n) A base_nonce limit item =
    (if item + 1 < limit
     then dseq (scan_two_at A (arg_start_nonce A + base_nonce + item) (arg_start_nonce A + base_nonce + item + 1))
            (dual_items n A base_nonce limit (item + 2))
     else if item < limit then scan_one_at A (arg_start_nonce A + base_nonce + item)
     else Done)"

definition btcrig_cuda_scan_nonce_range_dual :: cuda_kernel where
  "btcrig_cuda_scan_nonce_range_dual A ctaid ntid tid =
    (let gid = ctaid * ntid + tid;
         base_nonce = gid * arg_nonces_per_thread A
     in if base_nonce \<ge> arg_nonce_count A then Done
        else let limit = arg_nonces_per_thread A;
                 limit = (if base_nonce + limit > arg_nonce_count A then arg_nonce_count A - base_nonce else limit)
             in dual_items (Suc (unat limit)) A base_nonce limit 0)"

definition btcrig_cuda_scan_nonce_range_fixed_npt1 :: cuda_kernel where
  "btcrig_cuda_scan_nonce_range_fixed_npt1 A ctaid ntid tid =
    (let gid = ctaid * ntid + tid
     in if gid \<ge> arg_nonce_count A then Done else scan_one_at A (arg_start_nonce A + gid))"

definition btcrig_cuda_scan_nonce_range_fixed_npt2 :: cuda_kernel where
  "btcrig_cuda_scan_nonce_range_fixed_npt2 A ctaid ntid tid =
    (let gid = ctaid * ntid + tid;
         base_nonce = gid * 2
     in if base_nonce \<ge> arg_nonce_count A then Done
        else let limit = arg_nonce_count A - base_nonce;
                 limit = (if limit > 2 then 2 else limit)
             in for_items limit (\<lambda>item. scan_one_at A (arg_start_nonce A + base_nonce + item)))"

definition btcrig_cuda_scan_nonce_range_fixed_npt4 :: cuda_kernel where
  "btcrig_cuda_scan_nonce_range_fixed_npt4 A ctaid ntid tid =
    (let gid = ctaid * ntid + tid;
         base_nonce = gid * 4
     in if base_nonce \<ge> arg_nonce_count A then Done
        else let limit = arg_nonce_count A - base_nonce;
                 limit = (if limit > 4 then 4 else limit)
             in for_items limit (\<lambda>item. scan_one_at A (arg_start_nonce A + base_nonce + item)))"

definition btcrig_cuda_scan_nonce_range_lop3 :: cuda_kernel where
  "btcrig_cuda_scan_nonce_range_lop3 A ctaid ntid tid =
    (let gid = ctaid * ntid + tid;
         base_nonce = gid * arg_nonces_per_thread A
     in if base_nonce \<ge> arg_nonce_count A then Done
        else let limit = arg_nonces_per_thread A;
                 limit = (if base_nonce + limit > arg_nonce_count A then arg_nonce_count A - base_nonce else limit)
             in for_items limit (\<lambda>item. scan_one_lop3_at A (arg_start_nonce A + base_nonce + item)))"

definition btcrig_cuda_scan_nonce_range_fixed_lop3_npt1 :: cuda_kernel where
  "btcrig_cuda_scan_nonce_range_fixed_lop3_npt1 A ctaid ntid tid =
    (let gid = ctaid * ntid + tid
     in if gid \<ge> arg_nonce_count A then Done else scan_one_lop3_at A (arg_start_nonce A + gid))"

definition btcrig_cuda_scan_nonce_range_fixed_lop3_npt2 :: cuda_kernel where
  "btcrig_cuda_scan_nonce_range_fixed_lop3_npt2 A ctaid ntid tid =
    (let gid = ctaid * ntid + tid;
         base_nonce = gid * 2
     in if base_nonce \<ge> arg_nonce_count A then Done
        else let limit = arg_nonce_count A - base_nonce;
                 limit = (if limit > 2 then 2 else limit)
             in for_items limit (\<lambda>item. scan_one_lop3_at A (arg_start_nonce A + base_nonce + item)))"

definition btcrig_cuda_scan_nonce_range_fixed_lop3_npt4 :: cuda_kernel where
  "btcrig_cuda_scan_nonce_range_fixed_lop3_npt4 A ctaid ntid tid =
    (let gid = ctaid * ntid + tid;
         base_nonce = gid * 4
     in if base_nonce \<ge> arg_nonce_count A then Done
        else let limit = arg_nonce_count A - base_nonce;
                 limit = (if limit > 4 then 4 else limit)
             in for_items limit (\<lambda>item. scan_one_lop3_at A (arg_start_nonce A + base_nonce + item)))"

definition btcrig_cuda_scan_nonce_range :: cuda_kernel where
  "btcrig_cuda_scan_nonce_range A ctaid ntid tid =
    (let gid = ctaid * ntid + tid;
         base_nonce = gid * arg_nonces_per_thread A
     in if base_nonce \<ge> arg_nonce_count A then Done
        else let limit = arg_nonces_per_thread A;
                 limit = (if base_nonce + limit > arg_nonce_count A then arg_nonce_count A - base_nonce else limit)
             in for_items limit (\<lambda>item. scan_one_at A (arg_start_nonce A + base_nonce + item)))"

text \<open>The threads of a launch with \<open>grid\<close> blocks of \<open>block\<close> threads.\<close>

definition launch_threads :: "cuda_kernel \<Rightarrow> kernel_args \<Rightarrow> u32 \<Rightarrow> u32 \<Rightarrow> dprog list" where
  "launch_threads kern A grid block =
    concat (map (\<lambda>c. map (\<lambda>t. kern A (of_nat c) block (of_nat t)) [0..<unat block]) [0..<unat grid])"

section \<open>One nonce\<close>

lemma meets_target_words_spec:
  "meets_target_words (wvars_of hs) (wvars_of ts) = hash_words_meet_target hs ts"
  by (simp add: meets_target_words_def hash_words_meet_target_def wvars_of_def numeral_eq_Suc Let_def)

lemma store_match_words_report:
  assumes "length h = 8"
  shows "store_match_words nonce (wvars_of h) mx = report mx (nonce, h)"
  using assms by (auto simp: length_eq_8_iff store_match_words_def report_def wvars_of_def fun_eq_iff Let_def add.assoc)

lemma sha256_iv_fips: "sha256_iv = wvars_of fips_H0"
  by (simp add: sha256_iv_def wvars_of_def k_sha256_initial_state_fips [symmetric] k_sha256_initial_state_def)

text \<open>The tail words a launch passes.\<close>

definition tail_args :: "u32 list \<Rightarrow> u32 \<times> u32 \<times> u32" where
  "tail_args tail = (tail ! 0, tail ! 1, tail ! 2)"

lemma first_words_spec:
  assumes "length tail = 4"
  shows "first_words (tail_args tail) nonce = wmsg_of (tail[3 := bswap32 nonce] @ pad80_words)"
  using assms by (auto simp: length_eq_4_iff first_words_def tail_args_def pad80_words_def literal_arrays)

lemma second_words_spec:
  assumes "length s = 8"
  shows "second_words (wvars_of s) = wmsg_of (s @ pad32_words)"
  using assms by (auto simp: length_eq_8_iff second_words_def wvars_of_def pad32_words_def literal_arrays)

lemma scan_matches_append:
  "scan_matches hash tail target (ns @ ns') = scan_matches hash tail target ns @ scan_matches hash tail target ns'"
  by (simp add: scan_matches_def)

lemma scan_matches_concat:
  "scan_matches hash tail target (concat nss) = concat (map (scan_matches hash tail target) nss)"
  by (induction nss) (simp_all add: scan_matches_append, simp add: scan_matches_def)

definition nonce_report :: "u32 list \<Rightarrow> u32 list \<Rightarrow> u32 list \<Rightarrow> u32 \<Rightarrow> u32 list \<Rightarrow> dprog" where
  "nonce_report mid tail target mx nonces = report_all mx (scan_matches (tail_hash mid) tail target nonces)"

lemma nonce_report_append:
  "nonce_report mid tail target mx (ns @ ns') = dseq (nonce_report mid tail target mx ns) (nonce_report mid tail target mx ns')"
  by (simp add: nonce_report_def scan_matches_append report_all_append)

lemma nonce_report_Nil [simp]: "nonce_report mid tail target mx [] = Done"
  by (simp add: nonce_report_def scan_matches_def)

lemma nonce_report_single:
  assumes "h = tail_hash mid (tail[3 := bswap32 nonce])"
  shows "nonce_report mid tail target mx [nonce] =
    (if meets_target_words (wvars_of h) (wvars_of target) then store_match_words nonce (wvars_of h) mx else Done)"
  by (simp add: nonce_report_def scan_matches_def meets_target_words_spec store_match_words_report assms)

lemma scan_nonce_with_report:
  assumes "length mid = 8" "length tail = 4" "sha_logic ch maj"
  shows "scan_nonce_with ch maj (wvars_of mid) (wvars_of target) (tail_args tail) nonce mx =
    nonce_report mid tail target mx [nonce]"
  using assms
  by (simp add: scan_nonce_with_def first_words_spec second_words_spec SHA256_COMPRESS_spec sha256_iv_fips
      nonce_report_single tail_hash_def del: wmsg_of.simps msg_of.simps)

lemma scan_two_nonces_report:
  assumes "length mid = 8" "length tail = 4"
  shows "scan_two_nonces (wvars_of mid) (wvars_of target) (tail_args tail) nonce0 nonce1 mx =
    nonce_report mid tail target mx [nonce0, nonce1]"
  using assms nonce_report_append [of mid tail target mx "[nonce0]" "[nonce1]"]
  by (simp add: scan_two_nonces_def first_words_spec second_words_spec SHA256_COMPRESS_DUAL_spec sha256_iv_fips
      nonce_report_single tail_hash_def del: wmsg_of.simps msg_of.simps)

section \<open>One thread\<close>

text \<open>The nonces of thread \<open>g\<close> when every thread takes \<open>k\<close> of \<open>n\<close>.\<close>

definition thread_share :: "u32 \<Rightarrow> nat \<Rightarrow> nat \<Rightarrow> nat \<Rightarrow> u32 list" where
  "thread_share start n k g = map (\<lambda>i. start + of_nat i) [g * k..<min (g * k + k) n]"

lemma thread_share_empty: "n \<le> g * k \<Longrightarrow> thread_share start n k g = []"
  by (simp add: thread_share_def)

lemma thread_share_items:
  "g * k < n \<Longrightarrow>
   thread_share start n k g = map (\<lambda>i. start + of_nat (g * k) + of_nat i) [0..<min k (n - g * k)]"
proof -
  assume "g * k < n"
  then have "[g * k..<min (g * k + k) n] = map (\<lambda>i. i + g * k) [0..<min k (n - g * k)]"
    unfolding map_add_upt by (intro arg_cong2 [where f = upt]) auto
  then show ?thesis by (simp add: thread_share_def ac_simps)
qed

lemma for_items_report:
  assumes "\<And>nonce. f nonce = nonce_report mid tail target mx [nonce]"
  shows "for_items limit (\<lambda>item. f (b + item)) = nonce_report mid tail target mx (map (\<lambda>i. b + of_nat i) [0..<unat limit])"
proof -
  have "foldr (\<lambda>i p. dseq (f (b + of_nat i)) p) is Done = nonce_report mid tail target mx (map (\<lambda>i. b + of_nat i) is)"
    for "is"
  proof (induction "is")
    case (Cons i "is")
    then show ?case using nonce_report_append [of mid tail target mx "[b + of_nat i]" "map (\<lambda>i. b + of_nat i) is"]
      by (simp add: assms)
  qed simp
  then show ?thesis by (simp add: for_items_def)
qed

definition args_of :: "u32 list \<Rightarrow> u32 list \<Rightarrow> u32 list \<Rightarrow> u32 \<Rightarrow> u32 \<Rightarrow> u32 \<Rightarrow> u32 \<Rightarrow> kernel_args" where
  "args_of mid tail target start_nonce nonce_count npt mx =
    \<lparr>arg_fast = wvars_of mid, arg_target = wvars_of target, arg_tail = tail_args tail,
     arg_start_nonce = start_nonce, arg_nonce_count = nonce_count, arg_nonces_per_thread = npt,
     arg_max_results = mx\<rparr>"

lemma args_of_simps [simp]:
  "arg_start_nonce (args_of mid tail target start n npt mx) = start"
  "arg_nonce_count (args_of mid tail target start n npt mx) = n"
  "arg_nonces_per_thread (args_of mid tail target start n npt mx) = npt"
  by (simp_all add: args_of_def)

lemma scan_at_report:
  assumes "length mid = 8" "length tail = 4"
  shows "scan_one_at (args_of mid tail target start n npt mx) nonce = nonce_report mid tail target mx [nonce]"
    and "scan_one_lop3_at (args_of mid tail target start n npt mx) nonce = nonce_report mid tail target mx [nonce]"
    and "scan_two_at (args_of mid tail target start n npt mx) nonce nonce' = nonce_report mid tail target mx [nonce, nonce']"
  using assms
  by (simp_all add: scan_one_at_def scan_one_lop3_at_def scan_two_at_def args_of_def scan_one_nonce_def
      scan_one_nonce_lop3_def scan_nonce_with_report scan_two_nonces_report sha_logic_plain sha_logic_lop3)

lemma dual_items_report:
  assumes "length mid = 8" "length tail = 4" "even (unat item)" "unat limit < unat item + n"
  shows "dual_items n (args_of mid tail target start cnt npt mx) base limit item =
    nonce_report mid tail target mx (map (\<lambda>i. start + base + of_nat i) [unat item..<unat limit])"
  using assms(3,4)
proof (induction n arbitrary: item)
  case (Suc n)
  have "unat item + 1 \<noteq> 2 ^ 32" by (rule notI, drule arg_cong [where f = even]) (simp add: Suc.prems(1))
  then have i1: "unat (item + 1) = unat item + 1"
    using unat_u32_less [of item] by (simp add: unat_word_ariths)
  show ?case
  proof (cases "item + 1 < limit")
    case True
    then have lt: "unat item + 1 < unat limit" by (simp add: word_less_nat_alt i1)
    then have i2: "unat (item + 2) = unat item + 2"
      using unat_u32_less [of limit] by (simp add: unat_word_ariths)
    have "[unat item..<unat limit] = [unat item, unat item + 1] @ [unat item + 2..<unat limit]"
      using lt by (simp add: upt_conv_Cons)
    then show ?thesis
      using True Suc.IH [of "item + 2"] Suc.prems i2
      by (simp add: scan_at_report [OF assms(1,2)] nonce_report_append [symmetric] ac_simps)
  next
    case False
    then have "unat limit \<le> unat item + 1" by (simp add: word_less_nat_alt i1)
    then show ?thesis using False
      by (cases "item < limit") (auto simp: scan_at_report [OF assms(1,2)] word_less_nat_alt upt_conv_Cons)
  qed
qed simp

text \<open>A kernel divides the range in shares of \<open>npt\<close> nonces: thread \<open>g\<close> reports the matches of its share.\<close>

definition divides_range :: "cuda_kernel \<Rightarrow> u32 \<Rightarrow> bool" where
  "divides_range kern npt \<longleftrightarrow>
    (\<forall>mid tail target start n mx ctaid ntid tid g.
       length mid = 8 \<longrightarrow> length tail = 4 \<longrightarrow> ctaid * ntid + tid = of_nat g \<longrightarrow>
       g * unat npt < 2 ^ 32 \<longrightarrow> unat n + unat npt \<le> 2 ^ 32 \<longrightarrow>
       kern (args_of mid tail target start n npt mx) ctaid ntid tid =
       nonce_report mid tail target mx (thread_share start (unat n) (unat npt) g))"

lemma base_nonce_eq:
  assumes "g * unat npt < 2 ^ 32"
  shows "unat (of_nat g * npt :: u32) = g * unat npt" and "of_nat g * npt = (of_nat (g * unat npt) :: u32)"
  using assms by (simp_all add: unat_word_ariths unat_of_nat take_bit_eq_mod mod_mult_left_eq)

lemma limit_eq:
  fixes n npt base :: u32
  assumes "unat n + unat npt \<le> 2 ^ 32" "base < n"
  shows "unat (if base + npt > n then n - base else npt) = min (unat npt) (unat n - unat base)"
proof -
  have b: "unat base < unat n" using assms(2) by (simp add: word_less_nat_alt)
  then have "unat (base + npt) = unat base + unat npt" using assms(1) by (simp add: unat_word_ariths)
  then show ?thesis using b by (auto simp: word_less_nat_alt unat_sub_if_size)
qed

lemma fixed_limit_eq:
  fixes n k base :: u32
  assumes "base < n"
  shows "unat (if n - base > k then k else n - base) = min (unat k) (unat n - unat base)"
  using assms by (auto simp: word_less_nat_alt unat_sub_if_size)

lemma divides_rangeI:
  assumes "\<And>mid tail target start n mx ctaid ntid tid.
      unat (ctaid * ntid + tid) * unat npt < 2 ^ 32 \<Longrightarrow> n \<le> (ctaid * ntid + tid) * npt \<Longrightarrow>
      kern (args_of mid tail target start n npt mx) ctaid ntid tid = Done"
    and "\<And>mid tail target start n mx ctaid ntid tid base.
      length mid = 8 \<Longrightarrow> length tail = 4 \<Longrightarrow> unat n + unat npt \<le> 2 ^ 32 \<Longrightarrow>
      unat (ctaid * ntid + tid) * unat npt < 2 ^ 32 \<Longrightarrow> base = (ctaid * ntid + tid) * npt \<Longrightarrow> base < n \<Longrightarrow>
      kern (args_of mid tail target start n npt mx) ctaid ntid tid =
      nonce_report mid tail target mx (map (\<lambda>i. start + base + of_nat i) [0..<min (unat npt) (unat n - unat base)])"
  shows "divides_range kern npt"
  unfolding divides_range_def
proof (intro allI impI, goal_cases)
  case (1 mid tail target start n mx ctaid ntid tid g)
  let ?base = "of_nat (g * unat npt) :: u32"
  have base: "?base = (ctaid * ntid + tid) * npt" by (simp add: 1(3))
  have ub: "unat ?base = g * unat npt"
    using 1(4) by (simp add: unat_of_nat take_bit_nat_eq_self del: of_nat_mult)
  have "unat (of_nat g :: u32) \<le> g" by (simp add: unat_of_nat take_bit_eq_mod)
  then have "unat (ctaid * ntid + tid) * unat npt \<le> g * unat npt" unfolding 1(3) by (rule mult_le_mono1)
  then have small: "unat (ctaid * ntid + tid) * unat npt < 2 ^ 32" using 1(4) by linarith
  show ?case
  proof (cases "n \<le> ?base")
    case True
    then show ?thesis
      using assms(1) [OF small, of n] ub unfolding base by (simp add: thread_share_empty word_le_nat_alt)
  next
    case False
    then have "kern (args_of mid tail target start n npt mx) ctaid ntid tid =
        nonce_report mid tail target mx (map (\<lambda>i. start + ?base + of_nat i) [0..<min (unat npt) (unat n - unat ?base)])"
      by (intro assms(2) [OF 1(1,2,5) small base]) simp
    with False show ?thesis
      by (simp add: ub thread_share_items word_le_nat_alt del: of_nat_mult)
  qed
qed

lemma less_not_ge: "a < b \<Longrightarrow> \<not> b \<le> (a :: u32)"
  by simp

lemma items_report:
  assumes "length mid = 8" "length tail = 4"
  shows "for_items limit (\<lambda>item. scan_one_at (args_of mid tail target start n npt mx) (b + item)) =
      nonce_report mid tail target mx (map (\<lambda>i. b + of_nat i) [0..<unat limit])"
    and "for_items limit (\<lambda>item. scan_one_lop3_at (args_of mid tail target start n npt mx) (b + item)) =
      nonce_report mid tail target mx (map (\<lambda>i. b + of_nat i) [0..<unat limit])"
  by (intro for_items_report scan_at_report assms)+

text \<open>The three shapes of a thread: a limit computed from \<open>base_nonce + limit > nonce_count\<close>, one from
  \<open>nonce_count - base_nonce\<close>, and the pairs of the dual kernel.\<close>

lemma divides_any:
  "divides_range btcrig_cuda_scan_nonce_range npt"
  "divides_range btcrig_cuda_scan_nonce_range_lop3 npt"
  "divides_range btcrig_cuda_scan_nonce_range_dual npt"
  by (rule divides_rangeI;
      simp add: btcrig_cuda_scan_nonce_range_def btcrig_cuda_scan_nonce_range_lop3_def
        btcrig_cuda_scan_nonce_range_dual_def Let_def items_report dual_items_report limit_eq less_not_ge
        del: dual_items.simps split del: if_split cong: if_cong)+

lemma divides_fixed:
  "divides_range btcrig_cuda_scan_nonce_range_fixed_npt2 2"
  "divides_range btcrig_cuda_scan_nonce_range_fixed_npt4 4"
  "divides_range btcrig_cuda_scan_nonce_range_fixed_lop3_npt2 2"
  "divides_range btcrig_cuda_scan_nonce_range_fixed_lop3_npt4 4"
  by (rule divides_rangeI;
      simp add: btcrig_cuda_scan_nonce_range_fixed_npt2_def btcrig_cuda_scan_nonce_range_fixed_npt4_def
        btcrig_cuda_scan_nonce_range_fixed_lop3_npt2_def btcrig_cuda_scan_nonce_range_fixed_lop3_npt4_def
        Let_def items_report fixed_limit_eq less_not_ge del: distrib_right_numeral split del: if_split cong: if_cong)+

lemma divides_single:
  "divides_range btcrig_cuda_scan_nonce_range_fixed_npt1 1"
  "divides_range btcrig_cuda_scan_nonce_range_fixed_lop3_npt1 1"
  by (rule divides_rangeI;
      simp add: btcrig_cuda_scan_nonce_range_fixed_npt1_def btcrig_cuda_scan_nonce_range_fixed_lop3_npt1_def
        scan_at_report Let_def less_not_ge min_def word_less_nat_alt Suc_le_eq word_le_nat_alt)+

section \<open>A launch\<close>

lemma concat_shares:
  "concat (map (thread_share start n k) [0..<t]) = map (\<lambda>i. start + of_nat i) [0..<min (t * k) n]"
proof (induction t)
  case (Suc t)
  have "[0..<min (t * k) n] @ [t * k..<min (t * k + k) n] = [0..<min (Suc t * k) n]"
    using upt_add_eq_append [of 0 "t * k" "min (t * k + k) n - t * k"]
    by (cases "t * k \<le> n") (simp_all add: min_def add.commute)
  then have "map (\<lambda>i. start + of_nat i) [0..<min (Suc t * k) n] =
      map (\<lambda>i. start + of_nat i) [0..<min (t * k) n] @ thread_share start n k t"
    by (metis map_append thread_share_def)
  then show ?case using Suc by simp
qed simp

lemma upt_blocks: "concat (map (\<lambda>c. map (\<lambda>t. f (c * b + t)) [0..<b]) [0..<g]) = map f [0..<g * b]"
proof (induction g)
  case (Suc g)
  have "[0..<Suc g * b] = [0..<g * b] @ map (\<lambda>t. g * b + t) [0..<b]"
    using upt_add_eq_append [of 0 "g * b" b] map_add_upt [of "g * b" b] by (simp add: add.commute)
  with Suc show ?case by simp
qed simp

text \<open>What \<open>t\<close> threads find that take \<open>k\<close> nonces each.\<close>

definition shares_found ::
  "u32 list \<Rightarrow> u32 list \<Rightarrow> u32 list \<Rightarrow> u32 \<Rightarrow> nat \<Rightarrow> nat \<Rightarrow> nat \<Rightarrow> gpu_match list list" where
  "shares_found mid tail target start n k t =
    map (\<lambda>g. scan_matches (tail_hash mid) tail target (thread_share start n k g)) [0..<t]"

lemma shares_found_concat:
  fixes n :: u32
  assumes "unat n \<le> t * k"
  shows "concat (shares_found mid tail target start (unat n) k t) =
    scan_matches (tail_hash mid) tail target (nonce_range start n)"
proof -
  have "shares_found mid tail target start (unat n) k t =
      map (scan_matches (tail_hash mid) tail target) (map (thread_share start (unat n) k) [0..<t])"
    by (simp add: shares_found_def comp_def)
  then show ?thesis using assms
    by (simp only: scan_matches_concat [symmetric] concat_shares) (simp add: nonce_range_def min_absorb2)
qed

lemma shares_found_ok:
  fixes n mx :: u32
  assumes "unat n \<le> t * k" "9 * unat mx \<le> 2 ^ 32"
  shows "launch_ok mx (mset (concat (shares_found mid tail target start (unat n) k t)))"
proof -
  let ?ms = "scan_matches (tail_hash mid) tail target (nonce_range start n)"
  have "length ?ms \<le> unat n"
    unfolding scan_matches_def by (rule le_trans [OF length_filter_le]) (simp add: nonce_range_def)
  then have "size (mset ?ms) < 2 ^ 32" using unat_u32_less [of n] by (simp only: size_mset)
  moreover have "\<forall>r\<in>#mset ?ms. length (snd r) = 8" by (auto simp: scan_matches_def)
  ultimately show ?thesis using assms(2) by (simp only: launch_ok_def shares_found_concat [OF assms(1)])
qed

record cuda_launch =
  l_kernel :: cuda_kernel
  l_mid :: "u32 list"
  l_tail :: "u32 list"
  l_target :: "u32 list"
  l_start :: u32
  l_count :: u32
  l_npt :: u32
  l_max :: u32
  l_grid :: u32
  l_block :: u32

definition launch_args :: "cuda_launch \<Rightarrow> kernel_args" where
  "launch_args l = args_of (l_mid l) (l_tail l) (l_target l) (l_start l) (l_count l) (l_npt l) (l_max l)"

definition launch_progs :: "cuda_launch \<Rightarrow> dprog list" where
  "launch_progs l = launch_threads (l_kernel l) (launch_args l) (l_grid l) (l_block l)"

definition launch_size :: "cuda_launch \<Rightarrow> nat" where
  "launch_size l = unat (l_grid l) * unat (l_block l)"

definition launch_found :: "cuda_launch \<Rightarrow> gpu_match list list" where
  "launch_found l =
    shares_found (l_mid l) (l_tail l) (l_target l) (l_start l) (unat (l_count l)) (unat (l_npt l)) (launch_size l)"

text \<open>What the host has to see to: a kernel that matches the shares, enough threads for the range, and
  sizes that stay below \<open>2 ^ 32\<close>.\<close>

definition launch_good :: "cuda_launch \<Rightarrow> bool" where
  "launch_good l \<longleftrightarrow> divides_range (l_kernel l) (l_npt l) \<and> length (l_mid l) = 8 \<and> length (l_tail l) = 4 \<and>
    unat (l_count l) \<le> launch_size l * unat (l_npt l) \<and> launch_size l * unat (l_npt l) \<le> 2 ^ 32 \<and>
    unat (l_count l) + unat (l_npt l) \<le> 2 ^ 32 \<and> 9 * unat (l_max l) \<le> 2 ^ 32"

lemma launch_progs_report:
  assumes "launch_good l"
  shows "launch_progs l = map (report_all (l_max l)) (launch_found l)"
proof -
  have kern: "l_kernel l (launch_args l) (of_nat c) (l_block l) (of_nat t) =
      nonce_report (l_mid l) (l_tail l) (l_target l) (l_max l)
        (thread_share (l_start l) (unat (l_count l)) (unat (l_npt l)) (c * unat (l_block l) + t))"
    if "c < unat (l_grid l)" "t < unat (l_block l)" for c t
  proof -
    let ?g = "c * unat (l_block l) + t"
    have "Suc c * unat (l_block l) \<le> launch_size l" using that(1) unfolding launch_size_def by (intro mult_le_mono1) simp
    then have g: "Suc ?g \<le> launch_size l" using that(2) by simp
    have "?g * unat (l_npt l) < 2 ^ 32"
    proof (cases "l_npt l = 0")
      case False
      then have "?g * unat (l_npt l) < Suc ?g * unat (l_npt l)" by (simp add: unat_gt_0)
      also have "\<dots> \<le> launch_size l * unat (l_npt l)" using g by (rule mult_le_mono1)
      also have "\<dots> \<le> 2 ^ 32" using assms by (simp add: launch_good_def)
      finally show ?thesis .
    qed simp
    moreover have "of_nat c * l_block l + of_nat t = (of_nat ?g :: u32)" by simp
    ultimately show ?thesis using assms unfolding launch_good_def divides_range_def launch_args_def by blast
  qed
  have "launch_progs l = concat (map (\<lambda>c. map (\<lambda>t. nonce_report (l_mid l) (l_tail l) (l_target l) (l_max l)
        (thread_share (l_start l) (unat (l_count l)) (unat (l_npt l)) (c * unat (l_block l) + t)))
        [0..<unat (l_block l)]) [0..<unat (l_grid l)])"
    unfolding launch_progs_def launch_threads_def
    by (intro arg_cong [where f = concat] map_cong refl kern) simp_all
  also have "\<dots> = map (\<lambda>g. nonce_report (l_mid l) (l_tail l) (l_target l) (l_max l)
        (thread_share (l_start l) (unat (l_count l)) (unat (l_npt l)) g)) [0..<launch_size l]"
    unfolding launch_size_def by (rule upt_blocks)
  finally show ?thesis by (simp add: launch_found_def shares_found_def nonce_report_def comp_def)
qed

lemma launch_found_concat:
  assumes "launch_good l"
  shows "concat (launch_found l) =
    scan_matches (tail_hash (l_mid l)) (l_tail l) (l_target l) (nonce_range (l_start l) (l_count l))"
  using assms shares_found_concat unfolding launch_good_def launch_found_def by blast

lemma launch_found_ok:
  assumes "launch_good l"
  shows "launch_ok (l_max l) (mset (concat (launch_found l)))"
  using assms shares_found_ok unfolding launch_good_def launch_found_def by blast

interpretation cuda: reporting_kernel launch_progs launch_found l_max launch_good
  by unfold_locales (simp_all add: launch_progs_report launch_found_ok)

section \<open>Properties\<close>

text \<open>A launch of one block over three nonces.\<close>

definition demo_launch :: cuda_launch where
  "demo_launch = \<lparr>l_kernel = btcrig_cuda_scan_nonce_range_dual, l_mid = replicate 8 1, l_tail = replicate 4 2,
     l_target = replicate 8 0xffffffff, l_start = 5, l_count = 3, l_npt = 2, l_max = 4, l_grid = 1, l_block = 32\<rparr>"

lemma demo_launch_good: "launch_good demo_launch"
  by (simp add: launch_good_def demo_launch_def divides_any launch_size_def)

text \<open>Whatever the order in which a CUDA device interleaves the memory accesses of its threads, a
  launch neither stores outside the result array nor runs forever: a run has at most ten accesses per
  match, and every run that has not ended can go on to its end.\<close>

theorem cuda_launch_safe:
  assumes "launch_good l" "length buf = 9 * unat (l_max l)"
    "(gpu_step ^^ n) (launch_state (launch_progs l) buf) s"
  shows "\<not> gpu_fault s \<and> n \<le> 10 * length (concat (launch_found l)) \<and> (\<exists>t. gpu_step\<^sup>*\<^sup>* s t \<and> all_done t)"
  using cuda.no_fault [OF assms(1,2)] cuda.run_length [OF assms] cuda.completes [OF assms(1,2)]
    relpowp_imp_rtranclp [OF assms(3)] by blast

theorem cuda_launch_safe_witness:
  "launch_good demo_launch \<and>
   (\<exists>t. gpu_step\<^sup>*\<^sup>* (launch_state (launch_progs demo_launch) (replicate 36 0)) t \<and> all_done t)"
  using cuda_launch_safe [OF demo_launch_good, of "replicate 36 0" 0
      "launch_state (launch_progs demo_launch) (replicate 36 0)"] demo_launch_good
  by (simp add: demo_launch_def)

text \<open>When all threads of a launch have ended, the counter is the number of matches in the range, and
  the slots hold matches of the range: all of them, each once and intact, if they fit in the array, and
  as many as fit otherwise.\<close>

theorem cuda_launch_results:
  assumes "launch_good l" "length buf = 9 * unat (l_max l)"
    "gpu_step\<^sup>*\<^sup>* (launch_state (launch_progs l) buf) s" "all_done s"
    "ms = scan_matches (tail_hash (l_mid l)) (l_tail l) (l_target l) (nonce_range (l_start l) (l_count l))"
  shows "unat (result_count (fst s)) = length ms \<and>
    (\<exists>L. mset L = mset ms \<and>
       map (read_slot (matches (fst s))) [0..<min (length ms) (unat (l_max l))] = take (unat (l_max l)) L)"
proof -
  obtain L where L: "mset L = mset (concat (launch_found l))" "unat (result_count (fst s)) = length L"
    "map (read_slot (matches (fst s))) [0..<min (length L) (unat (l_max l))] = take (unat (l_max l)) L"
    by (rule cuda.results [OF assms(1-4)])
  have m: "mset L = mset ms" using L(1) launch_found_concat [OF assms(1)] assms(5) by simp
  then have "length L = length ms" by (metis size_mset)
  with m L(2,3) show ?thesis by auto
qed

theorem cuda_launch_results_witness:
  "\<exists>s. gpu_step\<^sup>*\<^sup>* (launch_state (launch_progs demo_launch) (replicate 36 0)) s \<and> all_done s \<and>
     unat (result_count (fst s)) =
       length (scan_matches (tail_hash (replicate 8 1)) (replicate 4 2) (replicate 8 0xffffffff) (nonce_range 5 3))"
proof -
  have b: "length (replicate 36 (0 :: u32)) = 9 * unat (l_max demo_launch)" by (simp add: demo_launch_def)
  obtain s where s: "gpu_step\<^sup>*\<^sup>* (launch_state (launch_progs demo_launch) (replicate 36 0)) s" "all_done s"
    using cuda.completes [OF demo_launch_good b] by blast
  have "l_mid demo_launch = replicate 8 1" "l_tail demo_launch = replicate 4 2" "l_start demo_launch = 5"
    "l_target demo_launch = replicate 8 0xffffffff" "l_count demo_launch = 3"
    by (simp_all add: demo_launch_def)
  with s cuda_launch_results [OF demo_launch_good b s refl] show ?thesis by (intro exI [of _ s]) simp
qed

section \<open>Ranges close to the whole nonce space\<close>

text \<open>Beyond the sizes of \<open>launch_good\<close> the sum \<open>base_nonce + limit\<close> wraps and the last thread keeps its
  full share: with two nonces per thread and a range of \<open>2 ^ 32 - 1\<close> nonces it reports the one nonce
  that is not part of the range.\<close>

lemma cuda_range_overrun:
  assumes "length mid = 8" "length tail = 4"
  shows "btcrig_cuda_scan_nonce_range (args_of mid tail target start 0xffffffff 2 mx) 0x7fffff 256 255 =
      nonce_report mid tail target mx [start + 0xfffffffe, start + 0xffffffff]"
    and "start + 0xffffffff \<notin> set (nonce_range start 0xffffffff)"
proof -
  show "btcrig_cuda_scan_nonce_range (args_of mid tail target start 0xffffffff 2 mx) 0x7fffff 256 255 =
      nonce_report mid tail target mx [start + 0xfffffffe, start + 0xffffffff]"
    using items_report(1) [OF assms, of 2 target start "0xffffffff" 2 mx "start + 0xfffffffe"]
    by (simp add: btcrig_cuda_scan_nonce_range_def literal_arrays) (simp only: add.commute)
  have "of_nat i \<noteq> (0xffffffff :: u32)" if "i < 0xffffffff" for i
  proof
    assume "of_nat i = (0xffffffff :: u32)"
    then have "unat (of_nat i :: u32) = unat (0xffffffff :: u32)" by simp
    then show False using that by (simp add: unat_of_nat take_bit_nat_eq_self)
  qed
  then show "start + 0xffffffff \<notin> set (nonce_range start 0xffffffff)" by (auto simp: nonce_range_def)
qed

end
