(* ===== verification/Gpu_Self_Test.thy ===== *)
theory Gpu_Self_Test
  imports Gpu_Device
begin

text \<open>
  The self test of the GPU backends, written twice with the same text in \<open>src/src/cuda_miner.c\<close> and
  \<open>src/src/opencl_miner.c\<close>: the test header, the callback that checks each report against the CPU hash,
  and the verdict. The device scans sixteen nonces with a target every hash meets.

  Main result: whatever a device reports, the verdict is good exactly when every test nonce was
  reported once, with the right hash, and nothing else was.
\<close>

definition store_le32 :: "bytes \<Rightarrow> nat \<Rightarrow> u32 \<Rightarrow> bytes" where
  "store_le32 b p v =
    b[p := ucast v, p + 1 := ucast (drop_bit 8 v), p + 2 := ucast (drop_bit 16 v), p + 3 := ucast (drop_bit 24 v)]"

definition make_self_test_header :: bytes where
  "make_self_test_header =
    (memset (replicate 80 0) 0 0 80)[0 := 0x01, 68 := 0xff, 69 := 0xff, 70 := 0x00, 71 := 0x1d]"

record self_test_context_t =
  st_header :: bytes
  st_start_nonce :: u32
  st_nonce_count :: u32
  st_seen_mask :: u32
  st_failed :: bool

definition self_test_match ::
  "'ctx openssl \<Rightarrow> self_test_context_t \<Rightarrow> u32 \<Rightarrow> u32 list \<Rightarrow> self_test_context_t" where
  "self_test_match ssl c nonce hash_words =
    (if nonce < st_start_nonce c \<or> nonce \<ge> st_start_nonce c + st_nonce_count c then c\<lparr>st_failed := True\<rparr>
     else
     let offset = nonce - st_start_nonce c;
         bit = push_bit (unat offset) 1
     in if st_seen_mask c AND bit \<noteq> 0 then c\<lparr>st_failed := True\<rparr>
     else
     let c = c\<lparr>st_seen_mask := st_seen_mask c OR bit\<rparr>;
         c = c\<lparr>st_header := store_le32 (st_header c) 76 nonce\<rparr>;
         cpu_hash = sha256d_80 ssl (st_header c);
         device_hash = sha256d_words_to_hash hash_words
     in if cpu_hash \<noteq> device_hash then c\<lparr>st_failed := True\<rparr> else c)"

definition self_test_start :: u32 where "self_test_start = 0x13579b00"

definition self_test_context :: self_test_context_t where
  "self_test_context =
    \<lparr>st_header = make_self_test_header, st_start_nonce = self_test_start, st_nonce_count = 16,
     st_seen_mask = 0, st_failed = False\<rparr>"

text \<open>The words the test passes to the scan.\<close>

definition self_test_tail :: "u32 list" where
  "self_test_tail = map (\<lambda>i. load_be32 make_self_test_header (64 + i * 4)) [0..<4]"

definition self_test_target :: "u32 list" where
  "self_test_target = map (\<lambda>i. 0xffffffff) [0..<8]"

definition self_test_passed :: "self_test_context_t \<Rightarrow> bool" where
  "self_test_passed c \<longleftrightarrow> \<not> (st_failed c \<or> st_seen_mask c \<noteq> push_bit 16 1 - 1)"

section \<open>The callback\<close>

text \<open>A report the test accepts.\<close>

definition report_ok :: "'ctx openssl \<Rightarrow> gpu_match \<Rightarrow> bool" where
  "report_ok ssl r \<longleftrightarrow>
    sha256d_words_to_hash (snd r) = sha256d_80 ssl (take 76 make_self_test_header @ le32_bytes (fst r))"

definition in_test_range :: "u32 \<Rightarrow> bool" where
  "in_test_range nonce \<longleftrightarrow> unat (nonce - self_test_start) < 16"

lemma length_self_test_header [simp]: "length make_self_test_header = 80"
  using memset_app [of "[]" 0 80 "replicate 80 (0 :: u8)" 0] by (simp add: make_self_test_header_def)

lemma in_test_range_iff:
  "in_test_range nonce \<longleftrightarrow> \<not> (nonce < self_test_start \<or> nonce \<ge> self_test_start + 16)"
  by (auto simp: in_test_range_def self_test_start_def word_less_nat_alt word_le_nat_alt unat_sub_if_size word_size)

lemma in_test_range_set: "in_test_range nonce \<longleftrightarrow> nonce \<in> set (nonce_range self_test_start 16)"
proof
  assume "in_test_range nonce"
  then have "nonce = self_test_start + of_nat (unat (nonce - self_test_start))" "unat (nonce - self_test_start) < 16"
    by (simp_all add: in_test_range_def)
  then show "nonce \<in> set (nonce_range self_test_start 16)" by (force simp: nonce_range_def)
next
  assume "nonce \<in> set (nonce_range self_test_start 16)"
  then show "in_test_range nonce" by (auto simp: nonce_range_def in_test_range_def unat_of_nat take_bit_nat_eq_self)
qed

lemma store_le32_76:
  assumes "length b = 80"
  shows "store_le32 b 76 v = take 76 b @ le32_bytes v"
proof -
  have "length (drop 76 b) = 4" using assms by simp
  then obtain w x y z where "drop 76 b = [w, x, y, z]" unfolding length_eq_4_iff by blast
  then have b: "b = take 76 b @ [w, x, y, z]" by (metis append_take_drop_id)
  have "length (take 76 b) = 76" using assms by simp
  then show ?thesis by (subst b) (simp add: store_le32_def le32_bytes_def list_update_append)
qed

text \<open>The state of the test after a list of reports.\<close>

definition self_test_reports :: "'ctx openssl \<Rightarrow> gpu_match list \<Rightarrow> self_test_context_t" where
  "self_test_reports ssl ms = foldl (\<lambda>c (nonce, h). self_test_match ssl c nonce h) self_test_context ms"

definition self_test_inv :: "'ctx openssl \<Rightarrow> gpu_match list \<Rightarrow> self_test_context_t \<Rightarrow> bool" where
  "self_test_inv ssl ms c \<longleftrightarrow>
    length (st_header c) = 80 \<and> take 76 (st_header c) = take 76 make_self_test_header \<and>
    st_start_nonce c = self_test_start \<and> st_nonce_count c = 16 \<and>
    (\<not> st_failed c \<longleftrightarrow> distinct (map fst ms) \<and> (\<forall>r\<in>set ms. in_test_range (fst r) \<and> report_ok ssl r)) \<and>
    (\<not> st_failed c \<longrightarrow> (\<forall>k. bit (st_seen_mask c) k \<longleftrightarrow> k < 16 \<and> self_test_start + of_nat k \<in> fst ` set ms))"

lemma seen_bit: "x AND push_bit n 1 \<noteq> (0 :: u32) \<longleftrightarrow> bit x n"
  by (simp add: push_bit_of_1 and_exp_eq_0_iff_not_bit)

text \<open>The three outcomes of a call.\<close>

lemma self_test_match_cases:
  assumes "st_start_nonce c = self_test_start" "st_nonce_count c = 16"
  shows "\<not> in_test_range nonce \<Longrightarrow> self_test_match ssl c nonce h = c\<lparr>st_failed := True\<rparr>"
    and "in_test_range nonce \<Longrightarrow> bit (st_seen_mask c) (unat (nonce - self_test_start)) \<Longrightarrow>
      self_test_match ssl c nonce h = c\<lparr>st_failed := True\<rparr>"
    and "in_test_range nonce \<Longrightarrow> \<not> bit (st_seen_mask c) (unat (nonce - self_test_start)) \<Longrightarrow>
      self_test_match ssl c nonce h =
      c\<lparr>st_header := store_le32 (st_header c) 76 nonce,
        st_seen_mask := st_seen_mask c OR push_bit (unat (nonce - self_test_start)) 1,
        st_failed := (st_failed c \<or>
          sha256d_80 ssl (store_le32 (st_header c) 76 nonce) \<noteq> sha256d_words_to_hash h)\<rparr>"
  unfolding in_test_range_iff seen_bit [symmetric]
  by (simp_all add: self_test_match_def assms Let_def)

lemma test_offset_unique:
  assumes "j < 16" "in_test_range nonce"
  shows "nonce = self_test_start + of_nat j \<longleftrightarrow> j = unat (nonce - self_test_start)"
proof
  assume "nonce = self_test_start + of_nat j"
  then have "nonce - self_test_start = of_nat j" by simp
  then show "j = unat (nonce - self_test_start)" using assms(1) by (simp add: unat_of_nat take_bit_nat_eq_self)
qed simp

lemma self_test_inv_fail:
  assumes "self_test_inv ssl ms c"
    "\<not> in_test_range nonce \<or> \<not> report_ok ssl (nonce, h) \<or> nonce \<in> fst ` set ms \<or> st_failed c"
    "length hdr = 80" "take 76 hdr = take 76 make_self_test_header"
  shows "self_test_inv ssl (ms @ [(nonce, h)]) (c\<lparr>st_header := hdr, st_seen_mask := seen, st_failed := True\<rparr>)"
proof -
  have "\<not> (distinct (map fst (ms @ [(nonce, h)])) \<and>
      (\<forall>r\<in>set (ms @ [(nonce, h)]). in_test_range (fst r) \<and> report_ok ssl r))"
    using assms(1,2) unfolding self_test_inv_def by (cases "st_failed c") auto
  then show ?thesis using assms(1,3,4) unfolding self_test_inv_def by simp
qed

lemma self_test_step:
  assumes "self_test_inv ssl ms c"
  shows "self_test_inv ssl (ms @ [(nonce, h)]) (self_test_match ssl c nonce h)"
proof -
  let ?k = "unat (nonce - self_test_start)"
  have c: "st_start_nonce c = self_test_start" "st_nonce_count c = 16" "length (st_header c) = 80"
    "take 76 (st_header c) = take 76 make_self_test_header"
    using assms by (simp_all add: self_test_inv_def)
  have nonce: "self_test_start + of_nat ?k = nonce" by simp
  have hdr: "store_le32 (st_header c) 76 nonce = take 76 make_self_test_header @ le32_bytes nonce"
    using c store_le32_76 [of "st_header c" nonce] by simp
  have same: "c\<lparr>st_failed := True\<rparr> = c\<lparr>st_header := st_header c, st_seen_mask := st_seen_mask c, st_failed := True\<rparr>"
    by simp
  show ?thesis
  proof (cases "in_test_range nonce")
    case False
    then show ?thesis
      unfolding self_test_match_cases(1) [OF c(1,2) False] same by (intro self_test_inv_fail [OF assms]) (simp_all add: c)
  next
    case in_range: True
    show ?thesis
    proof (cases "bit (st_seen_mask c) ?k")
      case True
      then have "nonce \<in> fst ` set ms \<or> st_failed c" using assms nonce unfolding self_test_inv_def by metis
      then show ?thesis unfolding self_test_match_cases(2) [OF c(1,2) in_range True] same
        by (intro self_test_inv_fail [OF assms]) (auto simp: c)
    next
      case new: False
      note eq = self_test_match_cases(3) [OF c(1,2) in_range new, of ssl h]
      show ?thesis
      proof (cases "st_failed c \<or> \<not> report_ok ssl (nonce, h)")
        case True
        then have "(st_failed c \<or> sha256d_80 ssl (store_le32 (st_header c) 76 nonce) \<noteq> sha256d_words_to_hash h) = True"
          by (auto simp: hdr report_ok_def)
        then show ?thesis unfolding eq
          by (simp only:, intro self_test_inv_fail [OF assms]) (use True in \<open>auto simp: hdr\<close>)
      next
        case False
        have k: "?k < 16" using in_range by (simp add: in_test_range_def)
        have seen: "bit (st_seen_mask c) j \<longleftrightarrow> j < 16 \<and> self_test_start + of_nat j \<in> fst ` set ms" for j
          using assms False by (simp add: self_test_inv_def)
        then have fresh: "nonce \<notin> fst ` set ms" using new k nonce by simp
        have bits: "bit (st_seen_mask c OR push_bit ?k 1) j \<longleftrightarrow>
            j < 16 \<and> self_test_start + of_nat j \<in> insert nonce (fst ` set ms)" for j
          using k test_offset_unique [of j nonce] in_range by (auto simp: bit_simps seen)
        have "sha256d_80 ssl (store_le32 (st_header c) 76 nonce) = sha256d_words_to_hash h"
          using False by (simp add: hdr report_ok_def)
        then show ?thesis using assms False fresh bits hdr in_range
          unfolding eq by (simp add: self_test_inv_def del: bit_or_iff)
      qed
    qed
  qed
qed

lemma self_test_reports_inv: "self_test_inv ssl ms (self_test_reports ssl ms)"
proof (induction ms rule: rev_induct)
  case Nil
  show ?case by (simp add: self_test_inv_def self_test_reports_def self_test_context_def)
next
  case (snoc r ms)
  then show ?case using self_test_step [of ssl ms "self_test_reports ssl ms" "fst r" "snd r"]
    by (simp add: self_test_reports_def case_prod_beta)
qed

lemma distinct_nonce_range: "distinct (nonce_range start n)"
proof -
  have "inj_on (\<lambda>i. start + of_nat i) {0..<unat n}"
  proof (rule inj_onI)
    fix i j assume ij: "i \<in> {0..<unat n}" "j \<in> {0..<unat n}" "start + of_nat i = start + of_nat j"
    then have "unat (of_nat i :: u32) = unat (of_nat j :: u32)" by simp
    then show "i = j" using ij unat_u32_less [of n] by (simp add: unat_of_nat take_bit_nat_eq_self)
  qed
  then show ?thesis by (simp add: nonce_range_def distinct_map)
qed

lemma self_test_mask: "seen = push_bit 16 1 - (1 :: u32) \<longleftrightarrow> (\<forall>k. bit seen k \<longleftrightarrow> k < 16)"
proof -
  have m: "push_bit 16 1 - 1 = (mask 16 :: u32)" by (simp add: mask_eq_exp_minus_1 push_bit_of_1)
  have "bit (mask 16 :: u32) k \<longleftrightarrow> k < 16" for k by (auto simp: bit_simps)
  then show ?thesis unfolding m by (metis bit_eqI)
qed

lemma self_test_verdict_iff:
  "self_test_passed (self_test_reports ssl ms) \<longleftrightarrow>
   mset (map fst ms) = mset (nonce_range self_test_start 16) \<and> (\<forall>r\<in>set ms. report_ok ssl r)"
proof -
  let ?c = "self_test_reports ssl ms"
  note inv = self_test_reports_inv [of ssl ms, unfolded self_test_inv_def]
  have range: "set (nonce_range self_test_start 16) = (\<lambda>k. self_test_start + of_nat k) ` {..<16}"
    by (auto simp: nonce_range_def)
  have d: "distinct (nonce_range self_test_start 16)" by (rule distinct_nonce_range)
  have key: "distinct xs \<and> set xs = set (nonce_range self_test_start 16) \<longleftrightarrow>
      mset xs = mset (nonce_range self_test_start 16)" for xs
    using set_eq_iff_mset_eq_distinct [OF _ d, of xs] mset_eq_imp_distinct_iff [of xs] mset_eq_setD [of xs] d by blast
  have "self_test_passed ?c \<longleftrightarrow> \<not> st_failed ?c \<and> (\<forall>k<16. self_test_start + of_nat k \<in> fst ` set ms)"
    unfolding self_test_passed_def self_test_mask using inv by blast
  also have "\<dots> \<longleftrightarrow> \<not> st_failed ?c \<and> set (nonce_range self_test_start 16) \<subseteq> set (map fst ms)"
    by (auto simp: range)
  also have "\<dots> \<longleftrightarrow> distinct (map fst ms) \<and> (\<forall>r\<in>set ms. report_ok ssl r) \<and>
      set (map fst ms) = set (nonce_range self_test_start 16)"
    using inv by (auto simp: in_test_range_set)
  also have "\<dots> \<longleftrightarrow> mset (map fst ms) = mset (nonce_range self_test_start 16) \<and> (\<forall>r\<in>set ms. report_ok ssl r)"
    unfolding key [symmetric] by blast
  finally show ?thesis .
qed

section \<open>A correct device passes\<close>

lemma self_test_words:
  "length self_test_tail = 4" "take 3 self_test_tail = be32_words (drop 64 (take 76 make_self_test_header))"
  "length self_test_target = 8" "le_words_val self_test_target = 2 ^ 256 - 1"
proof -
  have l: "length (drop 64 (take 76 make_self_test_header)) = 4 * 3" by simp
  show "length self_test_tail = 4" "length self_test_target = 8"
    by (simp_all add: self_test_tail_def self_test_target_def)
  have "take 3 self_test_tail = map (\<lambda>i. load_be32 (drop 64 (take 76 make_self_test_header)) (i * 4)) [0..<3]"
    by (auto simp: self_test_tail_def take_map load_be32_def)
  then show "take 3 self_test_tail = be32_words (drop 64 (take 76 make_self_test_header))"
    by (simp only: load_be32_block [OF l])
  show "le_words_val self_test_target = 2 ^ 256 - 1"
    by (simp add: self_test_target_def literal_arrays)
qed

lemma length_scan_matches: "length (scan_matches hash tail target ns) \<le> length ns"
  unfolding scan_matches_def by (rule le_trans [OF length_filter_le]) simp

lemma length_nonce_range [simp]: "length (nonce_range start n) = unat n"
  by (simp add: nonce_range_def)

text \<open>The kernels hash with the mid-state words alone, as the portable path does.\<close>

lemma scan_matches_fast_c:
  assumes "prepared_midstate ssl st first64" "length tail = 4"
  shows "scan_matches (tail_hash (fast_state st)) tail target ns = scan_matches (sha256d_80_midstate_hash_fast_c st) tail target ns"
proof -
  have "length (fast_state st) = 8"
    using assms(1) by (simp add: prepared_midstate_def midstate_prepare_fast_state)
  then show ?thesis using assms(2) by (simp add: scan_matches_def fast_c_tail_hash)
qed

lemma self_test_good_reports:
  assumes "openssl_contract ssl" "st = sha256d_80_midstate_prepare ssl (take 64 make_self_test_header)"
    "mset ms = mset (scan_matches (tail_hash (fast_state st)) self_test_tail self_test_target (nonce_range self_test_start 16))"
  shows "self_test_passed (self_test_reports ssl ms)"
  unfolding self_test_verdict_iff
proof
  let ?h76 = "take 76 make_self_test_header"
  let ?ns = "nonce_range self_test_start 16"
  have p: "prepared_midstate ssl st (take 64 ?h76)" by (simp add: prepared_midstate_def assms(2))
  have h: "length ?h76 = 76" by simp
  have ms: "mset ms = mset (scan_matches (sha256d_80_midstate_hash_fast_c st) self_test_tail self_test_target ?ns)"
    using assms(3) by (simp only: scan_matches_fast_c [OF p self_test_words(1)])
  have "le_bytes_val (sha256d b) \<le> le_words_val self_test_target" for b
  proof -
    have "le_bytes_val bs < 2 ^ (8 * length bs)" for bs :: bytes
    proof (induction bs)
      case (Cons x bs)
      have "unat x < 2 ^ 8" using unsigned_less [of x] by simp
      moreover have "2 ^ 8 * (le_bytes_val bs + 1) \<le> 2 ^ 8 * 2 ^ (8 * length bs)" using Cons by (intro mult_le_mono2) simp
      ultimately show ?case by (simp add: power_add)
    qed simp
    from this [of "sha256d b"] show ?thesis by (simp add: sha256d_def self_test_words(4))
  qed
  then have "map fst (scan_matches (sha256d_80_midstate_hash_fast_c st) self_test_tail self_test_target ?ns) = ?ns"
    by (simp add: fast_c.matched_nonces [OF p h self_test_words(1-3)])
  then show "mset (map fst ms) = mset ?ns" using ms by (metis mset_map)
  show "\<forall>r\<in>set ms. report_ok ssl r"
  proof
    fix r assume "r \<in> set ms"
    then have "r \<in> set (scan_matches (sha256d_80_midstate_hash_fast_c st) self_test_tail self_test_target ?ns)"
      using ms by (metis mset_eq_setD)
    then obtain nonce where r: "r = (nonce, sha256d_80_midstate_hash_fast_c st (self_test_tail[3 := bswap32 nonce]))"
      by (auto simp: scan_matches_def)
    have "length (snd r) = 8"
      using fast_c.hash_tail_spec [OF p, of "self_test_tail[3 := bswap32 nonce]"] self_test_words(1) by (simp add: r)
    then have "sha256d_words_to_hash (snd r) = sha256d (?h76 @ le32_bytes nonce)"
      using fast_c.hash_nonce [OF p h self_test_words(1,2), of nonce] by (simp add: words_to_hash_bytes r)
    then show "report_ok ssl r"
      using assms(1) by (simp add: report_ok_def r sha256d_80_def sha256d_def openssl_contract_def)
  qed
qed

end
