(* ===== verification/Json.thy ===== *)
theory Json
  imports Prelude
begin

text \<open>
  JSON documents, as the library jansson hands them out after parsing: a value or nothing (a null pointer) and
  the documented behaviour of its accessors. Parsing and printing are parameters of the definitions that need
  them. Integers are 64-bit; a cast to \<open>int\<close> keeps the low 32 bits (\<open>c_int\<close>). Then the small helpers on top of it that
  the client, the application and the proxy share, and the copying of C strings into fixed buffers.
\<close>

section \<open>JSON values\<close>

datatype json_t =
    JNull
  | JBool bool
  | JInt int
  | JReal real
  | JStr string
  | JArr "json_t list"
  | JObj "(string \<times> json_t) list"

fun json_object_get :: "json_t \<Rightarrow> string \<Rightarrow> json_t option" where
  "json_object_get (JObj kvs) k = map_of kvs k"
| "json_object_get _ k = None"

fun json_array_get :: "json_t option \<Rightarrow> nat \<Rightarrow> json_t option" where
  "json_array_get (Some (JArr xs)) i = (if i < length xs then Some (xs ! i) else None)"
| "json_array_get _ i = None"

fun json_is_array :: "json_t option \<Rightarrow> bool" where
  "json_is_array (Some (JArr xs)) = True"
| "json_is_array _ = False"

fun json_array_size :: "json_t option \<Rightarrow> nat" where
  "json_array_size (Some (JArr xs)) = length xs"
| "json_array_size _ = 0"

fun json_string_value :: "json_t option \<Rightarrow> string option" where
  "json_string_value (Some (JStr s)) = Some s"
| "json_string_value _ = None"

fun json_integer_value :: "json_t option \<Rightarrow> int option" where
  "json_integer_value (Some (JInt i)) = Some i"
| "json_integer_value _ = None"

fun json_number_value :: "(real \<Rightarrow> real) \<Rightarrow> json_t option \<Rightarrow> real option" where
  "json_number_value fl (Some (JInt i)) = Some (fl (of_int i))"
| "json_number_value fl (Some (JReal r)) = Some r"
| "json_number_value fl _ = None"

definition json_is_true :: "json_t option \<Rightarrow> bool" where
  "json_is_true v \<longleftrightarrow> v = Some (JBool True)"

fun json_is_object :: "json_t option \<Rightarrow> bool" where
  "json_is_object (Some (JObj kvs)) = True"
| "json_is_object _ = False"

text \<open>Member of a value that is known to be an object.\<close>

definition json_member :: "json_t option \<Rightarrow> string \<Rightarrow> json_t option" where
  "json_member v k = (case v of Some obj \<Rightarrow> json_object_get obj k | None \<Rightarrow> None)"

section \<open>Helpers on top of the library\<close>

definition json_string_or_empty :: "json_t option \<Rightarrow> string" where
  "json_string_or_empty v = (case json_string_value v of Some s \<Rightarrow> s | None \<Rightarrow> [])"

definition c_int :: "int \<Rightarrow> int" where
  "c_int i = signed_take_bit 31 i"

text \<open>\<open>snprintf\<close> with format \<open>%s\<close> into a buffer of the given size.\<close>

definition snprintf_s :: "nat \<Rightarrow> string \<Rightarrow> string" where
  "snprintf_s buf_size s = take (buf_size - 1) s"

text \<open>The readers with a fallback of \<open>stratum_main.c\<close>; \<open>proxy_main.c\<close> has the first of them too.\<close>

definition json_bool_value :: "json_t option \<Rightarrow> bool \<Rightarrow> bool" where
  "json_bool_value v fallback = (case v of Some (JBool b) \<Rightarrow> b | _ \<Rightarrow> fallback)"

definition json_int_value :: "json_t option \<Rightarrow> int \<Rightarrow> int" where
  "json_int_value v fallback = (case json_integer_value v of Some i \<Rightarrow> c_int i | None \<Rightarrow> fallback)"

definition json_u32_value :: "json_t option \<Rightarrow> u32 \<Rightarrow> u32" where
  "json_u32_value v fallback =
    (case json_integer_value v of
       None \<Rightarrow> fallback
     | Some parsed \<Rightarrow> if parsed < 0 \<or> parsed > 0xffffffff then fallback else word_of_int parsed)"

definition json_number_value_or :: "(real \<Rightarrow> real) \<Rightarrow> json_t option \<Rightarrow> real \<Rightarrow> real" where
  "json_number_value_or fl v fallback = (case json_number_value fl v of Some d \<Rightarrow> d | None \<Rightarrow> fallback)"

text \<open>\<open>copy_string\<close> and the proxy's \<open>copy_text\<close>: a C string is cut to what the buffer holds; a null pointer gives
  the empty string.\<close>

definition copy_string :: "nat \<Rightarrow> string option \<Rightarrow> string" where
  "copy_string dst_size src = (case src of None \<Rightarrow> [] | Some s \<Rightarrow> snprintf_s dst_size s)"

lemma length_snprintf [simp]: "0 < n \<Longrightarrow> length (snprintf_s n s) < n"
  by (simp add: snprintf_s_def)

lemma length_copy_string: "0 < n \<Longrightarrow> length (copy_string n s) < n"
  by (cases s) (simp_all add: copy_string_def)

lemma snprintf_s_fits: "length s < n \<Longrightarrow> snprintf_s n s = s"
  by (simp add: snprintf_s_def)

lemma snprintf_s_Nil [simp]: "snprintf_s n [] = []"
  by (simp add: snprintf_s_def)

lemma snprintf_s_eq_Nil: "1 < n \<Longrightarrow> snprintf_s n s = [] \<longleftrightarrow> s = []"
  by (auto simp: snprintf_s_def)

lemma c_int_id: "- (2 ^ 31) \<le> i \<Longrightarrow> i < 2 ^ 31 \<Longrightarrow> c_int i = i"
  by (simp add: c_int_def signed_take_bit_int_eq_self)

end
