(* ===== verification/Options.thy ===== *)
theory Options
  imports Gpu_Config Json
begin

text \<open>
  The texts of the command line and of the configuration file: comparison without regard to case, the names of the
  GPU backends and kernels, and numeric options. From \<open>src/src/stratum_main.c\<close>, with the functions of the C library it
  calls there (\<open>strtol\<close>, \<open>strtoul\<close> in base 10, with \<open>long\<close> of 64 bits, in the C locale). \<open>strtod\<close> is a parameter.
\<close>

section \<open>Names\<close>

definition ascii_tolower_char :: "char \<Rightarrow> char" where
  "ascii_tolower_char ch = (if ch \<ge> CHR ''A'' \<and> ch \<le> CHR ''Z'' then char_of (of_char ch - 65 + 97 :: nat) else ch)"

fun string_equals_ci :: "string \<Rightarrow> string \<Rightarrow> bool" where
  "string_equals_ci (a # as) (b # bs) =
    (if ascii_tolower_char a \<noteq> ascii_tolower_char b then False else string_equals_ci as bs)"
| "string_equals_ci as bs = (as = [] \<and> bs = [])"

definition MINER_OPENCL_KERNEL_COMPACT :: int where "MINER_OPENCL_KERNEL_COMPACT = 1"
definition MINER_OPENCL_KERNEL_UNROLLED :: int where "MINER_OPENCL_KERNEL_UNROLLED = 2"
definition MINER_OPENCL_KERNEL_FIXED_NPI1 :: int where "MINER_OPENCL_KERNEL_FIXED_NPI1 = 3"
definition MINER_OPENCL_KERNEL_FIXED_NPI2 :: int where "MINER_OPENCL_KERNEL_FIXED_NPI2 = 4"
definition MINER_OPENCL_KERNEL_FIXED_NPI4 :: int where "MINER_OPENCL_KERNEL_FIXED_NPI4 = 5"
definition MINER_OPENCL_BACKEND_COMPAT10 :: int where "MINER_OPENCL_BACKEND_COMPAT10 = 1"
definition MINER_CUDA_KERNEL_DUAL :: int where "MINER_CUDA_KERNEL_DUAL = 1"
definition MINER_CUDA_KERNEL_FIXED_NPT1 :: int where "MINER_CUDA_KERNEL_FIXED_NPT1 = 2"
definition MINER_CUDA_KERNEL_FIXED_NPT2 :: int where "MINER_CUDA_KERNEL_FIXED_NPT2 = 3"
definition MINER_CUDA_KERNEL_FIXED_NPT4 :: int where "MINER_CUDA_KERNEL_FIXED_NPT4 = 4"
definition MINER_CUDA_KERNEL_LOP3 :: int where "MINER_CUDA_KERNEL_LOP3 = 5"
definition MINER_CUDA_KERNEL_FIXED_LOP3_NPT1 :: int where "MINER_CUDA_KERNEL_FIXED_LOP3_NPT1 = 6"
definition MINER_CUDA_KERNEL_FIXED_LOP3_NPT2 :: int where "MINER_CUDA_KERNEL_FIXED_LOP3_NPT2 = 7"
definition MINER_CUDA_KERNEL_FIXED_LOP3_NPT4 :: int where "MINER_CUDA_KERNEL_FIXED_LOP3_NPT4 = 8"

lemmas variant_constants = gpu_constants
  MINER_OPENCL_KERNEL_COMPACT_def MINER_OPENCL_KERNEL_UNROLLED_def MINER_OPENCL_KERNEL_FIXED_NPI1_def
  MINER_OPENCL_KERNEL_FIXED_NPI2_def MINER_OPENCL_KERNEL_FIXED_NPI4_def MINER_OPENCL_BACKEND_COMPAT10_def
  MINER_CUDA_KERNEL_DUAL_def MINER_CUDA_KERNEL_FIXED_NPT1_def MINER_CUDA_KERNEL_FIXED_NPT2_def
  MINER_CUDA_KERNEL_FIXED_NPT4_def MINER_CUDA_KERNEL_LOP3_def MINER_CUDA_KERNEL_FIXED_LOP3_NPT1_def
  MINER_CUDA_KERNEL_FIXED_LOP3_NPT2_def MINER_CUDA_KERNEL_FIXED_LOP3_NPT4_def

definition opencl_kernel_variant_name :: "int \<Rightarrow> string" where
  "opencl_kernel_variant_name variant =
    (if variant = MINER_OPENCL_KERNEL_COMPACT then ''compact''
     else if variant = MINER_OPENCL_KERNEL_UNROLLED then ''unrolled''
     else if variant = MINER_OPENCL_KERNEL_FIXED_NPI1 then ''fixed-npi1''
     else if variant = MINER_OPENCL_KERNEL_FIXED_NPI2 then ''fixed-npi2''
     else if variant = MINER_OPENCL_KERNEL_FIXED_NPI4 then ''fixed-npi4''
     else if variant = MINER_OPENCL_KERNEL_REGISTER_HEAVY then ''register-heavy''
     else ''auto'')"

definition opencl_backend_variant_name :: "int \<Rightarrow> string" where
  "opencl_backend_variant_name variant =
    (if variant = MINER_OPENCL_BACKEND_COMPAT10 then ''compat10''
     else if variant = MINER_OPENCL_BACKEND_MODERN then ''modern''
     else ''auto'')"

definition opencl_kernel_fixed_npi :: "int \<Rightarrow> u32" where
  "opencl_kernel_fixed_npi variant =
    (if variant = MINER_OPENCL_KERNEL_FIXED_NPI1 then 1
     else if variant = MINER_OPENCL_KERNEL_FIXED_NPI2 then 2
     else if variant = MINER_OPENCL_KERNEL_FIXED_NPI4 then 4
     else 0)"

definition opencl_kernel_forced_npi :: "int \<Rightarrow> u32" where
  "opencl_kernel_forced_npi variant =
    (let fixed_npi = opencl_kernel_fixed_npi variant
     in if fixed_npi \<noteq> 0 then fixed_npi
        else if variant = MINER_OPENCL_KERNEL_REGISTER_HEAVY then 2
        else 0)"

definition opencl_kernel_modern_only :: "int \<Rightarrow> bool" where
  "opencl_kernel_modern_only variant \<longleftrightarrow>
    opencl_kernel_fixed_npi variant \<noteq> 0 \<or> variant = MINER_OPENCL_KERNEL_REGISTER_HEAVY"

definition opencl_kernel_backend_compatible :: "int \<Rightarrow> int \<Rightarrow> bool" where
  "opencl_kernel_backend_compatible bk kn =
    (if opencl_kernel_modern_only kn then bk = MINER_OPENCL_BACKEND_MODERN else True)"

text \<open>A name that equals one of several spellings.\<close>

definition equals_any :: "string \<Rightarrow> string list \<Rightarrow> bool" where
  "equals_any text names \<longleftrightarrow> list_ex (string_equals_ci text) names"

definition parse_opencl_kernel_variant :: "string option \<Rightarrow> int \<Rightarrow> int" where
  "parse_opencl_kernel_variant val fallback =
    (case val of
       None \<Rightarrow> MINER_OPENCL_KERNEL_AUTO
     | Some text \<Rightarrow>
        if text = [] \<or> string_equals_ci text ''auto'' then MINER_OPENCL_KERNEL_AUTO
        else if string_equals_ci text ''compact'' then MINER_OPENCL_KERNEL_COMPACT
        else if string_equals_ci text ''unrolled'' then MINER_OPENCL_KERNEL_UNROLLED
        else if equals_any text [''fixed-npi1'', ''fixed_npi1'', ''modern-fixed-npi1'', ''modern_fixed_npi1'']
          then MINER_OPENCL_KERNEL_FIXED_NPI1
        else if equals_any text [''fixed-npi2'', ''fixed_npi2'', ''modern-fixed-npi2'', ''modern_fixed_npi2'']
          then MINER_OPENCL_KERNEL_FIXED_NPI2
        else if equals_any text [''fixed-npi4'', ''fixed_npi4'', ''modern-fixed-npi4'', ''modern_fixed_npi4'']
          then MINER_OPENCL_KERNEL_FIXED_NPI4
        else if equals_any text
            [''register-heavy'', ''register_heavy'', ''modern-register-heavy'', ''modern_register_heavy'']
          then MINER_OPENCL_KERNEL_REGISTER_HEAVY
        else fallback)"

definition parse_opencl_backend_variant :: "string option \<Rightarrow> int \<Rightarrow> int" where
  "parse_opencl_backend_variant val fallback =
    (case val of
       None \<Rightarrow> MINER_OPENCL_BACKEND_AUTO
     | Some text \<Rightarrow>
        if text = [] \<or> string_equals_ci text ''auto'' then MINER_OPENCL_BACKEND_AUTO
        else if equals_any text [''compat10'', ''compat''] then MINER_OPENCL_BACKEND_COMPAT10
        else if string_equals_ci text ''modern'' then MINER_OPENCL_BACKEND_MODERN
        else fallback)"

definition parse_cuda_kernel_variant :: "string option \<Rightarrow> int \<Rightarrow> int" where
  "parse_cuda_kernel_variant val fallback =
    (case val of
       None \<Rightarrow> MINER_CUDA_KERNEL_STANDARD
     | Some text \<Rightarrow>
        if text = [] \<or> string_equals_ci text ''standard'' then MINER_CUDA_KERNEL_STANDARD
        else if equals_any text [''dual'', ''dual-nonce'', ''dual_nonce''] then MINER_CUDA_KERNEL_DUAL
        else if equals_any text [''fixed-npt1'', ''fixed_npt1''] then MINER_CUDA_KERNEL_FIXED_NPT1
        else if equals_any text [''fixed-npt2'', ''fixed_npt2''] then MINER_CUDA_KERNEL_FIXED_NPT2
        else if equals_any text [''fixed-npt4'', ''fixed_npt4''] then MINER_CUDA_KERNEL_FIXED_NPT4
        else if equals_any text [''lop3'', ''standard-lop3'', ''standard_lop3''] then MINER_CUDA_KERNEL_LOP3
        else if equals_any text [''fixed-lop3-npt1'', ''fixed_lop3_npt1'', ''lop3-npt1'', ''lop3_npt1'']
          then MINER_CUDA_KERNEL_FIXED_LOP3_NPT1
        else if equals_any text [''fixed-lop3-npt2'', ''fixed_lop3_npt2'', ''lop3-npt2'', ''lop3_npt2'']
          then MINER_CUDA_KERNEL_FIXED_LOP3_NPT2
        else if equals_any text [''fixed-lop3-npt4'', ''fixed_lop3_npt4'', ''lop3-npt4'', ''lop3_npt4'']
          then MINER_CUDA_KERNEL_FIXED_LOP3_NPT4
        else fallback)"

definition cuda_kernel_variant_name :: "int \<Rightarrow> string" where
  "cuda_kernel_variant_name variant =
    (if variant = MINER_CUDA_KERNEL_FIXED_NPT1 then ''fixed-npt1''
     else if variant = MINER_CUDA_KERNEL_FIXED_NPT2 then ''fixed-npt2''
     else if variant = MINER_CUDA_KERNEL_FIXED_NPT4 then ''fixed-npt4''
     else if variant = MINER_CUDA_KERNEL_LOP3 then ''lop3''
     else if variant = MINER_CUDA_KERNEL_FIXED_LOP3_NPT1 then ''fixed-lop3-npt1''
     else if variant = MINER_CUDA_KERNEL_FIXED_LOP3_NPT2 then ''fixed-lop3-npt2''
     else if variant = MINER_CUDA_KERNEL_FIXED_LOP3_NPT4 then ''fixed-lop3-npt4''
     else if variant = MINER_CUDA_KERNEL_DUAL then ''dual''
     else ''standard'')"

section \<open>Numbers\<close>

definition is_space :: "char \<Rightarrow> bool" where
  "is_space ch \<longleftrightarrow> ch = CHR '' '' \<or> (of_char ch :: nat) \<in> {9..13}"

definition is_digit :: "char \<Rightarrow> bool" where
  "is_digit ch \<longleftrightarrow> ch \<ge> CHR ''0'' \<and> ch \<le> CHR ''9''"

definition dec_value :: "string \<Rightarrow> nat" where
  "dec_value ds = foldl (\<lambda>acc ch. 10 * acc + (of_char ch - 48)) 0 ds"

text \<open>The common part of \<open>strtol\<close> and \<open>strtoul\<close>: white space, a sign, digits. The result is the sign, the
  magnitude and the rest of the text, or nothing if there is no number.\<close>

fun split_sign :: "string \<Rightarrow> bool \<times> string" where
  "split_sign (ch # s) =
    (if ch = CHR ''-'' then (True, s) else if ch = CHR ''+'' then (False, s) else (False, ch # s))"
| "split_sign [] = (False, [])"

definition scan_number :: "string \<Rightarrow> (bool \<times> nat \<times> string) option" where
  "scan_number text =
    (let (neg, s) = split_sign (dropWhile is_space text);
         ds = takeWhile is_digit s
     in if ds = [] then None else Some (neg, dec_value ds, dropWhile is_digit s))"

definition signed_value :: "bool \<Rightarrow> nat \<Rightarrow> int" where
  "signed_value neg n = (if neg then - int n else int n)"

text \<open>Value, rest, and whether \<open>errno\<close> was set. Without a number the rest is the whole text.\<close>

definition strtol :: "string \<Rightarrow> int \<times> string \<times> bool" where
  "strtol text =
    (case scan_number text of
       None \<Rightarrow> (0, text, False)
     | Some (neg, n, rest) \<Rightarrow>
        let v = signed_value neg n
        in if v < - (2 ^ 63) then (- (2 ^ 63), rest, True)
           else if v > 2 ^ 63 - 1 then (2 ^ 63 - 1, rest, True)
           else (v, rest, False))"

definition strtoul :: "string \<Rightarrow> u64 \<times> string \<times> bool" where
  "strtoul text =
    (case scan_number text of
       None \<Rightarrow> (0, text, False)
     | Some (neg, n, rest) \<Rightarrow>
        if n > 2 ^ 64 - 1 then (- 1, rest, True)
        else (if neg then - of_nat n else of_nat n, rest, False))"

definition parse_int_option :: "string \<Rightarrow> int \<Rightarrow> int \<Rightarrow> int option" where
  "parse_int_option text min_value max_value =
    (let (val, rest, erange) = strtol text
     in if erange \<or> rest = text \<or> rest \<noteq> [] \<or> val < min_value \<or> val > max_value then None
        else Some (c_int val))"

definition parse_u32_option :: "string \<Rightarrow> u32 \<Rightarrow> u32 \<Rightarrow> u32 option" where
  "parse_u32_option text min_value max_value =
    (if take 1 text = ''-'' then None
     else
       let (val, rest, erange) = strtoul text
       in if erange \<or> rest = text \<or> rest \<noteq> [] \<or> val < ucast min_value \<or> val > ucast max_value then None
          else Some (ucast val))"

text \<open>\<open>strtod\<close> gives the number read if it is finite and in range, and the rest of the text.\<close>

definition parse_double_option :: "(string \<Rightarrow> real option \<times> string) \<Rightarrow> string \<Rightarrow> real \<Rightarrow> real option" where
  "parse_double_option strtod text min_value =
    (case strtod text of
       (None, rest) \<Rightarrow> None
     | (Some val, rest) \<Rightarrow> if rest = text \<or> rest \<noteq> [] \<or> val < min_value then None else Some val)"

text \<open>The format \<open>%lld\<close>.\<close>

fun dec_digits :: "nat \<Rightarrow> string" where
  "dec_digits n = (if n < 10 then [char_of (48 + n)] else dec_digits (n div 10) @ [char_of (48 + n mod 10)])"

declare dec_digits.simps [simp del]

definition print_lld :: "int \<Rightarrow> string" where
  "print_lld i = (if i < 0 then CHR ''-'' # dec_digits (nat (- i)) else dec_digits (nat i))"

section \<open>Lemmas\<close>

lemma string_equals_ci_iff: "string_equals_ci a b \<longleftrightarrow> map ascii_tolower_char a = map ascii_tolower_char b"
  by (induction a b rule: string_equals_ci.induct) auto

lemma equals_any_iff:
  "equals_any text names \<longleftrightarrow> map ascii_tolower_char text \<in> set (map (map ascii_tolower_char) names)"
  by (auto simp: equals_any_def list_ex_iff string_equals_ci_iff)

lemma is_digit_nat: "is_digit ch \<longleftrightarrow> 48 \<le> (of_char ch :: nat) \<and> (of_char ch :: nat) \<le> 57"
  by (simp add: is_digit_def less_eq_char_def)

lemma sign_not_space [simp]: "\<not> is_space CHR ''-''" "\<not> is_space CHR ''+''"
  by (simp_all add: is_space_def)

lemma sign_not_digit [simp]: "\<not> is_digit CHR ''-''" "\<not> is_digit CHR ''+''"
  by (simp_all add: is_digit_def less_eq_char_def)

lemma digit_not_space: "is_digit ch \<Longrightarrow> \<not> is_space ch"
  by (auto simp: is_space_def is_digit_nat)

definition sign_text :: "bool \<Rightarrow> string \<Rightarrow> bool" where
  "sign_text neg sg \<longleftrightarrow> (if neg then sg = ''-'' else sg = [] \<or> sg = ''+'')"

text \<open>A number that fills the whole text: white space, a sign, digits.\<close>

definition number_text :: "string \<Rightarrow> bool \<Rightarrow> nat \<Rightarrow> bool" where
  "number_text text neg n \<longleftrightarrow> (\<exists>ws sg ds. text = ws @ sg @ ds \<and> list_all is_space ws \<and> ds \<noteq> [] \<and> list_all is_digit ds \<and>
     n = dec_value ds \<and> sign_text neg sg)"

lemma split_sign_Some: "split_sign s = (neg, s') \<Longrightarrow> \<exists>sg. s = sg @ s' \<and> sign_text neg sg"
  by (cases s) (auto simp: sign_text_def split: if_splits)

lemma split_sign_append: "sign_text neg sg \<Longrightarrow> is_digit d \<Longrightarrow> split_sign (sg @ d # ds) = (neg, d # ds)"
  by (auto simp: sign_text_def split: if_splits)

lemma dropWhile_spaces: "list_all is_space ws \<Longrightarrow> dropWhile is_space (ws @ xs) = dropWhile is_space xs"
  by (induction ws) auto

lemma scan_number_text: "number_text text neg n \<Longrightarrow> scan_number text = Some (neg, n, [])"
proof -
  assume "number_text text neg n"
  then obtain ws sg ds where t: "text = ws @ sg @ ds" "list_all is_space ws" "ds \<noteq> []" "list_all is_digit ds"
    "n = dec_value ds" "sign_text neg sg"
    by (auto simp: number_text_def)
  obtain d ds' where d: "ds = d # ds'" "is_digit d" using t(3,4) by (cases ds) auto
  have ds: "takeWhile is_digit ds = ds" "dropWhile is_digit ds = []" using t(4) by (auto simp: list_all_iff)
  have "dropWhile is_space text = sg @ ds"
    using t(6) d digit_not_space by (auto simp: t(1) dropWhile_spaces [OF t(2)] sign_text_def split: if_splits)
  then have "split_sign (dropWhile is_space text) = (neg, ds)"
    using split_sign_append [OF t(6) d(2)] d(1) by simp
  then show ?thesis using t(3,5) by (simp add: scan_number_def ds Let_def)
qed

lemma scan_number_cases:
  assumes "scan_number text = Some (neg, n, rest)"
  obtains ws sg ds where "text = ws @ sg @ ds @ rest" "list_all is_space ws" "sign_text neg sg" "ds \<noteq> []"
    "list_all is_digit ds" "n = dec_value ds"
proof -
  obtain s where s: "split_sign (dropWhile is_space text) = (neg, s)" "takeWhile is_digit s \<noteq> []"
    "n = dec_value (takeWhile is_digit s)" "rest = dropWhile is_digit s"
    using assms by (auto simp: scan_number_def Let_def split: prod.splits if_splits)
  obtain sg where sg: "dropWhile is_space text = sg @ s" "sign_text neg sg" using split_sign_Some [OF s(1)] by blast
  have "text = takeWhile is_space text @ sg @ takeWhile is_digit s @ rest"
    using sg(1) s(4) by (metis takeWhile_dropWhile_id)
  moreover have "list_all is_space (takeWhile is_space text)" "list_all is_digit (takeWhile is_digit s)"
    by (auto simp: list_all_iff dest: set_takeWhileD)
  ultimately show ?thesis using that sg(2) s(2,3) by blast
qed

lemma scan_number_whole: "scan_number text = Some (neg, n, []) \<longleftrightarrow> number_text text neg n"
proof
  assume "scan_number text = Some (neg, n, [])"
  then obtain ws sg ds where "text = ws @ sg @ ds" "list_all is_space ws" "sign_text neg sg" "ds \<noteq> []"
    "list_all is_digit ds" "n = dec_value ds"
    by (rule scan_number_cases) simp
  then show "number_text text neg n" unfolding number_text_def by blast
qed (rule scan_number_text)

lemma scan_number_progress: "scan_number text = Some (neg, n, rest) \<Longrightarrow> rest \<noteq> text"
  by (erule scan_number_cases) auto

lemma foldl_dec: "foldl (\<lambda>acc ch. 10 * acc + (of_char ch - 48)) a (ds @ [c]) =
   10 * foldl (\<lambda>acc ch. 10 * acc + (of_char ch - 48)) a ds + (of_char c - 48 :: nat)"
  by simp

lemma dec_digits_facts: "list_all is_digit (dec_digits n) \<and> dec_digits n \<noteq> [] \<and> dec_value (dec_digits n) = n"
proof (induction n rule: dec_digits.induct)
  case (1 n)
  have c: "of_char (char_of (48 + k) :: char) = 48 + k" if "k < 10" for k :: nat using that by (simp add: of_char_of)
  show ?case
  proof (cases "n < 10")
    case True
    then show ?thesis using c [of n] by (simp add: dec_digits.simps [of n] is_digit_nat dec_value_def)
  next
    case False
    then show ?thesis using "1.IH" c [of "n mod 10"]
      by (simp add: dec_digits.simps [of n] is_digit_nat dec_value_def)
  qed
qed

lemma print_lld_text: "number_text (print_lld i) (i < 0) (nat \<bar>i\<bar>)"
  unfolding number_text_def print_lld_def
  using dec_digits_facts [of "nat \<bar>i\<bar>"]
  by (intro exI [of _ "[]"] exI [of _ "if i < 0 then ''-'' else []"] exI [of _ "dec_digits (nat \<bar>i\<bar>)"]) (auto simp: sign_text_def)

section \<open>Properties\<close>

lemma lower_literals [simp]:
  "ascii_tolower_char CHR ''-'' = CHR ''-''" "ascii_tolower_char CHR ''_'' = CHR ''_''"
  "ascii_tolower_char CHR ''0'' = CHR ''0''" "ascii_tolower_char CHR ''1'' = CHR ''1''"
  "ascii_tolower_char CHR ''2'' = CHR ''2''" "ascii_tolower_char CHR ''3'' = CHR ''3''"
  "ascii_tolower_char CHR ''4'' = CHR ''4''" "ascii_tolower_char CHR ''a'' = CHR ''a''"
  "ascii_tolower_char CHR ''c'' = CHR ''c''" "ascii_tolower_char CHR ''d'' = CHR ''d''"
  "ascii_tolower_char CHR ''e'' = CHR ''e''" "ascii_tolower_char CHR ''f'' = CHR ''f''"
  "ascii_tolower_char CHR ''g'' = CHR ''g''" "ascii_tolower_char CHR ''h'' = CHR ''h''"
  "ascii_tolower_char CHR ''i'' = CHR ''i''" "ascii_tolower_char CHR ''l'' = CHR ''l''"
  "ascii_tolower_char CHR ''m'' = CHR ''m''" "ascii_tolower_char CHR ''n'' = CHR ''n''"
  "ascii_tolower_char CHR ''o'' = CHR ''o''" "ascii_tolower_char CHR ''p'' = CHR ''p''"
  "ascii_tolower_char CHR ''r'' = CHR ''r''" "ascii_tolower_char CHR ''s'' = CHR ''s''"
  "ascii_tolower_char CHR ''t'' = CHR ''t''" "ascii_tolower_char CHR ''u'' = CHR ''u''"
  "ascii_tolower_char CHR ''v'' = CHR ''v''" "ascii_tolower_char CHR ''x'' = CHR ''x''"
  "ascii_tolower_char CHR ''y'' = CHR ''y''"
  by (simp_all add: ascii_tolower_char_def less_eq_char_def)

lemma lower_nonempty: "map ascii_tolower_char text = c # cs \<Longrightarrow> text \<noteq> []"
  by auto

text \<open>The names that the program prints for the variants of a kernel or backend are the names it accepts, in
  any mixture of upper and lower case.\<close>

theorem variant_names_parse:
  "(0 \<le> v \<and> v \<le> MINER_OPENCL_KERNEL_REGISTER_HEAVY \<and> map ascii_tolower_char text = opencl_kernel_variant_name v \<longrightarrow>
      parse_opencl_kernel_variant (Some text) fallback = v) \<and>
   (0 \<le> v \<and> v \<le> MINER_OPENCL_BACKEND_MODERN \<and> map ascii_tolower_char text = opencl_backend_variant_name v \<longrightarrow>
      parse_opencl_backend_variant (Some text) fallback = v) \<and>
   (0 \<le> v \<and> v \<le> MINER_CUDA_KERNEL_LAST \<and> map ascii_tolower_char text = cuda_kernel_variant_name v \<longrightarrow>
      parse_cuda_kernel_variant (Some text) fallback = v)"
proof (intro conjI impI; elim conjE)
  assume v: "0 \<le> v" "v \<le> MINER_OPENCL_KERNEL_REGISTER_HEAVY" and
    t: "map ascii_tolower_char text = opencl_kernel_variant_name v"
  have "v \<in> {0, 1, 2, 3, 4, 5, 6}" using v by (auto simp: variant_constants)
  then show "parse_opencl_kernel_variant (Some text) fallback = v"
    using t lower_nonempty
    unfolding parse_opencl_kernel_variant_def string_equals_ci_iff equals_any_iff
    by (elim insertE emptyE) (simp_all add: opencl_kernel_variant_name_def variant_constants)
next
  assume v: "0 \<le> v" "v \<le> MINER_OPENCL_BACKEND_MODERN" and
    t: "map ascii_tolower_char text = opencl_backend_variant_name v"
  have "v \<in> {0, 1, 2}" using v by (auto simp: variant_constants)
  then show "parse_opencl_backend_variant (Some text) fallback = v"
    using t lower_nonempty
    unfolding parse_opencl_backend_variant_def string_equals_ci_iff equals_any_iff
    by (elim insertE emptyE) (simp_all add: opencl_backend_variant_name_def variant_constants)
next
  assume v: "0 \<le> v" "v \<le> MINER_CUDA_KERNEL_LAST" and
    t: "map ascii_tolower_char text = cuda_kernel_variant_name v"
  have "v \<in> {0, 1, 2, 3, 4, 5, 6, 7, 8}" using v by (auto simp: variant_constants)
  then show "parse_cuda_kernel_variant (Some text) fallback = v"
    using t lower_nonempty
    unfolding parse_cuda_kernel_variant_def string_equals_ci_iff equals_any_iff
    by (elim insertE emptyE) (simp_all add: cuda_kernel_variant_name_def variant_constants)
qed

theorem variant_names_parse_witness: "parse_opencl_kernel_variant (Some ''Unrolled'') 0 = 2"
proof -
  have "ascii_tolower_char CHR ''U'' = char_of (117 :: nat)" by (simp add: ascii_tolower_char_def less_eq_char_def)
  also have "\<dots> = CHR ''u''" by (simp add: char_of_def bit_iff_odd)
  finally have "map ascii_tolower_char ''Unrolled'' = opencl_kernel_variant_name 2"
    by (simp add: opencl_kernel_variant_name_def variant_constants)
  then show ?thesis
    by (intro variant_names_parse [THEN conjunct1, rule_format]) (simp add: variant_constants)
qed

text \<open>A numeric option is accepted exactly when it is white space, a sign and decimal digits, nothing else, with a
  value within the limits; every printed number is accepted and read back.\<close>

theorem int_option_accepts_iff:
  assumes "- (2 ^ 31) \<le> min_value" "max_value < 2 ^ 31"
  shows "(parse_int_option text min_value max_value = Some v \<longleftrightarrow>
      (\<exists>neg n. number_text text neg n \<and> v = signed_value neg n \<and> min_value \<le> v \<and> v \<le> max_value)) \<and>
    (min_value \<le> v \<and> v \<le> max_value \<longrightarrow> parse_int_option (print_lld v) min_value max_value = Some v)"
proof -
  have b: "- (2 ^ 63) \<le> w \<and> w \<le> 2 ^ 63 - 1 \<and> c_int w = w" if "min_value \<le> w" "w \<le> max_value" for w
    using that assms by (simp add: c_int_id)
  have iff: "parse_int_option t min_value max_value = Some w \<longleftrightarrow>
      (\<exists>neg n. number_text t neg n \<and> w = signed_value neg n \<and> min_value \<le> w \<and> w \<le> max_value)" for t w
  proof
    assume a: "parse_int_option t min_value max_value = Some w"
    then obtain neg n rest where s: "scan_number t = Some (neg, n, rest)"
      by (cases "scan_number t") (auto simp: parse_int_option_def strtol_def)
    with a have "rest = []" "min_value \<le> signed_value neg n" "signed_value neg n \<le> max_value"
      "w = c_int (signed_value neg n)"
      by (simp_all add: parse_int_option_def strtol_def Let_def split: if_split_asm)
    then show "\<exists>neg n. number_text t neg n \<and> w = signed_value neg n \<and> min_value \<le> w \<and> w \<le> max_value"
      using s b [of "signed_value neg n"] by (intro exI [of _ neg] exI [of _ n]) (simp add: scan_number_whole)
  next
    assume "\<exists>neg n. number_text t neg n \<and> w = signed_value neg n \<and> min_value \<le> w \<and> w \<le> max_value"
    then obtain neg n where t: "number_text t neg n" "w = signed_value neg n" "min_value \<le> w" "w \<le> max_value"
      by blast
    have s: "scan_number t = Some (neg, n, [])" by (rule scan_number_text [OF t(1)])
    then have "strtol t = (w, [], False)" using b [OF t(3,4)] unfolding strtol_def t(2) by (simp add: Let_def)
    moreover have "t \<noteq> []" using scan_number_progress [OF s] by blast
    ultimately show "parse_int_option t min_value max_value = Some w"
      using t(3,4) b [OF t(3,4)] by (simp add: parse_int_option_def)
  qed
  have "v = signed_value (v < 0) (nat \<bar>v\<bar>)" by (simp add: signed_value_def)
  then show ?thesis using iff print_lld_text [of v] by blast
qed

theorem int_option_accepts_iff_witness:
  "parse_int_option (print_lld 1024) 0 1024 = Some 1024 \<and> parse_int_option (print_lld 1025) 0 1024 \<noteq> Some 1025"
  using int_option_accepts_iff [of 0 1024 "print_lld 1024" 1024] int_option_accepts_iff [of 0 1024 "print_lld 1025" 1025]
  by simp

end
