(* ===== verification/Gpu_Host.thy ===== *)
theory Gpu_Host
  imports Gpu_Self_Test Options
begin

text \<open>
  What the host sides of the two GPU backends share: the record of what is acquired and given back, the
  callback that collects the reports of a scan, and the arithmetic of rounding up.
\<close>

section \<open>Resources\<close>

datatype 'r res_event = Acquire 'r | Release 'r

text \<open>What is held after a sequence of events; \<open>None\<close> when something is acquired twice or given back
  without being held.\<close>

fun track :: "'r set \<Rightarrow> 'r res_event list \<Rightarrow> 'r set option" where
  "track held [] = Some held"
| "track held (Acquire r # evs) = (if r \<in> held then None else track (insert r held) evs)"
| "track held (Release r # evs) = (if r \<in> held then track (held - {r}) evs else None)"

section \<open>Collecting reports\<close>

definition collect_match :: "gpu_match list scan_match_func" where
  "collect_match found nonce h = found @ [(nonce, h)]"

lemma foldl_collect: "foldl (\<lambda>found (nonce, h). collect_match found nonce h) found ms = found @ ms"
  by (induction ms arbitrary: found) (auto simp: collect_match_def)

section \<open>Rounding up\<close>

lemma ceil_div:
  fixes n k :: nat
  assumes "1 \<le> k"
  shows "n \<le> (n + k - 1) div k * k" and "(n + k - 1) div k * k < n + k"
proof -
  have "(n + k - 1) div k * k + (n + k - 1) mod k = n + k - 1" by (rule div_mult_mod_eq)
  moreover have "(n + k - 1) mod k < k" using assms by simp
  ultimately show "n \<le> (n + k - 1) div k * k" "(n + k - 1) div k * k < n + k" using assms by linarith+
qed

end
