(* ===== verification/Cuda_Miner.thy ===== *)
theory Cuda_Miner
  imports Cuda_Kernel Gpu_Host Sha256d_Dispatch
begin

text \<open>
  The CUDA backend, \<open>src/src/cuda_miner.c\<close>: loading the driver library, the repair of the settings,
  creating and destroying a device, the scan of a nonce range and the self test. The CUDA driver and
  the C allocator are parameters (\<open>cuda_env\<close>): the return codes and handles their functions give.
  Handles are numbers, 0 standing for NULL. The calls that acquire or give back something are logged
  as events.

  Main results: a failing creation gives back everything it acquired; a scan that succeeds has
  reported matches of the range only, each once, and all of them when the result array was large
  enough; the self test passes exactly when the device reports every test nonce once with its right
  hash.
\<close>

section \<open>Driver and events\<close>

definition CUDA_SUCCESS :: int where "CUDA_SUCCESS = 0"

text \<open>Codes first, then the value stored through the pointer argument.\<close>

record cuda_env =
  dlopen_ok :: "string \<Rightarrow> bool"
  dlsym_ok :: "string \<Rightarrow> bool"
  cuInit :: int
  cuDeviceGetCount :: "int \<times> int"
  cuDriverGetVersion :: "int \<times> int"
  cuDeviceGet :: "int \<Rightarrow> int \<times> int"
  cuDeviceGetName :: "int \<Rightarrow> string"
  cuDeviceComputeCapability :: "int \<Rightarrow> int \<times> int"
  cuCtxCreate_v2 :: "int \<Rightarrow> int \<times> nat"
  cuModuleLoadData :: "int \<times> nat"
  cuModuleGetFunction :: "string \<Rightarrow> int"
  cuMemAlloc_count :: "int \<times> nat"
  cuMemAlloc_matches :: "nat \<Rightarrow> int \<times> nat"
  calloc_miner :: bool
  calloc_matches :: "nat \<Rightarrow> bool"

datatype cuda_error =
    Cuda_Msg string
  | Cuda_Driver_Msg string int

datatype cuda_resource = R_miner | R_context | R_module | R_count_buf | R_matches_buf | R_matches

type_synonym cuda_event = "cuda_resource res_event"

section \<open>Loading the driver\<close>

record cuda_driver_t =
  drv_attempted :: bool
  drv_loaded :: bool

definition cuda_symbols :: "string list" where
  "cuda_symbols =
    [''cuInit'', ''cuDriverGetVersion'', ''cuDeviceGetCount'', ''cuDeviceGet'', ''cuDeviceGetName'',
     ''cuDeviceComputeCapability'', ''cuDeviceTotalMem_v2'', ''cuCtxCreate_v2'', ''cuCtxDestroy_v2'',
     ''cuCtxSetCurrent'', ''cuModuleLoadData'', ''cuModuleUnload'', ''cuModuleGetFunction'',
     ''cuMemAlloc_v2'', ''cuMemFree_v2'', ''cuMemsetD32_v2'', ''cuMemcpyDtoH_v2'', ''cuMemcpyHtoD_v2'',
     ''cuLaunchKernel'', ''cuCtxSynchronize'', ''cuGetErrorString'']"

text \<open>The POSIX branch. \<open>None\<close> is the return value 0, \<open>Some\<close> the message with the return value -1.\<close>

definition cuda_driver_load :: "cuda_env \<Rightarrow> cuda_driver_t \<Rightarrow> cuda_driver_t \<times> cuda_error option" where
  "cuda_driver_load env g =
    (if drv_loaded g then (g, None)
     else if drv_attempted g then (g, Some (Cuda_Msg ''CUDA driver is not available''))
     else
       let g = g\<lparr>drv_attempted := True\<rparr>;
           library = (dlopen_ok env ''libcuda.so.1'' \<or> dlopen_ok env ''libcuda.so'')
       in if \<not> library then (g, Some (Cuda_Msg ''CUDA driver library not found''))
          else case find (\<lambda>name. \<not> dlsym_ok env name) cuda_symbols of
              Some name \<Rightarrow> (g, Some (Cuda_Msg (''CUDA driver is missing required symbol '' @ name)))
            | None \<Rightarrow>
                if cuInit env \<noteq> CUDA_SUCCESS
                then (g, Some (Cuda_Driver_Msg ''CUDA driver initialization failed'' (cuInit env)))
                else (g\<lparr>drv_loaded := True\<rparr>, None))"

section \<open>Settings\<close>

definition config_u32_or :: "u32 \<Rightarrow> u32 \<Rightarrow> u32" where
  "config_u32_or value fallback = (if value \<noteq> 0 then value else fallback)"

definition clamp_threads_per_block :: "u32 \<Rightarrow> u32" where
  "clamp_threads_per_block value =
    (let value = config_u32_or value MINER_CUDA_DEFAULT_THREADS_PER_BLOCK
     in if value < 32 then 32
        else if value > 1024 then 1024
        else (value + 31) AND NOT 31)"

definition clamp_nonces_per_thread :: "u32 \<Rightarrow> u32" where
  "clamp_nonces_per_thread value =
    (let value = config_u32_or value MINER_CUDA_DEFAULT_NONCES_PER_THREAD
     in if value < 1 then 1 else if value > 16 then 16 else value)"

definition normalize_kernel_variant :: "int \<Rightarrow> int" where
  "normalize_kernel_variant value =
    (if value < MINER_CUDA_KERNEL_STANDARD \<or> value > MINER_CUDA_KERNEL_LAST
     then MINER_CUDA_DEFAULT_KERNEL_VARIANT else value)"

lemmas cuda_variants =
  MINER_CUDA_KERNEL_DUAL_def MINER_CUDA_KERNEL_FIXED_NPT1_def MINER_CUDA_KERNEL_FIXED_NPT2_def
  MINER_CUDA_KERNEL_FIXED_NPT4_def MINER_CUDA_KERNEL_LOP3_def MINER_CUDA_KERNEL_FIXED_LOP3_NPT1_def
  MINER_CUDA_KERNEL_FIXED_LOP3_NPT2_def MINER_CUDA_KERNEL_FIXED_LOP3_NPT4_def

definition kernel_variant_forced_npt :: "int \<Rightarrow> u32" where
  "kernel_variant_forced_npt variant =
    (let v = normalize_kernel_variant variant
     in if v = MINER_CUDA_KERNEL_FIXED_NPT1 \<or> v = MINER_CUDA_KERNEL_FIXED_LOP3_NPT1 then 1
        else if v = MINER_CUDA_KERNEL_FIXED_NPT2 \<or> v = MINER_CUDA_KERNEL_FIXED_LOP3_NPT2 then 2
        else if v = MINER_CUDA_KERNEL_FIXED_NPT4 \<or> v = MINER_CUDA_KERNEL_FIXED_LOP3_NPT4 then 4
        else 0)"

definition cuda_miner_kernel_variant_name :: "int \<Rightarrow> string" where
  "cuda_miner_kernel_variant_name variant =
    (let v = normalize_kernel_variant variant
     in if v = MINER_CUDA_KERNEL_FIXED_NPT1 then ''fixed-npt1''
        else if v = MINER_CUDA_KERNEL_FIXED_NPT2 then ''fixed-npt2''
        else if v = MINER_CUDA_KERNEL_FIXED_NPT4 then ''fixed-npt4''
        else if v = MINER_CUDA_KERNEL_LOP3 then ''lop3''
        else if v = MINER_CUDA_KERNEL_FIXED_LOP3_NPT1 then ''fixed-lop3-npt1''
        else if v = MINER_CUDA_KERNEL_FIXED_LOP3_NPT2 then ''fixed-lop3-npt2''
        else if v = MINER_CUDA_KERNEL_FIXED_LOP3_NPT4 then ''fixed-lop3-npt4''
        else if v = MINER_CUDA_KERNEL_DUAL then ''dual''
        else ''standard'')"

definition cuda_miner_kernel_function_name :: "int \<Rightarrow> string" where
  "cuda_miner_kernel_function_name variant =
    (let v = normalize_kernel_variant variant
     in if v = MINER_CUDA_KERNEL_FIXED_NPT1 then ''btcrig_cuda_scan_nonce_range_fixed_npt1''
        else if v = MINER_CUDA_KERNEL_FIXED_NPT2 then ''btcrig_cuda_scan_nonce_range_fixed_npt2''
        else if v = MINER_CUDA_KERNEL_FIXED_NPT4 then ''btcrig_cuda_scan_nonce_range_fixed_npt4''
        else if v = MINER_CUDA_KERNEL_LOP3 then ''btcrig_cuda_scan_nonce_range_lop3''
        else if v = MINER_CUDA_KERNEL_FIXED_LOP3_NPT1 then ''btcrig_cuda_scan_nonce_range_fixed_lop3_npt1''
        else if v = MINER_CUDA_KERNEL_FIXED_LOP3_NPT2 then ''btcrig_cuda_scan_nonce_range_fixed_lop3_npt2''
        else if v = MINER_CUDA_KERNEL_FIXED_LOP3_NPT4 then ''btcrig_cuda_scan_nonce_range_fixed_lop3_npt4''
        else if v = MINER_CUDA_KERNEL_DUAL then ''btcrig_cuda_scan_nonce_range_dual''
        else ''btcrig_cuda_scan_nonce_range'')"

text \<open>The \<open>extern "C"\<close> functions of the kernel source, as the loaded module names them.\<close>

definition module_functions :: "(string \<times> cuda_kernel) list" where
  "module_functions =
    [(''btcrig_cuda_scan_nonce_range_dual'', btcrig_cuda_scan_nonce_range_dual),
     (''btcrig_cuda_scan_nonce_range_fixed_npt1'', btcrig_cuda_scan_nonce_range_fixed_npt1),
     (''btcrig_cuda_scan_nonce_range_fixed_npt2'', btcrig_cuda_scan_nonce_range_fixed_npt2),
     (''btcrig_cuda_scan_nonce_range_fixed_npt4'', btcrig_cuda_scan_nonce_range_fixed_npt4),
     (''btcrig_cuda_scan_nonce_range_lop3'', btcrig_cuda_scan_nonce_range_lop3),
     (''btcrig_cuda_scan_nonce_range_fixed_lop3_npt1'', btcrig_cuda_scan_nonce_range_fixed_lop3_npt1),
     (''btcrig_cuda_scan_nonce_range_fixed_lop3_npt2'', btcrig_cuda_scan_nonce_range_fixed_lop3_npt2),
     (''btcrig_cuda_scan_nonce_range_fixed_lop3_npt4'', btcrig_cuda_scan_nonce_range_fixed_lop3_npt4),
     (''btcrig_cuda_scan_nonce_range'', btcrig_cuda_scan_nonce_range)]"

text \<open>The settings \<open>cuda_miner_create\<close> works with; \<open>None\<close> for a NULL argument.\<close>

definition effective_config :: "miner_cuda_config_t option \<Rightarrow> miner_cuda_config_t" where
  "effective_config config =
    (let effective = miner_cuda_config_defaults;
         effective = (case config of None \<Rightarrow> effective | Some c \<Rightarrow> c);
         effective = effective\<lparr>
           cuda_batch_size := config_u32_or (cuda_batch_size effective) MINER_CUDA_DEFAULT_BATCH_SIZE,
           cuda_threads_per_block := clamp_threads_per_block (cuda_threads_per_block effective),
           cuda_nonces_per_thread := clamp_nonces_per_thread (cuda_nonces_per_thread effective),
           cuda_max_results := config_u32_or (cuda_max_results effective) MINER_CUDA_DEFAULT_MAX_RESULTS,
           cuda_kernel_variant := normalize_kernel_variant (cuda_kernel_variant effective)\<rparr>;
         forced_npt = kernel_variant_forced_npt (cuda_kernel_variant effective)
     in if forced_npt \<noteq> 0 then effective\<lparr>cuda_nonces_per_thread := forced_npt\<rparr> else effective)"

section \<open>Devices\<close>

definition cuda_miner_device_count :: "cuda_env \<Rightarrow> cuda_driver_t \<Rightarrow> cuda_driver_t \<times> (cuda_error + int)" where
  "cuda_miner_device_count env g =
    (case cuda_driver_load env g of
       (g, Some e) \<Rightarrow> (g, Inl e)
     | (g, None) \<Rightarrow>
         let (rc, count) = cuDeviceGetCount env
         in if rc \<noteq> CUDA_SUCCESS
            then (g, Inl (Cuda_Driver_Msg ''failed to enumerate CUDA devices'' rc)) else (g, Inr count))"

text \<open>The function handle is the name it was asked for with; \<open>cm_matches\<close> says whether the host array is
  allocated.\<close>

record cuda_miner =
  cm_device :: int
  cm_context :: nat
  cm_module :: nat
  cm_kernel :: string
  cm_count_buf :: nat
  cm_matches_buf :: nat
  cm_matches :: bool
  cm_batch_size :: u32
  cm_threads_per_block :: u32
  cm_nonces_per_thread :: u32
  cm_max_results :: u32
  cm_kernel_variant :: int
  cm_driver_version :: int
  cm_compute_major :: int
  cm_compute_minor :: int
  cm_device_name :: string

definition zero_cuda_miner :: cuda_miner where
  "zero_cuda_miner =
    \<lparr>cm_device = 0, cm_context = 0, cm_module = 0, cm_kernel = [], cm_count_buf = 0, cm_matches_buf = 0,
     cm_matches = False, cm_batch_size = 0, cm_threads_per_block = 0, cm_nonces_per_thread = 0,
     cm_max_results = 0, cm_kernel_variant = 0, cm_driver_version = 0, cm_compute_major = 0,
     cm_compute_minor = 0, cm_device_name = []\<rparr>"

text \<open>What is given back; the argument is \<open>None\<close> for NULL.\<close>

definition cuda_miner_destroy :: "cuda_driver_t \<Rightarrow> cuda_miner option \<Rightarrow> cuda_event list" where
  "cuda_miner_destroy g miner =
    (case miner of None \<Rightarrow> []
     | Some m \<Rightarrow>
        (if drv_loaded g \<and> cm_matches_buf m \<noteq> 0 then [Release R_matches_buf] else []) @
        (if drv_loaded g \<and> cm_count_buf m \<noteq> 0 then [Release R_count_buf] else []) @
        (if drv_loaded g \<and> cm_module m \<noteq> 0 then [Release R_module] else []) @
        (if drv_loaded g \<and> cm_context m \<noteq> 0 then [Release R_context] else []) @
        (if cm_matches m then [Release R_matches] else []) @
        [Release R_miner])"

definition create_failed ::
  "cuda_driver_t \<Rightarrow> cuda_event list \<Rightarrow> cuda_miner \<Rightarrow> cuda_error \<Rightarrow>
   cuda_driver_t \<times> cuda_event list \<times> (cuda_error + cuda_miner)" where
  "create_failed g evs m e = (g, evs @ cuda_miner_destroy g (Some m), Inl e)"

text \<open>From the allocation of the structure on. \<open>Inl\<close> is a NULL result with the message in \<open>error\<close>.\<close>

definition cuda_miner_setup ::
  "cuda_env \<Rightarrow> cuda_driver_t \<Rightarrow> miner_cuda_config_t \<Rightarrow> cuda_driver_t \<times> cuda_event list \<times> (cuda_error + cuda_miner)" where
  "cuda_miner_setup env g effective =
    (if \<not> calloc_miner env then (g, [], Inl (Cuda_Msg ''CUDA miner allocation failed''))
     else
     let evs = [Acquire R_miner];
         m = zero_cuda_miner\<lparr>cm_batch_size := cuda_batch_size effective,
               cm_threads_per_block := cuda_threads_per_block effective,
               cm_nonces_per_thread := cuda_nonces_per_thread effective,
               cm_max_results := cuda_max_results effective,
               cm_kernel_variant := cuda_kernel_variant effective\<rparr>;
         (rc, version) = cuDriverGetVersion env;
         m = m\<lparr>cm_driver_version := (if rc \<noteq> CUDA_SUCCESS then 0 else version)\<rparr>;
         (rc, device) = cuDeviceGet env (cuda_device_index effective)
     in if rc \<noteq> CUDA_SUCCESS then create_failed g evs m (Cuda_Driver_Msg ''failed to select CUDA device'' rc)
     else
     let (major, minor) = cuDeviceComputeCapability env device;
         m = m\<lparr>cm_device := device, cm_device_name := cuDeviceGetName env device,
               cm_compute_major := major, cm_compute_minor := minor\<rparr>;
         (rc, context) = cuCtxCreate_v2 env device
     in if rc \<noteq> CUDA_SUCCESS then create_failed g evs m (Cuda_Driver_Msg ''failed to create CUDA context'' rc)
     else
     let evs = evs @ [Acquire R_context];
         m = m\<lparr>cm_context := context\<rparr>;
         (rc, module) = cuModuleLoadData env
     in if rc \<noteq> CUDA_SUCCESS then create_failed g evs m (Cuda_Driver_Msg ''failed to load CUDA SHA256d PTX'' rc)
     else
     let evs = evs @ [Acquire R_module];
         m = m\<lparr>cm_module := module\<rparr>;
         name = cuda_miner_kernel_function_name (cm_kernel_variant m);
         rc = cuModuleGetFunction env name
     in if rc \<noteq> CUDA_SUCCESS then create_failed g evs m (Cuda_Driver_Msg ''failed to find CUDA SHA256d kernel'' rc)
     else
     let m = m\<lparr>cm_kernel := name\<rparr>;
         (rc, count_buf) = cuMemAlloc_count env
     in if rc \<noteq> CUDA_SUCCESS
        then create_failed g evs m (Cuda_Driver_Msg ''failed to allocate CUDA result count buffer'' rc)
     else
     let evs = evs @ [Acquire R_count_buf];
         m = m\<lparr>cm_count_buf := count_buf\<rparr>;
         (rc, matches_buf) = cuMemAlloc_matches env (unat (cm_max_results m) * 9 * 4)
     in if rc \<noteq> CUDA_SUCCESS
        then create_failed g evs m (Cuda_Driver_Msg ''failed to allocate CUDA matches buffer'' rc)
     else
     let evs = evs @ [Acquire R_matches_buf];
         m = m\<lparr>cm_matches_buf := matches_buf\<rparr>
     in if \<not> calloc_matches env (unat (cm_max_results m) * 9)
        then create_failed g evs m (Cuda_Msg ''CUDA host result allocation failed'')
        else (g, evs @ [Acquire R_matches], Inr (m\<lparr>cm_matches := True\<rparr>)))"

definition cuda_miner_create ::
  "cuda_env \<Rightarrow> cuda_driver_t \<Rightarrow> miner_cuda_config_t option \<Rightarrow>
   cuda_driver_t \<times> cuda_event list \<times> (cuda_error + cuda_miner)" where
  "cuda_miner_create env g config =
    (let effective = effective_config config
     in case cuda_driver_load env g of
       (g, Some e) \<Rightarrow> (g, [], Inl e)
     | (g, None) \<Rightarrow>
         let (rc, count) = cuDeviceGetCount env
         in if rc \<noteq> CUDA_SUCCESS then (g, [], Inl (Cuda_Driver_Msg ''failed to enumerate CUDA devices'' rc))
            else if count \<le> 0 then (g, [], Inl (Cuda_Msg ''no CUDA devices found''))
            else if cuda_device_index effective < 0 \<or> cuda_device_index effective \<ge> count
            then (g, [], Inl (Cuda_Msg ''configured CUDA device index is out of range''))
            else cuda_miner_setup env g effective)"

text \<open>The accessors; \<open>None\<close> for NULL.\<close>

definition cuda_miner_batch_size :: "cuda_miner option \<Rightarrow> u32" where
  "cuda_miner_batch_size miner = (case miner of Some m \<Rightarrow> cm_batch_size m | None \<Rightarrow> MINER_CUDA_DEFAULT_BATCH_SIZE)"

definition cuda_miner_kernel_variant :: "cuda_miner option \<Rightarrow> int" where
  "cuda_miner_kernel_variant miner =
    (case miner of Some m \<Rightarrow> cm_kernel_variant m | None \<Rightarrow> MINER_CUDA_DEFAULT_KERNEL_VARIANT)"

definition cuda_miner_device_name :: "cuda_miner option \<Rightarrow> string" where
  "cuda_miner_device_name miner = (case miner of Some m \<Rightarrow> cm_device_name m | None \<Rightarrow> ''unavailable'')"

section \<open>Scanning\<close>

text \<open>One scan as the driver sees it: the codes of its calls, and what the device makes of the launch by
  the time \<open>cuCtxSynchronize\<close> returns.\<close>

record cuda_run =
  run_cuCtxSetCurrent :: int
  run_cuMemsetD32 :: int
  run_cuLaunchKernel :: int
  run_cuCtxSynchronize :: int
  run_copy_count :: int
  run_copy_matches :: int
  run_device :: "gpu_state \<Rightarrow> gpu_state"

definition module_kernel :: "string \<Rightarrow> cuda_kernel" where
  "module_kernel name = (case map_of module_functions name of Some k \<Rightarrow> k | None \<Rightarrow> (\<lambda>A ctaid ntid tid. Done))"

text \<open>The number of blocks, in 64 bits.\<close>

definition scan_grid :: "u32 \<Rightarrow> u32 \<Rightarrow> u32 \<Rightarrow> u64" where
  "scan_grid nonce_count npt threads_per_block =
    (let work_items = (ucast nonce_count + ucast npt - 1) div ucast npt
     in (work_items + ucast threads_per_block - 1) div ucast threads_per_block)"

text \<open>\<open>on_match(opaque, item[0], &item[1])\<close> for \<open>item = &miner->matches[i * 9U]\<close>.\<close>

definition report_item :: "'o scan_match_func \<Rightarrow> u32 list \<Rightarrow> 'o \<Rightarrow> u32 \<Rightarrow> 'o" where
  "report_item on_match ms opaque i =
    (let item = unat (i * 9) in on_match opaque (ms ! item) (map (\<lambda>j. ms ! (item + 1 + j)) [0..<8]))"

text \<open>The return code, the state behind \<open>opaque\<close>, and the contents of the device array, which is \<open>dev\<close>
  before the call.\<close>

definition cuda_miner_scan ::
  "cuda_run \<Rightarrow> cuda_miner option \<Rightarrow> 'ctx sha256_midstate_t option \<Rightarrow> u32 list option \<Rightarrow> u32 list option \<Rightarrow>
   u32 \<Rightarrow> u32 \<Rightarrow> 'o \<Rightarrow> 'o scan_match_func option \<Rightarrow> u32 list \<Rightarrow> int \<times> 'o \<times> u32 list" where
  "cuda_miner_scan run miner state tail_words target_words start_nonce nonce_count opaque on_match dev =
    (case (miner, state, tail_words, target_words) of
      (Some m, Some st, Some tail, Some target) \<Rightarrow>
        if nonce_count = 0 then (0, opaque, dev)
        else if run_cuCtxSetCurrent run \<noteq> CUDA_SUCCESS then (-1, opaque, dev)
        else if run_cuMemsetD32 run \<noteq> CUDA_SUCCESS then (-1, opaque, dev)
        else
        let args = \<lparr>arg_fast = wvars_of (fast_state st), arg_target = wvars_of target, arg_tail = tail_args tail,
              arg_start_nonce = start_nonce, arg_nonce_count = nonce_count,
              arg_nonces_per_thread = cm_nonces_per_thread m, arg_max_results = cm_max_results m\<rparr>;
            grid = scan_grid nonce_count (cm_nonces_per_thread m) (cm_threads_per_block m)
        in if grid = 0 \<or> grid > 0xffffffff then (-1, opaque, dev)
        else if run_cuLaunchKernel run \<noteq> CUDA_SUCCESS then (-1, opaque, dev)
        else
        let (mem, ps) = run_device run (launch_state
              (launch_threads (module_kernel (cm_kernel m)) args (ucast grid) (cm_threads_per_block m)) dev);
            dev = matches mem
        in if run_cuCtxSynchronize run \<noteq> CUDA_SUCCESS then (-1, opaque, dev)
        else if run_copy_count run \<noteq> CUDA_SUCCESS then (-1, opaque, dev)
        else
        let count = result_count mem
        in if count = 0 \<or> on_match = None then (0, opaque, dev)
        else
        let limited = (if count < cm_max_results m then count else cm_max_results m)
        in if run_copy_matches run \<noteq> CUDA_SUCCESS then (-1, opaque, dev)
        else
        let host = take (unat limited * 9) dev
        in (0, foldl (\<lambda>opaque i. report_item (the on_match) host opaque (of_nat i)) opaque [0..<unat limited], dev)
    | _ \<Rightarrow> (-1, opaque, dev))"

section \<open>Self test\<close>

text \<open>\<open>None\<close> is the return value 0. The informative \<open>result\<close> structure is left out.\<close>

definition cuda_miner_self_test ::
  "'ctx openssl \<Rightarrow> cuda_env \<Rightarrow> cuda_run \<Rightarrow> cuda_driver_t \<Rightarrow> miner_cuda_config_t option \<Rightarrow> u32 list \<Rightarrow>
   cuda_driver_t \<times> cuda_event list \<times> cuda_error option" where
  "cuda_miner_self_test ssl env run g config dev =
    (let test_config = miner_cuda_config_defaults;
         test_config = (case config of None \<Rightarrow> test_config | Some c \<Rightarrow> c);
         test_config = test_config\<lparr>cuda_batch_size := 1024, cuda_max_results := 32\<rparr>
     in case cuda_miner_create env g (Some test_config) of
       (g, evs, Inl e) \<Rightarrow> (g, evs, Some e)
     | (g, evs, Inr m) \<Rightarrow>
         let midstate = sha256d_80_midstate_prepare ssl (take 64 make_self_test_header);
             (rc, context, dev) = cuda_miner_scan run (Some m) (Some midstate) (Some self_test_tail)
                (Some self_test_target) self_test_start 16 self_test_context (Some (self_test_match ssl)) dev
         in if rc \<noteq> 0
            then (g, evs @ cuda_miner_destroy g (Some m), Some (Cuda_Msg ''CUDA self-test scan failed''))
            else if \<not> self_test_passed context
            then (g, evs @ cuda_miner_destroy g (Some m),
                  Some (Cuda_Msg ''CUDA self-test hash verification failed''))
            else (g, evs @ cuda_miner_destroy g (Some m), None))"

section \<open>The driver is loaded once\<close>

definition driver_usable :: "cuda_env \<Rightarrow> bool" where
  "driver_usable env \<longleftrightarrow> (dlopen_ok env ''libcuda.so.1'' \<or> dlopen_ok env ''libcuda.so'') \<and>
     list_all (dlsym_ok env) cuda_symbols \<and> cuInit env = CUDA_SUCCESS"

lemma missing_symbol: "find (\<lambda>name. \<not> P name) xs = None \<longleftrightarrow> list_all P xs"
  by (auto simp: find_None_iff list_all_iff)

text \<open>The first call decides; later calls repeat its verdict without touching the library again.\<close>

lemma cuda_driver_load_fresh:
  assumes "\<not> drv_loaded g" "\<not> drv_attempted g"
  shows "snd (cuda_driver_load env g) = None \<longleftrightarrow> driver_usable env"
    and "drv_loaded (fst (cuda_driver_load env g)) \<longleftrightarrow> driver_usable env"
    and "drv_attempted (fst (cuda_driver_load env g))"
  using assms missing_symbol [of "dlsym_ok env" cuda_symbols]
  by (cases "find (\<lambda>name. \<not> dlsym_ok env name) cuda_symbols";
      simp add: cuda_driver_load_def driver_usable_def Let_def)+

lemma cuda_driver_load_loaded: "snd (cuda_driver_load env g) = None \<Longrightarrow> drv_loaded (fst (cuda_driver_load env g))"
  by (cases "drv_loaded g"; cases "drv_attempted g"; cases "find (\<lambda>name. \<not> dlsym_ok env name) cuda_symbols";
      simp add: cuda_driver_load_def Let_def split: if_splits)

lemma cuda_driver_load_again:
  "fst (cuda_driver_load env' (fst (cuda_driver_load env g))) = fst (cuda_driver_load env g)"
  "snd (cuda_driver_load env' (fst (cuda_driver_load env g))) = None \<longleftrightarrow> snd (cuda_driver_load env g) = None"
  by (cases "drv_loaded g"; cases "drv_attempted g"; cases "find (\<lambda>name. \<not> dlsym_ok env name) cuda_symbols";
      simp add: cuda_driver_load_def Let_def)+

section \<open>Settings are usable\<close>

lemma unat_clear_low5: "unat (x AND NOT 31 :: u32) = unat x div 32 * 32"
proof -
  have m: "(31 :: u32) = mask 5" by (simp add: mask_eq_exp_minus_1)
  have "x = (x AND NOT 31) OR (x AND 31)" by (rule bit_word_eqI) (auto simp: bit_simps)
  moreover have "(x AND NOT 31) AND (x AND 31) = 0" by (rule bit_word_eqI) (auto simp: bit_simps)
  ultimately have "unat x = unat (x AND NOT 31) + unat (x AND 31)" by (metis unat_or_disjoint)
  moreover have "unat (x AND 31) = take_bit 5 (unat x)"
    by (simp add: m unsigned_take_bit_eq flip: take_bit_eq_mask)
  ultimately show ?thesis using minus_mod_eq_div_mult [of "unat x" 32] by (simp add: take_bit_eq_mod)
qed

lemma clamp_threads_range:
  "32 \<le> unat (clamp_threads_per_block v) \<and> unat (clamp_threads_per_block v) \<le> 1024"
proof -
  have "unat (w + 31 :: u32) = unat w + 31" if "unat w \<le> 1024" for w :: u32
    using that by (simp add: unat_word_ariths)
  moreover have "32 \<le> (n + 31) div 32 * 32 \<and> (n + 31) div 32 * 32 \<le> 1024" if "32 \<le> n" "n \<le> 1024" for n :: nat
    using that div_le_mono [of 32 "n + 31" 32] div_le_mono [of "n + 31" 1055 32] by simp
  ultimately show ?thesis
    by (auto simp: clamp_threads_per_block_def Let_def unat_clear_low5 [simplified] word_less_nat_alt not_less)
qed

lemma clamp_npt_range: "1 \<le> unat (clamp_nonces_per_thread v) \<and> unat (clamp_nonces_per_thread v) \<le> 16"
  by (auto simp: clamp_nonces_per_thread_def Let_def word_less_nat_alt not_less)

lemma forced_npt_range:
  "kernel_variant_forced_npt v \<noteq> 0 \<Longrightarrow>
   1 \<le> unat (kernel_variant_forced_npt v) \<and> unat (kernel_variant_forced_npt v) \<le> 16"
  by (auto simp: kernel_variant_forced_npt_def Let_def split: if_splits)

definition given_config :: "miner_cuda_config_t option \<Rightarrow> miner_cuda_config_t" where
  "given_config c = (case c of None \<Rightarrow> miner_cuda_config_defaults | Some c \<Rightarrow> c)"

lemma effective_config_fields:
  "cuda_threads_per_block (effective_config c) = clamp_threads_per_block (cuda_threads_per_block (given_config c))"
  "cuda_batch_size (effective_config c) = config_u32_or (cuda_batch_size (given_config c)) MINER_CUDA_DEFAULT_BATCH_SIZE"
  "cuda_max_results (effective_config c) =
    config_u32_or (cuda_max_results (given_config c)) MINER_CUDA_DEFAULT_MAX_RESULTS"
  "cuda_kernel_variant (effective_config c) = normalize_kernel_variant (cuda_kernel_variant (given_config c))"
  "cuda_nonces_per_thread (effective_config c) =
    (let f = kernel_variant_forced_npt (normalize_kernel_variant (cuda_kernel_variant (given_config c)))
     in if f \<noteq> 0 then f else clamp_nonces_per_thread (cuda_nonces_per_thread (given_config c)))"
  "cuda_device_index (effective_config c) = cuda_device_index (given_config c)"
  by (simp_all add: effective_config_def given_config_def Let_def)

lemma effective_config_ranges:
  "32 \<le> unat (cuda_threads_per_block (effective_config c))"
  "unat (cuda_threads_per_block (effective_config c)) \<le> 1024"
  "1 \<le> unat (cuda_nonces_per_thread (effective_config c))"
  "unat (cuda_nonces_per_thread (effective_config c)) \<le> 16"
  "cuda_batch_size (effective_config c) \<noteq> 0" "cuda_max_results (effective_config c) \<noteq> 0"
  "0 \<le> cuda_kernel_variant (effective_config c)" "cuda_kernel_variant (effective_config c) \<le> 8"
  "kernel_variant_forced_npt (cuda_kernel_variant (effective_config c)) \<in> {0, cuda_nonces_per_thread (effective_config c)}"
  unfolding effective_config_fields Let_def
  by (simp_all add: clamp_threads_range clamp_npt_range forced_npt_range config_u32_or_def
      normalize_kernel_variant_def gpu_constants del: One_nat_def)

text \<open>The kernel a variant names divides the range the way the settings say.\<close>

lemma module_kernel_divides:
  assumes "0 \<le> v" "v \<le> 8" "kernel_variant_forced_npt v \<in> {0, npt}"
  shows "divides_range (module_kernel (cuda_miner_kernel_function_name v)) npt"
proof -
  have "v \<in> {0, 1, 2, 3, 4, 5, 6, 7, 8}" using assms(1,2) by auto
  then show ?thesis using assms(3)
    by (auto simp: module_kernel_def module_functions_def cuda_miner_kernel_function_name_def
        normalize_kernel_variant_def kernel_variant_forced_npt_def gpu_constants cuda_variants Let_def
        divides_any divides_fixed divides_single)
qed

section \<open>Nothing is leaked\<close>

text \<open>The driver's handles are not NULL when it reports success.\<close>

definition handles_valid :: "cuda_env \<Rightarrow> bool" where
  "handles_valid env \<longleftrightarrow>
    (\<forall>d c. cuCtxCreate_v2 env d = (CUDA_SUCCESS, c) \<longrightarrow> c \<noteq> 0) \<and>
    (\<forall>c. cuModuleLoadData env = (CUDA_SUCCESS, c) \<longrightarrow> c \<noteq> 0) \<and>
    (\<forall>c. cuMemAlloc_count env = (CUDA_SUCCESS, c) \<longrightarrow> c \<noteq> 0) \<and>
    (\<forall>n c. cuMemAlloc_matches env n = (CUDA_SUCCESS, c) \<longrightarrow> c \<noteq> 0)"

definition all_resources :: "cuda_resource set" where
  "all_resources = {R_miner, R_context, R_module, R_count_buf, R_matches_buf, R_matches}"

lemma cuda_setup_resources:
  assumes "handles_valid env" "drv_loaded g" "cuda_miner_setup env g eff = (g', evs, r)"
  shows "case r of Inl e \<Rightarrow> track {} evs = Some {}
     | Inr m \<Rightarrow> track {} evs = Some all_resources \<and> track all_resources (cuda_miner_destroy g' (Some m)) = Some {}"
  using assms
  by (auto simp: cuda_miner_setup_def create_failed_def cuda_miner_destroy_def zero_cuda_miner_def handles_valid_def
      all_resources_def Let_def split: if_splits prod.splits)

lemma cuda_setup_settings:
  assumes "cuda_miner_setup env g eff = (g', evs, Inr m)"
  shows "cm_threads_per_block m = cuda_threads_per_block eff" "cm_nonces_per_thread m = cuda_nonces_per_thread eff"
    "cm_max_results m = cuda_max_results eff" "cm_batch_size m = cuda_batch_size eff"
    "cm_kernel m = cuda_miner_kernel_function_name (cuda_kernel_variant eff)"
  using assms
  by (auto simp: cuda_miner_setup_def create_failed_def Let_def split: if_splits prod.splits)

lemma cuda_setup_driver: "fst (cuda_miner_setup env g eff) = g"
  by (simp add: cuda_miner_setup_def create_failed_def Let_def split: prod.split)

lemma cuda_create_setup:
  assumes "cuda_miner_create env g config = (g', evs, r)"
  shows "drv_loaded g' \<and> cuda_miner_setup env g' (effective_config config) = (g', evs, r) \<or> evs = [] \<and> (\<exists>e. r = Inl e)"
  using assms cuda_driver_load_loaded [of env g] cuda_setup_driver [of env _ "effective_config config"]
  by (auto simp: cuda_miner_create_def Let_def split: if_splits prod.splits option.splits) (metis fst_conv)+

section \<open>The grid covers the range\<close>

lemma grid_covers:
  fixes n k b :: nat
  assumes "1 \<le> k" "1 \<le> b"
  defines "g \<equiv> ((n + k - 1) div k + b - 1) div b"
  shows "n \<le> g * b * k" and "g * b * k < n + b * k" and "g \<le> (n + k - 1) div k"
proof -
  let ?w = "(n + k - 1) div k"
  note w = ceil_div [OF assms(1), of n] and g = ceil_div [OF assms(2), of ?w, folded g_def]
  have "?w * k \<le> g * b * k" using g(1) by (rule mult_le_mono1)
  then show "n \<le> g * b * k" using w(1) by linarith
  have "g * b + 1 \<le> ?w + b" using g(2) by linarith
  then have "(g * b + 1) * k \<le> (?w + b) * k" by (rule mult_le_mono1)
  then show "g * b * k < n + b * k" using w(2) assms(1) by (simp add: algebra_simps)
  show "g \<le> ?w" unfolding g_def using assms(2)
    by (intro less_Suc_eq_le [THEN iffD1] less_mult_imp_div_less) (cases b; simp)
qed

lemma scan_grid_unat:
  assumes "1 \<le> unat npt" "1 \<le> unat tpb"
  shows "unat (scan_grid n npt tpb) = ((unat n + unat npt - 1) div unat npt + unat tpb - 1) div unat tpb"
proof -
  have b: "unat n < 2 ^ 32" "unat npt < 2 ^ 32" "unat tpb < 2 ^ 32" by (rule unat_u32_less)+
  have c: "unat (ucast x :: u64) = unat x" for x :: u32 by (simp add: unsigned_ucast_eq take_bit_nat_eq_self unat_u32_less [THEN less_trans])
  have sub1: "unat (x - 1 :: u64) = unat x - 1" if "1 \<le> unat x" for x
    using that by (simp add: unat_sub_if_size)
  have add: "unat (x + y :: u64) = unat x + unat y" if "unat x + unat y < 2 ^ 64" for x y
    using that by (simp add: unat_word_ariths)
  have s1: "unat (ucast n + ucast npt :: u64) = unat n + unat npt" using b by (simp add: add c)
  have w: "unat ((ucast n + ucast npt - 1 :: u64) div ucast npt) = (unat n + unat npt - 1) div unat npt"
    using assms by (simp add: unat_div c sub1 s1)
  have "(unat n + unat npt - 1) div unat npt \<le> unat n + unat npt - 1" by (rule div_le_dividend)
  moreover have "unat n + unat npt - 1 + unat tpb < 2 ^ 64" using b by simp
  ultimately have "(unat n + unat npt - 1) div unat npt + unat tpb < 2 ^ 64" by linarith
  then have "unat ((ucast n + ucast npt - 1 :: u64) div ucast npt + ucast tpb) =
      (unat n + unat npt - 1) div unat npt + unat tpb"
    by (subst add) (simp_all only: w c)
  then show ?thesis using assms by (simp add: scan_grid_def Let_def unat_div c sub1)
qed

section \<open>What a scan reports\<close>

text \<open>What creation guarantees of a device structure.\<close>

definition cuda_miner_ok :: "cuda_miner \<Rightarrow> bool" where
  "cuda_miner_ok m \<longleftrightarrow> 1 \<le> unat (cm_nonces_per_thread m) \<and> unat (cm_nonces_per_thread m) \<le> 16 \<and>
    32 \<le> unat (cm_threads_per_block m) \<and> unat (cm_threads_per_block m) \<le> 1024 \<and>
    cm_batch_size m \<noteq> 0 \<and> cm_max_results m \<noteq> 0 \<and>
    divides_range (module_kernel (cm_kernel m)) (cm_nonces_per_thread m)"

lemma cuda_create_ok:
  assumes "cuda_miner_create env g config = (g', evs, Inr m)"
  shows "cuda_miner_ok m"
proof -
  have s: "cuda_miner_setup env g' (effective_config config) = (g', evs, Inr m)"
    using cuda_create_setup [OF assms] by auto
  note r = effective_config_ranges [of config]
  show ?thesis
    using r module_kernel_divides [OF r(7-9)] by (simp add: cuda_miner_ok_def cuda_setup_settings [OF s])
qed

definition scan_launch ::
  "cuda_miner \<Rightarrow> 'ctx sha256_midstate_t \<Rightarrow> u32 list \<Rightarrow> u32 list \<Rightarrow> u32 \<Rightarrow> u32 \<Rightarrow> cuda_launch" where
  "scan_launch m st tail target start n =
    \<lparr>l_kernel = module_kernel (cm_kernel m), l_mid = fast_state st, l_tail = tail, l_target = target,
     l_start = start, l_count = n, l_npt = cm_nonces_per_thread m, l_max = cm_max_results m,
     l_grid = ucast (scan_grid n (cm_nonces_per_thread m) (cm_threads_per_block m)),
     l_block = cm_threads_per_block m\<rparr>"

text \<open>The sizes up to which the 32-bit arithmetic of the kernels is exact.\<close>

definition cuda_scan_fits :: "cuda_miner \<Rightarrow> u32 \<Rightarrow> bool" where
  "cuda_scan_fits m n \<longleftrightarrow>
    unat n + unat (cm_threads_per_block m) * unat (cm_nonces_per_thread m) \<le> 2 ^ 32 \<and>
    9 * unat (cm_max_results m) \<le> 2 ^ 32"

lemma scan_grid_fits:
  assumes "cuda_miner_ok m" "n \<noteq> 0"
  defines "g \<equiv> scan_grid n (cm_nonces_per_thread m) (cm_threads_per_block m)"
  shows "unat g \<le> unat n" and "g \<noteq> 0" and "\<not> g > 0xffffffff" and "unat (ucast g :: u32) = unat g"
proof -
  let ?k = "unat (cm_nonces_per_thread m)" and ?b = "unat (cm_threads_per_block m)"
  have kb: "1 \<le> ?k" "1 \<le> ?b" using assms(1) by (auto simp: cuda_miner_ok_def)
  note u = scan_grid_unat [OF kb, of n, folded g_def] and c = grid_covers [OF kb, of "unat n"]
  have n: "1 \<le> unat n" using assms(2) by (simp add: unat_gt_0 Suc_le_eq)
  have "unat n * 1 \<le> unat n * ?k" using kb(1) by (rule mult_le_mono2)
  then have "unat n + ?k - 1 < Suc (unat n) * ?k" using kb n unfolding mult_Suc by linarith
  then have "(unat n + ?k - 1) div ?k \<le> unat n"
    by (intro less_Suc_eq_le [THEN iffD1] less_mult_imp_div_less)
  then show le: "unat g \<le> unat n" using c(3) u by linarith
  have "unat g \<noteq> 0" using c(1) [folded u] n by (cases "unat g = 0") simp_all
  then show "g \<noteq> 0" by auto
  have lt: "unat g < 2 ^ 32" using le unat_u32_less [of n] by linarith
  then show "\<not> g > 0xffffffff" by (simp add: word_less_nat_alt)
  show "unat (ucast g :: u32) = unat g" using lt by (simp add: unsigned_ucast_eq take_bit_nat_eq_self)
qed

lemma scan_launch_good:
  assumes "cuda_miner_ok m" "cuda_scan_fits m n" "n \<noteq> 0" "length (fast_state st) = 8" "length tail = 4"
  shows "launch_good (scan_launch m st tail target start n)"
proof -
  let ?k = "unat (cm_nonces_per_thread m)" and ?b = "unat (cm_threads_per_block m)"
  have kb: "1 \<le> ?k" "1 \<le> ?b" using assms(1) by (auto simp: cuda_miner_ok_def)
  have "1 * ?k \<le> ?b * ?k" using kb(2) by (rule mult_le_mono1)
  then have "unat n + ?k \<le> 2 ^ 32" using assms(2) unfolding cuda_scan_fits_def by linarith
  then show ?thesis
    using assms grid_covers(1,2) [OF kb, of "unat n", folded scan_grid_unat [OF kb, of n]]
    by (simp add: launch_good_def scan_launch_def launch_size_def cuda_scan_fits_def cuda_miner_ok_def
        scan_grid_fits(4) [OF assms(1,3)])
qed

lemma report_items:
  assumes "9 * unat mx \<le> 2 ^ 32" "k \<le> unat mx"
  shows "foldl (\<lambda>opaque i. report_item f (take (k * 9) ms) opaque (of_nat i)) opaque [0..<k] =
    foldl (\<lambda>opaque (nonce, h). f opaque nonce h) opaque (map (read_slot ms) [0..<k])"
  unfolding foldl_map
proof (rule foldl_cong [OF refl refl])
  fix opaque i assume "i \<in> set [0..<k]"
  then have i: "i < k" by simp
  then have "9 * i < 2 ^ 32" using assms by simp
  then have u: "unat (of_nat i * 9 :: u32) = 9 * i"
    by (simp add: unat_word_ariths unat_of_nat take_bit_nat_eq_self)
  then show "report_item f (take (k * 9) ms) opaque (of_nat i) = (case read_slot ms i of (nonce, h) \<Rightarrow> f opaque nonce h)"
    using i by (auto simp: report_item_def Let_def read_slot_def intro!: arg_cong [where f = "f opaque _"])
qed

lemma cuda_scan_launch:
  assumes "cuda_miner_ok m" "cuda_scan_fits m n" "n \<noteq> 0"
    "cuda_miner_scan run (Some m) (Some st) (Some tail) (Some target) start n opaque (Some f) dev = (0, opaque', dev')"
  obtains s where "s = run_device run (launch_state (launch_progs (scan_launch m st tail target start n)) dev)"
    "dev' = matches (fst s)"
    "opaque' = (let k = min (unat (result_count (fst s))) (unat (cm_max_results m))
       in foldl (\<lambda>opaque (nonce, h). f opaque nonce h) opaque (map (read_slot dev') [0..<k]))"
proof -
  let ?s = "run_device run (launch_state (launch_progs (scan_launch m st tail target start n)) dev)"
  have p: "launch_threads (module_kernel (cm_kernel m))
      \<lparr>arg_fast = wvars_of (fast_state st), arg_target = wvars_of target, arg_tail = tail_args tail,
       arg_start_nonce = start, arg_nonce_count = n, arg_nonces_per_thread = cm_nonces_per_thread m,
       arg_max_results = cm_max_results m\<rparr>
      (ucast (scan_grid n (cm_nonces_per_thread m) (cm_threads_per_block m))) (cm_threads_per_block m)
      = launch_progs (scan_launch m st tail target start n)"
    by (simp add: launch_progs_def launch_args_def args_of_def scan_launch_def)
  let ?c = "result_count (fst ?s)" and ?mx = "cm_max_results m"
  let ?k = "min (unat ?c) (unat ?mx)"
  have k: "unat (if ?c < ?mx then ?c else ?mx) = ?k" by (auto simp: word_less_nat_alt)
  have fold: "foldl (\<lambda>opaque i. report_item f (take (?k * 9) dev') opaque (of_nat i)) opaque [0..<?k] =
      foldl (\<lambda>opaque (nonce, h). f opaque nonce h) opaque (map (read_slot dev') [0..<?k])"
    using assms(2) by (intro report_items [of ?mx]) (simp_all add: cuda_scan_fits_def)
  have pos: "0 < cm_max_results m" using assms(1) by (simp add: cuda_miner_ok_def word_gt_0)
  show ?thesis
  proof (rule that [OF refl])
    show "dev' = matches (fst ?s)"
      using assms(3,4) scan_grid_fits(2,3) [OF assms(1,3)]
      by (auto simp: cuda_miner_scan_def Let_def p split: if_splits prod.splits)
    then show "opaque' = (let k = ?k in foldl (\<lambda>opaque (nonce, h). f opaque nonce h) opaque (map (read_slot dev') [0..<k]))"
      using assms(3,4) scan_grid_fits(2,3) [OF assms(1,3)] fold pos unfolding k [symmetric]
      by (auto simp: cuda_miner_scan_def Let_def p split: if_splits prod.splits)
  qed
qed

lemma cuda_scan_matches:
  assumes "cuda_miner_ok m" "cuda_scan_fits m n" "device_contract (run_device run)"
    "length (fast_state st) = 8" "length tail = 4" "length dev = 9 * unat (cm_max_results m)"
    "cuda_miner_scan run (Some m) (Some st) (Some tail) (Some target) start n opaque (Some f) dev = (0, opaque', dev')"
  shows "\<exists>L. mset L = mset (scan_matches (tail_hash (fast_state st)) tail target (nonce_range start n)) \<and>
    opaque' = foldl (\<lambda>opaque (nonce, h). f opaque nonce h) opaque (take (unat (cm_max_results m)) L)"
proof (cases "n = 0")
  case True
  then show ?thesis using assms(7) by (simp add: cuda_miner_scan_def nonce_range_def scan_matches_def)
next
  case False
  let ?l = "scan_launch m st tail target start n"
  have good: "launch_good ?l" by (rule scan_launch_good [OF assms(1,2) False assms(4,5)])
  have mx: "l_max ?l = cm_max_results m" by (simp add: scan_launch_def)
  obtain s where s: "s = run_device run (launch_state (launch_progs ?l) dev)" "dev' = matches (fst s)"
    "opaque' = (let k = min (unat (result_count (fst s))) (unat (cm_max_results m))
       in foldl (\<lambda>opaque (nonce, h). f opaque nonce h) opaque (map (read_slot dev') [0..<k]))"
    by (rule cuda_scan_launch [OF assms(1,2) False assms(7)])
  have dev: "length dev = 9 * unat (l_max ?l)" using assms(6) mx by simp
  obtain L where L: "mset L = mset (concat (launch_found ?l))" "unat (result_count (fst s)) = length L"
    "map (read_slot (matches (fst s))) [0..<min (length L) (unat (l_max ?l))] = take (unat (l_max ?l)) L"
    by (rule cuda.device_results [OF good dev assms(3) s(1)])
  have "opaque' = foldl (\<lambda>opaque (nonce, h). f opaque nonce h) opaque (take (unat (cm_max_results m)) L)"
    using s(3) L(2,3) by (simp add: s(2) mx)
  moreover have "mset L = mset (scan_matches (tail_hash (fast_state st)) tail target (nonce_range start n))"
    using L(1) launch_found_concat [OF good] by (simp add: scan_launch_def)
  ultimately show ?thesis by blast
qed

text \<open>A scan with no failing call succeeds, and a failing one has reported nothing.\<close>

definition cuda_run_succeeds :: "cuda_run \<Rightarrow> bool" where
  "cuda_run_succeeds run \<longleftrightarrow> run_cuCtxSetCurrent run = CUDA_SUCCESS \<and> run_cuMemsetD32 run = CUDA_SUCCESS \<and>
    run_cuLaunchKernel run = CUDA_SUCCESS \<and> run_cuCtxSynchronize run = CUDA_SUCCESS \<and>
    run_copy_count run = CUDA_SUCCESS \<and> run_copy_matches run = CUDA_SUCCESS"

lemma cuda_scan_succeeds:
  assumes "cuda_miner_ok m" "cuda_run_succeeds run"
  shows "fst (cuda_miner_scan run (Some m) (Some st) (Some tail) (Some target) start n opaque on_match dev) = 0"
  using assms(2) scan_grid_fits(2,3) [OF assms(1)]
  by (cases "n = 0") (simp_all add: cuda_miner_scan_def cuda_run_succeeds_def Let_def split: prod.split)

lemma cuda_scan_failure:
  assumes "cuda_miner_scan run miner st tail target start n opaque on_match dev = (rc, opaque', dev')" "rc \<noteq> 0"
  shows "rc = -1 \<and> opaque' = opaque"
  using assms by (auto simp: cuda_miner_scan_def Let_def split: option.splits prod.splits if_splits)

text \<open>The callback only sees the reports: any callback gets the list a collecting one gathers.\<close>

lemma report_item_collect:
  "foldl (\<lambda>opaque i. report_item f host opaque (of_nat i)) opaque is =
   foldl (\<lambda>opaque (nonce, h). f opaque nonce h) opaque
     (foldl (\<lambda>found i. report_item collect_match host found (of_nat i)) [] is)"
  by (induction "is" rule: rev_induct) (simp_all add: report_item_def collect_match_def Let_def)

lemma cuda_scan_callback:
  "cuda_miner_scan run miner st tail target start n opaque (Some f) dev =
   (case cuda_miner_scan run miner st tail target start n [] (Some collect_match) dev of
      (rc, ms, dev') \<Rightarrow> (rc, foldl (\<lambda>opaque (nonce, h). f opaque nonce h) opaque ms, dev'))"
  unfolding cuda_miner_scan_def Let_def option.sel report_item_collect [of f]
  by (auto split: option.split prod.split)

text \<open>The reports of a scan as a list, \<open>None\<close> for a failed scan.\<close>

definition cuda_scan_list ::
  "cuda_run \<Rightarrow> cuda_miner \<Rightarrow> u32 list \<Rightarrow> 'ctx sha256_midstate_t \<Rightarrow> u32 list \<Rightarrow> u32 list \<Rightarrow> u32 \<Rightarrow> u32 \<Rightarrow> gpu_match list option" where
  "cuda_scan_list run m dev st tail target start n =
    (case cuda_miner_scan run (Some m) (Some st) (Some tail) (Some target) start n [] (Some collect_match) dev of
       (rc, ms, dev') \<Rightarrow> if rc = 0 then Some ms else None)"

lemma cuda_scan_list_matches:
  assumes "cuda_miner_ok m" "cuda_scan_fits m n" "device_contract (run_device run)"
    "length (fast_state st) = 8" "length tail = 4" "length dev = 9 * unat (cm_max_results m)"
    "cuda_scan_list run m dev st tail target start n = Some ms"
  shows "\<exists>L. mset L = mset (scan_matches (tail_hash (fast_state st)) tail target (nonce_range start n)) \<and>
    ms = take (unat (cm_max_results m)) L"
proof -
  obtain dev' where "cuda_miner_scan run (Some m) (Some st) (Some tail) (Some target) start n [] (Some collect_match) dev
      = (0, ms, dev')"
    using assms(7) by (auto simp: cuda_scan_list_def split: prod.splits if_splits)
  from cuda_scan_matches [OF assms(1-6) this] show ?thesis by (simp add: foldl_collect)
qed

section \<open>The self test\<close>

lemma cuda_self_test_reports:
  assumes "cuda_miner_create env g (Some ((given_config config)\<lparr>cuda_batch_size := 1024, cuda_max_results := 32\<rparr>)) = (g', evs, Inr m)"
  shows "snd (snd (cuda_miner_self_test ssl env run g config dev)) = None \<longleftrightarrow>
    (\<exists>ms. cuda_scan_list run m dev (sha256d_80_midstate_prepare ssl (take 64 make_self_test_header))
       self_test_tail self_test_target self_test_start 16 = Some ms \<and> self_test_passed (self_test_reports ssl ms))"
proof -
  let ?st = "sha256d_80_midstate_prepare ssl (take 64 make_self_test_header)"
  obtain rc ms dev' where s: "cuda_miner_scan run (Some m) (Some ?st) (Some self_test_tail) (Some self_test_target)
      self_test_start 16 [] (Some collect_match) dev = (rc, ms, dev')"
    by (metis prod_cases3)
  have f: "cuda_miner_scan run (Some m) (Some ?st) (Some self_test_tail) (Some self_test_target)
      self_test_start 16 self_test_context (Some (self_test_match ssl)) dev = (rc, self_test_reports ssl ms, dev')"
    by (simp add: cuda_scan_callback [of _ _ _ _ _ _ _ self_test_context] s self_test_reports_def)
  show ?thesis
    using assms
    by (simp add: cuda_miner_self_test_def given_config_def [symmetric] Let_def f cuda_scan_list_def s)
qed

section \<open>Properties\<close>

text \<open>A driver on which every call succeeds, with a device that runs its threads one by one.\<close>

definition demo_cuda :: cuda_env where
  "demo_cuda = \<lparr>dlopen_ok = (\<lambda>f. True), dlsym_ok = (\<lambda>f. True), cuInit = 0, cuDeviceGetCount = (0, 1),
     cuDriverGetVersion = (0, 12040), cuDeviceGet = (\<lambda>i. (0, i)), cuDeviceGetName = (\<lambda>d. ''gpu''),
     cuDeviceComputeCapability = (\<lambda>d. (8, 6)), cuCtxCreate_v2 = (\<lambda>d. (0, 1)), cuModuleLoadData = (0, 2),
     cuModuleGetFunction = (\<lambda>f. 0), cuMemAlloc_count = (0, 3), cuMemAlloc_matches = (\<lambda>n. (0, 4)),
     calloc_miner = True, calloc_matches = (\<lambda>n. True)\<rparr>"

definition demo_driver :: cuda_driver_t where
  "demo_driver = \<lparr>drv_attempted = False, drv_loaded = False\<rparr>"

definition demo_cuda_run :: cuda_run where
  "demo_cuda_run = \<lparr>run_cuCtxSetCurrent = 0, run_cuMemsetD32 = 0, run_cuLaunchKernel = 0, run_cuCtxSynchronize = 0,
     run_copy_count = 0, run_copy_matches = 0, run_device = seq_device\<rparr>"

definition demo_cuda_miner :: cuda_miner where
  "demo_cuda_miner = (case cuda_miner_create demo_cuda demo_driver None of (g, evs, Inr m) \<Rightarrow> m | _ \<Rightarrow> zero_cuda_miner)"

lemma demo_usable: "driver_usable demo_cuda"
  by (simp add: driver_usable_def demo_cuda_def CUDA_SUCCESS_def list_all_iff)

lemma demo_create_any:
  assumes "cuda_device_index (effective_config config) = 0"
  shows "\<exists>g evs m. cuda_miner_create demo_cuda demo_driver config = (g, evs, Inr m)"
proof -
  obtain g where "cuda_driver_load demo_cuda demo_driver = (g, None)"
    using cuda_driver_load_fresh(1) [of demo_driver demo_cuda] demo_usable
    by (cases "cuda_driver_load demo_cuda demo_driver") (simp add: demo_driver_def)
  then show ?thesis
    using assms
    by (simp add: cuda_miner_create_def cuda_miner_setup_def demo_cuda_def CUDA_SUCCESS_def Let_def)
qed

lemma demo_cuda_create: "\<exists>g evs. cuda_miner_create demo_cuda demo_driver None = (g, evs, Inr demo_cuda_miner)"
  using demo_create_any [of None]
  by (auto simp: demo_cuda_miner_def effective_config_fields given_config_def miner_cuda_config_defaults_def)

lemma demo_miner_settings:
  "cm_max_results demo_cuda_miner = 256" "cm_nonces_per_thread demo_cuda_miner = 1"
  "cm_threads_per_block demo_cuda_miner = 256"
proof -
  obtain g evs where "cuda_miner_create demo_cuda demo_driver None = (g, evs, Inr demo_cuda_miner)"
    using demo_cuda_create by blast
  then have s: "cuda_miner_setup demo_cuda g (effective_config None) = (g, evs, Inr demo_cuda_miner)"
    using cuda_create_setup by fastforce
  show "cm_max_results demo_cuda_miner = 256" "cm_nonces_per_thread demo_cuda_miner = 1"
    "cm_threads_per_block demo_cuda_miner = 256"
    by (simp_all add: cuda_setup_settings [OF s] effective_config_def miner_cuda_config_defaults_def
        config_u32_or_def clamp_threads_per_block_def clamp_nonces_per_thread_def normalize_kernel_variant_def
        kernel_variant_forced_npt_def gpu_constants cuda_variants Let_def)
qed

text \<open>C16. Creating a CUDA device leaks nothing: whichever call fails, everything acquired before is given
  back once, and a device that was created holds all six resources until destroying it gives each of
  them back once.\<close>

theorem cuda_create_no_leak:
  assumes "handles_valid env" "cuda_miner_create env g config = (g', evs, r)"
  shows "case r of Inl e \<Rightarrow> track {} evs = Some {}
     | Inr m \<Rightarrow> track {} evs = Some all_resources \<and> track all_resources (cuda_miner_destroy g' (Some m)) = Some {}"
  using cuda_create_setup [OF assms(2)] cuda_setup_resources [OF assms(1)] by fastforce

theorem cuda_create_no_leak_witness:
  "handles_valid demo_cuda \<and> (\<exists>g evs. cuda_miner_create demo_cuda demo_driver None = (g, evs, Inr demo_cuda_miner) \<and>
     track {} evs = Some all_resources \<and> track all_resources (cuda_miner_destroy g (Some demo_cuda_miner)) = Some {})"
proof -
  have h: "handles_valid demo_cuda" by (simp add: handles_valid_def demo_cuda_def)
  obtain g evs where c: "cuda_miner_create demo_cuda demo_driver None = (g, evs, Inr demo_cuda_miner)"
    using demo_cuda_create by blast
  show ?thesis using cuda_create_no_leak [OF h c] h c by auto
qed

text \<open>C11. A CUDA scan that returns 0 has called \<open>on_match\<close> exactly for matches of the range asked for, on
  a device with any of the nine kernels and any settings: each match once, with its hash, all of them if
  they fit in the result array and as many as fit otherwise. The range and the array have to be small
  enough for the 32-bit arithmetic of the kernels, and the device has to run all threads of a launch to
  their end, in any interleaving.\<close>

theorem cuda_scan_reports:
  assumes "cuda_miner_create env g config = (g', evs, Inr m)" "cuda_scan_fits m n"
    "device_contract (run_device run)" "prepared_midstate ssl st first64" "length tail = 4"
    "length dev = 9 * unat (cm_max_results m)"
    "cuda_miner_scan run (Some m) (Some st) (Some tail) (Some target) start n opaque (Some f) dev = (0, opaque', dev')"
  shows "\<exists>L. mset L = mset (scan_matches (tail_hash (compress fips_H0 (be32_words first64))) tail target
      (nonce_range start n)) \<and>
    opaque' = foldl (\<lambda>opaque (nonce, h). f opaque nonce h) opaque (take (unat (cm_max_results m)) L)"
proof -
  have fs: "fast_state st = compress fips_H0 (be32_words first64)"
    using assms(4) by (simp add: prepared_midstate_def midstate_prepare_fast_state)
  then have "length (fast_state st) = 8" by simp
  from cuda_scan_matches [OF cuda_create_ok [OF assms(1)] assms(2,3) this assms(5-7)] fs show ?thesis by simp
qed

theorem cuda_scan_reports_witness:
  "cuda_scan_fits demo_cuda_miner 3 \<and> device_contract (run_device demo_cuda_run) \<and>
   (\<exists>L found dev'. cuda_miner_scan demo_cuda_run (Some demo_cuda_miner)
       (Some (sha256d_80_midstate_prepare openssl_ref (replicate 64 1))) (Some (replicate 4 2))
       (Some (replicate 8 0xffffffff)) 7 3 [] (Some collect_match) (replicate (9 * 256) 0) = (0, found, dev') \<and>
     mset L = mset (scan_matches (tail_hash (compress fips_H0 (be32_words (replicate 64 1)))) (replicate 4 2)
       (replicate 8 0xffffffff) (nonce_range 7 3)) \<and> found = take 256 L)"
proof -
  let ?st = "sha256d_80_midstate_prepare openssl_ref (replicate 64 1)"
  have fits: "cuda_scan_fits demo_cuda_miner 3" by (simp add: cuda_scan_fits_def demo_miner_settings)
  have dc: "device_contract (run_device demo_cuda_run)" by (simp add: demo_cuda_run_def seq_device_contract)
  obtain g evs where c: "cuda_miner_create demo_cuda demo_driver None = (g, evs, Inr demo_cuda_miner)"
    using demo_cuda_create by blast
  have p: "prepared_midstate openssl_ref ?st (replicate 64 1)" by (simp add: prepared_midstate_def)
  have d: "length (replicate (9 * 256) (0 :: u32)) = 9 * unat (cm_max_results demo_cuda_miner)"
    by (simp add: demo_miner_settings)
  obtain rc found dev' where s: "cuda_miner_scan demo_cuda_run (Some demo_cuda_miner) (Some ?st) (Some (replicate 4 2))
      (Some (replicate 8 0xffffffff)) 7 3 [] (Some collect_match) (replicate (9 * 256) 0) = (rc, found, dev')"
    by (metis prod_cases3)
  have "rc = 0"
    using cuda_scan_succeeds [OF cuda_create_ok [OF c], of demo_cuda_run ?st "replicate 4 2" "replicate 8 0xffffffff" 7 3
        "[]" "Some collect_match" "replicate (9 * 256) 0"] s
    by (simp add: cuda_run_succeeds_def demo_cuda_run_def CUDA_SUCCESS_def)
  then show ?thesis
    using cuda_scan_reports [OF c fits dc p _ d, of "replicate 4 2" "replicate 8 0xffffffff" 7 "[]" collect_match found dev']
      s fits dc by (auto simp: foldl_collect demo_miner_settings simp del: replicate_numeral)
qed

text \<open>A device whose calls succeed and whose threads run to their end passes the self test.\<close>

lemma cuda_self_test_passes:
  assumes "cuda_miner_create env g (Some ((given_config config)\<lparr>cuda_batch_size := 1024, cuda_max_results := 32\<rparr>))
      = (g', evs, Inr m)"
    "openssl_contract ssl" "device_contract (run_device run)" "cuda_run_succeeds run" "length dev = 288"
  shows "snd (snd (cuda_miner_self_test ssl env run g config dev)) = None"
proof -
  define st where "st = sha256d_80_midstate_prepare ssl (take 64 make_self_test_header)"
  let ?scan = "cuda_scan_list run m dev st self_test_tail self_test_target self_test_start 16"
  note v = cuda_self_test_reports [OF assms(1), of ssl run dev, folded st_def]
  have ok: "cuda_miner_ok m" by (rule cuda_create_ok [OF assms(1)])
  have mx: "cm_max_results m = 32"
    using cuda_create_setup [OF assms(1)] cuda_setup_settings(3) [of env g' _ g' evs m]
    by (auto simp: effective_config_fields given_config_def config_u32_or_def)
  have "unat (cm_threads_per_block m) * unat (cm_nonces_per_thread m) \<le> 1024 * 16"
    using ok by (intro mult_le_mono) (simp_all add: cuda_miner_ok_def)
  then have fits: "cuda_scan_fits m 16" by (simp add: cuda_scan_fits_def mx)
  have fs: "length (fast_state st) = 8" by (simp add: st_def midstate_prepare_fast_state)
  obtain ms where ms: "?scan = Some ms"
    using cuda_scan_succeeds [OF ok assms(4), of st self_test_tail self_test_target self_test_start 16 "[]" "Some collect_match" dev]
    by (cases "cuda_miner_scan run (Some m) (Some st) (Some self_test_tail) (Some self_test_target) self_test_start 16 []
          (Some collect_match) dev") (simp add: cuda_scan_list_def)
  obtain L where L: "mset L = mset (scan_matches (tail_hash (fast_state st)) self_test_tail self_test_target
      (nonce_range self_test_start 16))" "ms = take 32 L"
    using cuda_scan_list_matches [OF ok fits assms(3) fs self_test_words(1) _ ms] assms(5) by (auto simp: mx)
  have "length L \<le> 16"
    using mset_eq_length [OF L(1)] length_scan_matches [of "tail_hash (fast_state st)" self_test_tail
        self_test_target "nonce_range self_test_start 16"] by simp
  then have "mset ms = mset (scan_matches (tail_hash (fast_state st)) self_test_tail self_test_target
      (nonce_range self_test_start 16))" using L by simp
  from self_test_good_reports [OF assms(2) st_def this] ms show ?thesis unfolding v by blast
qed

text \<open>The CUDA self test judges by what the device reports: it passes exactly when the scan succeeds
  and reports each of the sixteen test nonces once, with the hash the CPU computes, and nothing else. A
  device that runs its threads to their end and whose calls succeed passes.\<close>

theorem cuda_self_test_verdict:
  assumes "cuda_miner_create env g (Some ((given_config config)\<lparr>cuda_batch_size := 1024, cuda_max_results := 32\<rparr>))
      = (g', evs, Inr m)"
    "st = sha256d_80_midstate_prepare ssl (take 64 make_self_test_header)"
  shows "(snd (snd (cuda_miner_self_test ssl env run g config dev)) = None \<longleftrightarrow>
      (\<exists>ms. cuda_scan_list run m dev st self_test_tail self_test_target self_test_start 16 = Some ms \<and>
         mset (map fst ms) = mset (nonce_range self_test_start 16) \<and> (\<forall>r\<in>set ms. report_ok ssl r))) \<and>
    (openssl_contract ssl \<longrightarrow> device_contract (run_device run) \<longrightarrow> cuda_run_succeeds run \<longrightarrow> length dev = 288 \<longrightarrow>
      snd (snd (cuda_miner_self_test ssl env run g config dev)) = None)"
proof
  note v = cuda_self_test_reports [OF assms(1), of ssl run dev, folded assms(2)]
  show "snd (snd (cuda_miner_self_test ssl env run g config dev)) = None \<longleftrightarrow>
      (\<exists>ms. cuda_scan_list run m dev st self_test_tail self_test_target self_test_start 16 = Some ms \<and>
        mset (map fst ms) = mset (nonce_range self_test_start 16) \<and> (\<forall>r\<in>set ms. report_ok ssl r))"
    unfolding v self_test_verdict_iff by blast
qed (blast intro: cuda_self_test_passes [OF assms(1)])

theorem cuda_self_test_verdict_witness:
  "snd (snd (cuda_miner_self_test openssl_ref demo_cuda demo_cuda_run demo_driver None (replicate 288 0))) = None"
proof -
  let ?c = "Some ((given_config None)\<lparr>cuda_batch_size := 1024, cuda_max_results := 32\<rparr>)"
  have "cuda_device_index (effective_config ?c) = 0"
    by (simp add: effective_config_fields given_config_def miner_cuda_config_defaults_def)
  then obtain g evs m where c: "cuda_miner_create demo_cuda demo_driver ?c = (g, evs, Inr m)"
    using demo_create_any by blast
  show ?thesis
    using cuda_self_test_verdict [OF c refl, of openssl_ref demo_cuda_run "replicate 288 0"] openssl_contract_ref
    by (simp add: demo_cuda_run_def seq_device_contract cuda_run_succeeds_def CUDA_SUCCESS_def)
qed

end
