(* ===== verification/Opencl_Kernel.thy ===== *)
theory Opencl_Kernel
  imports Cuda_Kernel
begin

unbundle bit_operations_syntax

text \<open>
  The OpenCL kernels, the program text that \<open>src/src/opencl_miner.c\<close> hands to the OpenCL compiler: the
  compact compression loop over a ring of sixteen schedule words, its vector form that hashes two nonces
  in the lanes of a \<open>uint2\<close>, the unrolled compression, the scan of one and of two nonces, and the eight
  kernels. The macro \<open>SHA256_COMPRESS_SCALAR\<close> and the unrolled \<open>compress\<close> have the rounds of the CUDA
  macro \<open>SHA256_COMPRESS\<close>, word for word, and \<open>meets_target_words\<close> and \<open>store_match_words\<close> are those of the
  CUDA source, so the definitions of \<open>Gpu_Sha256\<close> and \<open>Cuda_Kernel\<close> stand for both.

  Main result: like the CUDA kernels, every OpenCL kernel makes every work item report exactly the
  matches of its share of the nonces.
\<close>

section \<open>The compact compression loop\<close>

definition K256 :: "u32 list" where
  "K256 = concat
    [[0x428a2f98, 0x71374491, 0xb5c0fbcf, 0xe9b5dba5, 0x3956c25b, 0x59f111f1, 0x923f82a4, 0xab1c5ed5],
     [0xd807aa98, 0x12835b01, 0x243185be, 0x550c7dc3, 0x72be5d74, 0x80deb1fe, 0x9bdc06a7, 0xc19bf174],
     [0xe49b69c1, 0xefbe4786, 0x0fc19dc6, 0x240ca1cc, 0x2de92c6f, 0x4a7484aa, 0x5cb0a9dc, 0x76f988da],
     [0x983e5152, 0xa831c66d, 0xb00327c8, 0xbf597fc7, 0xc6e00bf3, 0xd5a79147, 0x06ca6351, 0x14292967],
     [0x27b70a85, 0x2e1b2138, 0x4d2c6dfc, 0x53380d13, 0x650a7354, 0x766a0abb, 0x81c2c92e, 0x92722c85],
     [0xa2bfe8a1, 0xa81a664b, 0xc24b8b70, 0xc76c51a3, 0xd192e819, 0xd6990624, 0xf40e3585, 0x106aa070],
     [0x19a4c116, 0x1e376c08, 0x2748774c, 0x34b0bcb5, 0x391c0cb3, 0x4ed8aa4a, 0x5b9cca4f, 0x682e6ff3],
     [0x748f82ee, 0x78a5636f, 0x84c87814, 0x8cc70208, 0x90befffa, 0xa4506ceb, 0xbef9a3f7, 0xc67178f2]]"

text \<open>One round: the schedule word comes from the message for the first sixteen rounds and replaces the
  oldest word of the ring afterwards.\<close>

fun compact_round :: "u32 list \<times> wvars \<Rightarrow> nat \<Rightarrow> u32 list \<times> wvars" where
  "compact_round (w, a, b, c, d, e, f, g, h) i =
    (let (wi, w) =
       (if i < 16 then (w ! i, w)
        else let j = i AND 15;
                 wi = w ! j + SS1 (w ! ((j + 14) AND 15)) + w ! ((j + 9) AND 15) + SS0 (w ! ((j + 1) AND 15))
             in (wi, w[j := wi]));
         t1 = h + BS1 e + CH e f g + K256 ! i + wi;
         t2 = BS0 a + MAJ a b c
     in (w, t1 + t2, a, b, c, d + t1, e, f, g))"

definition compress_compact :: "u32 list \<Rightarrow> u32 list \<Rightarrow> u32 list \<times> u32 list" where
  "compress_compact st w =
    (let (w, a, b, c, d, e, f, g, h) =
       foldl compact_round (w, st ! 0, st ! 1, st ! 2, st ! 3, st ! 4, st ! 5, st ! 6, st ! 7) [0..<64]
     in ([st ! 0 + a, st ! 1 + b, st ! 2 + c, st ! 3 + d, st ! 4 + e, st ! 5 + f, st ! 6 + g, st ! 7 + h], w))"

text \<open>The unrolled \<open>compress\<close> copies both arrays to scalars and writes back the state only.\<close>

definition compress_unrolled :: "u32 list \<Rightarrow> u32 list \<Rightarrow> u32 list \<times> u32 list" where
  "compress_unrolled st w =
    (let (s, x) = SHA256_COMPRESS CH MAJ (wvars_of st) (wmsg_of w) in (list_of_wvars s, w))"

section \<open>Two lanes\<close>

text \<open>A \<open>uint2\<close>: every operator works on both lanes, and \<open>(u32v)(x)\<close> has \<open>x\<close> in both.\<close>

type_synonym u32v = "u32 \<times> u32"

definition splat :: "u32 \<Rightarrow> u32v" where
  "splat x = (x, x)"

definition lanewise1 :: "(u32 \<Rightarrow> u32) \<Rightarrow> u32v \<Rightarrow> u32v" where
  "lanewise1 f x = (f (fst x), f (snd x))"

definition lanewise2 :: "(u32 \<Rightarrow> u32 \<Rightarrow> u32) \<Rightarrow> u32v \<Rightarrow> u32v \<Rightarrow> u32v" where
  "lanewise2 f x y = (f (fst x) (fst y), f (snd x) (snd y))"

abbreviation vadd :: "u32v \<Rightarrow> u32v \<Rightarrow> u32v" where "vadd \<equiv> lanewise2 (+)"
abbreviation vand :: "u32v \<Rightarrow> u32v \<Rightarrow> u32v" where "vand \<equiv> lanewise2 (AND)"
abbreviation vor :: "u32v \<Rightarrow> u32v \<Rightarrow> u32v" where "vor \<equiv> lanewise2 (OR)"
abbreviation vxor :: "u32v \<Rightarrow> u32v \<Rightarrow> u32v" where "vxor \<equiv> lanewise2 (XOR)"
abbreviation vnot :: "u32v \<Rightarrow> u32v" where "vnot \<equiv> lanewise1 NOT"
abbreviation vshl :: "nat \<Rightarrow> u32v \<Rightarrow> u32v" where "vshl n \<equiv> lanewise1 (push_bit n)"
abbreviation vshr :: "nat \<Rightarrow> u32v \<Rightarrow> u32v" where "vshr n \<equiv> lanewise1 (drop_bit n)"

definition rotr32v :: "u32v \<Rightarrow> nat \<Rightarrow> u32v" where
  "rotr32v x n = vor (vshr n x) (vshl (32 - n) x)"

definition bswap32v :: "u32v \<Rightarrow> u32v" where
  "bswap32v v =
    vor (vor (vor (vshl 24 (vand v (splat 0x000000ff))) (vshl 8 (vand v (splat 0x0000ff00))))
      (vshr 8 (vand v (splat 0x00ff0000)))) (vshr 24 (vand v (splat 0xff000000)))"

definition SS0V :: "u32v \<Rightarrow> u32v" where
  "SS0V x = vxor (vxor (rotr32v x 7) (rotr32v x 18)) (vshr 3 x)"

definition SS1V :: "u32v \<Rightarrow> u32v" where
  "SS1V x = vxor (vxor (rotr32v x 17) (rotr32v x 19)) (vshr 10 x)"

definition BS0V :: "u32v \<Rightarrow> u32v" where
  "BS0V x = vxor (vxor (rotr32v x 2) (rotr32v x 13)) (rotr32v x 22)"

definition BS1V :: "u32v \<Rightarrow> u32v" where
  "BS1V x = vxor (vxor (rotr32v x 6) (rotr32v x 11)) (rotr32v x 25)"

definition CHV :: "u32v \<Rightarrow> u32v \<Rightarrow> u32v \<Rightarrow> u32v" where
  "CHV x y z = vxor (vand x y) (vand (vnot x) z)"

definition MAJV :: "u32v \<Rightarrow> u32v \<Rightarrow> u32v \<Rightarrow> u32v" where
  "MAJV x y z = vxor (vxor (vand x y) (vand x z)) (vand y z)"

text \<open>The table \<open>K256V\<close> repeats \<open>K256\<close>.\<close>

definition K256V :: "u32 list" where
  "K256V = K256"

type_synonym vvars = "u32v \<times> u32v \<times> u32v \<times> u32v \<times> u32v \<times> u32v \<times> u32v \<times> u32v"

fun vec2_round :: "u32v list \<times> vvars \<Rightarrow> nat \<Rightarrow> u32v list \<times> vvars" where
  "vec2_round (w, a, b, c, d, e, f, g, h) i =
    (let (wi, w) =
       (if i < 16 then (w ! i, w)
        else let j = i AND 15;
                 wi = vadd (vadd (vadd (w ! j) (SS1V (w ! ((j + 14) AND 15)))) (w ! ((j + 9) AND 15)))
                        (SS0V (w ! ((j + 1) AND 15)))
             in (wi, w[j := wi]));
         t1 = vadd (vadd (vadd (vadd h (BS1V e)) (CHV e f g)) (splat (K256V ! i))) wi;
         t2 = vadd (BS0V a) (MAJV a b c)
     in (w, vadd t1 t2, a, b, c, vadd d t1, e, f, g))"

definition compress_vec2 :: "u32v list \<Rightarrow> u32v list \<Rightarrow> u32v list \<times> u32v list" where
  "compress_vec2 st w =
    (let (w, a, b, c, d, e, f, g, h) =
       foldl vec2_round (w, st ! 0, st ! 1, st ! 2, st ! 3, st ! 4, st ! 5, st ! 6, st ! 7) [0..<64]
     in ([vadd (st ! 0) a, vadd (st ! 1) b, vadd (st ! 2) c, vadd (st ! 3) d,
          vadd (st ! 4) e, vadd (st ! 5) f, vadd (st ! 6) g, vadd (st ! 7) h], w))"

section \<open>Scanning nonces\<close>

definition meets_target :: "u32 list \<Rightarrow> wvars \<Rightarrow> bool" where
  "meets_target hash ts =
    (let (t0, t1, t2, t3, t4, t5, t6, t7) = ts;
         h = bswap32 (hash ! 7) in if h < t7 then True else if h > t7 then False else
     let h = bswap32 (hash ! 6) in if h < t6 then True else if h > t6 then False else
     let h = bswap32 (hash ! 5) in if h < t5 then True else if h > t5 then False else
     let h = bswap32 (hash ! 4) in if h < t4 then True else if h > t4 then False else
     let h = bswap32 (hash ! 3) in if h < t3 then True else if h > t3 then False else
     let h = bswap32 (hash ! 2) in if h < t2 then True else if h > t2 then False else
     let h = bswap32 (hash ! 1) in if h < t1 then True else if h > t1 then False else
     let h = bswap32 (hash ! 0) in if h < t0 then True else if h > t0 then False else
     True)"

definition store_match :: "u32 \<Rightarrow> u32 list \<Rightarrow> u32 \<Rightarrow> dprog" where
  "store_match nonce out max_results =
    Atomic_Add 1 (\<lambda>idx.
      if idx < max_results
      then let base = idx * 9 in
        Store base nonce (
        Store (base + 1) (out ! 0) (
        Store (base + 2) (out ! 1) (
        Store (base + 3) (out ! 2) (
        Store (base + 4) (out ! 3) (
        Store (base + 5) (out ! 4) (
        Store (base + 6) (out ! 5) (
        Store (base + 7) (out ! 6) (
        Store (base + 8) (out ! 7) Done))))))))
      else Done)"

text \<open>The \<open>scan_one_nonce\<close> of the tail helpers works on arrays, with the \<open>compress\<close> of the text before it.\<close>

definition scan_one_nonce_arrays ::
  "(u32 list \<Rightarrow> u32 list \<Rightarrow> u32 list \<times> u32 list) \<Rightarrow> kernel_args \<Rightarrow> u32 \<Rightarrow> dprog" where
  "scan_one_nonce_arrays compress_fn A nonce =
    (let (fast0, fast1, fast2, fast3, fast4, fast5, fast6, fast7) = arg_fast A;
         (tail0, tail1, tail2) = arg_tail A;
         st = [fast0, fast1, fast2, fast3, fast4, fast5, fast6, fast7];
         w = [tail0, tail1, tail2, bswap32 nonce, 0x80000000, 0, 0, 0, 0, 0, 0, 0, 0, 0, 0, 640];
         (st, w) = compress_fn st w;
         out = [0x6a09e667, 0xbb67ae85, 0x3c6ef372, 0xa54ff53a, 0x510e527f, 0x9b05688c, 0x1f83d9ab, 0x5be0cd19];
         w = [st ! 0, st ! 1, st ! 2, st ! 3, st ! 4, st ! 5, st ! 6, st ! 7,
              0x80000000, 0, 0, 0, 0, 0, 0, 256];
         (out, w) = compress_fn out w
     in if meets_target out (arg_target A) then store_match nonce out (arg_max_results A) else Done)"

text \<open>The \<open>scan_one_nonce\<close> of the modern helpers is that of the CUDA source, \<open>scan_one_at\<close>. The vector
  form scans \<open>nonce0\<close> and its successor, the latter only for show when it is past the range.\<close>

definition lane0 :: "u32v list \<Rightarrow> wvars" where
  "lane0 h = (fst (h ! 0), fst (h ! 1), fst (h ! 2), fst (h ! 3), fst (h ! 4), fst (h ! 5), fst (h ! 6), fst (h ! 7))"

definition lane1 :: "u32v list \<Rightarrow> wvars" where
  "lane1 h = (snd (h ! 0), snd (h ! 1), snd (h ! 2), snd (h ! 3), snd (h ! 4), snd (h ! 5), snd (h ! 6), snd (h ! 7))"

definition scan_two_nonces_vec :: "kernel_args \<Rightarrow> u32 \<Rightarrow> bool \<Rightarrow> dprog" where
  "scan_two_nonces_vec A nonce0 second_valid =
    (let (fast0, fast1, fast2, fast3, fast4, fast5, fast6, fast7) = arg_fast A;
         (tail0, tail1, tail2) = arg_tail A;
         nonce = (nonce0, nonce0 + 1);
         s = [splat fast0, splat fast1, splat fast2, splat fast3, splat fast4, splat fast5, splat fast6, splat fast7];
         w = [splat tail0, splat tail1, splat tail2, bswap32v nonce,
              splat 0x80000000, splat 0, splat 0, splat 0, splat 0, splat 0, splat 0, splat 0,
              splat 0, splat 0, splat 0, splat 640];
         (s, w) = compress_vec2 s w;
         h = [splat 0x6a09e667, splat 0xbb67ae85, splat 0x3c6ef372, splat 0xa54ff53a,
              splat 0x510e527f, splat 0x9b05688c, splat 0x1f83d9ab, splat 0x5be0cd19];
         w = [s ! 0, s ! 1, s ! 2, s ! 3, s ! 4, s ! 5, s ! 6, s ! 7,
              splat 0x80000000, splat 0, splat 0, splat 0, splat 0, splat 0, splat 0, splat 256];
         (h, w) = compress_vec2 h w
     in dseq (if meets_target_words (lane0 h) (arg_target A)
              then store_match_words nonce0 (lane0 h) (arg_max_results A) else Done)
             (if second_valid \<and> meets_target_words (lane1 h) (arg_target A)
              then store_match_words (nonce0 + 1) (lane1 h) (arg_max_results A) else Done))"

section \<open>Kernels\<close>

text \<open>A kernel runs once per work item, with \<open>(u32)get_global_id(0)\<close>. The kernels of the tail text call
  the \<open>scan_one_nonce\<close> of the helpers they are compiled with (\<open>SCAN_ONE\<close>).\<close>

type_synonym opencl_kernel = "kernel_args \<Rightarrow> u32 \<Rightarrow> dprog"
type_synonym scan_one = "kernel_args \<Rightarrow> u32 \<Rightarrow> dprog"

definition scan_nonce_range_npi1 :: "scan_one \<Rightarrow> opencl_kernel" where
  "scan_nonce_range_npi1 scan A gid =
    (if gid \<ge> arg_nonce_count A then Done else scan A (arg_start_nonce A + gid))"

definition scan_nonce_range_npi2 :: "scan_one \<Rightarrow> opencl_kernel" where
  "scan_nonce_range_npi2 scan A gid =
    (let base_nonce = gid * 2
     in if base_nonce \<ge> arg_nonce_count A then Done
        else dseq (scan A (arg_start_nonce A + base_nonce))
          (if base_nonce + 1 < arg_nonce_count A then scan A (arg_start_nonce A + (base_nonce + 1)) else Done))"

definition scan_nonce_range_npi4 :: "scan_one \<Rightarrow> opencl_kernel" where
  "scan_nonce_range_npi4 scan A gid =
    (let base_nonce = gid * 4
     in if base_nonce \<ge> arg_nonce_count A then Done
        else dseq (scan A (arg_start_nonce A + base_nonce))
          (dseq (if base_nonce + 1 < arg_nonce_count A then scan A (arg_start_nonce A + (base_nonce + 1)) else Done)
          (dseq (if base_nonce + 2 < arg_nonce_count A then scan A (arg_start_nonce A + (base_nonce + 2)) else Done)
                (if base_nonce + 3 < arg_nonce_count A then scan A (arg_start_nonce A + (base_nonce + 3)) else Done))))"

definition scan_nonce_range :: "scan_one \<Rightarrow> opencl_kernel" where
  "scan_nonce_range scan A gid =
    (if arg_nonce_count A = 0 then Done
     else let work_items = (arg_nonce_count A - 1) div arg_nonces_per_thread A + 1
     in if gid \<ge> work_items then Done
     else let base_nonce = gid * arg_nonces_per_thread A;
              limit = arg_nonces_per_thread A;
              limit = (if base_nonce + limit > arg_nonce_count A then arg_nonce_count A - base_nonce else limit)
          in for_items limit (\<lambda>item. scan A (arg_start_nonce A + (base_nonce + item))))"

text \<open>The fixed kernels of the modern text have the bodies of the \<open>npi\<close> kernels.\<close>

definition modern_scan_nonce_range_fixed_npi1 :: opencl_kernel where
  "modern_scan_nonce_range_fixed_npi1 A gid =
    (if gid \<ge> arg_nonce_count A then Done else scan_one_at A (arg_start_nonce A + gid))"

definition modern_scan_nonce_range_fixed_npi2 :: opencl_kernel where
  "modern_scan_nonce_range_fixed_npi2 = scan_nonce_range_npi2 scan_one_at"

definition modern_scan_nonce_range_fixed_npi4 :: opencl_kernel where
  "modern_scan_nonce_range_fixed_npi4 = scan_nonce_range_npi4 scan_one_at"

definition modern_scan_nonce_range_register_heavy :: opencl_kernel where
  "modern_scan_nonce_range_register_heavy A gid =
    (let base_nonce = gid * 2
     in if base_nonce \<ge> arg_nonce_count A then Done
        else scan_two_nonces_vec A (arg_start_nonce A + base_nonce) (base_nonce + 1 < arg_nonce_count A))"

text \<open>The work items of a launch over \<open>global\<close> work items.\<close>

definition range_items :: "opencl_kernel \<Rightarrow> kernel_args \<Rightarrow> nat \<Rightarrow> dprog list" where
  "range_items kern A global = map (\<lambda>i. kern A (of_nat i)) [0..<global]"

section \<open>The compact loop computes the compression function\<close>

lemma K256_fips: "K256 = fips_K"
  by (simp add: K256_def k_sha256_round_constants_fips [symmetric] k_sha256_round_constants_def)

lemma and_15: "n AND 15 = n mod (16 :: nat)" "15 AND n = n mod (16 :: nat)"
  using take_bit_eq_mask [of 4 n] by (simp_all add: take_bit_eq_mod mask_eq_exp_minus_1 and.commute)

text \<open>The ring holds the sixteen latest schedule words.\<close>

definition ring_window :: "u32 list \<Rightarrow> nat \<Rightarrow> u32 list \<Rightarrow> bool" where
  "ring_window M n w \<longleftrightarrow> length w = 16 \<and> (\<forall>t. t < max n 16 \<longrightarrow> max n 16 \<le> t + 16 \<longrightarrow> w ! (t mod 16) = W M t)"

lemma ring_window_init: "length M = 16 \<Longrightarrow> ring_window M 0 M"
  by (auto simp: ring_window_def W.simps)

lemma compact_round_spec:
  assumes "ring_window M n w" "length M = 16"
  obtains w' where "compact_round (w, v) n = (w', sha_round (fips_K ! n + W M n) v)" "ring_window M (Suc n) w'"
proof -
  obtain a b c d e f g h where v: "v = (a, b, c, d, e, f, g, h)" by (metis list_of_wvars.cases)
  have r: "w ! (t mod 16) = W M t" if "t < max n 16" "max n 16 \<le> t + 16" for t
    using assms(1) that by (simp add: ring_window_def)
  show ?thesis
  proof (cases "n < 16")
    case True
    have "w ! n = W M n" using r [of n] True by simp
    then have "compact_round (w, v) n = (w, sha_round (fips_K ! n + W M n) v)"
      using True by (simp add: v K256_fips BS0_def BS1_def CH_def MAJ_def Sigma0_def Sigma1_def Ch_def Maj_def
          rotr32_word_rotr ac_simps)
    moreover have "ring_window M (Suc n) w" using assms(1) True by (auto simp: ring_window_def max_def)
    ultimately show ?thesis using that by blast
  next
    case False
    let ?w = "w[n mod 16 := W M n]"
    have m: "n = n - 16 + 16" using False by simp
    have "(n mod 16 + k) mod 16 = (n - (16 - k)) mod 16" if "k \<le> 16" for k
      using that by (subst (1 2) m) (simp add: mod_simps add.commute)
    then have words: "w ! ((n mod 16 + k) mod 16) = W M (n - (16 - k))" if "k < 16" for k
      using r [of "n - (16 - k)"] that False by simp
    have "w ! (n mod 16) + SS1 (w ! ((n mod 16 + 14) mod 16)) + w ! ((n mod 16 + 9) mod 16)
        + SS0 (w ! ((n mod 16 + 1) mod 16)) = W M n"
      using False words [of 0] words [of 14] words [of 9] words [of 1]
      by (simp add: SS0_def SS1_def sigma0_def sigma1_def rotr32_word_rotr W.simps [of M n] ac_simps)
    then have "compact_round (w, v) n = (?w, sha_round (fips_K ! n + W M n) v)"
      using False by (simp add: v and_15 Let_def K256_fips BS0_def BS1_def CH_def MAJ_def Sigma0_def Sigma1_def Ch_def Maj_def
          rotr32_word_rotr ac_simps)
    moreover have "ring_window M (Suc n) ?w"
      unfolding ring_window_def
    proof (intro conjI allI impI)
      fix t assume t: "t < max (Suc n) 16" "max (Suc n) 16 \<le> t + 16"
      show "?w ! (t mod 16) = W M t"
      proof (cases "t = n")
        case True
        then show ?thesis using assms(1) by (simp add: ring_window_def)
      next
        case neq: False
        then have "t < n" "n - t < 16" using t False by auto
        then have "t mod 16 \<noteq> n mod 16" using mod_eq_dvd_iff_nat [of t n 16] dvd_imp_le [of 16 "n - t"] by auto
        then show ?thesis using r [of t] t False neq by simp
      qed
    qed (use assms(1) in \<open>simp add: ring_window_def\<close>)
    ultimately show ?thesis using that by blast
  qed
qed

lemma compact_loop:
  assumes "length M = 16"
  shows "\<exists>w. foldl compact_round (M, v) [0..<n] = (w, rounds M 0 n v) \<and> ring_window M n w"
proof (induction n)
  case 0
  then show ?case using ring_window_init [OF assms] by simp
next
  case (Suc n)
  then obtain w where w: "foldl compact_round (M, v) [0..<n] = (w, rounds M 0 n v)" "ring_window M n w" by blast
  obtain w' where "compact_round (w, rounds M 0 n v) n = (w', sha_round (fips_K ! n + W M n) (rounds M 0 n v))"
    "ring_window M (Suc n) w'"
    by (rule compact_round_spec [OF w(2) assms])
  then show ?case by (simp add: w(1) rounds_Suc del: compact_round.simps)
qed

lemma compress_compact_spec:
  assumes "length st = 8" "length w = 16"
  shows "fst (compress_compact st w) = compress st w"
proof -
  obtain a b c d e f g h where v: "rounds w 0 64 (wvars_of st) = (a, b, c, d, e, f, g, h)"
    by (metis list_of_wvars.cases)
  obtain w' where l: "foldl compact_round (w, wvars_of st) [0..<64] = (w', rounds w 0 64 (wvars_of st))"
    using compact_loop [OF assms(2)] by blast
  have "fst (compress_compact st w) =
      [st ! 0 + a, st ! 1 + b, st ! 2 + c, st ! 3 + d, st ! 4 + e, st ! 5 + f, st ! 6 + g, st ! 7 + h]"
    using l unfolding v by (simp add: compress_compact_def wvars_of_def del: upt_rec_numeral)
  also have "\<dots> = compress st w"
    using assms(1) by (auto simp: compress_def v length_eq_8_iff)
  finally show ?thesis .
qed

lemma list_of_wvars_of: "length xs = 8 \<Longrightarrow> list_of_wvars (wvars_of xs) = xs"
  by (auto simp: length_eq_8_iff wvars_of_def)

lemma compress_unrolled_spec:
  assumes "length st = 8"
  shows "fst (compress_unrolled st w) = compress st w"
  using assms
  by (simp add: compress_unrolled_def SHA256_COMPRESS_spec sha_logic_plain list_of_wvars_of
      del: wmsg_of.simps msg_of.simps)

section \<open>Each lane is a compact loop\<close>

lemma lanes:
  assumes "p = fst \<or> p = snd"
  shows "p (splat x) = x" "p (lanewise1 f v) = f (p v)" "p (lanewise2 f2 v v') = f2 (p v) (p v')"
  using assms by (auto simp: splat_def lanewise1_def lanewise2_def)

lemma sha_lanes:
  assumes "p = fst \<or> p = snd"
  shows "p (SS0V x) = SS0 (p x)" "p (SS1V x) = SS1 (p x)" "p (BS0V x) = BS0 (p x)" "p (BS1V x) = BS1 (p x)"
    "p (CHV x y z) = CH (p x) (p y) (p z)" "p (MAJV x y z) = MAJ (p x) (p y) (p z)" "p (bswap32v x) = bswap32 (p x)"
  by (simp_all add: lanes [OF assms] SS0V_def SS0_def SS1V_def SS1_def BS0V_def BS0_def BS1V_def BS1_def CHV_def CH_def
      MAJV_def MAJ_def bswap32v_def bswap32_def rotr32v_def rotr32_def xor.assoc or.assoc)

fun vlane :: "(u32v \<Rightarrow> u32) \<Rightarrow> u32v list \<times> vvars \<Rightarrow> u32 list \<times> wvars" where
  "vlane p (w, a, b, c, d, e, f, g, h) = (map p w, p a, p b, p c, p d, p e, p f, p g, p h)"

lemma vec2_round_lane:
  assumes "p = fst \<or> p = snd" "length (fst s) = 16"
  shows "vlane p (vec2_round s i) = compact_round (vlane p s) i" and "length (fst (vec2_round s i)) = 16"
proof -
  obtain w a b c d e f g h where s: "s = (w, a, b, c, d, e, f, g, h)" by (cases s) auto
  show "vlane p (vec2_round s i) = compact_round (vlane p s) i"
    using assms(2)
    by (simp add: s Let_def and_15 lanes [OF assms(1)] sha_lanes [OF assms(1)] map_update K256V_def)
  show "length (fst (vec2_round s i)) = 16" using assms(2) by (simp add: s Let_def)
qed

lemma vec2_loop_lane:
  assumes "p = fst \<or> p = snd" "length (fst s) = 16"
  shows "vlane p (foldl vec2_round s is) = foldl compact_round (vlane p s) is"
  using assms(2) by (induction "is" arbitrary: s) (simp_all add: vec2_round_lane [OF assms(1)])

lemma compress_vec2_lane:
  assumes "p = fst \<or> p = snd" "length st = 8" "length w = 16"
  shows "map p (fst (compress_vec2 st w)) = compress (map p st) (map p w)"
proof -
  let ?s = "(w, st ! 0, st ! 1, st ! 2, st ! 3, st ! 4, st ! 5, st ! 6, st ! 7)"
  obtain w' a b c d e f g h where r: "foldl vec2_round ?s [0..<64] = (w', a, b, c, d, e, f, g, h)"
    by (cases "foldl vec2_round ?s [0..<64]") auto
  have "foldl compact_round (vlane p ?s) [0..<64] = (map p w', p a, p b, p c, p d, p e, p f, p g, p h)"
    using vec2_loop_lane [OF assms(1), of ?s "[0..<64]"] assms(3) r by simp
  then have "map p (fst (compress_vec2 st w)) = fst (compress_compact (map p st) (map p w))"
    using assms(2) by (simp add: compress_vec2_def compress_compact_def r lanes [OF assms(1)] del: upt_rec_numeral One_nat_def)
  then show ?thesis using assms(2,3) by (simp add: compress_compact_spec)
qed

lemma length_compress_vec2: "length (fst (compress_vec2 st w)) = 8"
  by (simp add: compress_vec2_def split: prod.split)

lemma lanes_wvars: "length h = 8 \<Longrightarrow> lane0 h = wvars_of (map fst h)" "length h = 8 \<Longrightarrow> lane1 h = wvars_of (map snd h)"
  by (simp_all add: lane0_def lane1_def wvars_of_def)

section \<open>One work item\<close>

lemma meets_target_array: "meets_target h ts = meets_target_words (wvars_of h) ts"
  by (simp add: meets_target_def meets_target_words_def wvars_of_def)

lemma store_match_array: "store_match nonce h mx = store_match_words nonce (wvars_of h) mx"
  by (simp add: store_match_def store_match_words_def wvars_of_def fun_eq_iff Let_def)

lemma scan_arrays_report:
  assumes "length mid = 8" "length tail = 4"
    "\<And>st w. length st = 8 \<Longrightarrow> length w = 16 \<Longrightarrow> fst (compress_fn st w) = compress st w"
  shows "scan_one_nonce_arrays compress_fn (args_of mid tail target start n npt mx) nonce =
    nonce_report mid tail target mx [nonce]"
proof -
  let ?w1 = "tail[3 := bswap32 nonce] @ pad80_words"
  have w1: "[tail ! 0, tail ! 1, tail ! 2, bswap32 nonce, 0x80000000, 0, 0, 0, 0, 0, 0, 0, 0, 0, 0, 640] = ?w1"
    using assms(2) by (auto simp: length_eq_4_iff pad80_words_def literal_arrays)
  have st: "[mid ! 0, mid ! 1, mid ! 2, mid ! 3, mid ! 4, mid ! 5, mid ! 6, mid ! 7] = mid"
    using assms(1) by (auto simp: length_eq_8_iff)
  have w2: "[s ! 0, s ! 1, s ! 2, s ! 3, s ! 4, s ! 5, s ! 6, s ! 7, 0x80000000, 0, 0, 0, 0, 0, 0, 256] =
      s @ pad32_words" if "length s = 8" for s :: "u32 list"
    using that by (auto simp: length_eq_8_iff pad32_words_def literal_arrays)
  have iv: "[0x6a09e667, 0xbb67ae85, 0x3c6ef372, 0xa54ff53a, 0x510e527f, 0x9b05688c, 0x1f83d9ab, 0x5be0cd19] = fips_H0"
    by (simp add: k_sha256_initial_state_fips [symmetric] k_sha256_initial_state_def)
  have len: "length ?w1 = 16" "length (s @ pad32_words) = 16" if "length s = 8" for s :: "u32 list"
    using assms(2) that by (simp_all add: pad80_words_def pad32_words_def)
  obtain x y where c1: "compress_fn mid ?w1 = (compress mid ?w1, x)"
    and c2: "compress_fn fips_H0 (compress mid ?w1 @ pad32_words) = (tail_hash mid (tail[3 := bswap32 nonce]), y)"
    using assms(3) [OF assms(1) len(1) [OF assms(1)]]
      assms(3) [of fips_H0 "compress mid ?w1 @ pad32_words"] len(2) [of "compress mid ?w1"] assms(1)
    by (metis length_compress length_fips_H0 prod.collapse tail_hash_def)
  show ?thesis
    using assms(1)
    by (simp add: scan_one_nonce_arrays_def args_of_def tail_args_def wvars_of_def [of mid] w1 st c1 w2 iv c2
        nonce_report_single meets_target_array store_match_array del: One_nat_def)
qed

lemma scan_vec_report:
  assumes "length mid = 8" "length tail = 4"
  shows "scan_two_nonces_vec (args_of mid tail target start n npt mx) nonce second =
    nonce_report mid tail target mx (nonce # (if second then [nonce + 1] else []))"
proof -
  let ?N = "\<lambda>p :: u32v \<Rightarrow> u32. p (nonce, nonce + 1)"
  let ?w1 = "[splat (tail ! 0), splat (tail ! 1), splat (tail ! 2), bswap32v (nonce, nonce + 1),
      splat 0x80000000, splat 0, splat 0, splat 0, splat 0, splat 0, splat 0, splat 0, splat 0, splat 0, splat 0, splat 640]"
  let ?st = "[splat (mid ! 0), splat (mid ! 1), splat (mid ! 2), splat (mid ! 3), splat (mid ! 4), splat (mid ! 5),
      splat (mid ! 6), splat (mid ! 7)]"
  let ?iv = "[splat 0x6a09e667, splat 0xbb67ae85, splat 0x3c6ef372, splat 0xa54ff53a,
      splat 0x510e527f, splat 0x9b05688c, splat 0x1f83d9ab, splat 0x5be0cd19]"
  obtain s x where c1: "compress_vec2 ?st ?w1 = (s, x)" by fastforce
  let ?w2 = "[s ! 0, s ! 1, s ! 2, s ! 3, s ! 4, s ! 5, s ! 6, s ! 7,
      splat 0x80000000, splat 0, splat 0, splat 0, splat 0, splat 0, splat 0, splat 256]"
  obtain h y where c2: "compress_vec2 ?iv ?w2 = (h, y)" by fastforce
  have len: "length s = 8" "length h = 8" using length_compress_vec2 c1 c2 by (metis fst_conv)+
  have "map p h = tail_hash mid (tail[3 := bswap32 (?N p)])" if p: "p = fst \<or> p = snd" for p
  proof -
    have "map p ?w1 = tail[3 := bswap32 (?N p)] @ pad80_words"
      using assms(2) by (auto simp: lanes [OF p] sha_lanes [OF p] length_eq_4_iff pad80_words_def literal_arrays)
    moreover have "map p ?st = mid" using assms(1) by (auto simp: lanes [OF p] length_eq_8_iff)
    ultimately have s: "map p s = compress mid (tail[3 := bswap32 (?N p)] @ pad80_words)"
      using compress_vec2_lane [OF p, of ?st ?w1] c1 by simp
    have "map p ?w2 = map p s @ pad32_words"
      using len(1) by (auto simp: lanes [OF p] length_eq_8_iff pad32_words_def literal_arrays)
    moreover have "map p ?iv = fips_H0"
      by (simp add: lanes [OF p] k_sha256_initial_state_fips [symmetric] k_sha256_initial_state_def)
    ultimately show ?thesis using compress_vec2_lane [OF p, of ?iv ?w2] c2 s by (simp add: tail_hash_def)
  qed
  then have lane: "map fst h = tail_hash mid (tail[3 := bswap32 nonce])"
    "map snd h = tail_hash mid (tail[3 := bswap32 (nonce + 1)])" by auto
  show ?thesis
    using nonce_report_append [of mid tail target mx "[nonce]" "[nonce + 1]"]
    by (simp add: scan_two_nonces_vec_def args_of_def tail_args_def wvars_of_def [of mid] c1 c2 lanes_wvars len lane
        nonce_report_single [OF refl] del: One_nat_def)
qed

text \<open>A work item is a thread that takes its number from \<open>get_global_id\<close>.\<close>

definition by_gid :: "opencl_kernel \<Rightarrow> cuda_kernel" where
  "by_gid kern A ctaid ntid tid = kern A (ctaid * ntid + tid)"

definition reports_nonce :: "scan_one \<Rightarrow> bool" where
  "reports_nonce scan \<longleftrightarrow> (\<forall>mid tail target start n npt mx nonce. length mid = 8 \<longrightarrow> length tail = 4 \<longrightarrow>
     scan (args_of mid tail target start n npt mx) nonce = nonce_report mid tail target mx [nonce])"

lemma scans_report:
  "reports_nonce (scan_one_nonce_arrays compress_compact)" "reports_nonce (scan_one_nonce_arrays compress_unrolled)"
  "reports_nonce scan_one_at"
  by (simp_all add: reports_nonce_def scan_arrays_report compress_compact_spec compress_unrolled_spec scan_at_report)

lemma scan_report:
  assumes "reports_nonce scan" "length mid = 8" "length tail = 4"
  shows "scan (args_of mid tail target start n npt mx) nonce = nonce_report mid tail target mx [nonce]"
  using assms by (simp add: reports_nonce_def)

lemma report_min_Suc:
  "nonce_report mid tail target mx (map f [0..<min (Suc m) k]) =
   dseq (nonce_report mid tail target mx (map f [0..<min m k])) (if m < k then nonce_report mid tail target mx [f m] else Done)"
proof -
  have "[0..<min (Suc m) k] = [0..<min m k] @ (if m < k then [m] else [])" by (auto simp: min_def)
  then show ?thesis by (simp add: nonce_report_append)
qed

lemma report_min:
  assumes "0 < k"
  shows "nonce_report mid tail target mx (map f [0..<min 2 k]) =
      dseq (nonce_report mid tail target mx [f 0]) (if 1 < k then nonce_report mid tail target mx [f 1] else Done)"
    and "nonce_report mid tail target mx (map f [0..<min 4 k]) =
      dseq (nonce_report mid tail target mx [f 0])
       (dseq (if 1 < k then nonce_report mid tail target mx [f 1] else Done)
       (dseq (if 2 < k then nonce_report mid tail target mx [f 2] else Done)
             (if 3 < k then nonce_report mid tail target mx [f 3] else Done)))"
  using assms report_min_Suc [of mid tail target mx f 0 k] report_min_Suc [of mid tail target mx f 1 k]
    report_min_Suc [of mid tail target mx f 2 k] report_min_Suc [of mid tail target mx f 3 k]
  by (simp_all add: dseq_assoc numeral_2_eq_2 [symmetric])

lemma item_in_range:
  fixes base n :: u32
  assumes "base < n" "unat n + m \<le> 2 ^ 32" "i < m"
  shows "base + of_nat i < n \<longleftrightarrow> i < unat n - unat base"
proof -
  have b: "unat base < unat n" using assms(1) by (simp add: word_less_nat_alt)
  then have "unat (of_nat i :: u32) = i" using assms by (simp add: unat_of_nat take_bit_nat_eq_self)
  moreover have "unat base + i < 2 ^ 32" using b assms by linarith
  ultimately have "unat (base + of_nat i) = unat base + i" by (simp add: unat_word_ariths)
  then show ?thesis using b by (auto simp: word_less_nat_alt)
qed

lemma divides_npi1:
  assumes "reports_nonce scan"
  shows "divides_range (by_gid (scan_nonce_range_npi1 scan)) 1"
  by (rule divides_rangeI;
      simp add: by_gid_def scan_nonce_range_npi1_def scan_report [OF assms] less_not_ge min_def word_less_nat_alt
        Suc_le_eq word_le_nat_alt)

text \<open>The kernels with two and four items test each item after the first.\<close>

lemma items_in_range:
  fixes base n :: u32
  assumes "base < n" "unat n + m \<le> 2 ^ 32"
  shows "0 < unat n - unat base"
    and "1 < m \<Longrightarrow> base + 1 < n \<longleftrightarrow> 1 < unat n - unat base"
    and "2 < m \<Longrightarrow> base + 2 < n \<longleftrightarrow> 2 < unat n - unat base"
    and "3 < m \<Longrightarrow> base + 3 < n \<longleftrightarrow> 3 < unat n - unat base"
  using assms item_in_range [OF assms, of 1] item_in_range [OF assms, of 2] item_in_range [OF assms, of 3]
  by (simp_all add: word_less_nat_alt)

lemma divides_npi2:
  assumes "reports_nonce scan"
  shows "divides_range (by_gid (scan_nonce_range_npi2 scan)) 2"
proof (rule divides_rangeI, goal_cases)
  case (2 mid tail target start n mx ctaid ntid tid base)
  have f: "unat n + 2 \<le> 2 ^ 32" using 2(3) by simp
  show ?case
    using items_in_range(1) [OF 2(6) f] items_in_range(2) [OF 2(6) f]
    by (simp add: by_gid_def scan_nonce_range_npi2_def 2(5) [symmetric] 2(6) less_not_ge scan_report [OF assms 2(1,2)]
        report_min add.assoc del: distrib_right_numeral)
qed (simp add: by_gid_def scan_nonce_range_npi2_def)

lemma divides_npi4:
  assumes "reports_nonce scan"
  shows "divides_range (by_gid (scan_nonce_range_npi4 scan)) 4"
proof (rule divides_rangeI, goal_cases)
  case (2 mid tail target start n mx ctaid ntid tid base)
  have f: "unat n + 4 \<le> 2 ^ 32" using 2(3) by simp
  show ?case
    using items_in_range(1) [OF 2(6) f] items_in_range(2-4) [OF 2(6) f]
    by (simp add: by_gid_def scan_nonce_range_npi4_def 2(5) [symmetric] 2(6) less_not_ge scan_report [OF assms 2(1,2)]
        report_min add.assoc del: distrib_right_numeral)
qed (simp add: by_gid_def scan_nonce_range_npi4_def)

lemma divides_register_heavy: "divides_range (by_gid modern_scan_nonce_range_register_heavy) 2"
proof (rule divides_rangeI, goal_cases)
  case (2 mid tail target start n mx ctaid ntid tid base)
  have f: "unat n + 2 \<le> 2 ^ 32" using 2(3) by simp
  show ?case
    using items_in_range(1) [OF 2(6) f] items_in_range(2) [OF 2(6) f]
      nonce_report_append [of mid tail target mx "[start + base]" "[start + base + 1]"]
    by (simp add: by_gid_def modern_scan_nonce_range_register_heavy_def 2(5) [symmetric] 2(6) less_not_ge
        scan_vec_report [OF 2(1,2)] report_min del: distrib_right_numeral)
qed (simp add: by_gid_def modern_scan_nonce_range_register_heavy_def)

lemma divides_modern_fixed:
  "divides_range (by_gid modern_scan_nonce_range_fixed_npi1) 1"
  "divides_range (by_gid modern_scan_nonce_range_fixed_npi2) 2"
  "divides_range (by_gid modern_scan_nonce_range_fixed_npi4) 4"
proof -
  have "modern_scan_nonce_range_fixed_npi1 = scan_nonce_range_npi1 scan_one_at"
    by (simp add: fun_eq_iff modern_scan_nonce_range_fixed_npi1_def scan_nonce_range_npi1_def)
  then show "divides_range (by_gid modern_scan_nonce_range_fixed_npi1) 1" using divides_npi1 [OF scans_report(3)] by simp
qed (simp_all add: modern_scan_nonce_range_fixed_npi2_def modern_scan_nonce_range_fixed_npi4_def divides_npi2
    divides_npi4 scans_report)

text \<open>The general kernel counts the work items it needs; the surplus of the rounded range stops there.\<close>

lemma work_items_iff:
  fixes n npt gid :: u32
  assumes "n \<noteq> 0" "unat gid * unat npt < 2 ^ 32" "npt \<noteq> 0"
  shows "(n - 1) div npt + 1 \<le> gid \<longleftrightarrow> n \<le> gid * npt"
proof -
  have p: "0 < unat n" using assms(1) by (simp add: unat_gt_0)
  then have n: "unat (n - 1) = unat n - 1" "0 < unat n" by (simp_all add: unat_sub_if_size Suc_le_eq)
  have k: "0 < unat npt" using assms(3) by (simp add: unat_gt_0)
  have q: "unat ((n - 1) div npt) = (unat n - 1) div unat npt" by (simp add: unat_div n(1))
  have "(unat n - 1) div unat npt \<le> unat n - 1" by (rule div_le_dividend)
  then have "(unat n - 1) div unat npt + 1 < 2 ^ 32" using unat_u32_less [of n] n(2) by linarith
  then have "unat ((n - 1) div npt + 1) = (unat n - 1) div unat npt + 1"
    by (simp add: unat_word_ariths(1) q)
  moreover have "(unat n - 1) div unat npt < unat gid \<longleftrightarrow> unat n - 1 < unat gid * unat npt"
    using k by (rule div_less_iff_less_mult)
  moreover have "unat (gid * npt) = unat gid * unat npt" using assms(2) by (simp add: unat_word_ariths)
  ultimately show ?thesis using n(2) by (simp add: word_le_nat_alt) linarith
qed

lemma divides_npi_any:
  assumes "reports_nonce scan" "npt \<noteq> 0"
  shows "divides_range (by_gid (scan_nonce_range scan)) npt"
proof (rule divides_rangeI, goal_cases)
  case (1 mid tail target start n mx ctaid ntid tid)
  then show ?case using assms(2) work_items_iff [of n "ctaid * ntid + tid" npt]
    by (simp add: by_gid_def scan_nonce_range_def)
next
  case (2 mid tail target start n mx ctaid ntid tid base)
  have "n \<noteq> 0" using 2(6) by auto
  moreover have "\<not> (n - 1) div npt + 1 \<le> ctaid * ntid + tid"
    using work_items_iff [OF calculation 2(4) assms(2)] 2(5,6) by simp
  ultimately show ?case
    using for_items_report [of "scan (args_of mid tail target start n npt mx)" mid tail target mx _ "start + base"]
    by (simp add: by_gid_def scan_nonce_range_def Let_def 2(5) [symmetric] scan_report [OF assms(1) 2(1,2)]
        limit_eq [OF 2(3,6)] add.assoc split del: if_split cong: if_cong)
qed

section \<open>A launch\<close>

record opencl_launch =
  ol_kernel :: opencl_kernel
  ol_mid :: "u32 list"
  ol_tail :: "u32 list"
  ol_target :: "u32 list"
  ol_start :: u32
  ol_count :: u32
  ol_npi :: u32
  ol_max :: u32
  ol_global :: nat

definition range_progs :: "opencl_launch \<Rightarrow> dprog list" where
  "range_progs l = range_items (ol_kernel l)
    (args_of (ol_mid l) (ol_tail l) (ol_target l) (ol_start l) (ol_count l) (ol_npi l) (ol_max l)) (ol_global l)"

definition range_found :: "opencl_launch \<Rightarrow> gpu_match list list" where
  "range_found l =
    shares_found (ol_mid l) (ol_tail l) (ol_target l) (ol_start l) (unat (ol_count l)) (unat (ol_npi l)) (ol_global l)"

text \<open>The sizes of a launch: the arrays of the arguments, enough work items for the range, and nothing that
  wraps around in 32 bits.\<close>

definition range_fits :: "opencl_launch \<Rightarrow> bool" where
  "range_fits l \<longleftrightarrow> ol_npi l \<noteq> 0 \<and> length (ol_mid l) = 8 \<and> length (ol_tail l) = 4 \<and>
    unat (ol_count l) \<le> ol_global l * unat (ol_npi l) \<and> ol_global l * unat (ol_npi l) \<le> 2 ^ 32 \<and>
    unat (ol_count l) + unat (ol_npi l) \<le> 2 ^ 32 \<and> 9 * unat (ol_max l) \<le> 2 ^ 32"

text \<open>What the lemmas below ask of a launch. That the kernels of the program text divide the range is
  proved above, kernel by kernel; \<open>Opencl_Miner\<close> discharges it for the kernel the program is looked up for.\<close>

definition range_good :: "opencl_launch \<Rightarrow> bool" where
  "range_good l \<longleftrightarrow> divides_range (by_gid (ol_kernel l)) (ol_npi l) \<and> range_fits l"

lemmas range_good_defs = range_good_def range_fits_def

lemma range_progs_report:
  assumes "range_good l"
  shows "range_progs l = map (report_all (ol_max l)) (range_found l)"
proof -
  have "ol_kernel l (args_of (ol_mid l) (ol_tail l) (ol_target l) (ol_start l) (ol_count l) (ol_npi l) (ol_max l)) (of_nat g) =
      nonce_report (ol_mid l) (ol_tail l) (ol_target l) (ol_max l)
        (thread_share (ol_start l) (unat (ol_count l)) (unat (ol_npi l)) g)"
    if g: "g < ol_global l" for g
  proof -
    have "Suc g * unat (ol_npi l) \<le> ol_global l * unat (ol_npi l)" using g by (intro mult_le_mono1) simp
    then have "g * unat (ol_npi l) + unat (ol_npi l) \<le> 2 ^ 32" "0 < unat (ol_npi l)"
      using assms by (simp_all add: range_good_defs unat_gt_0)
    then have "g * unat (ol_npi l) < 2 ^ 32" by linarith
    moreover have "of_nat g * 1 + 0 = (of_nat g :: u32)" by simp
    ultimately have "by_gid (ol_kernel l)
        (args_of (ol_mid l) (ol_tail l) (ol_target l) (ol_start l) (ol_count l) (ol_npi l) (ol_max l)) (of_nat g) 1 0 =
        nonce_report (ol_mid l) (ol_tail l) (ol_target l) (ol_max l)
          (thread_share (ol_start l) (unat (ol_count l)) (unat (ol_npi l)) g)"
      using assms unfolding range_good_defs divides_range_def by blast
    then show ?thesis by (simp add: by_gid_def)
  qed
  then show ?thesis by (simp add: range_progs_def range_items_def range_found_def shares_found_def nonce_report_def)
qed

lemma range_found_concat:
  assumes "range_good l"
  shows "concat (range_found l) =
    scan_matches (tail_hash (ol_mid l)) (ol_tail l) (ol_target l) (nonce_range (ol_start l) (ol_count l))"
  using assms shares_found_concat unfolding range_good_defs range_found_def by blast

lemma range_found_ok:
  assumes "range_good l"
  shows "launch_ok (ol_max l) (mset (concat (range_found l)))"
  using assms shares_found_ok unfolding range_good_defs range_found_def by blast

interpretation opencl: reporting_kernel range_progs range_found ol_max range_good
  by unfold_locales (simp_all add: range_progs_report range_found_ok)

section \<open>Properties\<close>

text \<open>C14. The loops of the OpenCL text compute the compression function of FIPS 180-4 in place: the compact
  loop, which keeps only the sixteen latest schedule words in a ring, and both lanes of its vector form.\<close>

theorem opencl_compression:
  assumes "length st = 8" "length w = 16" "length stv = 8" "length wv = 16"
  shows "fst (compress_compact st w) = compress st w \<and> fst (compress_unrolled st w) = compress st w \<and>
    map fst (fst (compress_vec2 stv wv)) = compress (map fst stv) (map fst wv) \<and>
    map snd (fst (compress_vec2 stv wv)) = compress (map snd stv) (map snd wv)"
  using assms by (simp add: compress_compact_spec compress_unrolled_spec compress_vec2_lane)

theorem opencl_compression_witness:
  "length K256 = 64 \<and> fst (compress_compact k_sha256_initial_state (replicate 16 7)) =
     compress k_sha256_initial_state (replicate 16 7) \<and>
   map snd (fst (compress_vec2 (replicate 8 (1, 2)) (replicate 16 (3, 4)))) = compress (replicate 8 2) (replicate 16 4)"
  using opencl_compression [of k_sha256_initial_state "replicate 16 7" "replicate 8 (1, 2)" "replicate 16 (3, 4)"]
  by (simp add: K256_fips k_sha256_initial_state_fips map_replicate_const del: replicate_numeral)

end
