(* ===== verification/Opencl_Device.thy ===== *)
theory Opencl_Device
  imports Gpu_Host
begin

text \<open>
  Finding OpenCL devices: the loader of the OpenCL library, \<open>src/src/opencl_loader.c\<close>, and the part of
  \<open>src/src/opencl_miner.c\<close> before the creation of a device: what a device's vendor, version and extension
  texts say, which backend and kernel variants go with it, and the choice of devices. The OpenCL library
  and the C allocator are parameters (\<open>opencl_env\<close>). Return codes come first, then the value stored
  through the pointer argument; handles are numbers, 0 standing for NULL.

  Main results: an extension is recognised exactly when it is one of the blank-separated names; the
  devices that are resolved are the GPUs of all platforms in order, as many as fit, with usable
  settings.
\<close>

section \<open>The library\<close>

definition CL_SUCCESS :: int where "CL_SUCCESS = 0"

text \<open>What is asked of a device. \<open>cl_info_text\<close> is what \<open>clGetDeviceInfo\<close> leaves in a zeroed buffer of 128
  bytes: the empty text when the call fails.\<close>

datatype cl_info = Info_name | Info_vendor | Info_version

record opencl_env =
  cl_getenv :: "string option"
  cl_dlopen :: "string \<Rightarrow> bool"
  cl_dlsym :: "string \<Rightarrow> bool"
  cl_platform_count :: "int \<times> nat"
  cl_platform_ids :: "int \<times> nat list"
  cl_device_count :: "nat \<Rightarrow> int \<times> nat"
  cl_device_ids :: "nat \<Rightarrow> int \<times> nat list"
  cl_device_type :: "nat \<Rightarrow> int \<times> u64"
  cl_info_text :: "nat \<Rightarrow> cl_info \<Rightarrow> string"
  cl_extensions_size :: "nat \<Rightarrow> int \<times> nat"
  cl_extensions :: "nat \<Rightarrow> int \<times> string"
  cl_max_work_group :: "nat \<Rightarrow> u64"
  cl_alloc :: "nat \<Rightarrow> bool"

datatype cl_error = Cl_Msg string | Cl_Code string int

definition set_error :: "string \<Rightarrow> int \<Rightarrow> cl_error" where
  "set_error message code = (if code = CL_SUCCESS then Cl_Msg message else Cl_Code message code)"

section \<open>Loading the library\<close>

record opencl_loader_t =
  ld_library :: bool
  ld_attempted :: bool
  ld_loaded :: bool
  ld_error :: string

definition set_loader_error :: "string option \<Rightarrow> opencl_loader_t \<Rightarrow> opencl_loader_t" where
  "set_loader_error message g =
    g\<lparr>ld_error := (case message of None \<Rightarrow> ''OpenCL runtime unavailable'' | Some m \<Rightarrow> m)\<rparr>"

definition copy_error :: "opencl_loader_t \<Rightarrow> cl_error" where
  "copy_error g = Cl_Msg (if ld_error g \<noteq> [] then ld_error g else ''OpenCL runtime unavailable'')"

text \<open>\<open>try_open_library\<close> returns whether it has succeeded.\<close>

definition try_open_library :: "opencl_env \<Rightarrow> string option \<Rightarrow> opencl_loader_t \<Rightarrow> opencl_loader_t \<times> bool" where
  "try_open_library env name g =
    (case name of
       None \<Rightarrow> (g, False)
     | Some n \<Rightarrow> if n = [] then (g, False) else (g\<lparr>ld_library := cl_dlopen env n\<rparr>, cl_dlopen env n))"

text \<open>The branch for POSIX systems other than macOS and Android.\<close>

definition open_library :: "opencl_env \<Rightarrow> opencl_loader_t \<Rightarrow> opencl_loader_t \<times> bool" where
  "open_library env g =
    (let (g, ok) = try_open_library env (cl_getenv env) g
     in if ok then (g, True)
     else
     let g = (if \<not> ld_library g
              then (case try_open_library env (Some ''libOpenCL.so.1'') g of (g, ok) \<Rightarrow>
                      if \<not> ok then fst (try_open_library env (Some ''libOpenCL.so'') g) else g)
              else g)
     in if \<not> ld_library g then (set_loader_error (Some ''OpenCL runtime library not found'') g, False)
        else (g, True))"

definition close_library :: "opencl_loader_t \<Rightarrow> opencl_loader_t" where
  "close_library g = g\<lparr>ld_library := False\<rparr>"

definition opencl_symbols :: "string list" where
  "opencl_symbols =
    [''clGetPlatformIDs'', ''clGetDeviceIDs'', ''clGetDeviceInfo'', ''clCreateContext'', ''clCreateCommandQueue'',
     ''clCreateBuffer'', ''clCreateProgramWithSource'', ''clBuildProgram'', ''clGetProgramBuildInfo'',
     ''clCreateKernel'', ''clReleaseKernel'', ''clReleaseProgram'', ''clReleaseMemObject'',
     ''clReleaseCommandQueue'', ''clReleaseContext'', ''clEnqueueWriteBuffer'', ''clSetKernelArg'',
     ''clEnqueueNDRangeKernel'', ''clEnqueueReadBuffer'']"

text \<open>\<open>None\<close> is the return value 0.\<close>

definition btcrig_opencl_load :: "opencl_env \<Rightarrow> opencl_loader_t \<Rightarrow> opencl_loader_t \<times> cl_error option" where
  "btcrig_opencl_load env g =
    (if ld_loaded g then (g, None)
     else if ld_attempted g then (g, Some (copy_error g))
     else
     let g = g\<lparr>ld_attempted := True\<rparr>;
         (g, ok) = open_library env g
     in if \<not> ok then (g, Some (copy_error g))
     else case find (\<lambda>name. \<not> cl_dlsym env name) opencl_symbols of
         Some name \<Rightarrow>
           let g = close_library (set_loader_error (Some (''OpenCL runtime is missing required symbol '' @ name)) g)
           in (g, Some (copy_error g))
       | None \<Rightarrow> (g\<lparr>ld_loaded := True, ld_error := []\<rparr>, None))"

section \<open>Texts\<close>

text \<open>The inner loop of \<open>string_contains_ci\<close>: whether the text at \<open>p\<close> begins with the needle.\<close>

fun ci_prefix :: "string \<Rightarrow> string \<Rightarrow> bool" where
  "ci_prefix p [] = True"
| "ci_prefix [] (n # ns) = False"
| "ci_prefix (c # p) (n # ns) = (if ascii_tolower_char c = ascii_tolower_char n then ci_prefix p ns else False)"

fun contains_ci_from :: "string \<Rightarrow> string \<Rightarrow> bool" where
  "contains_ci_from [] needle = False"
| "contains_ci_from (c # p) needle = (if ci_prefix (c # p) needle then True else contains_ci_from p needle)"

definition string_contains_ci :: "string option \<Rightarrow> string option \<Rightarrow> bool" where
  "string_contains_ci text needle =
    (case (text, needle) of
       (Some t, Some n) \<Rightarrow> if n = [] then True else contains_ci_from t n
     | _ \<Rightarrow> False)"

text \<open>\<open>sscanf(text, "OpenCL %d.%d", ...)\<close>: the blank stands for any white space, \<open>%d\<close> skips white space itself. The
  version numbers are taken as they are written; a number beyond \<open>int\<close> has no defined result in C.\<close>

definition parse_opencl_version :: "string option \<Rightarrow> (int \<times> int) option" where
  "parse_opencl_version text =
    (case text of
       None \<Rightarrow> None
     | Some t \<Rightarrow>
         if take 6 t \<noteq> ''OpenCL'' then None
         else case scan_number (dropWhile is_space (drop 6 t)) of
             None \<Rightarrow> None
           | Some (neg, major, rest) \<Rightarrow>
               if take 1 rest \<noteq> ''.'' then None
               else case scan_number (drop 1 rest) of
                   None \<Rightarrow> None
                 | Some (neg', minor, rest) \<Rightarrow> Some (signed_value neg major, signed_value neg' minor))"

definition opencl_version_at_least :: "string option \<Rightarrow> int \<Rightarrow> int \<Rightarrow> bool" where
  "opencl_version_at_least text major minor =
    (case parse_opencl_version text of
       None \<Rightarrow> False
     | Some (parsed_major, parsed_minor) \<Rightarrow>
         parsed_major > major \<or> parsed_major = major \<and> parsed_minor \<ge> minor)"

text \<open>\<open>strstr\<close>: the offset of the first occurrence.\<close>

definition strstr :: "string \<Rightarrow> string \<Rightarrow> nat option" where
  "strstr text needle = find (\<lambda>q. take (length needle) (drop q text) = needle) [0..<Suc (length text)]"

lemma strstr_SomeD:
  assumes "strstr text needle = Some q"
  shows "take (length needle) (drop q text) = needle" "q \<le> length text" "q + length needle \<le> length text"
    and "\<And>r. r < q \<Longrightarrow> take (length needle) (drop r text) \<noteq> needle"
proof -
  let ?P = "\<lambda>q. take (length needle) (drop q text) = needle"
  obtain i where i: "i < Suc (length text)" "?P ([0..<Suc (length text)] ! i)" "q = [0..<Suc (length text)] ! i"
    "\<forall>j<i. \<not> ?P ([0..<Suc (length text)] ! j)"
    using assms unfolding strstr_def find_Some_iff by auto
  then have q: "q = i" by (simp del: upt_Suc)
  show p: "?P q" and le: "q \<le> length text" using i q by (simp_all del: upt_Suc)
  show "q + length needle \<le> length text" using arg_cong [OF p, of length] le by simp
  show "\<not> ?P r" if "r < q" for r using i(1,4) that q by (simp del: upt_Suc)
qed

text \<open>The loop of \<open>extension_list_has\<close>, with \<open>p\<close> as an offset. The needle is not empty.\<close>

function extension_loop :: "string \<Rightarrow> string \<Rightarrow> nat \<Rightarrow> bool" where
  "extension_loop extensions needle p =
    (if needle = [] then False
     else case strstr (drop p extensions) needle of
       None \<Rightarrow> False
     | Some q \<Rightarrow>
         let p = p + q;
             left_ok = (p = 0 \<or> extensions ! (p - 1) = CHR '' '');
             right_ok = (p + length needle = length extensions \<or> extensions ! (p + length needle) = CHR '' '')
         in if left_ok \<and> right_ok then True else extension_loop extensions needle (p + length needle))"
  by pat_completeness auto

termination
proof (relation "measure (\<lambda>(extensions, needle, p). Suc (length extensions) - p)", goal_cases)
  case (2 extensions needle p q p' left_ok right_ok)
  then have "q + length needle \<le> length extensions - p" "0 < length needle" using strstr_SomeD(3) [OF 2(2)] by auto
  then have "Suc (length extensions) - (p + q + length needle) < Suc (length extensions) - p" by linarith
  then show ?case using 2(3) by simp
qed simp

definition extension_list_has :: "string option \<Rightarrow> string option \<Rightarrow> bool" where
  "extension_list_has extensions needle =
    (case (extensions, needle) of
       (Some e, Some n) \<Rightarrow> if n = [] then False else extension_loop e n 0
     | _ \<Rightarrow> False)"

definition device_has_extension :: "opencl_env \<Rightarrow> nat \<Rightarrow> string \<Rightarrow> bool" where
  "device_has_extension env device needle =
    (let (rc, n) = cl_extensions_size env device
     in if rc \<noteq> CL_SUCCESS \<or> n = 0 then False
     else if \<not> cl_alloc env n then False
     else let (rc, extensions) = cl_extensions env device
          in if rc \<noteq> CL_SUCCESS then False else extension_list_has (Some extensions) (Some needle))"

section \<open>Settings of a device\<close>

definition OPENCL_DEFAULT_BATCH_SIZE :: u32 where "OPENCL_DEFAULT_BATCH_SIZE = 1048576"
definition OPENCL_DEFAULT_MAX_RESULTS :: u32 where "OPENCL_DEFAULT_MAX_RESULTS = 256"
definition OPENCL_DEFAULT_NONCES_PER_WORK_ITEM :: u32 where "OPENCL_DEFAULT_NONCES_PER_WORK_ITEM = 1"
definition OPENCL_MAX_NONCES_PER_WORK_ITEM :: u32 where "OPENCL_MAX_NONCES_PER_WORK_ITEM = 64"

lemmas opencl_constants = variant_constants OPENCL_DEFAULT_BATCH_SIZE_def OPENCL_DEFAULT_MAX_RESULTS_def
  OPENCL_DEFAULT_NONCES_PER_WORK_ITEM_def OPENCL_MAX_NONCES_PER_WORK_ITEM_def

definition u32_or :: "u32 \<Rightarrow> u32 \<Rightarrow> u32" where
  "u32_or value fallback = (if value = 0 then fallback else value)"

definition clamp_nonces_per_work_item :: "u32 \<Rightarrow> u32" where
  "clamp_nonces_per_work_item value =
    (if value = 0 then OPENCL_DEFAULT_NONCES_PER_WORK_ITEM
     else if value > OPENCL_MAX_NONCES_PER_WORK_ITEM then OPENCL_MAX_NONCES_PER_WORK_ITEM
     else value)"

definition choose_local_work_size :: "u32 \<Rightarrow> u64 \<Rightarrow> u32" where
  "choose_local_work_size preferred max_work_group =
    (if max_work_group = 0 then 0
     else if preferred > 0 \<and> ucast preferred \<le> max_work_group then preferred
     else case find (\<lambda>c. ucast c \<le> max_work_group) [512, 256, 128, 64, 32, 16, 8, 4, 2, 1] of
         Some c \<Rightarrow> c | None \<Rightarrow> 0)"

definition default_local_work_size_for_device :: "string \<Rightarrow> string \<Rightarrow> u64 \<Rightarrow> u32" where
  "default_local_work_size_for_device vendor name max_work_group =
    (let preferred = 256;
         has = (\<lambda>t n. string_contains_ci (Some t) (Some n));
         preferred =
           (if has vendor ''intel'' \<or> has name ''intel'' then 128
            else if has vendor ''amd'' \<or> has vendor ''advanced micro'' \<or> has name ''amd'' \<or> has name ''radeon'' then 256
            else if has vendor ''nvidia'' \<or> has name ''nvidia'' then 256
            else preferred)
     in choose_local_work_size preferred max_work_group)"

definition kernel_name_for_npi :: "u32 \<Rightarrow> string" where
  "kernel_name_for_npi nonces_per_work_item =
    (if nonces_per_work_item = 1 then ''scan_nonce_range_npi1''
     else if nonces_per_work_item = 2 then ''scan_nonce_range_npi2''
     else if nonces_per_work_item = 4 then ''scan_nonce_range_npi4''
     else ''scan_nonce_range'')"

definition kernel_variant_fixed_npi :: "int \<Rightarrow> u32" where
  "kernel_variant_fixed_npi variant =
    (if variant = MINER_OPENCL_KERNEL_FIXED_NPI1 then 1
     else if variant = MINER_OPENCL_KERNEL_FIXED_NPI2 then 2
     else if variant = MINER_OPENCL_KERNEL_FIXED_NPI4 then 4
     else 0)"

definition kernel_variant_forced_npi :: "int \<Rightarrow> u32" where
  "kernel_variant_forced_npi variant =
    (let fixed_npi = kernel_variant_fixed_npi variant
     in if fixed_npi \<noteq> 0 then fixed_npi
        else if variant = MINER_OPENCL_KERNEL_REGISTER_HEAVY then 2
        else 0)"

definition kernel_variant_modern_only :: "int \<Rightarrow> bool" where
  "kernel_variant_modern_only variant \<longleftrightarrow>
    kernel_variant_fixed_npi variant \<noteq> 0 \<or> variant = MINER_OPENCL_KERNEL_REGISTER_HEAVY"

definition kernel_name_for_variant :: "int \<Rightarrow> u32 \<Rightarrow> string" where
  "kernel_name_for_variant variant nonces_per_work_item =
    (if variant = MINER_OPENCL_KERNEL_FIXED_NPI1 then ''modern_scan_nonce_range_fixed_npi1''
     else if variant = MINER_OPENCL_KERNEL_FIXED_NPI2 then ''modern_scan_nonce_range_fixed_npi2''
     else if variant = MINER_OPENCL_KERNEL_FIXED_NPI4 then ''modern_scan_nonce_range_fixed_npi4''
     else if variant = MINER_OPENCL_KERNEL_REGISTER_HEAVY then ''modern_scan_nonce_range_register_heavy''
     else kernel_name_for_npi nonces_per_work_item)"

definition normalize_opencl_kernel :: "int \<Rightarrow> int" where
  "normalize_opencl_kernel variant =
    (if variant = MINER_OPENCL_KERNEL_COMPACT \<or> variant = MINER_OPENCL_KERNEL_UNROLLED \<or>
        variant = MINER_OPENCL_KERNEL_FIXED_NPI1 \<or> variant = MINER_OPENCL_KERNEL_FIXED_NPI2 \<or>
        variant = MINER_OPENCL_KERNEL_FIXED_NPI4 \<or> variant = MINER_OPENCL_KERNEL_REGISTER_HEAVY
     then variant else MINER_OPENCL_KERNEL_AUTO)"

definition normalize_backend_variant :: "int \<Rightarrow> int" where
  "normalize_backend_variant variant =
    (if variant = MINER_OPENCL_BACKEND_COMPAT10 \<or> variant = MINER_OPENCL_BACKEND_MODERN
     then variant else MINER_OPENCL_BACKEND_AUTO)"

section \<open>Backends\<close>

definition validate_compat10_device :: "opencl_env \<Rightarrow> nat \<Rightarrow> string \<Rightarrow> cl_error option" where
  "validate_compat10_device env device device_version =
    (if \<not> opencl_version_at_least (Some device_version) 1 0
     then Some (set_error ''selected OpenCL device did not report a usable OpenCL 1.x version'' CL_SUCCESS)
     else if \<not> opencl_version_at_least (Some device_version) 1 1 \<and>
             \<not> device_has_extension env device ''cl_khr_global_int32_base_atomics''
     then Some (set_error ''compat10 backend requires OpenCL 1.1+ or cl_khr_global_int32_base_atomics'' CL_SUCCESS)
     else None)"

definition validate_modern_device :: "string \<Rightarrow> cl_error option" where
  "validate_modern_device device_version =
    (if \<not> opencl_version_at_least (Some device_version) 1 2
     then Some (set_error ''modern backend requires OpenCL 1.2 or newer'' CL_SUCCESS) else None)"

text \<open>\<open>Inl\<close> is the return value -1.\<close>

definition resolve_backend_variant :: "opencl_env \<Rightarrow> nat \<Rightarrow> string \<Rightarrow> int \<Rightarrow> cl_error + int" where
  "resolve_backend_variant env device device_version requested =
    (let requested = normalize_backend_variant requested;
         requested = (if requested = MINER_OPENCL_BACKEND_AUTO
           then (if opencl_version_at_least (Some device_version) 1 2
                 then MINER_OPENCL_BACKEND_MODERN else MINER_OPENCL_BACKEND_COMPAT10)
           else requested)
     in if requested = MINER_OPENCL_BACKEND_MODERN
        then (case validate_modern_device device_version of
                Some e \<Rightarrow> Inl e | None \<Rightarrow> Inr MINER_OPENCL_BACKEND_MODERN)
        else (case validate_compat10_device env device device_version of
                Some e \<Rightarrow> Inl e | None \<Rightarrow> Inr MINER_OPENCL_BACKEND_COMPAT10))"

section \<open>Choice of devices\<close>

text \<open>An array from \<open>calloc\<close>, filled by the library.\<close>

definition id_array :: "nat \<Rightarrow> nat list \<Rightarrow> nat list" where
  "id_array n ids = take n (ids @ replicate n 0)"

definition select_platform_device :: "opencl_env \<Rightarrow> miner_opencl_config_t option \<Rightarrow> cl_error + nat \<times> nat" where
  "select_platform_device env config =
    (let (rc, platform_count) = cl_platform_count env
     in if rc \<noteq> CL_SUCCESS \<or> platform_count = 0 then Inl (set_error ''no OpenCL platforms found'' rc)
     else if \<not> cl_alloc env platform_count then Inl (set_error ''OpenCL platform allocation failed'' CL_SUCCESS)
     else
     let (rc, ids) = cl_platform_ids env
     in if rc \<noteq> CL_SUCCESS then Inl (set_error ''failed to enumerate OpenCL platforms'' rc)
     else
     let platforms = id_array platform_count ids;
         platform_index = (case config of Some c \<Rightarrow> ocl_platform c | None \<Rightarrow> 0)
     in if platform_index < 0 \<or> nat platform_index \<ge> platform_count
        then Inl (set_error ''configured OpenCL platform index is out of range'' CL_SUCCESS)
     else
     let platform = platforms ! nat platform_index;
         (rc, device_count) = cl_device_count env platform
     in if rc \<noteq> CL_SUCCESS \<or> device_count = 0
        then Inl (set_error ''no OpenCL devices found on selected platform'' rc)
     else if \<not> cl_alloc env device_count then Inl (set_error ''OpenCL device allocation failed'' CL_SUCCESS)
     else
     let (rc, ids) = cl_device_ids env platform
     in if rc \<noteq> CL_SUCCESS then Inl (set_error ''failed to enumerate OpenCL devices'' rc)
     else
     let devices = id_array device_count ids;
         device_index = (case config of Some c \<Rightarrow> ocl_device c | None \<Rightarrow> 0)
     in if device_index < 0 \<or> nat device_index \<ge> device_count
        then Inl (set_error ''configured OpenCL device index is out of range'' CL_SUCCESS)
        else Inr (platform, devices ! nat device_index))"

definition opencl_device_config_apply_defaults ::
  "miner_opencl_device_config_t \<Rightarrow> miner_opencl_config_t \<Rightarrow> miner_opencl_device_config_t" where
  "opencl_device_config_apply_defaults device config =
    (let device = (if dev_batch_size device = 0
           then device\<lparr>dev_batch_size := u32_or (ocl_batch_size config) OPENCL_DEFAULT_BATCH_SIZE\<rparr> else device);
         device = (if dev_max_results device = 0
           then device\<lparr>dev_max_results := u32_or (ocl_max_results config) OPENCL_DEFAULT_MAX_RESULTS\<rparr> else device);
         device = (if dev_local_work_size device = 0
           then device\<lparr>dev_local_work_size := ocl_local_work_size config\<rparr> else device);
         device = (if dev_nonces_per_work_item device = 0
           then device\<lparr>dev_nonces_per_work_item := clamp_nonces_per_work_item (ocl_nonces_per_work_item config)\<rparr>
           else device\<lparr>dev_nonces_per_work_item := clamp_nonces_per_work_item (dev_nonces_per_work_item device)\<rparr>);
         device = (if dev_backend_variant device = MINER_OPENCL_BACKEND_AUTO
           then device\<lparr>dev_backend_variant := normalize_backend_variant (ocl_backend_variant config)\<rparr>
           else device\<lparr>dev_backend_variant := normalize_backend_variant (dev_backend_variant device)\<rparr>)
     in if dev_kernel_variant device = MINER_OPENCL_KERNEL_AUTO
        then device\<lparr>dev_kernel_variant := normalize_opencl_kernel (ocl_kernel_variant config)\<rparr>
        else device\<lparr>dev_kernel_variant := normalize_opencl_kernel (dev_kernel_variant device)\<rparr>)"

text \<open>The entry written for device \<open>d\<close> of platform \<open>p\<close>.\<close>

definition device_entry :: "miner_opencl_config_t \<Rightarrow> int \<Rightarrow> int \<Rightarrow> miner_opencl_device_config_t" where
  "device_entry config p d =
    \<lparr>dev_platform = p, dev_device = d,
     dev_batch_size = u32_or (ocl_batch_size config) OPENCL_DEFAULT_BATCH_SIZE,
     dev_local_work_size = ocl_local_work_size config,
     dev_nonces_per_work_item = clamp_nonces_per_work_item (ocl_nonces_per_work_item config),
     dev_max_results = u32_or (ocl_max_results config) OPENCL_DEFAULT_MAX_RESULTS,
     dev_backend_variant = normalize_backend_variant (ocl_backend_variant config),
     dev_kernel_variant = normalize_opencl_kernel (ocl_kernel_variant config)\<rparr>"

definition is_gpu :: "opencl_env \<Rightarrow> nat \<Rightarrow> bool" where
  "is_gpu env device = (let (rc, type) = cl_device_type env device in rc = CL_SUCCESS \<and> type AND 4 \<noteq> 0)"

text \<open>The inner loop, from device \<open>d\<close> on; \<open>out\<close> is the part of \<open>devices_out\<close> filled so far.\<close>

fun gpu_loop ::
  "opencl_env \<Rightarrow> miner_opencl_config_t \<Rightarrow> nat \<Rightarrow> nat \<Rightarrow> nat \<Rightarrow> nat list \<Rightarrow> miner_opencl_device_config_t list \<Rightarrow>
   miner_opencl_device_config_t list" where
  "gpu_loop env config max_devices p d [] out = out"
| "gpu_loop env config max_devices p d (device # devices) out =
    (if length out \<ge> max_devices then out
     else if \<not> is_gpu env device then gpu_loop env config max_devices p (Suc d) devices out
     else gpu_loop env config max_devices p (Suc d) devices (out @ [device_entry config (int p) (int d)]))"

fun platform_loop ::
  "opencl_env \<Rightarrow> miner_opencl_config_t \<Rightarrow> nat \<Rightarrow> nat \<Rightarrow> nat list \<Rightarrow> miner_opencl_device_config_t list \<Rightarrow>
   cl_error + miner_opencl_device_config_t list" where
  "platform_loop env config max_devices p [] out = Inr out"
| "platform_loop env config max_devices p (platform # platforms) out =
    (if length out \<ge> max_devices then Inr out
     else
     let (rc, device_count) = cl_device_count env platform
     in if rc \<noteq> CL_SUCCESS \<or> device_count = 0 then platform_loop env config max_devices (Suc p) platforms out
     else if \<not> cl_alloc env device_count then Inl (set_error ''OpenCL device allocation failed'' CL_SUCCESS)
     else
     let (rc, ids) = cl_device_ids env platform
     in if rc \<noteq> CL_SUCCESS then platform_loop env config max_devices (Suc p) platforms out
        else platform_loop env config max_devices (Suc p) platforms
               (gpu_loop env config max_devices p 0 (id_array device_count ids) out))"

text \<open>\<open>Inr\<close> carries the entries written to \<open>devices_out\<close>, their number being the return value; \<open>Inl\<close> is the
  return value -1.\<close>

definition opencl_miner_resolve_devices ::
  "opencl_env \<Rightarrow> opencl_loader_t \<Rightarrow> miner_opencl_config_t option \<Rightarrow> int \<Rightarrow>
   opencl_loader_t \<times> (cl_error + miner_opencl_device_config_t list)" where
  "opencl_miner_resolve_devices env g config max_devices =
    (case config of
       None \<Rightarrow> (g, Inr [])
     | Some config \<Rightarrow>
       if \<not> ocl_enabled config \<or> max_devices \<le> 0 then (g, Inr [])
       else if ocl_device_count config > 0
       then let count = (if ocl_device_count config < max_devices then ocl_device_count config else max_devices)
            in (g, Inr (map (\<lambda>i. opencl_device_config_apply_defaults (ocl_devices config ! i) config) [0..<nat count]))
       else if \<not> ocl_all_devices config
       then (g, Inr [device_entry config (ocl_platform config) (ocl_device config)])
       else
       case btcrig_opencl_load env g of
         (g, Some e) \<Rightarrow> (g, Inl e)
       | (g, None) \<Rightarrow>
         let (rc, platform_count) = cl_platform_count env
         in if rc \<noteq> CL_SUCCESS \<or> platform_count = 0 then (g, Inl (set_error ''no OpenCL platforms found'' rc))
         else if \<not> cl_alloc env platform_count
         then (g, Inl (set_error ''OpenCL platform allocation failed'' CL_SUCCESS))
         else
         let (rc, ids) = cl_platform_ids env
         in if rc \<noteq> CL_SUCCESS then (g, Inl (set_error ''failed to enumerate OpenCL platforms'' rc))
         else case platform_loop env config (nat max_devices) 0 (id_array platform_count ids) [] of
             Inl e \<Rightarrow> (g, Inl e)
           | Inr found \<Rightarrow>
               if found = [] then (g, Inl (set_error ''no OpenCL GPU devices found'' CL_SUCCESS)) else (g, Inr found))"

section \<open>The library is loaded once\<close>

definition runtime_found :: "opencl_env \<Rightarrow> bool" where
  "runtime_found env \<longleftrightarrow>
    (\<exists>n. cl_getenv env = Some n \<and> n \<noteq> [] \<and> cl_dlopen env n) \<or> cl_dlopen env ''libOpenCL.so.1'' \<or> cl_dlopen env ''libOpenCL.so''"

definition runtime_usable :: "opencl_env \<Rightarrow> bool" where
  "runtime_usable env \<longleftrightarrow> runtime_found env \<and> list_all (cl_dlsym env) opencl_symbols"

text \<open>A loader that has not been used holds no library.\<close>

definition loader_ok :: "opencl_loader_t \<Rightarrow> bool" where
  "loader_ok g \<longleftrightarrow> (ld_library g \<longleftrightarrow> ld_loaded g) \<and> (ld_loaded g \<longrightarrow> ld_attempted g)"

lemma find_missing: "find (\<lambda>name. \<not> P name) xs = None \<longleftrightarrow> list_all P xs"
  by (auto simp: find_None_iff list_all_iff)

lemma open_library_fresh:
  assumes "\<not> ld_library g"
  shows "snd (open_library env g) \<longleftrightarrow> runtime_found env"
    and "ld_library (fst (open_library env g)) \<longleftrightarrow> runtime_found env"
    and "ld_attempted (fst (open_library env g)) = ld_attempted g" "ld_loaded (fst (open_library env g)) = ld_loaded g"
  using assms
  by (cases "cl_getenv env"; cases "cl_dlopen env ''libOpenCL.so.1''"; cases "cl_dlopen env ''libOpenCL.so''";
      simp add: open_library_def try_open_library_def runtime_found_def set_loader_error_def Let_def)+

lemma opencl_load_keeps:
  assumes "loader_ok g"
  shows "loader_ok (fst (btcrig_opencl_load env g))" and "ld_attempted (fst (btcrig_opencl_load env g))"
    and "snd (btcrig_opencl_load env g) = None \<longleftrightarrow> ld_loaded (fst (btcrig_opencl_load env g))"
proof -
  let ?g = "g\<lparr>ld_attempted := True\<rparr>"
  obtain g' ok where o': "open_library env ?g = (g', ok)" by fastforce
  note [simp] = loader_ok_def close_library_def set_loader_error_def btcrig_opencl_load_def
  have c: "\<not> ld_loaded g \<Longrightarrow> \<not> ld_library ?g" using assms by simp
  show "loader_ok (fst (btcrig_opencl_load env g))" "ld_attempted (fst (btcrig_opencl_load env g))"
    "snd (btcrig_opencl_load env g) = None \<longleftrightarrow> ld_loaded (fst (btcrig_opencl_load env g))"
    using assms open_library_fresh [OF c, of env] o'
    by (auto simp: Let_def split: option.split)
qed

lemma opencl_load_fresh:
  assumes "loader_ok g" "\<not> ld_attempted g"
  shows "snd (btcrig_opencl_load env g) = None \<longleftrightarrow> runtime_usable env"
proof -
  let ?g = "g\<lparr>ld_attempted := True\<rparr>"
  obtain g' ok where o': "open_library env ?g = (g', ok)" by fastforce
  have n: "\<not> ld_loaded g" "\<not> ld_library ?g" using assms by (auto simp: loader_ok_def)
  show ?thesis
    using n assms(2) o' open_library_fresh(1) [OF n(2), of env] find_missing [of "cl_dlsym env" opencl_symbols]
    by (auto simp: btcrig_opencl_load_def runtime_usable_def Let_def split: option.splits)
qed

section \<open>Texts\<close>

lemma ci_prefix_iff:
  "ci_prefix p n \<longleftrightarrow> (\<exists>b c. p = b @ c \<and> map ascii_tolower_char b = map ascii_tolower_char n)"
proof (induction p n rule: ci_prefix.induct)
  case (3 c p n ns)
  show ?case
  proof
    assume "ci_prefix (c # p) (n # ns)"
    then obtain b d where "p = b @ d" "map ascii_tolower_char b = map ascii_tolower_char ns"
      "ascii_tolower_char c = ascii_tolower_char n" using 3 by (auto split: if_splits)
    then show "\<exists>b d. c # p = b @ d \<and> map ascii_tolower_char b = map ascii_tolower_char (n # ns)"
      by (intro exI [of _ "c # b"] exI [of _ d]) simp
  next
    assume "\<exists>b d. c # p = b @ d \<and> map ascii_tolower_char b = map ascii_tolower_char (n # ns)"
    then show "ci_prefix (c # p) (n # ns)" using 3 by (auto simp: Cons_eq_append_conv)
  qed
qed auto

lemma contains_ci_iff:
  assumes "n \<noteq> []"
  shows "contains_ci_from t n \<longleftrightarrow> (\<exists>a b c. t = a @ b @ c \<and> map ascii_tolower_char b = map ascii_tolower_char n)"
proof (induction t)
  case Nil
  then show ?case using assms by auto
next
  case (Cons x t)
  let ?low = "map ascii_tolower_char"
  have "(\<exists>a b c. x # t = a @ b @ c \<and> ?low b = ?low n) \<longleftrightarrow>
      (\<exists>b c. x # t = b @ c \<and> ?low b = ?low n) \<or> (\<exists>a b c. t = a @ b @ c \<and> ?low b = ?low n)" (is "?l \<longleftrightarrow> ?r \<or> ?s")
  proof
    assume ?l
    then obtain a b c where "x # t = a @ b @ c" "?low b = ?low n" by blast
    then show "?r \<or> ?s" by (cases a) auto
  next
    assume "?r \<or> ?s"
    then show ?l by (metis append_Cons append_Nil)
  qed
  then have "(\<exists>a b c. x # t = a @ b @ c \<and> ?low b = ?low n) \<longleftrightarrow>
      ci_prefix (x # t) n \<or> (\<exists>a b c. t = a @ b @ c \<and> ?low b = ?low n)" by (simp only: ci_prefix_iff)
  then show ?case using Cons by simp
qed

text \<open>Where a name stands as a whole word.\<close>

definition word_at :: "string \<Rightarrow> string \<Rightarrow> nat \<Rightarrow> bool" where
  "word_at e n p \<longleftrightarrow> take (length n) (drop p e) = n \<and> p + length n \<le> length e \<and>
    (p = 0 \<or> e ! (p - 1) = CHR '' '') \<and> (p + length n = length e \<or> e ! (p + length n) = CHR '' '')"

lemma strstr_None: "strstr t n = None \<Longrightarrow> take (length n) (drop q t) = n \<Longrightarrow> n \<noteq> [] \<Longrightarrow> False"
proof -
  assume a: "strstr t n = None" "take (length n) (drop q t) = n" "n \<noteq> []"
  then have "q < length t" using arg_cong [OF a(2), of length] by (cases "q < length t") auto
  then show False using a unfolding strstr_def find_None_iff by (auto simp del: upt_Suc)
qed

lemma extension_loop_iff:
  assumes "n \<noteq> []" "CHR '' '' \<notin> set n"
  shows "extension_loop e n p \<longleftrightarrow> (\<exists>r\<ge>p. word_at e n r)"
  using assms
proof (induction e n p rule: extension_loop.induct)
  case (1 e n p)
  show ?case
  proof (cases "strstr (drop p e) n")
    case None
    have "False" if "p \<le> r" "word_at e n r" for r
      using strstr_None [OF None, of "r - p"] that 1(2) by (simp add: word_at_def)
    then show ?thesis using None by (subst extension_loop.simps) auto
  next
    case (Some q)
    note s = strstr_SomeD [OF Some]
    have first: "p + q \<le> r" if "p \<le> r" "word_at e n r" for r
    proof (rule ccontr)
      assume "\<not> p + q \<le> r"
      then show False using s(4) [of "r - p"] that by (auto simp: word_at_def)
    qed
    have occ: "take (length n) (drop (p + q) e) = n" using s(1) by (simp add: add.commute)
    have "0 < length n" using 1(2) by simp
    then have fits: "p + q + length n \<le> length e" using s(3) unfolding length_drop by linarith
    let ?ok = "(p + q = 0 \<or> e ! (p + q - 1) = CHR '' '') \<and>
      (p + q + length n = length e \<or> e ! (p + q + length n) = CHR '' '')"
    have ok: "word_at e n (p + q) \<longleftrightarrow> ?ok" using occ fits by (simp add: word_at_def)
    have skip: "p + q + length n \<le> r" if r: "p \<le> r" "word_at e n r" and no: "\<not> ?ok" for r
    proof (rule ccontr)
      assume a: "\<not> p + q + length n \<le> r"
      have "r \<noteq> p + q" using ok no r(2) by auto
      then have lt: "p + q < r" "r - 1 - (p + q) < length n" using first [OF r] a by auto
      then have "e ! (r - 1) = n ! (r - 1 - (p + q))"
        using arg_cong [OF occ, of "\<lambda>x. x ! (r - 1 - (p + q))"] fits by simp
      moreover have "e ! (r - 1) = CHR '' ''" using r(2) lt by (auto simp: word_at_def)
      ultimately show False using 1(3) lt(2) by (metis nth_mem)
    qed
    show ?thesis
    proof (cases ?ok)
      case True
      then have "extension_loop e n p" using Some 1(2) by (subst extension_loop.simps) (simp add: Let_def)
      moreover have "\<exists>r\<ge>p. word_at e n r" using True ok by (metis le_add1)
      ultimately show ?thesis by simp
    next
      case False
      then have "extension_loop e n p = extension_loop e n (p + q + length n)"
        using Some 1(2) by (subst extension_loop.simps) (auto simp: Let_def)
      also have "\<dots> \<longleftrightarrow> (\<exists>r\<ge>p + q + length n. word_at e n r)"
        using 1(1) [OF 1(2) Some refl refl refl _ 1(2,3)] False by simp
      finally show ?thesis using skip False by (meson le_trans le_add1)
    qed
  qed
qed

lemma word_at_iff:
  assumes "n \<noteq> []"
  shows "(\<exists>p. word_at e n p) \<longleftrightarrow>
    (\<exists>a b. e = a @ n @ b \<and> (a = [] \<or> last a = CHR '' '') \<and> (b = [] \<or> hd b = CHR '' ''))"
proof
  assume "\<exists>p. word_at e n p"
  then obtain p where w: "word_at e n p" ..
  have "e = take p e @ n @ drop (p + length n) e"
    using w by (metis (no_types) word_at_def append_take_drop_id drop_drop add.commute)
  moreover have "take p e = [] \<or> last (take p e) = CHR '' ''"
  proof (cases "p = 0")
    case False
    have "e \<noteq> []" using w assms by (auto simp: word_at_def)
    then have "last (take p e) = e ! (p - 1)" using w False by (auto simp: word_at_def last_conv_nth min_def)
    then show ?thesis using w False by (simp add: word_at_def)
  qed simp
  moreover have "drop (p + length n) e = [] \<or> hd (drop (p + length n) e) = CHR '' ''"
    using w by (cases "p + length n < length e") (auto simp: word_at_def hd_drop_conv_nth)
  ultimately show "\<exists>a b. e = a @ n @ b \<and> (a = [] \<or> last a = CHR '' '') \<and> (b = [] \<or> hd b = CHR '' '')" by metis
next
  assume "\<exists>a b. e = a @ n @ b \<and> (a = [] \<or> last a = CHR '' '') \<and> (b = [] \<or> hd b = CHR '' '')"
  then obtain a b where "e = a @ n @ b" "a = [] \<or> last a = CHR '' ''" "b = [] \<or> hd b = CHR '' ''" by blast
  then have "word_at e n (length a)"
    by (cases b; cases a rule: rev_cases) (auto simp: word_at_def nth_append)
  then show "\<exists>p. word_at e n p" ..
qed

section \<open>Settings are usable\<close>

lemma clamp_npi_range: "1 \<le> unat (clamp_nonces_per_work_item v) \<and> unat (clamp_nonces_per_work_item v) \<le> 64"
  by (auto simp: clamp_nonces_per_work_item_def opencl_constants word_less_nat_alt not_less unat_gt_0 Suc_le_eq)

lemma local_work_size_bound:
  "unat (choose_local_work_size preferred mx) \<le> unat mx" and "choose_local_work_size preferred mx = 0 \<longleftrightarrow> mx = 0"
proof -
  have c: "unat (ucast x :: u64) = unat x" for x :: u32
    by (simp add: unsigned_ucast_eq take_bit_nat_eq_self unat_u32_less [THEN less_trans])
  have p: "mx \<noteq> 0 \<Longrightarrow> 1 \<le> mx" by (simp add: word_le_nat_alt unat_gt_0 Suc_le_eq)
  show "unat (choose_local_work_size preferred mx) \<le> unat mx"
    using c by (auto simp: choose_local_work_size_def word_le_nat_alt find_Some_iff split: option.split)
  show "choose_local_work_size preferred mx = 0 \<longleftrightarrow> mx = 0"
    using p by (auto simp: choose_local_work_size_def find_Some_iff split: option.split if_splits)
qed

definition device_ok :: "miner_opencl_device_config_t \<Rightarrow> bool" where
  "device_ok d \<longleftrightarrow> dev_batch_size d \<noteq> 0 \<and> dev_max_results d \<noteq> 0 \<and>
    1 \<le> unat (dev_nonces_per_work_item d) \<and> unat (dev_nonces_per_work_item d) \<le> 64 \<and>
    dev_backend_variant d \<in> {0, 1, 2} \<and> dev_kernel_variant d \<in> {0..6}"

lemma normalized:
  "normalize_backend_variant v \<in> {0, 1, 2}" "normalize_opencl_kernel v \<in> {0..6}"
  by (simp_all add: normalize_backend_variant_def normalize_opencl_kernel_def opencl_constants)

lemma device_entry_ok: "device_ok (device_entry config p d)"
  using clamp_npi_range [of "ocl_nonces_per_work_item config"] normalized
  by (simp add: device_ok_def device_entry_def u32_or_def opencl_constants)

lemma apply_defaults_ok: "device_ok (opencl_device_config_apply_defaults d config)"
  using clamp_npi_range normalized
  by (simp add: device_ok_def opencl_device_config_apply_defaults_def u32_or_def Let_def opencl_constants)

section \<open>The devices found\<close>

text \<open>All GPUs of all platforms, by platform and device number. A platform that fails to list its devices
  has none.\<close>

definition platform_gpus :: "opencl_env \<Rightarrow> nat \<Rightarrow> nat \<Rightarrow> (nat \<times> nat) list" where
  "platform_gpus env platform p =
    (let n = snd (cl_device_count env platform)
     in if fst (cl_device_count env platform) = CL_SUCCESS \<and> fst (cl_device_ids env platform) = CL_SUCCESS
        then map (\<lambda>d. (p, d)) (filter (\<lambda>d. is_gpu env (id_array n (snd (cl_device_ids env platform)) ! d)) [0..<n])
        else [])"

definition all_gpus :: "opencl_env \<Rightarrow> (nat \<times> nat) list" where
  "all_gpus env =
    (let platforms = id_array (snd (cl_platform_count env)) (snd (cl_platform_ids env))
     in concat (map (\<lambda>p. platform_gpus env (platforms ! p) p) [0..<length platforms]))"

lemma length_id_array [simp]: "length (id_array n ids) = n"
  by (simp add: id_array_def)

lemma gpu_loop_spec:
  assumes "length out \<le> mx"
  shows "gpu_loop env config mx p d devices out =
    take mx (out @ map (\<lambda>i. device_entry config (int p) (int (d + i))) (filter (\<lambda>i. is_gpu env (devices ! i)) [0..<length devices]))"
  using assms
proof (induction devices arbitrary: d out)
  case (Cons device devices)
  have "filter (\<lambda>i. is_gpu env ((device # devices) ! i)) [0..<length (device # devices)] =
      (if is_gpu env device then [0] else []) @ map Suc (filter (\<lambda>i. is_gpu env (devices ! i)) [0..<length devices])"
    by (simp add: upt_conv_Cons map_Suc_upt [symmetric] filter_map comp_def del: upt_Suc)
  then show ?case using Cons.IH [of out "Suc d"] Cons.IH [of "out @ [device_entry config (int p) (int d)]" "Suc d"] Cons.prems
    by (simp add: comp_def ac_simps take_Cons')
qed simp

lemma take_take_app: "take m (take m xs @ ys) = take m (xs @ ys)"
  by (cases "length xs \<le> m") simp_all

lemma platform_loop_spec:
  assumes "length out \<le> mx" "\<And>n. cl_alloc env n"
  shows "platform_loop env config mx p platforms out =
    Inr (take mx (out @ map (\<lambda>(p, d). device_entry config (int p) (int d))
      (concat (map (\<lambda>i. platform_gpus env (platforms ! i) (p + i)) [0..<length platforms]))))"
  using assms(1)
proof (induction platforms arbitrary: p out)
  case (Cons platform platforms)
  let ?entry = "\<lambda>(p, d). device_entry config (int p) (int d)"
  have shift: "concat (map (\<lambda>i. platform_gpus env ((platform # platforms) ! i) (p + i)) [0..<length (platform # platforms)]) =
      platform_gpus env platform p @ concat (map (\<lambda>i. platform_gpus env (platforms ! i) (Suc p + i)) [0..<length platforms])"
    by (simp add: upt_conv_Cons map_Suc_upt [symmetric] comp_def del: upt_Suc)
  show ?case
  proof (cases "length out \<ge> mx")
    case True
    then show ?thesis using Cons.prems by simp
  next
    case False
    let ?out = "take mx (out @ map ?entry (platform_gpus env platform p))"
    have "platform_loop env config mx p (platform # platforms) out = platform_loop env config mx (Suc p) platforms ?out"
      using False Cons.prems assms(2)
      by (simp add: platform_gpus_def gpu_loop_spec Let_def comp_def split: prod.split)
    also have "\<dots> = Inr (take mx (?out @ map ?entry
        (concat (map (\<lambda>i. platform_gpus env (platforms ! i) (Suc p + i)) [0..<length platforms]))))"
      by (rule Cons.IH) simp
    finally show ?thesis unfolding shift by (simp only: take_take_app map_append append_assoc)
  qed
qed simp

lemma platform_loop_ok:
  assumes "platform_loop env config mx p platforms out = Inr found" "list_all device_ok out"
  shows "list_all device_ok found"
proof -
  have g: "list_all device_ok (gpu_loop env config mx p d devices out)" if "list_all device_ok out" for p d devices out
    using that by (induction devices arbitrary: d out) (simp_all add: device_entry_ok)
  show ?thesis using assms
    by (induction platforms arbitrary: p out) (auto simp: g Let_def split: if_splits prod.splits)
qed

lemma platform_loop_bound:
  assumes "platform_loop env config mx p platforms out = Inr found" "length out \<le> mx"
  shows "length found \<le> mx"
proof -
  have g: "length (gpu_loop env config mx p d devices out) \<le> mx" if "length out \<le> mx" for p d devices out
    using that by (simp add: gpu_loop_spec)
  show ?thesis using assms
    by (induction platforms arbitrary: p out) (auto simp: g Let_def split: if_splits prod.splits)
qed

lemma platform_gpus_index: "x \<in> set (platform_gpus env platform p) \<Longrightarrow> fst x = p"
  by (auto simp: platform_gpus_def Let_def split: if_splits)

lemma platform_gpus_distinct: "distinct (platform_gpus env platform p)"
  by (auto simp: platform_gpus_def Let_def distinct_map inj_on_def)

lemma all_gpus_distinct: "distinct (all_gpus env)"
proof -
  have "distinct (concat (map (\<lambda>p. platform_gpus env (ps ! p) p) [0..<n]))" for ps n
  proof (induction n)
    case (Suc n)
    have "set (concat (map (\<lambda>p. platform_gpus env (ps ! p) p) [0..<n])) \<inter> set (platform_gpus env (ps ! n) n) = {}"
      by (force dest: platform_gpus_index)
    then show ?case using Suc by (simp add: platform_gpus_distinct)
  qed simp
  then show ?thesis by (simp add: all_gpus_def Let_def)
qed

lemma resolve_devices_ok:
  assumes "opencl_miner_resolve_devices env g config mx = (g', Inr ds)"
  shows "list_all device_ok ds" and "int (length ds) \<le> max 0 mx"
proof -
  note split = if_splits prod.splits option.splits sum.splits
  show "list_all device_ok ds"
    using assms
    by (auto simp: opencl_miner_resolve_devices_def Let_def device_entry_ok list_all_iff apply_defaults_ok
        dest!: platform_loop_ok split: split)
  show "int (length ds) \<le> max 0 mx"
    using assms
    by (auto simp: opencl_miner_resolve_devices_def Let_def dest!: platform_loop_bound split: split)
qed

text \<open>When every GPU is asked for and memory does not run out.\<close>

lemma resolve_all_devices:
  assumes "ocl_enabled c" "ocl_all_devices c" "ocl_device_count c \<le> 0" "0 < mx"
    "snd (btcrig_opencl_load env g) = None" "\<And>n. cl_alloc env n"
    "fst (cl_platform_count env) = CL_SUCCESS" "0 < snd (cl_platform_count env)" "fst (cl_platform_ids env) = CL_SUCCESS"
  shows "snd (opencl_miner_resolve_devices env g (Some c) mx) =
    (if all_gpus env = [] then Inl (Cl_Msg ''no OpenCL GPU devices found'')
     else Inr (map (\<lambda>(p, d). device_entry c (int p) (int d)) (take (nat mx) (all_gpus env))))"
proof -
  obtain g' where l: "btcrig_opencl_load env g = (g', None)" using assms(5) by (metis prod.collapse)
  obtain n where n: "cl_platform_count env = (CL_SUCCESS, n)" "0 < n" using assms(7,8) by (metis prod.collapse)
  obtain ids where i: "cl_platform_ids env = (CL_SUCCESS, ids)" using assms(9) by (metis prod.collapse)
  have p: "platform_loop env c (nat mx) 0 (id_array n ids) [] =
      Inr (map (\<lambda>(p, d). device_entry c (int p) (int d)) (take (nat mx) (all_gpus env)))"
    using platform_loop_spec [of "[]" "nat mx" env c 0 "id_array n ids"] assms(6)
    by (simp add: all_gpus_def n(1) i take_map Let_def)
  show ?thesis
    using assms(1-4,6) n(2)
    by (simp add: opencl_miner_resolve_devices_def l n(1) i p set_error_def)
qed

section \<open>Properties\<close>

text \<open>Two platforms, the first with a CPU and a GPU, the second with a GPU.\<close>

definition demo_opencl :: opencl_env where
  "demo_opencl = \<lparr>cl_getenv = None, cl_dlopen = (\<lambda>f. True), cl_dlsym = (\<lambda>f. True), cl_platform_count = (0, 2),
     cl_platform_ids = (0, [10, 20]), cl_device_count = (\<lambda>p. if p = 10 then (0, 2) else (0, 1)),
     cl_device_ids = (\<lambda>p. if p = 10 then (0, [11, 12]) else (0, [21])),
     cl_device_type = (\<lambda>d. if d = 11 then (0, 2) else (0, 4)),
     cl_info_text = (\<lambda>d i. case i of Info_version \<Rightarrow> ''OpenCL 1.2'' | _ \<Rightarrow> ''g''),
     cl_extensions_size = (\<lambda>d. (0, 1)), cl_extensions = (\<lambda>d. (0, [])), cl_max_work_group = (\<lambda>d. 1024),
     cl_alloc = (\<lambda>n. True)\<rparr>"

definition demo_loader :: opencl_loader_t where
  "demo_loader = \<lparr>ld_library = False, ld_attempted = False, ld_loaded = False, ld_error = []\<rparr>"

lemma demo_loads: "snd (btcrig_opencl_load demo_opencl demo_loader) = None"
  using opencl_load_fresh [of demo_loader demo_opencl]
  by (simp add: loader_ok_def demo_loader_def runtime_usable_def runtime_found_def demo_opencl_def list_all_iff)

text \<open>C18. The devices that are resolved are usable and fit in the caller's array: whatever the settings and
  the answers of the library, there are at most \<open>max_devices\<close> of them, each with a batch size and a result
  array that are not empty, between 1 and 64 nonces per work item and known variants. With every GPU
  asked for they are the first GPUs of the enumeration by platform and device, each once.\<close>

theorem opencl_devices_resolved:
  "(opencl_miner_resolve_devices env g config mx = (g', Inr ds) \<longrightarrow>
     list_all device_ok ds \<and> int (length ds) \<le> max 0 mx) \<and>
   (ocl_enabled c \<and> ocl_all_devices c \<and> ocl_device_count c \<le> 0 \<and> 0 < mx \<and>
      snd (btcrig_opencl_load env g) = None \<and> (\<forall>n. cl_alloc env n) \<and>
      fst (cl_platform_count env) = CL_SUCCESS \<and> 0 < snd (cl_platform_count env) \<and>
      fst (cl_platform_ids env) = CL_SUCCESS \<and> all_gpus env \<noteq> [] \<longrightarrow>
    snd (opencl_miner_resolve_devices env g (Some c) mx) =
      Inr (map (\<lambda>(p, d). device_entry c (int p) (int d)) (take (nat mx) (all_gpus env))) \<and> distinct (all_gpus env))"
  using resolve_devices_ok [of env g config mx g' ds] resolve_all_devices [of c mx env g] all_gpus_distinct by simp

theorem opencl_devices_resolved_witness:
  "all_gpus demo_opencl = [(0, 1), (1, 0)] \<and>
   snd (opencl_miner_resolve_devices demo_opencl demo_loader (Some (miner_opencl_config_defaults\<lparr>ocl_enabled := True\<rparr>)) 8) =
     Inr [device_entry (miner_opencl_config_defaults\<lparr>ocl_enabled := True\<rparr>) 0 1,
          device_entry (miner_opencl_config_defaults\<lparr>ocl_enabled := True\<rparr>) 1 0]"
proof -
  have g: "all_gpus demo_opencl = [(0, 1), (1, 0)]"
    by (simp add: all_gpus_def platform_gpus_def demo_opencl_def id_array_def is_gpu_def CL_SUCCESS_def Let_def
        literal_arrays upt_rec)
  show ?thesis
    using opencl_devices_resolved [of demo_opencl demo_loader None 8 demo_loader "[]"
        "miner_opencl_config_defaults\<lparr>ocl_enabled := True\<rparr>"] demo_loads
    by (simp add: g) (simp add: demo_opencl_def miner_opencl_config_defaults_def CL_SUCCESS_def)
qed

text \<open>An OpenCL extension counts as present exactly when its name is one of the blank-separated words of
  the extension text: the search neither takes a part of a longer name for it nor skips an occurrence.\<close>

theorem extension_whole_word:
  assumes "n \<noteq> []" "CHR '' '' \<notin> set n"
  shows "extension_list_has (Some e) (Some n) \<longleftrightarrow>
    (\<exists>a b. e = a @ n @ b \<and> (a = [] \<or> last a = CHR '' '') \<and> (b = [] \<or> hd b = CHR '' ''))"
  using extension_loop_iff [OF assms, of e 0] word_at_iff [OF assms(1), of e] assms(1)
  by (simp add: extension_list_has_def)

theorem extension_whole_word_witness:
  "extension_list_has (Some ''cl_abc cl_ab cl_b'') (Some ''cl_ab'') \<and> \<not> extension_list_has (Some ''cl_abc'') (Some ''cl_ab'')"
proof -
  have "extension_list_has (Some ''cl_abc cl_ab cl_b'') (Some ''cl_ab'')"
    by (subst extension_whole_word) (simp_all add: exI [of _ "''cl_abc ''"])
  moreover have "\<not> extension_list_has (Some ''cl_abc'') (Some ''cl_ab'')"
    by (subst extension_whole_word) (auto simp: Cons_eq_append_conv)
  ultimately show ?thesis by simp
qed

end
