(* ===== verification/Opencl_Miner.thy ===== *)
theory Opencl_Miner
  imports Opencl_Kernel Opencl_Device Sha256d_Dispatch
begin

text \<open>
  The OpenCL backend, the rest of \<open>src/src/opencl_miner.c\<close>: composing and building the program, creating
  and destroying a device, the scan of a nonce range and the self test. The calls that create and release
  OpenCL objects are parameters (\<open>opencl_calls\<close>) and are logged as events.

  Main results: a failing creation gives back everything it acquired; the kernel a device was created
  with exists in its program and divides the range the way the settings say; a scan that succeeds has
  reported matches of the range only, each once, and all of them when the result array was large enough;
  the self test passes exactly when the device reports every test nonce once with its right hash.
\<close>

section \<open>The program\<close>

text \<open>The pieces of program text.\<close>

datatype kernel_text =
    K_kernel_compact
  | K_kernel
  | K_kernel_rounds
  | K_tail_helpers
  | K_modern_scalar_macro
  | K_modern_tail_helpers
  | K_tail_kernels
  | K_modern_fixed_kernels
  | K_modern_register_prefix
  | K_modern_register_scan
  | K_modern_register_kernel

definition program_sources :: "int \<Rightarrow> int \<Rightarrow> kernel_text list" where
  "program_sources backend_variant kernel_variant =
    (let use_modern_unrolled =
           (backend_variant = MINER_OPENCL_BACKEND_MODERN \<and> kernel_variant = MINER_OPENCL_KERNEL_UNROLLED);
         use_modern_fixed =
           (backend_variant = MINER_OPENCL_BACKEND_MODERN \<and> kernel_variant_fixed_npi kernel_variant \<noteq> 0);
         use_modern_register =
           (backend_variant = MINER_OPENCL_BACKEND_MODERN \<and> kernel_variant = MINER_OPENCL_KERNEL_REGISTER_HEAVY);
         use_modern_scalar = (use_modern_unrolled \<or> use_modern_fixed \<or> use_modern_register);
         sources = (if kernel_variant = MINER_OPENCL_KERNEL_COMPACT then [K_kernel_compact]
                    else [K_kernel, K_kernel_rounds]);
         sources = sources @ (if use_modern_scalar then [K_modern_scalar_macro, K_modern_tail_helpers]
                              else [K_tail_helpers]);
         sources = sources @ (if use_modern_register then [K_modern_register_prefix, K_modern_register_scan] else []);
         tail_kernels = (if use_modern_register then K_modern_register_kernel
                         else if use_modern_fixed then K_modern_fixed_kernels else K_tail_kernels)
     in sources @ [tail_kernels])"

text \<open>What the texts mean when they are compiled together: the \<open>scan_one_nonce\<close> a kernel calls is the one of the
  helpers before it, whose \<open>compress\<close> is the one of the first text.\<close>

definition program_scan :: "kernel_text list \<Rightarrow> scan_one" where
  "program_scan sources =
    (if K_modern_tail_helpers \<in> set sources then scan_one_at
     else if K_kernel_compact \<in> set sources then scan_one_nonce_arrays compress_compact
     else scan_one_nonce_arrays compress_unrolled)"

definition text_kernels :: "scan_one \<Rightarrow> kernel_text \<Rightarrow> (string \<times> opencl_kernel) list" where
  "text_kernels scan t =
    (case t of
       K_tail_kernels \<Rightarrow>
         [(''scan_nonce_range_npi1'', scan_nonce_range_npi1 scan),
          (''scan_nonce_range_npi2'', scan_nonce_range_npi2 scan),
          (''scan_nonce_range_npi4'', scan_nonce_range_npi4 scan),
          (''scan_nonce_range'', scan_nonce_range scan)]
     | K_modern_fixed_kernels \<Rightarrow>
         [(''modern_scan_nonce_range_fixed_npi1'', modern_scan_nonce_range_fixed_npi1),
          (''modern_scan_nonce_range_fixed_npi2'', modern_scan_nonce_range_fixed_npi2),
          (''modern_scan_nonce_range_fixed_npi4'', modern_scan_nonce_range_fixed_npi4)]
     | K_modern_register_kernel \<Rightarrow>
         [(''modern_scan_nonce_range_register_heavy'', modern_scan_nonce_range_register_heavy)]
     | _ \<Rightarrow> [])"

definition program_kernels :: "kernel_text list \<Rightarrow> (string \<times> opencl_kernel) list" where
  "program_kernels sources = concat (map (text_kernels (program_scan sources)) sources)"

section \<open>Creating and destroying a device\<close>

record opencl_calls =
  clCreateContext :: "int \<times> nat"
  clCreateCommandQueue :: "int \<times> nat"
  clCreateProgramWithSource :: "kernel_text list \<Rightarrow> int \<times> nat"
  clBuildProgram :: "kernel_text list \<Rightarrow> int"
  build_log :: "kernel_text list \<Rightarrow> string"
  clCreateKernel :: "kernel_text list \<Rightarrow> string \<Rightarrow> int \<times> nat"
  clCreateBuffer_count :: "int \<times> nat"
  clCreateBuffer_matches :: "nat \<Rightarrow> int \<times> nat"
  calloc_miner :: bool
  calloc_matches :: "nat \<Rightarrow> bool"

datatype opencl_resource =
  O_miner | O_context | O_queue | O_program | O_kernel | O_count_buf | O_matches_buf | O_matches

type_synonym opencl_event = "opencl_resource res_event"

text \<open>The kernel name and the sources stand for what the kernel and program handles refer to.\<close>

record opencl_miner =
  om_platform :: nat
  om_device :: nat
  om_context :: nat
  om_queue :: nat
  om_program :: nat
  om_sources :: "kernel_text list"
  om_kernel :: nat
  om_kernel_name :: string
  om_count_buf :: nat
  om_matches_buf :: nat
  om_batch_size :: u32
  om_local_work_size :: u32
  om_nonces_per_work_item :: u32
  om_max_results :: u32
  om_matches :: bool
  om_backend_variant :: int
  om_kernel_variant :: int
  om_device_name :: string
  om_device_vendor :: string
  om_device_version :: string
  om_backend_name :: string

definition zero_opencl_miner :: opencl_miner where
  "zero_opencl_miner =
    \<lparr>om_platform = 0, om_device = 0, om_context = 0, om_queue = 0, om_program = 0, om_sources = [], om_kernel = 0,
     om_kernel_name = [], om_count_buf = 0, om_matches_buf = 0, om_batch_size = 0, om_local_work_size = 0,
     om_nonces_per_work_item = 0, om_max_results = 0, om_matches = False, om_backend_variant = 0,
     om_kernel_variant = 0, om_device_name = [], om_device_vendor = [], om_device_version = [], om_backend_name = []\<rparr>"

definition opencl_miner_destroy :: "opencl_miner option \<Rightarrow> opencl_event list" where
  "opencl_miner_destroy miner =
    (case miner of
       None \<Rightarrow> []
     | Some m \<Rightarrow>
         (if om_matches m then [Release O_matches] else []) @
         (if om_matches_buf m \<noteq> 0 then [Release O_matches_buf] else []) @
         (if om_count_buf m \<noteq> 0 then [Release O_count_buf] else []) @
         (if om_kernel m \<noteq> 0 then [Release O_kernel] else []) @
         (if om_program m \<noteq> 0 then [Release O_program] else []) @
         (if om_queue m \<noteq> 0 then [Release O_queue] else []) @
         (if om_context m \<noteq> 0 then [Release O_context] else []) @
         [Release O_miner])"

definition release_program_objects :: "opencl_miner option \<Rightarrow> opencl_miner option \<times> opencl_event list" where
  "release_program_objects miner =
    (case miner of
       None \<Rightarrow> (None, [])
     | Some m \<Rightarrow>
         (Some (m\<lparr>om_kernel := 0, om_program := 0\<rparr>),
          (if om_kernel m \<noteq> 0 then [Release O_kernel] else []) @
          (if om_program m \<noteq> 0 then [Release O_program] else [])))"

text \<open>A creating call stores its handle whatever its code; it has acquired something when it reports
  success.\<close>

definition acquired :: "int \<Rightarrow> 'r \<Rightarrow> 'r res_event list" where
  "acquired rc r = (if rc = CL_SUCCESS then [Acquire r] else [])"

definition build_program :: "opencl_calls \<Rightarrow> opencl_miner \<Rightarrow> opencl_miner \<times> opencl_event list \<times> cl_error option" where
  "build_program calls m =
    (let sources = program_sources (om_backend_variant m) (om_kernel_variant m);
         (rc, program) = clCreateProgramWithSource calls sources;
         m = m\<lparr>om_program := program, om_sources := sources\<rparr>;
         evs = acquired rc O_program
     in if rc \<noteq> CL_SUCCESS then (m, evs, Some (set_error ''failed to create OpenCL program'' rc))
     else if clBuildProgram calls sources \<noteq> CL_SUCCESS
     then (m, evs, Some (Cl_Msg (''failed to build OpenCL kernel: '' @ take 1800 (build_log calls sources))))
     else
     let name = kernel_name_for_variant (om_kernel_variant m) (om_nonces_per_work_item m);
         (rc, kern) = clCreateKernel calls sources name;
         m = m\<lparr>om_kernel := kern, om_kernel_name := name\<rparr>;
         evs = evs @ acquired rc O_kernel
     in if rc \<noteq> CL_SUCCESS then (m, evs, Some (set_error ''failed to create OpenCL kernel'' rc))
        else (m, evs, None))"

text \<open>The settings a device starts with, \<open>None\<close> for a NULL configuration; with the kernel variant asked for.\<close>

definition initial_miner :: "miner_opencl_config_t option \<Rightarrow> opencl_miner \<times> int \<times> int" where
  "initial_miner config =
    (let batch = (case config of Some c \<Rightarrow> u32_or (ocl_batch_size c) OPENCL_DEFAULT_BATCH_SIZE
                    | None \<Rightarrow> OPENCL_DEFAULT_BATCH_SIZE);
         local = (case config of Some c \<Rightarrow> ocl_local_work_size c | None \<Rightarrow> 0);
         npi = (case config of Some c \<Rightarrow> clamp_nonces_per_work_item (ocl_nonces_per_work_item c)
                  | None \<Rightarrow> OPENCL_DEFAULT_NONCES_PER_WORK_ITEM);
         max_results = (case config of Some c \<Rightarrow> u32_or (ocl_max_results c) OPENCL_DEFAULT_MAX_RESULTS
                          | None \<Rightarrow> OPENCL_DEFAULT_MAX_RESULTS);
         requested_kernel_variant = (case config of Some c \<Rightarrow> normalize_opencl_kernel (ocl_kernel_variant c)
                                       | None \<Rightarrow> MINER_OPENCL_KERNEL_AUTO);
         requested_backend_variant = (case config of Some c \<Rightarrow> normalize_backend_variant (ocl_backend_variant c)
                                        | None \<Rightarrow> MINER_OPENCL_BACKEND_AUTO);
         batch = (if batch < 1024 then 1024 else batch);
         max_results = (if max_results < 1 then 1 else max_results)
     in (zero_opencl_miner\<lparr>om_batch_size := batch, om_local_work_size := local, om_nonces_per_work_item := npi,
           om_max_results := max_results,
           om_kernel_variant := (if requested_kernel_variant = MINER_OPENCL_KERNEL_AUTO
             then MINER_OPENCL_KERNEL_UNROLLED else requested_kernel_variant)\<rparr>,
         requested_kernel_variant, requested_backend_variant))"

definition or_unknown :: "string \<Rightarrow> string" where
  "or_unknown s = (if s = [] then ''unknown'' else s)"

text \<open>The part of \<open>opencl_miner_create\<close> that decides about the device and changes no OpenCL object.\<close>

definition configure_miner ::
  "opencl_env \<Rightarrow> miner_opencl_config_t option \<Rightarrow> opencl_miner \<Rightarrow> int \<Rightarrow> cl_error + opencl_miner" where
  "configure_miner env config m requested_backend_variant =
    (case select_platform_device env config of
       Inl e \<Rightarrow> Inl e
     | Inr (platform, device) \<Rightarrow>
       let m = m\<lparr>om_platform := platform, om_device := device,
             om_device_name := or_unknown (cl_info_text env device Info_name),
             om_device_vendor := or_unknown (cl_info_text env device Info_vendor),
             om_device_version := or_unknown (cl_info_text env device Info_version)\<rparr>
       in case resolve_backend_variant env device (om_device_version m) requested_backend_variant of
            Inl e \<Rightarrow> Inl e
          | Inr resolved_backend \<Rightarrow>
            let m = m\<lparr>om_backend_variant := resolved_backend\<rparr>
            in if kernel_variant_modern_only (om_kernel_variant m) \<and>
                  om_backend_variant m \<noteq> MINER_OPENCL_BACKEND_MODERN
            then Inl (set_error ''modern-only OpenCL kernels require backend=modern'' CL_SUCCESS)
            else
            let forced_npi = kernel_variant_forced_npi (om_kernel_variant m);
                m = (if forced_npi \<noteq> 0 then m\<lparr>om_nonces_per_work_item := forced_npi\<rparr> else m);
                max_work_group = cl_max_work_group env device
            in Inr (if om_local_work_size m = 0
                    then m\<lparr>om_local_work_size :=
                      default_local_work_size_for_device (om_device_vendor m) (om_device_name m) max_work_group\<rparr>
                    else if max_work_group > 0 \<and> ucast (om_local_work_size m) > max_work_group
                    then m\<lparr>om_local_work_size := ucast max_work_group\<rparr>
                    else m))"

definition create_failed ::
  "opencl_loader_t \<Rightarrow> opencl_event list \<Rightarrow> opencl_miner \<Rightarrow> cl_error \<Rightarrow>
   opencl_loader_t \<times> opencl_event list \<times> (cl_error + opencl_miner)" where
  "create_failed g evs m e = (g, evs @ opencl_miner_destroy (Some m), Inl e)"

text \<open>From the label \<open>program_built\<close> on.\<close>

definition create_buffers ::
  "opencl_calls \<Rightarrow> opencl_loader_t \<Rightarrow> opencl_event list \<Rightarrow> opencl_miner \<Rightarrow>
   opencl_loader_t \<times> opencl_event list \<times> (cl_error + opencl_miner)" where
  "create_buffers calls g evs m =
    (let m = m\<lparr>om_backend_name := opencl_backend_variant_name (om_backend_variant m) @ ''-'' @
               opencl_kernel_variant_name (om_kernel_variant m)\<rparr>;
         (rc, count_buf) = clCreateBuffer_count calls;
         m = m\<lparr>om_count_buf := count_buf\<rparr>;
         evs = evs @ acquired rc O_count_buf
     in if rc \<noteq> CL_SUCCESS
        then create_failed g evs m (set_error ''failed to create OpenCL result count buffer'' rc)
     else
     let (rc, matches_buf) = clCreateBuffer_matches calls (4 * 9 * unat (om_max_results m));
         m = m\<lparr>om_matches_buf := matches_buf\<rparr>;
         evs = evs @ acquired rc O_matches_buf
     in if rc \<noteq> CL_SUCCESS
        then create_failed g evs m (set_error ''failed to create OpenCL matches buffer'' rc)
     else if \<not> calloc_matches calls (unat (om_max_results m) * 9)
        then create_failed g evs m (set_error ''OpenCL host result allocation failed'' CL_SUCCESS)
     else (g, evs @ [Acquire O_matches], Inr (m\<lparr>om_matches := True\<rparr>)))"

text \<open>The program, built a second time with the compact kernel when the automatic choice fails.\<close>

definition create_program ::
  "opencl_calls \<Rightarrow> opencl_loader_t \<Rightarrow> opencl_event list \<Rightarrow> opencl_miner \<Rightarrow> int \<Rightarrow>
   opencl_loader_t \<times> opencl_event list \<times> (cl_error + opencl_miner)" where
  "create_program calls g evs m requested_kernel_variant =
    (case build_program calls m of
       (m, built, None) \<Rightarrow> create_buffers calls g (evs @ built) m
     | (m, built, Some e) \<Rightarrow>
       let evs = evs @ built
       in if requested_kernel_variant = MINER_OPENCL_KERNEL_AUTO \<and> om_kernel_variant m = MINER_OPENCL_KERNEL_UNROLLED
          then (case release_program_objects (Some m) of
              (released, freed) \<Rightarrow>
              let m = (the released)\<lparr>om_kernel_variant := MINER_OPENCL_KERNEL_COMPACT\<rparr>
              in (case build_program calls m of
                    (m, built, None) \<Rightarrow> create_buffers calls g (evs @ freed @ built) m
                  | (m, built, Some e) \<Rightarrow> create_failed g (evs @ freed @ built) m e))
          else create_failed g evs m e)"

text \<open>The loader state, the log and the device; \<open>Inl\<close> is a NULL result with the message in \<open>error\<close>.\<close>

definition opencl_miner_create ::
  "opencl_env \<Rightarrow> opencl_calls \<Rightarrow> opencl_loader_t \<Rightarrow> miner_opencl_config_t option \<Rightarrow>
   opencl_loader_t \<times> opencl_event list \<times> (cl_error + opencl_miner)" where
  "opencl_miner_create env calls g config =
    (case btcrig_opencl_load env g of
       (g, Some e) \<Rightarrow> (g, [], Inl e)
     | (g, None) \<Rightarrow>
       if \<not> calloc_miner calls then (g, [], Inl (set_error ''OpenCL miner allocation failed'' CL_SUCCESS))
       else
       let evs = [Acquire O_miner];
           (m, requested_kernel_variant, requested_backend_variant) = initial_miner config
       in case configure_miner env config m requested_backend_variant of
         Inl e \<Rightarrow> create_failed g evs m e
       | Inr m \<Rightarrow>
         let (rc, context) = clCreateContext calls;
             m = m\<lparr>om_context := context\<rparr>;
             evs = evs @ acquired rc O_context
         in if rc \<noteq> CL_SUCCESS then create_failed g evs m (set_error ''failed to create OpenCL context'' rc)
         else
         let (rc, queue) = clCreateCommandQueue calls;
             m = m\<lparr>om_queue := queue\<rparr>;
             evs = evs @ acquired rc O_queue
         in if rc \<noteq> CL_SUCCESS then create_failed g evs m (set_error ''failed to create OpenCL command queue'' rc)
         else create_program calls g evs m requested_kernel_variant)"

text \<open>The accessors; \<open>None\<close> for NULL.\<close>

definition opencl_miner_batch_size :: "opencl_miner option \<Rightarrow> u32" where
  "opencl_miner_batch_size miner = (case miner of Some m \<Rightarrow> om_batch_size m | None \<Rightarrow> OPENCL_DEFAULT_BATCH_SIZE)"

definition opencl_miner_local_work_size :: "opencl_miner option \<Rightarrow> u32" where
  "opencl_miner_local_work_size miner = (case miner of Some m \<Rightarrow> om_local_work_size m | None \<Rightarrow> 0)"

definition opencl_miner_nonces_per_work_item :: "opencl_miner option \<Rightarrow> u32" where
  "opencl_miner_nonces_per_work_item miner =
    (case miner of Some m \<Rightarrow> om_nonces_per_work_item m | None \<Rightarrow> OPENCL_DEFAULT_NONCES_PER_WORK_ITEM)"

definition opencl_miner_backend_name :: "opencl_miner option \<Rightarrow> string" where
  "opencl_miner_backend_name miner = (case miner of Some m \<Rightarrow> om_backend_name m | None \<Rightarrow> ''unavailable'')"

definition opencl_miner_device_name :: "opencl_miner option \<Rightarrow> string" where
  "opencl_miner_device_name miner = (case miner of Some m \<Rightarrow> om_device_name m | None \<Rightarrow> ''unavailable'')"

definition opencl_miner_device_version :: "opencl_miner option \<Rightarrow> string" where
  "opencl_miner_device_version miner = (case miner of Some m \<Rightarrow> om_device_version m | None \<Rightarrow> ''unavailable'')"

section \<open>Scanning\<close>

text \<open>One scan as the library sees it: the codes of its calls, \<open>or_set_arg\<close> by argument number, and what the device
  makes of the launch by the time the blocking read of the counter returns.\<close>

record opencl_run =
  or_write_count :: int
  or_set_arg :: "nat \<Rightarrow> int"
  or_launch :: int
  or_read_count :: int
  or_read_matches :: int
  or_device :: "gpu_state \<Rightarrow> gpu_state"

text \<open>The number of work items: enough for the range, rounded up to whole work groups.\<close>

definition scan_global :: "u32 \<Rightarrow> u32 \<Rightarrow> u32 \<Rightarrow> u64" where
  "scan_global nonce_count npi local_work_size =
    (let global = (ucast nonce_count + ucast npi - 1) div ucast npi;
         local = ucast local_work_size
     in if local > 0
        then let rem = global mod local in if rem \<noteq> 0 then global + (local - rem) else global
        else global)"

definition miner_kernel :: "opencl_miner \<Rightarrow> opencl_kernel" where
  "miner_kernel m =
    (case map_of (program_kernels (om_sources m)) (om_kernel_name m) of Some k \<Rightarrow> k | None \<Rightarrow> (\<lambda>A gid. Done))"

text \<open>\<open>on_match(opaque, entry[0], entry + 1)\<close> for \<open>entry = miner->matches + (size_t)i * 9U\<close>.\<close>

definition report_entry :: "'o scan_match_func \<Rightarrow> u32 list \<Rightarrow> 'o \<Rightarrow> nat \<Rightarrow> 'o" where
  "report_entry on_match ms opaque i = on_match opaque (ms ! (i * 9)) (map (\<lambda>j. ms ! (i * 9 + 1 + j)) [0..<8])"

text \<open>The return code, the state behind \<open>opaque\<close>, and the contents of the device array, which is \<open>dev\<close> before
  the call. There are 25 kernel arguments.\<close>

definition opencl_miner_scan ::
  "opencl_run \<Rightarrow> opencl_miner option \<Rightarrow> 'ctx sha256_midstate_t option \<Rightarrow> u32 list option \<Rightarrow> u32 list option \<Rightarrow>
   u32 \<Rightarrow> u32 \<Rightarrow> 'o \<Rightarrow> 'o scan_match_func option \<Rightarrow> u32 list \<Rightarrow> int \<times> 'o \<times> u32 list" where
  "opencl_miner_scan run miner state tail_words target_words start_nonce nonce_count opaque on_match dev =
    (case (miner, state, tail_words, target_words) of
      (Some m, Some st, Some tail, Some target) \<Rightarrow>
        if nonce_count = 0 then (0, opaque, dev)
        else if or_write_count run \<noteq> CL_SUCCESS then (-1, opaque, dev)
        else if foldl (OR) (or_write_count run) (map (or_set_arg run) [0..<25]) \<noteq> CL_SUCCESS then (-1, opaque, dev)
        else
        let args = \<lparr>arg_fast = wvars_of (fast_state st), arg_target = wvars_of target, arg_tail = tail_args tail,
              arg_start_nonce = start_nonce, arg_nonce_count = nonce_count,
              arg_nonces_per_thread = om_nonces_per_work_item m, arg_max_results = om_max_results m\<rparr>;
            global = scan_global nonce_count (om_nonces_per_work_item m) (om_local_work_size m)
        in if or_launch run \<noteq> CL_SUCCESS then (-1, opaque, dev)
        else
        let (mem, ps) = or_device run (launch_state (range_items (miner_kernel m) args (unat global)) dev);
            dev = matches mem
        in if or_read_count run \<noteq> CL_SUCCESS then (-1, opaque, dev)
        else
        let count = result_count mem
        in if count = 0 \<or> on_match = None then (0, opaque, dev)
        else
        let stored = (if count > om_max_results m then om_max_results m else count)
        in if or_read_matches run \<noteq> CL_SUCCESS then (-1, opaque, dev)
        else
        let host = take (9 * unat stored) dev
        in (0, foldl (report_entry (the on_match) host) opaque [0..<unat stored], dev)
    | _ \<Rightarrow> (-1, opaque, dev))"

section \<open>Self test\<close>

text \<open>\<open>None\<close> is the return value 0. The informative \<open>result\<close> structure is left out; the test header, its words and
  the callback are those of the CUDA self test.\<close>

definition opencl_miner_self_test ::
  "'ctx openssl \<Rightarrow> opencl_env \<Rightarrow> opencl_calls \<Rightarrow> opencl_run \<Rightarrow> opencl_loader_t \<Rightarrow> miner_opencl_config_t option \<Rightarrow>
   u32 list \<Rightarrow> opencl_loader_t \<times> opencl_event list \<times> cl_error option" where
  "opencl_miner_self_test ssl env calls run g config dev =
    (let test_config = (case config of Some c \<Rightarrow> c | None \<Rightarrow> miner_opencl_config_defaults);
         test_config = test_config\<lparr>ocl_batch_size := 1024, ocl_max_results := 32\<rparr>
     in case opencl_miner_create env calls g (Some test_config) of
       (g, evs, Inl e) \<Rightarrow> (g, evs, Some e)
     | (g, evs, Inr m) \<Rightarrow>
         let midstate = sha256d_80_midstate_prepare ssl (take 64 make_self_test_header);
             (rc, context, dev) = opencl_miner_scan run (Some m) (Some midstate) (Some self_test_tail)
                (Some self_test_target) self_test_start 16 self_test_context (Some (self_test_match ssl)) dev;
             evs = evs @ opencl_miner_destroy (Some m)
         in if rc \<noteq> 0 then (g, evs, Some (set_error ''OpenCL self-test scan failed'' CL_SUCCESS))
            else if \<not> self_test_passed context
            then (g, evs, Some (set_error ''OpenCL self-test hash verification failed'' CL_SUCCESS))
            else (g, evs, None))"

section \<open>The program contains the kernel\<close>

lemma program_scan_reports: "reports_nonce (program_scan sources)"
  by (simp add: program_scan_def scans_report)

lemma tail_lookup:
  "map_of (text_kernels scan K_tail_kernels) (kernel_name_for_npi npi) =
   Some (if npi = 1 then scan_nonce_range_npi1 scan else if npi = 2 then scan_nonce_range_npi2 scan
         else if npi = 4 then scan_nonce_range_npi4 scan else scan_nonce_range scan)"
  by (simp add: text_kernels_def kernel_name_for_npi_def)

lemma tail_divides:
  assumes "reports_nonce scan" "npi \<noteq> 0"
  shows "\<exists>k. map_of (text_kernels scan K_tail_kernels) (kernel_name_for_npi npi) = Some k \<and> divides_range (by_gid k) npi"
  unfolding tail_lookup
  using assms(2) divides_npi1 [OF assms(1)] divides_npi2 [OF assms(1)] divides_npi4 [OF assms(1)] divides_npi_any [OF assms]
  by auto

lemmas program_defs = program_sources_def program_kernels_def opencl_constants kernel_variant_fixed_npi_def
  kernel_variant_modern_only_def kernel_variant_forced_npi_def kernel_name_for_variant_def Let_def

lemma plain_program:
  assumes "kv \<in> {1, 2}"
  shows "program_kernels (program_sources bv kv) = text_kernels (program_scan (program_sources bv kv)) K_tail_kernels"
    and "kernel_name_for_variant kv npi = kernel_name_for_npi npi"
  using assms by (auto simp: program_defs text_kernels_def)

lemma modern_program:
  assumes "bv = MINER_OPENCL_BACKEND_MODERN"
  shows "kv \<in> {3, 4, 5} \<Longrightarrow> program_kernels (program_sources bv kv) = text_kernels scan_one_at K_modern_fixed_kernels"
    and "program_kernels (program_sources bv 6) = text_kernels scan_one_at K_modern_register_kernel"
  using assms by (auto simp: program_defs text_kernels_def)

lemma modern_lookup:
  "map_of (text_kernels scan K_modern_fixed_kernels) (kernel_name_for_variant 3 npi) = Some modern_scan_nonce_range_fixed_npi1"
  "map_of (text_kernels scan K_modern_fixed_kernels) (kernel_name_for_variant 4 npi) = Some modern_scan_nonce_range_fixed_npi2"
  "map_of (text_kernels scan K_modern_fixed_kernels) (kernel_name_for_variant 5 npi) = Some modern_scan_nonce_range_fixed_npi4"
  "map_of (text_kernels scan K_modern_register_kernel) (kernel_name_for_variant 6 npi) =
    Some modern_scan_nonce_range_register_heavy"
  by (simp_all add: text_kernels_def kernel_name_for_variant_def opencl_constants)

lemma kernel_divides:
  assumes "kv \<in> {1..6}" "kernel_variant_modern_only kv \<longrightarrow> bv = MINER_OPENCL_BACKEND_MODERN"
    "npi \<noteq> 0" "kernel_variant_forced_npi kv \<in> {0, npi}"
  shows "\<exists>k. map_of (program_kernels (program_sources bv kv)) (kernel_name_for_variant kv npi) = Some k \<and>
    divides_range (by_gid k) npi"
proof -
  have "kv \<in> {1, 2, 3, 4, 5, 6}" using assms(1) by auto
  then consider "kv \<in> {1, 2}" | "kv = 3" | "kv = 4" | "kv = 5" | "kv = 6" by blast
  then show ?thesis
  proof cases
    case 1
    then show ?thesis using tail_divides [OF program_scan_reports assms(3)] by (simp only: plain_program)
  next
    case 2
    then have "bv = MINER_OPENCL_BACKEND_MODERN" "npi = 1" using assms(2,4) by (auto simp: program_defs)
    then show ?thesis using 2 by (simp add: modern_program modern_lookup divides_modern_fixed)
  next
    case 3
    then have "bv = MINER_OPENCL_BACKEND_MODERN" "npi = 2" using assms(2,4) by (auto simp: program_defs)
    then show ?thesis using 3 by (simp add: modern_program modern_lookup divides_modern_fixed)
  next
    case 4
    then have "bv = MINER_OPENCL_BACKEND_MODERN" "npi = 4" using assms(2,4) by (auto simp: program_defs)
    then show ?thesis using 4 by (simp add: modern_program modern_lookup divides_modern_fixed)
  next
    case 5
    then have "bv = MINER_OPENCL_BACKEND_MODERN" "npi = 2" using assms(2,4) by (auto simp: program_defs)
    then show ?thesis using 5 by (simp add: modern_program modern_lookup divides_register_heavy)
  qed
qed

section \<open>Nothing is leaked\<close>

text \<open>A handle is not NULL exactly when the library reports success.\<close>

definition valid_handle :: "int \<times> nat \<Rightarrow> bool" where
  "valid_handle r \<longleftrightarrow> (fst r = CL_SUCCESS \<longleftrightarrow> snd r \<noteq> 0)"

definition handles_valid :: "opencl_calls \<Rightarrow> bool" where
  "handles_valid calls \<longleftrightarrow> valid_handle (clCreateContext calls) \<and> valid_handle (clCreateCommandQueue calls) \<and>
    (\<forall>s. valid_handle (clCreateProgramWithSource calls s)) \<and> (\<forall>s n. valid_handle (clCreateKernel calls s n)) \<and>
    valid_handle (clCreateBuffer_count calls) \<and> (\<forall>n. valid_handle (clCreateBuffer_matches calls n))"

text \<open>What a structure holds.\<close>

definition held :: "opencl_miner \<Rightarrow> opencl_resource set" where
  "held m = {O_miner} \<union> (if om_matches m then {O_matches} else {}) \<union>
    (if om_matches_buf m \<noteq> 0 then {O_matches_buf} else {}) \<union> (if om_count_buf m \<noteq> 0 then {O_count_buf} else {}) \<union>
    (if om_kernel m \<noteq> 0 then {O_kernel} else {}) \<union> (if om_program m \<noteq> 0 then {O_program} else {}) \<union>
    (if om_queue m \<noteq> 0 then {O_queue} else {}) \<union> (if om_context m \<noteq> 0 then {O_context} else {})"

lemma track_append: "track h (evs @ evs') = (case track h evs of None \<Rightarrow> None | Some h' \<Rightarrow> track h' evs')"
  by (induction h evs rule: track.induct) auto

lemma held_iff:
  "O_program \<in> held m \<longleftrightarrow> om_program m \<noteq> 0" "O_kernel \<in> held m \<longleftrightarrow> om_kernel m \<noteq> 0"
  "O_context \<in> held m \<longleftrightarrow> om_context m \<noteq> 0" "O_queue \<in> held m \<longleftrightarrow> om_queue m \<noteq> 0"
  "O_miner \<in> held m" "O_count_buf \<in> held m \<longleftrightarrow> om_count_buf m \<noteq> 0"
  "O_matches_buf \<in> held m \<longleftrightarrow> om_matches_buf m \<noteq> 0" "O_matches \<in> held m \<longleftrightarrow> om_matches m"
  by (simp_all add: held_def)

lemma track_release:
  "(r \<in> s \<longleftrightarrow> b) \<Longrightarrow> track s ((if b then [Release r] else []) @ evs) = track (s - {r}) evs"
  by simp

lemma destroy_releases: "track (held m) (opencl_miner_destroy (Some m)) = Some {}"
proof -
  have "x \<in> {O_miner, O_context, O_queue, O_program, O_kernel, O_count_buf, O_matches_buf, O_matches}" for x
    by (cases x) simp_all
  then have "held m - {O_matches} - {O_matches_buf} - {O_count_buf} - {O_kernel} - {O_program} - {O_queue} - {O_context} - {O_miner} = {}"
    by blast
  then show ?thesis
    unfolding opencl_miner_destroy_def option.case
    by (subst track_release, simp add: held_iff)+ (simp add: held_iff)
qed

lemma create_failed_released:
  "track {} evs = Some (held m) \<Longrightarrow> track {} (evs @ opencl_miner_destroy (Some m)) = Some {}"
  by (simp add: track_append destroy_releases)

lemma acquired_held:
  "valid_handle (rc, h) \<Longrightarrow> r \<notin> s \<Longrightarrow> track s (acquired rc r) = Some (if h = 0 then s else insert r s)"
  by (auto simp: acquired_def valid_handle_def)

lemma valid_calls:
  assumes "handles_valid calls"
  shows "clCreateContext calls = (rc, h) \<Longrightarrow> valid_handle (rc, h)"
    "clCreateCommandQueue calls = (rc, h) \<Longrightarrow> valid_handle (rc, h)"
    "clCreateProgramWithSource calls s = (rc, h) \<Longrightarrow> valid_handle (rc, h)"
    "clCreateKernel calls s n = (rc, h) \<Longrightarrow> valid_handle (rc, h)"
    "clCreateBuffer_count calls = (rc, h) \<Longrightarrow> valid_handle (rc, h)"
    "clCreateBuffer_matches calls k = (rc, h) \<Longrightarrow> valid_handle (rc, h)"
  using assms unfolding handles_valid_def by metis+

definition no_program :: "opencl_miner \<Rightarrow> bool" where
  "no_program m \<longleftrightarrow> om_kernel m = 0 \<and> om_program m = 0"

definition no_buffers :: "opencl_miner \<Rightarrow> bool" where
  "no_buffers m \<longleftrightarrow> om_count_buf m = 0 \<and> om_matches_buf m = 0 \<and> \<not> om_matches m"

lemma held_updates:
  "held (m\<lparr>om_sources := s\<rparr>) = held m" "held (m\<lparr>om_kernel_name := n\<rparr>) = held m"
  "held (m\<lparr>om_backend_name := n\<rparr>) = held m" "held (m\<lparr>om_kernel_variant := kv\<rparr>) = held m"
  "om_program m = 0 \<Longrightarrow> held (m\<lparr>om_program := h\<rparr>) = (if h = 0 then held m else insert O_program (held m))"
  "om_kernel m = 0 \<Longrightarrow> held (m\<lparr>om_kernel := h\<rparr>) = (if h = 0 then held m else insert O_kernel (held m))"
  "om_context m = 0 \<Longrightarrow> held (m\<lparr>om_context := h\<rparr>) = (if h = 0 then held m else insert O_context (held m))"
  "om_queue m = 0 \<Longrightarrow> held (m\<lparr>om_queue := h\<rparr>) = (if h = 0 then held m else insert O_queue (held m))"
  by (simp_all add: held_def insert_commute)

lemma build_program_held:
  assumes "handles_valid calls" "no_program m" "build_program calls m = (m', evs, r)"
  shows "track (held m) evs = Some (held m')"
    and "r = None \<longrightarrow> om_kernel m' \<noteq> 0 \<and> om_program m' \<noteq> 0"
    and "no_buffers m' = no_buffers m" "om_context m' = om_context m" "om_queue m' = om_queue m"
proof -
  let ?s = "program_sources (om_backend_variant m) (om_kernel_variant m)"
  let ?n = "kernel_name_for_variant (om_kernel_variant m) (om_nonces_per_work_item m)"
  obtain rc h where p: "clCreateProgramWithSource calls ?s = (rc, h)" by fastforce
  obtain rc' h' where k: "clCreateKernel calls ?s ?n = (rc', h')" by fastforce
  have v: "rc = CL_SUCCESS \<longleftrightarrow> h \<noteq> 0" "rc' = CL_SUCCESS \<longleftrightarrow> h' \<noteq> 0"
    using valid_calls(3) [OF assms(1) p] valid_calls(4) [OF assms(1) k] by (simp_all add: valid_handle_def)
  note b = assms(3) [unfolded build_program_def Let_def p k prod.case, simplified]
  show "track (held m) evs = Some (held m')"
    using b v assms(2)
    by (cases "h = 0"; cases "h' = 0"; cases "clBuildProgram calls ?s = CL_SUCCESS")
       (auto simp: k acquired_def held_updates held_iff no_program_def)
  show "r = None \<longrightarrow> om_kernel m' \<noteq> 0 \<and> om_program m' \<noteq> 0"
    "no_buffers m' = no_buffers m" "om_context m' = om_context m" "om_queue m' = om_queue m"
    using b v
    by (cases "h = 0"; cases "h' = 0"; cases "clBuildProgram calls ?s = CL_SUCCESS";
        auto simp: k no_buffers_def)+
qed

text \<open>Everything a device owns.\<close>

definition all_objects :: "opencl_resource set" where
  "all_objects = {O_miner, O_context, O_queue, O_program, O_kernel, O_count_buf, O_matches_buf, O_matches}"

definition create_sound :: "opencl_event list \<times> (cl_error + opencl_miner) \<Rightarrow> bool" where
  "create_sound res = (case res of
     (evs, Inl e) \<Rightarrow> track {} evs = Some {}
   | (evs, Inr m) \<Rightarrow> track {} evs = Some all_objects \<and> track all_objects (opencl_miner_destroy (Some m)) = Some {})"

lemma create_failed_sound: "track {} evs = Some (held m) \<Longrightarrow> create_sound (snd (create_failed g evs m e))"
  by (simp add: create_sound_def create_failed_def create_failed_released)

lemma create_buffers_sound:
  assumes "handles_valid calls" "no_buffers m" "track {} evs = Some (held m)"
    "om_context m \<noteq> 0" "om_queue m \<noteq> 0" "om_program m \<noteq> 0" "om_kernel m \<noteq> 0"
  shows "create_sound (snd (create_buffers calls g evs m))"
proof -
  obtain rc h where c: "clCreateBuffer_count calls = (rc, h)" by fastforce
  obtain rc' h' where b: "clCreateBuffer_matches calls (4 * 9 * unat (om_max_results m)) = (rc', h')" by fastforce
  note v = valid_calls(5) [OF assms(1) c] valid_calls(6) [OF assms(1) b]
  have v: "rc = CL_SUCCESS \<longleftrightarrow> h \<noteq> 0" "rc' = CL_SUCCESS \<longleftrightarrow> h' \<noteq> 0" using v by (simp_all add: valid_handle_def)
  have held: "held m = {O_miner, O_context, O_queue, O_program, O_kernel}"
    using assms(2,4-7) by (auto simp: held_def no_buffers_def)
  have evs: "track {} evs = Some {O_miner, O_context, O_queue, O_program, O_kernel}" using assms(3) held by simp
  show ?thesis
    using assms(2,4-7) v evs
    by (cases "h = 0"; cases "h' = 0"; cases "calloc_matches calls (unat (om_max_results m) * 9)")
       (auto simp: create_buffers_def Let_def c b [simplified] create_sound_def create_failed_def acquired_def
          track_append opencl_miner_destroy_def no_buffers_def all_objects_def)
qed

lemma create_program_sound:
  assumes "handles_valid calls" "no_program m" "no_buffers m" "track {} evs = Some (held m)"
    "om_context m \<noteq> 0" "om_queue m \<noteq> 0"
  shows "create_sound (snd (create_program calls g evs m rkv))"
proof -
  obtain m1 ev1 r1 where b1: "build_program calls m = (m1, ev1, r1)" by (metis prod_cases3)
  note h1 = build_program_held [OF assms(1,2) b1]
  have t1: "track {} (evs @ ev1) = Some (held m1)" using assms(4) h1(1) by (simp add: track_append)
  show ?thesis
  proof (cases r1)
    case None
    then show ?thesis
      using create_buffers_sound [OF assms(1) _ t1] h1 assms(3,5,6) by (simp add: create_program_def b1)
  next
    case (Some e1)
    let ?freed = "(if om_kernel m1 \<noteq> 0 then [Release O_kernel] else []) @ (if om_program m1 \<noteq> 0 then [Release O_program] else [])"
    let ?m = "m1\<lparr>om_kernel := 0, om_program := 0, om_kernel_variant := MINER_OPENCL_KERNEL_COMPACT\<rparr>"
    have "x \<in> held ?m \<longleftrightarrow> x \<in> held m1 - {O_kernel, O_program}" for x by (cases x) (simp_all add: held_iff)
    then have m: "held ?m = held m1 - {O_kernel, O_program}" by blast
    have "track (held m1) ?freed = Some (held m1 - {O_kernel, O_program})"
      using held_iff(1,2) [of m1]
      by (cases "om_kernel m1 = 0"; cases "om_program m1 = 0"; simp; blast)
    then have tf: "track {} ((evs @ ev1) @ ?freed) = Some (held ?m)"
      by (subst track_append) (simp only: t1 m option.case)
    obtain m2 ev2 r2 where b2: "build_program calls ?m = (m2, ev2, r2)" by (metis prod_cases3)
    have np: "no_program ?m" "no_buffers ?m = no_buffers m1" by (simp_all add: no_program_def no_buffers_def)
    note h2 = build_program_held [OF assms(1) np(1) b2]
    have t2: "track {} ((evs @ ev1) @ ?freed @ ev2) = Some (held m2)"
      using tf h2(1) by (subst append_assoc [symmetric], subst track_append) simp
    have "create_sound (snd (create_failed g (evs @ ev1) m1 e1))" by (rule create_failed_sound [OF t1])
    moreover have "create_sound (snd (create_failed g ((evs @ ev1) @ ?freed @ ev2) m2 e))" for e
      by (rule create_failed_sound [OF t2])
    moreover have "r2 = None \<longrightarrow> create_sound (snd (create_buffers calls g ((evs @ ev1) @ ?freed @ ev2) m2))"
      using create_buffers_sound [OF assms(1) _ t2] h2 h1 assms(3,5,6) np(2) by simp
    ultimately show ?thesis
      by (cases r2) (simp_all add: create_program_def b1 Some release_program_objects_def b2 Let_def)
  qed
qed

lemma initial_miner_held:
  assumes "initial_miner config = (m, rkv, rbv)"
  shows "held m = {O_miner}" "no_program m" "no_buffers m" "om_context m = 0" "om_queue m = 0"
  using assms by (auto simp: initial_miner_def zero_opencl_miner_def held_def no_program_def no_buffers_def Let_def)

lemma configure_keeps:
  assumes "configure_miner env config m rbv = Inr m'"
  shows "held m' = held m" "no_program m' = no_program m" "no_buffers m' = no_buffers m"
    "om_context m' = om_context m" "om_queue m' = om_queue m"
proof -
  have f: "om_context m' = om_context m \<and> om_queue m' = om_queue m \<and> om_program m' = om_program m \<and>
      om_kernel m' = om_kernel m \<and> om_count_buf m' = om_count_buf m \<and> om_matches_buf m' = om_matches_buf m \<and>
      om_matches m' = om_matches m"
    using assms by (auto simp: configure_miner_def Let_def split: sum.splits prod.splits if_splits)
  then show "held m' = held m" "no_program m' = no_program m" "no_buffers m' = no_buffers m"
    "om_context m' = om_context m" "om_queue m' = om_queue m"
    by (simp_all add: held_def no_program_def no_buffers_def)
qed

lemma opencl_create_sound:
  assumes "handles_valid calls"
  shows "create_sound (snd (opencl_miner_create env calls g config))"
proof -
  obtain g1 r1 where l: "btcrig_opencl_load env g = (g1, r1)" by fastforce
  obtain m rkv rbv where i: "initial_miner config = (m, rkv, rbv)" by (metis prod_cases3)
  note h = initial_miner_held [OF i]
  obtain rc c where cx: "clCreateContext calls = (rc, c)" by fastforce
  obtain rc' q where qu: "clCreateCommandQueue calls = (rc', q)" by fastforce
  have v: "rc = CL_SUCCESS \<longleftrightarrow> c \<noteq> 0" "rc' = CL_SUCCESS \<longleftrightarrow> q \<noteq> 0"
    using valid_calls(1) [OF assms cx] valid_calls(2) [OF assms qu] by (simp_all add: valid_handle_def)
  show ?thesis
  proof (cases "configure_miner env config m rbv")
    case (Inl e)
    then show ?thesis
      using create_failed_sound [of "[Acquire O_miner]" m] h(1)
      by (auto simp: opencl_miner_create_def l i create_sound_def Let_def split: option.split)
  next
    case (Inr m1)
    note k = configure_keeps [OF Inr]
    let ?m2 = "m1\<lparr>om_context := c\<rparr>" and ?ev2 = "[Acquire O_miner] @ acquired rc O_context"
    let ?m3 = "?m2\<lparr>om_queue := q\<rparr>" and ?ev3 = "?ev2 @ acquired rc' O_queue"
    have t2: "track {} ?ev2 = Some (held ?m2)" using h k v by (auto simp: acquired_def held_updates)
    have t3: "track {} ?ev3 = Some (held ?m3)"
      using t2 h k v by (subst track_append) (auto simp: acquired_def held_updates held_iff)
    have "create_sound (snd (create_failed g1 ?ev2 ?m2 e))" "create_sound (snd (create_failed g1 ?ev3 ?m3 e))" for e
      by (rule create_failed_sound [OF t2], rule create_failed_sound [OF t3])
    moreover have "create_sound (snd (create_program calls g1 ?ev3 ?m3 rkv))" if "c \<noteq> 0" "q \<noteq> 0"
      using that h k by (intro create_program_sound [OF assms _ _ t3]) (simp_all add: no_program_def no_buffers_def)
    ultimately show ?thesis
      using Inr v
      by (auto simp: opencl_miner_create_def l i cx qu Let_def split: option.split)
         (simp_all add: create_sound_def)
  qed
qed

section \<open>A created device is usable\<close>

text \<open>The settings before the program is built.\<close>

definition settings_ok :: "opencl_miner \<Rightarrow> bool" where
  "settings_ok m \<longleftrightarrow> 1 \<le> unat (om_nonces_per_work_item m) \<and> unat (om_nonces_per_work_item m) \<le> 64 \<and>
    om_max_results m \<noteq> 0 \<and> 1024 \<le> unat (om_batch_size m) \<and> om_kernel_variant m \<in> {1..6} \<and>
    (kernel_variant_modern_only (om_kernel_variant m) \<longrightarrow> om_backend_variant m = MINER_OPENCL_BACKEND_MODERN) \<and>
    kernel_variant_forced_npi (om_kernel_variant m) \<in> {0, om_nonces_per_work_item m}"

definition opencl_miner_ok :: "opencl_miner \<Rightarrow> bool" where
  "opencl_miner_ok m \<longleftrightarrow> settings_ok m \<and>
    om_sources m = program_sources (om_backend_variant m) (om_kernel_variant m) \<and>
    om_kernel_name m = kernel_name_for_variant (om_kernel_variant m) (om_nonces_per_work_item m)"

lemma initial_miner_settings:
  assumes "initial_miner config = (m, rkv, rbv)"
  shows "1 \<le> unat (om_nonces_per_work_item m)" "unat (om_nonces_per_work_item m) \<le> 64" "om_max_results m \<noteq> 0"
    "1024 \<le> unat (om_batch_size m)" "om_kernel_variant m \<in> {1..6}"
proof -
  have k: "normalize_opencl_kernel v \<in> {0..6}" "MINER_OPENCL_KERNEL_AUTO = 0" "MINER_OPENCL_KERNEL_UNROLLED = 2" for v
    using normalized(2) [of v] by (simp_all add: opencl_constants)
  have kv: "(if normalize_opencl_kernel v = 0 then 2 else normalize_opencl_kernel v) \<in> {1..6}" for v
    using normalized(2) [of v] by auto
  have mx: "(if x < 1 then 1 else x) \<noteq> 0" for x :: u32 by (auto simp: word_less_1)
  have b: "1024 \<le> unat (if x < 1024 then 1024 else x :: u32)" for x by (simp add: word_less_nat_alt not_less)
  obtain bs x v w where f: "om_batch_size m = (if bs < 1024 then 1024 else bs)" "om_max_results m = (if x < 1 then 1 else x)"
    "om_kernel_variant m = (if normalize_opencl_kernel v = 0 then 2 else normalize_opencl_kernel v)"
    "om_nonces_per_work_item m = clamp_nonces_per_work_item w"
  proof (cases config)
    case None
    have "normalize_opencl_kernel 0 = 0" "clamp_nonces_per_work_item 0 = OPENCL_DEFAULT_NONCES_PER_WORK_ITEM"
      by (simp_all add: normalize_opencl_kernel_def clamp_nonces_per_work_item_def opencl_constants)
    with assms None that [of OPENCL_DEFAULT_BATCH_SIZE OPENCL_DEFAULT_MAX_RESULTS 0 0] show ?thesis
      by (auto simp: initial_miner_def Let_def k split del: if_split cong: if_cong)
  next
    case (Some c)
    with assms that [of "u32_or (ocl_batch_size c) OPENCL_DEFAULT_BATCH_SIZE" "u32_or (ocl_max_results c) OPENCL_DEFAULT_MAX_RESULTS"
        "ocl_kernel_variant c" "ocl_nonces_per_work_item c"]
    show ?thesis by (auto simp: initial_miner_def Let_def k split del: if_split cong: if_cong)
  qed
  show "1 \<le> unat (om_nonces_per_work_item m)" "unat (om_nonces_per_work_item m) \<le> 64" "om_max_results m \<noteq> 0"
    "1024 \<le> unat (om_batch_size m)" "om_kernel_variant m \<in> {1..6}"
    unfolding f using clamp_npi_range [of w] kv [of v] mx [of x] b [of bs] by simp_all
qed

lemma forced_npi_range:
  "kernel_variant_forced_npi kv \<noteq> 0 \<Longrightarrow> 1 \<le> unat (kernel_variant_forced_npi kv) \<and> unat (kernel_variant_forced_npi kv) \<le> 64"
  by (auto simp: kernel_variant_forced_npi_def kernel_variant_fixed_npi_def Let_def split: if_splits)

lemma configure_settings:
  assumes "configure_miner env config m rbv = Inr m'" "1 \<le> unat (om_nonces_per_work_item m)"
    "unat (om_nonces_per_work_item m) \<le> 64" "om_max_results m \<noteq> 0" "1024 \<le> unat (om_batch_size m)"
    "om_kernel_variant m \<in> {1..6}"
  shows "settings_ok m'"
proof -
  let ?f = "kernel_variant_forced_npi (om_kernel_variant m)"
  have "om_kernel_variant m' = om_kernel_variant m \<and> om_max_results m' = om_max_results m \<and>
      om_batch_size m' = om_batch_size m \<and>
      om_nonces_per_work_item m' = (if ?f \<noteq> 0 then ?f else om_nonces_per_work_item m) \<and>
      (kernel_variant_modern_only (om_kernel_variant m) \<longrightarrow> om_backend_variant m' = MINER_OPENCL_BACKEND_MODERN)"
    using assms(1) by (auto simp: configure_miner_def Let_def split: sum.splits prod.splits if_splits)
  then show ?thesis using assms(2-6) forced_npi_range [of "om_kernel_variant m"] by (auto simp: settings_ok_def)
qed

lemma build_program_settings:
  assumes "build_program calls m = (m', evs, r)"
  shows "settings_ok m' = settings_ok m" "r = None \<Longrightarrow> settings_ok m \<Longrightarrow> opencl_miner_ok m'"
    "om_kernel_variant m' = om_kernel_variant m"
proof -
  let ?s = "program_sources (om_backend_variant m) (om_kernel_variant m)"
  let ?n = "kernel_name_for_variant (om_kernel_variant m) (om_nonces_per_work_item m)"
  have f: "om_kernel_variant m' = om_kernel_variant m \<and> om_backend_variant m' = om_backend_variant m \<and>
      om_nonces_per_work_item m' = om_nonces_per_work_item m \<and> om_max_results m' = om_max_results m \<and>
      om_batch_size m' = om_batch_size m \<and> (r = None \<longrightarrow> om_sources m' = ?s \<and> om_kernel_name m' = ?n)"
    using assms
    by (cases "clCreateProgramWithSource calls ?s"; cases "clCreateKernel calls ?s ?n")
       (auto simp: build_program_def Let_def split: if_splits)
  then show "settings_ok m' = settings_ok m" "r = None \<Longrightarrow> settings_ok m \<Longrightarrow> opencl_miner_ok m'"
    "om_kernel_variant m' = om_kernel_variant m"
    by (simp_all add: settings_ok_def opencl_miner_ok_def)
qed

lemma create_buffers_settings:
  assumes "create_buffers calls g evs m = (g', evs', Inr m')" "opencl_miner_ok m"
  shows "opencl_miner_ok m'"
  using assms
  by (auto simp: create_buffers_def create_failed_def Let_def settings_ok_def opencl_miner_ok_def split: prod.splits if_splits)

lemma compact_settings:
  assumes "settings_ok m"
  shows "settings_ok (m\<lparr>om_kernel := 0, om_program := 0, om_kernel_variant := MINER_OPENCL_KERNEL_COMPACT\<rparr>)"
  using assms by (auto simp: settings_ok_def program_defs)

lemma create_program_settings:
  assumes "create_program calls g evs m rkv = (g', evs', Inr m')" "settings_ok m"
  shows "opencl_miner_ok m'"
proof -
  obtain m1 ev1 r1 where b1: "build_program calls m = (m1, ev1, r1)" by (metis prod_cases3)
  let ?m = "m1\<lparr>om_kernel := 0, om_program := 0, om_kernel_variant := MINER_OPENCL_KERNEL_COMPACT\<rparr>"
  obtain m2 ev2 r2 where b2: "build_program calls ?m = (m2, ev2, r2)" by (metis prod_cases3)
  note s1 = build_program_settings [OF b1] and s2 = build_program_settings [OF b2]
  have "settings_ok ?m" by (rule compact_settings) (simp add: s1 assms(2))
  then show ?thesis
    using assms s1(2) s2(2) create_buffers_settings [of calls g _ _ g' evs' m']
    by (cases r1; cases r2)
       (auto simp: create_program_def b1 b2 release_program_objects_def create_failed_def Let_def split: if_splits)
qed

lemma opencl_create_ok:
  assumes "opencl_miner_create env calls g config = (g', evs, Inr m)"
  shows "opencl_miner_ok m"
proof -
  obtain m0 rkv rbv where i: "initial_miner config = (m0, rkv, rbv)" by (metis prod_cases3)
  obtain m1 where c: "configure_miner env config m0 rbv = Inr m1"
    using assms i by (auto simp: opencl_miner_create_def create_failed_def Let_def split: option.splits prod.splits if_splits sum.splits)
  have "settings_ok m1" by (rule configure_settings [OF c initial_miner_settings [OF i]])
  then have ok: "settings_ok (m1\<lparr>om_context := h, om_queue := q\<rparr>)" for h q by (simp add: settings_ok_def)
  obtain g1 evs1 h q where "create_program calls g1 evs1 (m1\<lparr>om_context := h, om_queue := q\<rparr>) rkv = (g', evs, Inr m)"
    using assms i c
    by (auto simp: opencl_miner_create_def create_failed_def Let_def split: option.splits prod.splits if_splits)
  then show ?thesis by (rule create_program_settings [OF _ ok])
qed

lemma miner_kernel_divides:
  assumes "opencl_miner_ok m"
  shows "divides_range (by_gid (miner_kernel m)) (om_nonces_per_work_item m)"
    "\<exists>k. map_of (program_kernels (om_sources m)) (om_kernel_name m) = Some k"
proof -
  have n: "om_nonces_per_work_item m \<noteq> 0" using assms by (auto simp: opencl_miner_ok_def settings_ok_def)
  then show "divides_range (by_gid (miner_kernel m)) (om_nonces_per_work_item m)"
    "\<exists>k. map_of (program_kernels (om_sources m)) (om_kernel_name m) = Some k"
    using kernel_divides [of "om_kernel_variant m" "om_backend_variant m" "om_nonces_per_work_item m"] assms
    by (auto simp: opencl_miner_ok_def settings_ok_def miner_kernel_def)
qed

section \<open>What a scan reports\<close>

text \<open>The sizes up to which the 32-bit arithmetic of the kernels is exact.\<close>

definition opencl_scan_fits :: "opencl_miner \<Rightarrow> u32 \<Rightarrow> bool" where
  "opencl_scan_fits m n \<longleftrightarrow>
    unat n + unat (om_nonces_per_work_item m) * Suc (unat (om_local_work_size m)) \<le> 2 ^ 32 \<and>
    9 * unat (om_max_results m) \<le> 2 ^ 32"

lemma round_up:
  fixes g l :: nat
  assumes "0 < l"
  defines "r \<equiv> (if g mod l \<noteq> 0 then g + (l - g mod l) else g)"
  shows "g \<le> r" and "r < g + l" and "l dvd r"
proof -
  have m: "g mod l < l" using assms(1) by simp
  have "g + (l - g mod l) < g + l" if "g mod l \<noteq> 0" using that m by linarith
  moreover have "g \<le> g + (l - g mod l)" by (rule le_add1)
  ultimately show "g \<le> r" "r < g + l" using assms(1) unfolding r_def by (cases "g mod l = 0"; simp)+
  have "g + (l - g mod l) = l * (g div l + 1)"
    using m mult_div_mod_eq [of l g] unfolding distrib_left mult_1_right by linarith
  then have "l dvd g + (l - g mod l)" by simp
  moreover have "g mod l = 0 \<Longrightarrow> l dvd g" by (simp add: mod_eq_0_iff_dvd)
  ultimately show "l dvd r" unfolding r_def by simp
qed

lemma unat_ucast64: "unat (ucast (x :: u32) :: u64) = unat x"
  by (simp add: unsigned_ucast_eq take_bit_nat_eq_self unat_u32_less [THEN less_trans])

lemma scan_global_unat:
  fixes n npi l :: u32
  assumes "1 \<le> unat npi"
  defines "w \<equiv> (unat n + unat npi - 1) div unat npi"
  shows "unat (scan_global n npi l) =
    (if 0 < unat l then if w mod unat l \<noteq> 0 then w + (unat l - w mod unat l) else w else w)"
proof -
  have b: "unat n < 2 ^ 32" "unat npi < 2 ^ 32" "unat l < 2 ^ 32" by (rule unat_u32_less)+
  have s: "unat (ucast n + ucast npi :: u64) = unat n + unat npi"
    using b by (simp add: unat_word_ariths unat_ucast64)
  then have "unat (ucast n + ucast npi - 1 :: u64) = unat n + unat npi - 1"
    using assms(1) by (simp add: unat_sub_if_size)
  then have w: "unat ((ucast n + ucast npi - 1 :: u64) div ucast npi) = w"
    by (simp add: unat_div unat_ucast64 w_def)
  have wb: "w < 2 ^ 33" unfolding w_def by (rule le_less_trans [OF div_le_dividend]) (use b in simp)
  have z: "(0 :: u64) < ucast l \<longleftrightarrow> 0 < unat l" by (simp add: word_less_nat_alt unat_ucast64)
  have m: "unat ((ucast n + ucast npi - 1 :: u64) div ucast npi mod ucast l) = w mod unat l"
    by (simp add: unat_mod w unat_ucast64)
  have sub: "unat (ucast l - (ucast n + ucast npi - 1) div ucast npi mod ucast l :: u64) = unat l - w mod unat l" if "0 < unat l"
    using mod_less_divisor [OF that, of w] by (simp add: unat_sub_if_size m unat_ucast64)
  have "w + (unat l - w mod unat l) \<le> w + unat l" by simp
  also have "\<dots> < 2 ^ 64" using wb b(3) by simp
  finally have "w + (unat l - w mod unat l) < 2 ^ 64" .
  then have add: "unat ((ucast n + ucast npi - 1) div ucast npi +
      (ucast l - (ucast n + ucast npi - 1) div ucast npi mod ucast l) :: u64) = w + (unat l - w mod unat l)" if "0 < unat l"
    using that sub w by (simp add: unat_word_ariths(1))
  have ne: "(ucast n + ucast npi - 1 :: u64) div ucast npi mod ucast l \<noteq> 0 \<longleftrightarrow> w mod unat l \<noteq> 0"
    using m by (metis unat_0 unat_eq_zero)
  show ?thesis using add w z ne by (simp add: scan_global_def Let_def)
qed

lemma scan_global_covers:
  assumes "1 \<le> unat npi"
  shows "unat n \<le> unat (scan_global n npi l) * unat npi"
    and "unat (scan_global n npi l) * unat npi < unat n + unat npi * Suc (unat l)"
proof -
  let ?w = "(unat n + unat npi - 1) div unat npi"
  note w = ceil_div [OF assms, of "unat n"]
  have g: "?w \<le> unat (scan_global n npi l) \<and> unat (scan_global n npi l) \<le> ?w + unat l"
    unfolding scan_global_unat [OF assms] using round_up(1,2) [of "unat l" ?w] by (auto simp: less_imp_le)
  then have "?w * unat npi \<le> unat (scan_global n npi l) * unat npi"
    "unat (scan_global n npi l) * unat npi \<le> (?w + unat l) * unat npi" by (auto intro: mult_le_mono1)
  then show "unat n \<le> unat (scan_global n npi l) * unat npi"
    "unat (scan_global n npi l) * unat npi < unat n + unat npi * Suc (unat l)"
    using w unfolding distrib_right mult_Suc_right by (linarith, simp add: mult.commute)
qed

definition scan_range ::
  "opencl_miner \<Rightarrow> 'ctx sha256_midstate_t \<Rightarrow> u32 list \<Rightarrow> u32 list \<Rightarrow> u32 \<Rightarrow> u32 \<Rightarrow> opencl_launch" where
  "scan_range m st tail target start n =
    \<lparr>ol_kernel = miner_kernel m, ol_mid = fast_state st, ol_tail = tail, ol_target = target, ol_start = start,
     ol_count = n, ol_npi = om_nonces_per_work_item m, ol_max = om_max_results m,
     ol_global = unat (scan_global n (om_nonces_per_work_item m) (om_local_work_size m))\<rparr>"

lemma scan_range_good:
  assumes "opencl_miner_ok m" "opencl_scan_fits m n" "length (fast_state st) = 8" "length tail = 4"
  shows "range_good (scan_range m st tail target start n)"
proof -
  have k: "1 \<le> unat (om_nonces_per_work_item m)" using assms(1) by (simp add: opencl_miner_ok_def settings_ok_def)
  then have "om_nonces_per_work_item m \<noteq> 0" by auto
  moreover have "unat n + unat (om_nonces_per_work_item m) \<le> 2 ^ 32"
    using assms(2) by (simp add: opencl_scan_fits_def)
  ultimately show ?thesis
    using assms miner_kernel_divides(1) [OF assms(1)] scan_global_covers [OF k, of n "om_local_work_size m"]
    by (simp add: range_good_defs scan_range_def opencl_scan_fits_def)
qed

lemma report_entries:
  "foldl (report_entry f (take (9 * k) ms)) opaque [0..<k] =
   foldl (\<lambda>opaque (nonce, h). f opaque nonce h) opaque (map (read_slot ms) [0..<k])"
  unfolding foldl_map
proof (rule foldl_cong [OF refl refl])
  fix opaque i assume "i \<in> set [0..<k]"
  then have "i < k" by simp
  then show "report_entry f (take (9 * k) ms) opaque i = (case read_slot ms i of (nonce, h) \<Rightarrow> f opaque nonce h)"
    by (auto simp: report_entry_def read_slot_def mult.commute intro!: arg_cong [where f = "f opaque _"])
qed

lemma set_args_zero: "foldl (OR) a rcs = (0 :: int) \<longleftrightarrow> a = 0 \<and> list_all (\<lambda>rc. rc = 0) rcs"
  by (induction rcs arbitrary: a) (simp_all add: or_eq_0_iff conj_assoc)

text \<open>What the host makes of the launch.\<close>

lemma opencl_scan_launch:
  assumes "n \<noteq> 0"
    "opencl_miner_scan run (Some m) (Some st) (Some tail) (Some target) start n opaque (Some f) dev = (0, opaque', dev')"
  obtains s where "s = or_device run (launch_state (range_progs (scan_range m st tail target start n)) dev)"
    "dev' = matches (fst s)"
    "opaque' = (let k = min (unat (result_count (fst s))) (unat (om_max_results m))
       in foldl (\<lambda>opaque (nonce, h). f opaque nonce h) opaque (map (read_slot dev') [0..<k]))"
proof -
  let ?s = "or_device run (launch_state (range_progs (scan_range m st tail target start n)) dev)"
  have p: "range_items (miner_kernel m)
      \<lparr>arg_fast = wvars_of (fast_state st), arg_target = wvars_of target, arg_tail = tail_args tail,
       arg_start_nonce = start, arg_nonce_count = n, arg_nonces_per_thread = om_nonces_per_work_item m,
       arg_max_results = om_max_results m\<rparr>
      (unat (scan_global n (om_nonces_per_work_item m) (om_local_work_size m)))
      = range_progs (scan_range m st tail target start n)"
    by (simp add: range_progs_def args_of_def scan_range_def)
  let ?c = "result_count (fst ?s)" and ?mx = "om_max_results m"
  have k: "unat (if ?c > ?mx then ?mx else ?c) = min (unat ?c) (unat ?mx)" by (auto simp: word_less_nat_alt)
  show ?thesis
  proof (rule that [OF refl])
    show "dev' = matches (fst ?s)"
      using assms by (auto simp: opencl_miner_scan_def Let_def p split: if_splits prod.splits)
    then show "opaque' = (let k = min (unat ?c) (unat ?mx)
        in foldl (\<lambda>opaque (nonce, h). f opaque nonce h) opaque (map (read_slot dev') [0..<k]))"
      using assms unfolding k [symmetric]
      by (auto simp: opencl_miner_scan_def Let_def p report_entries split: if_splits prod.splits)
  qed
qed

lemma opencl_scan_matches:
  assumes "opencl_miner_ok m" "opencl_scan_fits m n" "device_contract (or_device run)"
    "length (fast_state st) = 8" "length tail = 4" "length dev = 9 * unat (om_max_results m)"
    "opencl_miner_scan run (Some m) (Some st) (Some tail) (Some target) start n opaque (Some f) dev = (0, opaque', dev')"
  shows "\<exists>L. mset L = mset (scan_matches (tail_hash (fast_state st)) tail target (nonce_range start n)) \<and>
    opaque' = foldl (\<lambda>opaque (nonce, h). f opaque nonce h) opaque (take (unat (om_max_results m)) L)"
proof (cases "n = 0")
  case True
  then show ?thesis using assms(7) by (simp add: opencl_miner_scan_def nonce_range_def scan_matches_def)
next
  case False
  let ?l = "scan_range m st tail target start n"
  have good: "range_good ?l" by (rule scan_range_good [OF assms(1,2,4,5)])
  have mx: "ol_max ?l = om_max_results m" by (simp add: scan_range_def)
  obtain s where s: "s = or_device run (launch_state (range_progs ?l) dev)" "dev' = matches (fst s)"
    "opaque' = (let k = min (unat (result_count (fst s))) (unat (om_max_results m))
       in foldl (\<lambda>opaque (nonce, h). f opaque nonce h) opaque (map (read_slot dev') [0..<k]))"
    by (rule opencl_scan_launch [OF False assms(7)])
  have dev: "length dev = 9 * unat (ol_max ?l)" using assms(6) mx by simp
  obtain L where L: "mset L = mset (concat (range_found ?l))" "unat (result_count (fst s)) = length L"
    "map (read_slot (matches (fst s))) [0..<min (length L) (unat (ol_max ?l))] = take (unat (ol_max ?l)) L"
    by (rule opencl.device_results [OF good dev assms(3) s(1)])
  have "opaque' = foldl (\<lambda>opaque (nonce, h). f opaque nonce h) opaque (take (unat (om_max_results m)) L)"
    using s(3) L(2,3) by (simp add: s(2) mx)
  moreover have "mset L = mset (scan_matches (tail_hash (fast_state st)) tail target (nonce_range start n))"
    using L(1) range_found_concat [OF good] by (simp add: scan_range_def)
  ultimately show ?thesis by blast
qed

text \<open>A scan with no failing call succeeds, and a failing one has reported nothing.\<close>

definition opencl_run_succeeds :: "opencl_run \<Rightarrow> bool" where
  "opencl_run_succeeds run \<longleftrightarrow> or_write_count run = CL_SUCCESS \<and> (\<forall>i<25. or_set_arg run i = CL_SUCCESS) \<and>
    or_launch run = CL_SUCCESS \<and> or_read_count run = CL_SUCCESS \<and> or_read_matches run = CL_SUCCESS"

lemma opencl_scan_succeeds:
  assumes "opencl_run_succeeds run"
  shows "fst (opencl_miner_scan run (Some m) (Some st) (Some tail) (Some target) start n opaque on_match dev) = 0"
proof -
  have "foldl (OR) (or_write_count run) (map (or_set_arg run) [0..<25]) = CL_SUCCESS"
    using assms by (simp add: opencl_run_succeeds_def CL_SUCCESS_def set_args_zero list_all_iff del: upt_rec_numeral)
  then show ?thesis using assms
    by (simp add: opencl_miner_scan_def opencl_run_succeeds_def Let_def del: upt_rec_numeral split: prod.split)
qed

lemma opencl_scan_failure:
  assumes "opencl_miner_scan run miner st tail target start n opaque on_match dev = (rc, opaque', dev')" "rc \<noteq> 0"
  shows "rc = -1 \<and> opaque' = opaque"
  using assms by (auto simp: opencl_miner_scan_def Let_def split: option.splits prod.splits if_splits)

lemma report_entry_collect:
  "foldl (report_entry f host) opaque is =
   foldl (\<lambda>opaque (nonce, h). f opaque nonce h) opaque (foldl (report_entry collect_match host) [] is)"
  by (induction "is" rule: rev_induct) (simp_all add: report_entry_def collect_match_def)

lemma opencl_scan_callback:
  "opencl_miner_scan run miner st tail target start n opaque (Some f) dev =
   (case opencl_miner_scan run miner st tail target start n [] (Some collect_match) dev of
      (rc, ms, dev') \<Rightarrow> (rc, foldl (\<lambda>opaque (nonce, h). f opaque nonce h) opaque ms, dev'))"
  unfolding opencl_miner_scan_def Let_def option.sel report_entry_collect [of f]
  by (auto split: option.split prod.split)

text \<open>The reports of a scan as a list, \<open>None\<close> for a failed scan.\<close>

definition opencl_scan_list ::
  "opencl_run \<Rightarrow> opencl_miner \<Rightarrow> u32 list \<Rightarrow> 'ctx sha256_midstate_t \<Rightarrow> u32 list \<Rightarrow> u32 list \<Rightarrow> u32 \<Rightarrow> u32 \<Rightarrow>
   gpu_match list option" where
  "opencl_scan_list run m dev st tail target start n =
    (case opencl_miner_scan run (Some m) (Some st) (Some tail) (Some target) start n [] (Some collect_match) dev of
       (rc, ms, dev') \<Rightarrow> if rc = 0 then Some ms else None)"

lemma opencl_scan_list_matches:
  assumes "opencl_miner_ok m" "opencl_scan_fits m n" "device_contract (or_device run)"
    "length (fast_state st) = 8" "length tail = 4" "length dev = 9 * unat (om_max_results m)"
    "opencl_scan_list run m dev st tail target start n = Some ms"
  shows "\<exists>L. mset L = mset (scan_matches (tail_hash (fast_state st)) tail target (nonce_range start n)) \<and>
    ms = take (unat (om_max_results m)) L"
proof -
  obtain dev' where "opencl_miner_scan run (Some m) (Some st) (Some tail) (Some target) start n [] (Some collect_match) dev
      = (0, ms, dev')"
    using assms(7) by (auto simp: opencl_scan_list_def split: prod.splits if_splits)
  from opencl_scan_matches [OF assms(1-6) this] show ?thesis by (simp add: foldl_collect)
qed

section \<open>The self test\<close>

definition test_config :: "miner_opencl_config_t option \<Rightarrow> miner_opencl_config_t" where
  "test_config config =
    (case config of Some c \<Rightarrow> c | None \<Rightarrow> miner_opencl_config_defaults)\<lparr>ocl_batch_size := 1024, ocl_max_results := 32\<rparr>"

lemma opencl_self_test_reports:
  assumes "opencl_miner_create env calls g (Some (test_config config)) = (g', evs, Inr m)"
  shows "snd (snd (opencl_miner_self_test ssl env calls run g config dev)) = None \<longleftrightarrow>
    (\<exists>ms. opencl_scan_list run m dev (sha256d_80_midstate_prepare ssl (take 64 make_self_test_header))
       self_test_tail self_test_target self_test_start 16 = Some ms \<and> self_test_passed (self_test_reports ssl ms))"
proof -
  let ?st = "sha256d_80_midstate_prepare ssl (take 64 make_self_test_header)"
  obtain rc ms dev' where s: "opencl_miner_scan run (Some m) (Some ?st) (Some self_test_tail) (Some self_test_target)
      self_test_start 16 [] (Some collect_match) dev = (rc, ms, dev')"
    by (metis prod_cases3)
  have f: "opencl_miner_scan run (Some m) (Some ?st) (Some self_test_tail) (Some self_test_target)
      self_test_start 16 self_test_context (Some (self_test_match ssl)) dev = (rc, self_test_reports ssl ms, dev')"
    by (simp add: opencl_scan_callback [of _ _ _ _ _ _ _ self_test_context] s self_test_reports_def)
  show ?thesis
    using assms by (simp add: opencl_miner_self_test_def test_config_def Let_def f opencl_scan_list_def s)
qed

lemma create_max_results:
  assumes "opencl_miner_create env calls g (Some c) = (g', evs, Inr m)" "ocl_max_results c \<noteq> 0"
  shows "om_max_results m = ocl_max_results c"
proof -
  obtain m0 rkv rbv where i: "initial_miner (Some c) = (m0, rkv, rbv)" by (metis prod_cases3)
  have m0: "om_max_results m0 = ocl_max_results c"
    using i assms(2) word_less_1 [of "ocl_max_results c"] by (auto simp: initial_miner_def Let_def u32_or_def)
  have b: "om_max_results m' = om_max_results m" if "build_program calls m = (m', evs, r)" for m m' evs r
    using that by (auto simp: build_program_def Let_def split: prod.splits if_splits)
  have cb: "om_max_results m' = om_max_results m" if "create_buffers calls g evs m = (g', evs', Inr m')" for g evs m g' evs' m'
    using that by (auto simp: create_buffers_def create_failed_def Let_def split: prod.splits if_splits)
  have cp: "om_max_results m' = om_max_results m" if "create_program calls g evs m rkv = (g', evs', Inr m')" for g evs m g' evs' m'
    using that
    by (auto simp: create_program_def release_program_objects_def create_failed_def Let_def dest!: cb b
        split: prod.splits option.splits if_splits)
  obtain m1 where c: "configure_miner env (Some c) m0 rbv = Inr m1"
    using assms i by (auto simp: opencl_miner_create_def create_failed_def Let_def split: option.splits prod.splits if_splits sum.splits)
  have m1: "om_max_results m1 = om_max_results m0"
    using c by (auto simp: configure_miner_def Let_def split: sum.splits prod.splits if_splits)
  show ?thesis
    using assms(1) i c m0 m1
    by (auto simp: opencl_miner_create_def create_failed_def Let_def dest!: cp split: option.splits prod.splits if_splits)
qed

section \<open>Properties\<close>

text \<open>A library on which every call succeeds, with a device that runs its work items one by one.\<close>

definition demo_calls :: opencl_calls where
  "demo_calls = \<lparr>clCreateContext = (0, 1), clCreateCommandQueue = (0, 2), clCreateProgramWithSource = (\<lambda>s. (0, 3)),
     clBuildProgram = (\<lambda>s. 0), build_log = (\<lambda>s. []), clCreateKernel = (\<lambda>s n. (0, 4)), clCreateBuffer_count = (0, 5),
     clCreateBuffer_matches = (\<lambda>n. (0, 6)), calloc_miner = True, calloc_matches = (\<lambda>n. True)\<rparr>"

definition demo_opencl_run :: opencl_run where
  "demo_opencl_run = \<lparr>or_write_count = 0, or_set_arg = (\<lambda>i. 0), or_launch = 0, or_read_count = 0, or_read_matches = 0,
     or_device = seq_device\<rparr>"

lemma demo_version: "opencl_version_at_least (Some ''OpenCL 1.2'') 1 2"
  by (simp add: opencl_version_at_least_def parse_opencl_version_def scan_number_def is_space_def is_digit_def
      dec_value_def signed_value_def)

lemma demo_configure:
  assumes "om_kernel_variant m = 2" "om_local_work_size m = 0" "ocl_platform c = 0" "ocl_device c = 0"
  obtains m' where "configure_miner demo_opencl (Some c) m 0 = Inr m'" "om_local_work_size m' = 256"
    "om_nonces_per_work_item m' = om_nonces_per_work_item m" "om_max_results m' = om_max_results m"
proof -
  have s: "select_platform_device demo_opencl (Some c) = Inr (10, 11)"
    using assms(3,4) by (simp add: select_platform_device_def demo_opencl_def CL_SUCCESS_def id_array_def)
  have r: "resolve_backend_variant demo_opencl 11 ''OpenCL 1.2'' 0 = Inr 2"
    using demo_version
    by (simp add: resolve_backend_variant_def validate_modern_device_def normalize_backend_variant_def opencl_constants)
  have l: "default_local_work_size_for_device ''g'' ''g'' 1024 = 256"
    by (simp add: default_local_work_size_for_device_def choose_local_work_size_def string_contains_ci_def
        ascii_tolower_char_def)
  have i: "cl_info_text demo_opencl d Info_version = ''OpenCL 1.2''" "cl_info_text demo_opencl d Info_vendor = ''g''"
    "cl_info_text demo_opencl d Info_name = ''g''" "cl_max_work_group demo_opencl d = 1024" for d
    by (simp_all add: demo_opencl_def)
  show ?thesis
    using that assms(1,2)
    by (simp add: configure_miner_def s i or_unknown_def r l Let_def program_defs)
qed

lemma demo_opencl_create:
  assumes "ocl_platform c = 0" "ocl_device c = 0" "ocl_kernel_variant c = 0" "ocl_backend_variant c = 0"
    "ocl_local_work_size c = 0" "ocl_nonces_per_work_item c = 1" "ocl_max_results c \<noteq> 0"
  shows "\<exists>g evs m. opencl_miner_create demo_opencl demo_calls demo_loader (Some c) = (g, evs, Inr m) \<and>
    om_local_work_size m = 256 \<and> om_nonces_per_work_item m = 1 \<and> om_max_results m = ocl_max_results c"
proof -
  obtain g where l: "btcrig_opencl_load demo_opencl demo_loader = (g, None)" using demo_loads by (metis prod.collapse)
  obtain m0 where i: "initial_miner (Some c) = (m0, 0, 0)" "om_kernel_variant m0 = 2" "om_local_work_size m0 = 0"
    "om_nonces_per_work_item m0 = 1" "om_max_results m0 = ocl_max_results c"
    using assms word_less_1 [of "ocl_max_results c"]
    by (simp add: initial_miner_def Let_def normalize_opencl_kernel_def normalize_backend_variant_def
        clamp_nonces_per_work_item_def opencl_constants u32_or_def)
  obtain m1 where c: "configure_miner demo_opencl (Some c) m0 0 = Inr m1" "om_local_work_size m1 = 256"
    "om_nonces_per_work_item m1 = om_nonces_per_work_item m0" "om_max_results m1 = om_max_results m0"
    by (rule demo_configure [OF i(2,3) assms(1,2)])
  show ?thesis
    using i c
    by (simp add: opencl_miner_create_def l create_program_def build_program_def create_buffers_def demo_calls_def
        CL_SUCCESS_def Let_def)
qed

text \<open>C17. Creating an OpenCL device leaks nothing and yields a usable device: whichever call fails, including a
  failed build that is tried again with the compact kernel, everything acquired is given back once; a
  device that was created holds all its objects until destroying it gives each of them back once, its
  program contains the kernel it runs, and its settings are within their bounds.\<close>

theorem opencl_create_no_leak:
  assumes "handles_valid calls" "opencl_miner_create env calls g config = (g', evs, r)"
  shows "case r of Inl e \<Rightarrow> track {} evs = Some {}
     | Inr m \<Rightarrow> track {} evs = Some all_objects \<and> track all_objects (opencl_miner_destroy (Some m)) = Some {} \<and>
         (\<exists>k. map_of (program_kernels (om_sources m)) (om_kernel_name m) = Some k) \<and>
         unat (om_nonces_per_work_item m) \<in> {1..64} \<and> 1024 \<le> unat (om_batch_size m) \<and> om_max_results m \<noteq> 0"
proof (cases r)
  case (Inl e)
  then show ?thesis using opencl_create_sound [OF assms(1), of env g config] assms(2) by (simp add: create_sound_def)
next
  case (Inr m)
  then have ok: "opencl_miner_ok m" using opencl_create_ok assms(2) by blast
  then show ?thesis
    using opencl_create_sound [OF assms(1), of env g config] assms(2) Inr miner_kernel_divides(2) [OF ok]
    by (simp add: create_sound_def opencl_miner_ok_def settings_ok_def)
qed

theorem opencl_create_no_leak_witness:
  "handles_valid demo_calls \<and> (\<exists>g evs m.
     opencl_miner_create demo_opencl demo_calls demo_loader (Some miner_opencl_config_defaults) = (g, evs, Inr m) \<and>
     track {} evs = Some all_objects \<and> track all_objects (opencl_miner_destroy (Some m)) = Some {})"
proof -
  have h: "handles_valid demo_calls" by (simp add: handles_valid_def valid_handle_def demo_calls_def CL_SUCCESS_def)
  obtain g evs m where c: "opencl_miner_create demo_opencl demo_calls demo_loader (Some miner_opencl_config_defaults)
      = (g, evs, Inr m)"
    using demo_opencl_create [of miner_opencl_config_defaults] by (auto simp: miner_opencl_config_defaults_def opencl_constants)
  show ?thesis using opencl_create_no_leak [OF h c] h c by auto
qed

text \<open>A launch of the vector kernel over three nonces.\<close>

definition demo_range :: opencl_launch where
  "demo_range = \<lparr>ol_kernel = modern_scan_nonce_range_register_heavy, ol_mid = replicate 8 1, ol_tail = replicate 4 2,
     ol_target = replicate 8 0xffffffff, ol_start = 5, ol_count = 3, ol_npi = 2, ol_max = 4, ol_global = 64\<rparr>"

lemma demo_range_fits:
  "range_fits demo_range" "length (replicate 36 (0 :: u32)) = 9 * unat (ol_max demo_range)"
  by (simp_all add: range_fits_def demo_range_def)

lemma demo_range_kernel:
  "kernel_variant_forced_npi 6 \<in> {0, ol_npi demo_range}"
  "map_of (program_kernels (program_sources MINER_OPENCL_BACKEND_MODERN 6)) (kernel_name_for_variant 6 (ol_npi demo_range)) =
     Some (ol_kernel demo_range)"
  by (simp add: demo_range_def kernel_variant_forced_npi_def kernel_variant_fixed_npi_def opencl_constants Let_def)
     (simp add: modern_program modern_lookup demo_range_def)

lemma demo_range_good: "range_good demo_range"
  using demo_range_fits(1) by (simp add: range_good_def demo_range_def divides_register_heavy)

text \<open>C15. An OpenCL launch is safe under every interleaving of its work items. The kernel is the one that the
  composed program text has under the name the host looks up, for any backend and kernel variant the host
  accepts (the modern variants only with the modern backend, a variant with a fixed number of nonces per work
  item only with that number), with its real hashing, its target test and its store of matches. The sizes are
  assumed to fit (\<open>range_fits\<close>): a nonzero number of nonces per work item, enough work items for the range, no
  32-bit sum that wraps, a result array with nine words for each slot. Then no store leaves the result array,
  every run can be completed, and when all work items have ended the counter is the number of matches in the
  range and the slots hold matches of the range, each once and intact: all of them if they fit, as many as fit
  otherwise.\<close>

theorem opencl_launch_results:
  assumes "kv \<in> {1..6}" "kernel_variant_modern_only kv \<longrightarrow> bv = MINER_OPENCL_BACKEND_MODERN"
    "kernel_variant_forced_npi kv \<in> {0, ol_npi l}"
    "map_of (program_kernels (program_sources bv kv)) (kernel_name_for_variant kv (ol_npi l)) = Some (ol_kernel l)"
    "range_fits l" "length buf = 9 * unat (ol_max l)"
    "gpu_step\<^sup>*\<^sup>* (launch_state (range_progs l) buf) s"
    "ms = scan_matches (tail_hash (ol_mid l)) (ol_tail l) (ol_target l) (nonce_range (ol_start l) (ol_count l))"
  shows "\<not> gpu_fault s \<and> (\<exists>t. gpu_step\<^sup>*\<^sup>* s t \<and> all_done t) \<and>
    (all_done s \<longrightarrow> unat (result_count (fst s)) = length ms \<and>
      (\<exists>L. mset L = mset ms \<and>
         map (read_slot (matches (fst s))) [0..<min (length ms) (unat (ol_max l))] = take (unat (ol_max l)) L))"
proof (intro conjI impI)
  have good: "range_good l"
    using kernel_divides [OF assms(1,2) _ assms(3)] assms(4,5) by (auto simp: range_good_defs)
  show "\<not> gpu_fault s" by (rule opencl.no_fault [OF good assms(6,7)])
  show "\<exists>t. gpu_step\<^sup>*\<^sup>* s t \<and> all_done t" by (rule opencl.completes [OF good assms(6,7)])
  assume "all_done s"
  then obtain L where L: "mset L = mset (concat (range_found l))" "unat (result_count (fst s)) = length L"
    "map (read_slot (matches (fst s))) [0..<min (length L) (unat (ol_max l))] = take (unat (ol_max l)) L"
    by (rule opencl.results [OF good assms(6,7)])
  have m: "mset L = mset ms" using L(1) range_found_concat [OF good] assms(8) by simp
  then have "length L = length ms" by (metis size_mset)
  with m L(2,3) show "unat (result_count (fst s)) = length ms"
    "\<exists>L. mset L = mset ms \<and>
       map (read_slot (matches (fst s))) [0..<min (length ms) (unat (ol_max l))] = take (unat (ol_max l)) L"
    by auto
qed

theorem opencl_launch_results_witness:
  "\<exists>s. gpu_step\<^sup>*\<^sup>* (launch_state (range_progs demo_range) (replicate 36 0)) s \<and> all_done s \<and>
     unat (result_count (fst s)) =
       length (scan_matches (tail_hash (replicate 8 1)) (replicate 4 2) (replicate 8 0xffffffff) (nonce_range 5 3))"
proof -
  obtain s where s: "gpu_step\<^sup>*\<^sup>* (launch_state (range_progs demo_range) (replicate 36 0)) s" "all_done s"
    using opencl.completes [OF demo_range_good demo_range_fits(2)] by blast
  have "ol_mid demo_range = replicate 8 1" "ol_tail demo_range = replicate 4 2" "ol_start demo_range = 5"
    "ol_target demo_range = replicate 8 0xffffffff" "ol_count demo_range = 3"
    by (simp_all add: demo_range_def)
  with s opencl_launch_results [OF _ _ demo_range_kernel demo_range_fits s(1) refl]
  show ?thesis by (intro exI [of _ s]) simp
qed

text \<open>C12. An OpenCL scan that returns 0 has called \<open>on_match\<close> exactly for matches of the range asked for, with
  any of the kernels, backends and settings a device can be created with: each match once, with its hash,
  all of them if they fit in the result array and as many as fit otherwise. The range and the array have
  to be small enough for the 32-bit arithmetic of the kernels, and the device has to run all work items
  of a launch to their end, in any interleaving.\<close>

theorem opencl_scan_reports:
  assumes "opencl_miner_create env calls g config = (g', evs, Inr m)" "opencl_scan_fits m n"
    "device_contract (or_device run)" "prepared_midstate ssl st first64" "length tail = 4"
    "length dev = 9 * unat (om_max_results m)"
    "opencl_miner_scan run (Some m) (Some st) (Some tail) (Some target) start n opaque (Some f) dev = (0, opaque', dev')"
  shows "\<exists>L. mset L = mset (scan_matches (tail_hash (compress fips_H0 (be32_words first64))) tail target
      (nonce_range start n)) \<and>
    opaque' = foldl (\<lambda>opaque (nonce, h). f opaque nonce h) opaque (take (unat (om_max_results m)) L)"
proof -
  have fs: "fast_state st = compress fips_H0 (be32_words first64)"
    using assms(4) by (simp add: prepared_midstate_def midstate_prepare_fast_state)
  then have "length (fast_state st) = 8" by simp
  from opencl_scan_matches [OF opencl_create_ok [OF assms(1)] assms(2,3) this assms(5-7)] fs show ?thesis by simp
qed

theorem opencl_scan_reports_witness:
  "\<exists>g evs m L found dev'.
     opencl_miner_create demo_opencl demo_calls demo_loader (Some miner_opencl_config_defaults) = (g, evs, Inr m) \<and>
     opencl_scan_fits m 3 \<and> opencl_miner_scan demo_opencl_run (Some m)
       (Some (sha256d_80_midstate_prepare openssl_ref (replicate 64 1))) (Some (replicate 4 2))
       (Some (replicate 8 0xffffffff)) 7 3 [] (Some collect_match) (replicate (9 * 256) 0) = (0, found, dev') \<and>
     mset L = mset (scan_matches (tail_hash (compress fips_H0 (be32_words (replicate 64 1)))) (replicate 4 2)
       (replicate 8 0xffffffff) (nonce_range 7 3)) \<and> found = take 256 L"
proof -
  let ?st = "sha256d_80_midstate_prepare openssl_ref (replicate 64 1)"
  obtain g evs m where c: "opencl_miner_create demo_opencl demo_calls demo_loader (Some miner_opencl_config_defaults)
      = (g, evs, Inr m)" "om_local_work_size m = 256" "om_nonces_per_work_item m = 1" "om_max_results m = 256"
    using demo_opencl_create [of miner_opencl_config_defaults] by (auto simp: miner_opencl_config_defaults_def opencl_constants)
  have fits: "opencl_scan_fits m 3" by (simp add: opencl_scan_fits_def c)
  have dc: "device_contract (or_device demo_opencl_run)" by (simp add: demo_opencl_run_def seq_device_contract)
  have p: "prepared_midstate openssl_ref ?st (replicate 64 1)" by (simp add: prepared_midstate_def)
  have d: "length (replicate (9 * 256) (0 :: u32)) = 9 * unat (om_max_results m)" by (simp add: c)
  obtain rc found dev' where s: "opencl_miner_scan demo_opencl_run (Some m) (Some ?st) (Some (replicate 4 2))
      (Some (replicate 8 0xffffffff)) 7 3 [] (Some collect_match) (replicate (9 * 256) 0) = (rc, found, dev')"
    by (metis prod_cases3)
  have "rc = 0"
    using opencl_scan_succeeds [of demo_opencl_run m ?st "replicate 4 2" "replicate 8 0xffffffff" 7 3 "[]" "Some collect_match"
        "replicate (9 * 256) 0"] s
    by (simp add: opencl_run_succeeds_def demo_opencl_run_def CL_SUCCESS_def)
  then show ?thesis
    using opencl_scan_reports [OF c(1) fits dc p _ d, of "replicate 4 2" "replicate 8 0xffffffff" 7 "[]" collect_match found dev']
      s fits c(1) by (auto simp: foldl_collect c(4) simp del: replicate_numeral)
qed

text \<open>The OpenCL self test judges by what the device reports: it passes exactly when the scan succeeds and
  reports each of the sixteen test nonces once, with the hash the CPU computes, and nothing else. A device
  that runs its work items to their end and whose calls succeed passes.\<close>

theorem opencl_self_test_verdict:
  assumes "opencl_miner_create env calls g (Some (test_config config)) = (g', evs, Inr m)"
    "st = sha256d_80_midstate_prepare ssl (take 64 make_self_test_header)"
  shows "(snd (snd (opencl_miner_self_test ssl env calls run g config dev)) = None \<longleftrightarrow>
      (\<exists>ms. opencl_scan_list run m dev st self_test_tail self_test_target self_test_start 16 = Some ms \<and>
         mset (map fst ms) = mset (nonce_range self_test_start 16) \<and> (\<forall>r\<in>set ms. report_ok ssl r))) \<and>
    (openssl_contract ssl \<longrightarrow> device_contract (or_device run) \<longrightarrow> opencl_run_succeeds run \<longrightarrow> opencl_scan_fits m 16 \<longrightarrow>
      length dev = 288 \<longrightarrow> snd (snd (opencl_miner_self_test ssl env calls run g config dev)) = None)"
proof
  let ?scan = "opencl_scan_list run m dev st self_test_tail self_test_target self_test_start 16"
  note v = opencl_self_test_reports [OF assms(1), of ssl run dev, folded assms(2)]
  show "snd (snd (opencl_miner_self_test ssl env calls run g config dev)) = None \<longleftrightarrow>
      (\<exists>ms. ?scan = Some ms \<and> mset (map fst ms) = mset (nonce_range self_test_start 16) \<and> (\<forall>r\<in>set ms. report_ok ssl r))"
    unfolding v self_test_verdict_iff by blast
  have ok: "opencl_miner_ok m" by (rule opencl_create_ok [OF assms(1)])
  have mx: "om_max_results m = 32" using create_max_results [OF assms(1)] by (simp add: test_config_def)
  show "openssl_contract ssl \<longrightarrow> device_contract (or_device run) \<longrightarrow> opencl_run_succeeds run \<longrightarrow> opencl_scan_fits m 16 \<longrightarrow>
      length dev = 288 \<longrightarrow> snd (snd (opencl_miner_self_test ssl env calls run g config dev)) = None"
  proof (intro impI)
    assume a: "openssl_contract ssl" "device_contract (or_device run)" "opencl_run_succeeds run" "opencl_scan_fits m 16"
      "length dev = 288"
    have fs: "length (fast_state st) = 8" by (simp add: assms(2) midstate_prepare_fast_state)
    obtain ms where ms: "?scan = Some ms"
      using opencl_scan_succeeds [OF a(3), of m st self_test_tail self_test_target self_test_start 16 "[]"
          "Some collect_match" dev]
      by (cases "opencl_miner_scan run (Some m) (Some st) (Some self_test_tail) (Some self_test_target) self_test_start 16 []
            (Some collect_match) dev") (simp add: opencl_scan_list_def)
    obtain L where L: "mset L = mset (scan_matches (tail_hash (fast_state st)) self_test_tail self_test_target
        (nonce_range self_test_start 16))" "ms = take 32 L"
      using opencl_scan_list_matches [OF ok a(4,2) fs self_test_words(1) _ ms] a(5) by (auto simp: mx)
    have "length L \<le> 16"
      using mset_eq_length [OF L(1)] length_scan_matches [of "tail_hash (fast_state st)" self_test_tail
          self_test_target "nonce_range self_test_start 16"] by simp
    then have "mset ms = mset (scan_matches (tail_hash (fast_state st)) self_test_tail self_test_target
        (nonce_range self_test_start 16))" using L by simp
    from self_test_good_reports [OF a(1) assms(2) this] ms show
      "snd (snd (opencl_miner_self_test ssl env calls run g config dev)) = None" unfolding v by blast
  qed
qed

theorem opencl_self_test_verdict_witness:
  "snd (snd (opencl_miner_self_test openssl_ref demo_opencl demo_calls demo_opencl_run demo_loader None (replicate 288 0))) = None"
proof -
  obtain g evs m where c: "opencl_miner_create demo_opencl demo_calls demo_loader (Some (test_config None)) = (g, evs, Inr m)"
    "om_local_work_size m = 256" "om_nonces_per_work_item m = 1" "om_max_results m = 32"
    using demo_opencl_create [of "test_config None"] by (auto simp: test_config_def miner_opencl_config_defaults_def opencl_constants)
  show ?thesis
    using opencl_self_test_verdict [OF c(1) refl, of openssl_ref demo_opencl_run "replicate 288 0"] openssl_contract_ref c(2-4)
    by (simp add: demo_opencl_run_def seq_device_contract opencl_run_succeeds_def CL_SUCCESS_def opencl_scan_fits_def)
qed

end
