(* ===== verification/Cpu_Info.thy ===== *)
theory Cpu_Info
  imports Options "HOL-Library.Multiset"
begin

text \<open>
  \<open>cpu_info.c\<close>: which processors the machine has, how many threads to run, and on which processors to run
  them. The operating system is a record of answers: the number of processors, the names in
  \<open>/sys/devices/system/cpu\<close>, the contents of the files below it (without NUL characters), and what Windows
  reports on its cores. \<open>qsort\<close> is a parameter, of which \<open>qsort_contract\<close> asks what the standard says. Printing is
  left out.
\<close>

section \<open>Data\<close>

definition CPU_INFO_MAX_CPUS :: nat where "CPU_INFO_MAX_CPUS = 256"

definition CPU_INFO_SOURCE_SIZE :: nat where "CPU_INFO_SOURCE_SIZE = 64"

definition CPU_INFO_SIBLINGS_SIZE :: nat where "CPU_INFO_SIBLINGS_SIZE = 64"

lemmas cpu_info_sizes = CPU_INFO_MAX_CPUS_def CPU_INFO_SOURCE_SIZE_def CPU_INFO_SIBLINGS_SIZE_def

record cpu_info_entry_t =
  ce_id :: int
  ce_package_id :: int
  ce_core_id :: int
  ce_max_freq_khz :: int
  ce_capacity :: int
  ce_thread_siblings :: string

text \<open>The array \<open>entries\<close> is the list of its first \<open>entry_count\<close> elements.\<close>

record cpu_info_t =
  ci_logical_count :: int
  ci_physical_count :: int
  ci_has_smt :: bool
  ci_recommended_threads :: int
  ci_source :: string
  ci_entries :: "cpu_info_entry_t list"

datatype os_platform = OS_Windows | OS_Linux | OS_Android | OS_Other

text \<open>A record of type \<open>RelationProcessorCore\<close> or another, as \<open>GetLogicalProcessorInformationEx\<close> returns it, with its
  efficiency class, whether it has the flag \<open>LTP_PC_SMT\<close>, and its groups with their masks.\<close>

record processor_record =
  pr_core :: bool
  pr_efficiency :: u8
  pr_smt :: bool
  pr_groups :: "(nat \<times> u64) list"

text \<open>\<open>os_cpu_dir\<close> is \<open>None\<close> when the directory cannot be opened. \<open>os_cores\<close> is \<open>None\<close> when one of the two calls or the
  allocation in between fails; otherwise it is the list of the well-formed records at the start of the buffer.\<close>

record os_env =
  os_platform :: os_platform
  os_online :: int
  os_cpu_dir :: "string list option"
  os_file :: "string \<Rightarrow> string option"
  os_cores :: "processor_record list option"
  os_group_count :: "nat \<Rightarrow> int"

section \<open>Detection\<close>

definition sysconf_online_cpus :: "os_env \<Rightarrow> int" where
  "sysconf_online_cpus os =
    (let count = os_online os in if count > 0 \<and> count \<le> int CPU_INFO_MAX_CPUS then count else 1)"

definition set_fallback :: "os_env \<Rightarrow> cpu_info_t" where
  "set_fallback os =
    \<lparr>ci_logical_count = sysconf_online_cpus os, ci_physical_count = sysconf_online_cpus os, ci_has_smt = False,
     ci_recommended_threads = sysconf_online_cpus os,
     ci_source = snprintf_s CPU_INFO_SOURCE_SIZE (if os_platform os = OS_Windows then ''windows'' else ''sysconf''),
     ci_entries = []\<rparr>"

definition compare_cpu_entries :: "cpu_info_entry_t \<Rightarrow> cpu_info_entry_t \<Rightarrow> int" where
  "compare_cpu_entries a b = ce_id a - ce_id b"

subsection \<open>Windows\<close>

definition windows_cpu_group_offset :: "os_env \<Rightarrow> nat \<Rightarrow> int" where
  "windows_cpu_group_offset os grp = sum_list (map (os_group_count os) [0..<grp])"

definition windows_mask_bit_count :: "u64 \<Rightarrow> nat" where
  "windows_mask_bit_count msk = length (filter (bit msk) [0..<64])"

definition finalize_windows_info :: "cpu_info_t \<Rightarrow> cpu_info_t" where
  "finalize_windows_info info =
    (let logical = int (length (ci_entries info));
         physical = (if ci_physical_count info > 0 then ci_physical_count info else logical)
     in info\<lparr>ci_logical_count := logical, ci_physical_count := physical, ci_has_smt := logical > physical,
             ci_recommended_threads := (if logical > 0 then logical else 1),
             ci_source := snprintf_s CPU_INFO_SOURCE_SIZE ''windows-glpi''\<rparr>)"

text \<open>The loop over the bits of a group's mask, and the loop over the groups of a core.\<close>

definition windows_mask_entries ::
  "int \<Rightarrow> int \<Rightarrow> u8 \<Rightarrow> u64 \<Rightarrow> cpu_info_entry_t list \<Rightarrow> cpu_info_entry_t list" where
  "windows_mask_entries offset core_id efficiency msk es =
    foldl (\<lambda>es b. if bit msk b \<and> length es < CPU_INFO_MAX_CPUS
                  then es @ [\<lparr>ce_id = offset + int b, ce_package_id = 0, ce_core_id = core_id, ce_max_freq_khz = 0,
                              ce_capacity = uint efficiency,
                              ce_thread_siblings = snprintf_s CPU_INFO_SIBLINGS_SIZE (''core'' @ print_lld core_id)\<rparr>]
                  else es) es [0..<64]"

definition windows_core_entries ::
  "os_env \<Rightarrow> int \<Rightarrow> processor_record \<Rightarrow> cpu_info_entry_t list \<Rightarrow> cpu_info_entry_t list" where
  "windows_core_entries os core_id r es =
    foldl (\<lambda>es (grp, msk). if length es < CPU_INFO_MAX_CPUS
             then windows_mask_entries (windows_cpu_group_offset os grp) core_id (pr_efficiency r) msk es else es)
      es (pr_groups r)"

definition group_logical_count :: "processor_record \<Rightarrow> nat" where
  "group_logical_count r = sum_list (map (windows_mask_bit_count \<circ> snd) (pr_groups r))"

text \<open>The loop over the buffer: the entries, the number of physical cores and whether one of them has threads. The
  counter \<open>core_id\<close> moves together with \<open>physical_count\<close>, both from 0.\<close>

fun windows_loop ::
  "os_env \<Rightarrow> processor_record list \<Rightarrow> cpu_info_entry_t list \<Rightarrow> int \<Rightarrow> bool \<Rightarrow> cpu_info_entry_t list \<times> int \<times> bool" where
  "windows_loop os [] es physical smt = (es, physical, smt)"
| "windows_loop os (r # rs) es physical smt =
    (if length es \<ge> CPU_INFO_MAX_CPUS then (es, physical, smt)
     else if \<not> pr_core r then windows_loop os rs es physical smt
     else
       let es = windows_core_entries os physical r es;
           logical = group_logical_count r
       in if logical > 0
          then windows_loop os rs es (physical + 1) (smt \<or> logical > 1 \<or> pr_smt r)
          else windows_loop os rs es physical smt)"

type_synonym qsort_func =
  "(cpu_info_entry_t \<Rightarrow> cpu_info_entry_t \<Rightarrow> int) \<Rightarrow> cpu_info_entry_t list \<Rightarrow> cpu_info_entry_t list"

text \<open>The information is cleared before the loop, so it is lost when no core is found; the caller then goes on
  with a structure of zeros.\<close>

definition detect_windows :: "qsort_func \<Rightarrow> os_env \<Rightarrow> cpu_info_t \<Rightarrow> cpu_info_t" where
  "detect_windows qsort os info =
    (case os_cores os of
       None \<Rightarrow> info
     | Some rs \<Rightarrow>
         let (es, physical, smt) = windows_loop os rs [] 0 False;
             info = \<lparr>ci_logical_count = 0, ci_physical_count = physical, ci_has_smt = smt, ci_recommended_threads = 0,
                     ci_source = [], ci_entries = es\<rparr>
         in if es = [] then info
            else finalize_windows_info (info\<lparr>ci_entries := qsort compare_cpu_entries es\<rparr>))"

subsection \<open>Linux\<close>

fun parse_cpu_digits :: "string \<Rightarrow> int \<Rightarrow> int option" where
  "parse_cpu_digits [] i = Some i"
| "parse_cpu_digits (ch # s) i =
    (if \<not> is_digit ch then None
     else let i = i * 10 + (of_char ch - 48)
          in if i \<ge> int CPU_INFO_MAX_CPUS then None else parse_cpu_digits s i)"

definition parse_cpu_dir_name :: "string \<Rightarrow> int option" where
  "parse_cpu_dir_name name =
    (if take 3 name \<noteq> ''cpu'' \<or> length name < 4 \<or> \<not> is_digit (name ! 3) then None
     else parse_cpu_digits (drop 3 name) 0)"

text \<open>\<open>fgets\<close> on a file just opened: up to the first line end, which is kept, and no more than fits.\<close>

definition fgets :: "nat \<Rightarrow> string \<Rightarrow> string option" where
  "fgets n s =
    (if s = [] then None
     else let line = takeWhile (\<lambda>ch. ch \<noteq> CHR 0x0A) s
          in Some (take (n - 1) (if length line < length s then line @ [CHR 0x0A] else line)))"

definition read_long_file :: "os_env \<Rightarrow> string \<Rightarrow> int option" where
  "read_long_file os path =
    (case Option.bind (os_file os path) (fgets 64) of
       None \<Rightarrow> None
     | Some buf \<Rightarrow> (case strtol buf of (parsed, rest, erange) \<Rightarrow> if rest = buf then None else Some parsed))"

definition is_line_blank :: "char \<Rightarrow> bool" where
  "is_line_blank ch \<longleftrightarrow> ch = CHR 0x0A \<or> ch = CHR 0x0D \<or> ch = CHR '' '' \<or> ch = CHR 0x09"

definition read_text_file :: "os_env \<Rightarrow> string \<Rightarrow> nat \<Rightarrow> string option" where
  "read_text_file os path out_size =
    map_option (\<lambda>buf. rev (dropWhile is_line_blank (rev buf))) (Option.bind (os_file os path) (fgets out_size))"

definition cpu_path :: "int \<Rightarrow> string \<Rightarrow> string" where
  "cpu_path i file = ''/sys/devices/system/cpu/cpu'' @ print_lld i @ file"

definition cpu_is_online :: "os_env \<Rightarrow> int \<Rightarrow> bool" where
  "cpu_is_online os i = (case read_long_file os (cpu_path i ''/online'') of None \<Rightarrow> True | Some online \<Rightarrow> online \<noteq> 0)"

definition read_cpu_entry :: "os_env \<Rightarrow> int \<Rightarrow> cpu_info_entry_t" where
  "read_cpu_entry os i =
    (let value_or = (\<lambda>file v. case read_long_file os (cpu_path i file) of None \<Rightarrow> v | Some v \<Rightarrow> v)
     in \<lparr>ce_id = i,
         ce_package_id = c_int (value_or ''/topology/physical_package_id'' 0),
         ce_core_id = c_int (value_or ''/topology/core_id'' i),
         ce_max_freq_khz = value_or ''/cpufreq/cpuinfo_max_freq'' 0,
         ce_capacity = value_or ''/cpu_capacity'' 0,
         ce_thread_siblings =
           (case read_text_file os (cpu_path i ''/topology/thread_siblings_list'') CPU_INFO_SIBLINGS_SIZE of
              None \<Rightarrow> [] | Some s \<Rightarrow> s)\<rparr>)"

definition same_physical_core :: "cpu_info_entry_t \<Rightarrow> cpu_info_entry_t \<Rightarrow> bool" where
  "same_physical_core a b \<longleftrightarrow> ce_package_id a = ce_package_id b \<and> ce_core_id a = ce_core_id b"

definition sibling_list_implies_smt :: "string \<Rightarrow> bool" where
  "sibling_list_implies_smt s \<longleftrightarrow> CHR '','' \<in> set s \<or> CHR ''-'' \<in> set s"

definition same_affinity_group :: "cpu_info_entry_t \<Rightarrow> cpu_info_entry_t \<Rightarrow> bool" where
  "same_affinity_group a b =
    (if ce_thread_siblings a \<noteq> [] \<and> ce_thread_siblings b \<noteq> [] then ce_thread_siblings a = ce_thread_siblings b
     else same_physical_core a b)"

text \<open>The entries that are the first of their group.\<close>

definition count_groups :: "cpu_info_entry_t list \<Rightarrow> nat" where
  "count_groups es =
    length (filter (\<lambda>i. \<not> list_ex (\<lambda>j. same_affinity_group (es ! i) (es ! j)) [0..<i]) [0..<length es])"

definition finalize_sysfs_info :: "cpu_info_t \<Rightarrow> cpu_info_t" where
  "finalize_sysfs_info info =
    (let es = ci_entries info;
         physical = int (count_groups es);
         smt = list_ex (\<lambda>e. sibling_list_implies_smt (ce_thread_siblings e)) es;
         logical = int (length es);
         physical = (if physical > 0 then physical else logical)
     in info\<lparr>ci_logical_count := logical, ci_physical_count := physical, ci_has_smt := smt \<or> logical > physical,
             ci_recommended_threads := (if logical \<le> 0 then 1 else logical)\<rparr>)"

fun sysfs_loop :: "os_env \<Rightarrow> string list \<Rightarrow> cpu_info_entry_t list \<Rightarrow> cpu_info_entry_t list" where
  "sysfs_loop os [] es = es"
| "sysfs_loop os (name # names) es =
    (if length es \<ge> CPU_INFO_MAX_CPUS then es
     else case parse_cpu_dir_name name of
         None \<Rightarrow> sysfs_loop os names es
       | Some i \<Rightarrow> sysfs_loop os names (if cpu_is_online os i then es @ [read_cpu_entry os i] else es))"

definition detect_sysfs :: "qsort_func \<Rightarrow> os_env \<Rightarrow> cpu_info_t \<Rightarrow> cpu_info_t" where
  "detect_sysfs qsort os info =
    (case os_cpu_dir os of
       None \<Rightarrow> info
     | Some names \<Rightarrow>
         let es = sysfs_loop os names (ci_entries info)
         in if es = [] then info
            else (finalize_sysfs_info (info\<lparr>ci_entries := qsort compare_cpu_entries es\<rparr>))
                   \<lparr>ci_source := snprintf_s CPU_INFO_SOURCE_SIZE
                      (if os_platform os = OS_Android then ''android-sysfs'' else ''linux-sysfs'')\<rparr>)"

definition cpu_info_detect :: "qsort_func \<Rightarrow> os_env \<Rightarrow> cpu_info_t" where
  "cpu_info_detect qsort os =
    (let info = set_fallback os
     in case os_platform os of
          OS_Windows \<Rightarrow> detect_windows qsort os info
        | OS_Other \<Rightarrow> info
        | _ \<Rightarrow> detect_sysfs qsort os info)"

definition cpu_info_recommended_threads :: "qsort_func \<Rightarrow> os_env \<Rightarrow> int" where
  "cpu_info_recommended_threads qsort os =
    (let info = cpu_info_detect qsort os
     in if ci_recommended_threads info > 0 then ci_recommended_threads info else 1)"

section \<open>The affinity plan\<close>

definition append_cpu_id :: "int list \<Rightarrow> int \<Rightarrow> int \<Rightarrow> int list" where
  "append_cpu_id out max_count i =
    (if i < 0 \<or> int (length out) \<ge> max_count then out
     else if i \<in> set out then out else out @ [i])"

fun append_ids :: "int list \<Rightarrow> int \<Rightarrow> int list \<Rightarrow> int list" where
  "append_ids out max_count [] = out"
| "append_ids out max_count (i # ids) =
    (if int (length out) < max_count then append_ids (append_cpu_id out max_count i) max_count ids else out)"

definition append_sysconf_order :: "os_env \<Rightarrow> int \<Rightarrow> int list" where
  "append_sysconf_order os max_count = append_ids [] max_count (map int [0..<nat (sysconf_online_cpus os)])"

definition append_entry_order :: "cpu_info_t \<Rightarrow> int \<Rightarrow> int list" where
  "append_entry_order info max_count = append_ids [] max_count (map ce_id (ci_entries info))"

definition cpu_entry_rank :: "cpu_info_entry_t \<Rightarrow> int" where
  "cpu_entry_rank e =
    (if ce_capacity e > 0 then ce_capacity e else if ce_max_freq_khz e > 0 then ce_max_freq_khz e else 0)"

definition compare_cpu_entries_by_speed :: "cpu_info_entry_t \<Rightarrow> cpu_info_entry_t \<Rightarrow> int" where
  "compare_cpu_entries_by_speed a b =
    (if cpu_entry_rank a \<noteq> cpu_entry_rank b then if cpu_entry_rank a < cpu_entry_rank b then 1 else - 1
     else ce_id a - ce_id b)"

definition cpu_info_affinity_plan :: "qsort_func \<Rightarrow> os_env \<Rightarrow> cpu_info_t option \<Rightarrow> int \<Rightarrow> int list" where
  "cpu_info_affinity_plan qsort os info max_count =
    (if max_count \<le> 0 then []
     else case info of
         None \<Rightarrow> append_sysconf_order os max_count
       | Some info \<Rightarrow>
           if ci_entries info = [] then append_sysconf_order os max_count
           else append_entry_order
             (info\<lparr>ci_entries := qsort compare_cpu_entries_by_speed (take CPU_INFO_MAX_CPUS (ci_entries info))\<rparr>) max_count)"

definition cpu_info_affinity_supported :: "os_env \<Rightarrow> bool" where
  "cpu_info_affinity_supported os \<longleftrightarrow> os_platform os \<noteq> OS_Other"

section \<open>Sorting\<close>

text \<open>What the standard says of \<open>qsort\<close> with a comparison that is a total preorder: the result is a rearrangement
  in ascending order; the order of equal elements is unspecified.\<close>

definition qsort_contract :: "qsort_func \<Rightarrow> bool" where
  "qsort_contract qsort \<longleftrightarrow> (\<forall>cmp xs. cmp \<in> {compare_cpu_entries, compare_cpu_entries_by_speed} \<longrightarrow>
     mset (qsort cmp xs) = mset xs \<and> sorted_wrt (\<lambda>a b. cmp a b \<le> 0) (qsort cmp xs))"

text \<open>An instance: insertion sort.\<close>

fun insert_cmp :: "(cpu_info_entry_t \<Rightarrow> cpu_info_entry_t \<Rightarrow> int) \<Rightarrow> cpu_info_entry_t \<Rightarrow> cpu_info_entry_t list \<Rightarrow> cpu_info_entry_t list" where
  "insert_cmp cmp x [] = [x]"
| "insert_cmp cmp x (y # ys) = (if cmp x y \<le> 0 then x # y # ys else y # insert_cmp cmp x ys)"

definition insertion_qsort :: qsort_func where
  "insertion_qsort cmp xs = foldr (insert_cmp cmp) xs []"

lemma mset_insert_cmp [simp]: "mset (insert_cmp cmp x ys) = add_mset x (mset ys)"
  by (induction ys) simp_all

lemma set_insert_cmp [simp]: "set (insert_cmp cmp x ys) = insert x (set ys)"
  by (induction ys) auto

lemma sorted_insert_cmp:
  assumes "\<And>a b. \<not> cmp a b \<le> 0 \<Longrightarrow> cmp b a \<le> 0" "\<And>a b c. cmp a b \<le> 0 \<Longrightarrow> cmp b c \<le> 0 \<Longrightarrow> cmp a c \<le> (0 :: int)"
    "sorted_wrt (\<lambda>a b. cmp a b \<le> 0) ys"
  shows "sorted_wrt (\<lambda>a b. cmp a b \<le> 0) (insert_cmp cmp x ys)"
  using assms(3)
proof (induction ys)
  case (Cons y ys)
  then show ?case using assms(1) [of x y] assms(2) [of x y] by auto
qed simp

lemma insertion_qsort_contract: "qsort_contract insertion_qsort"
  unfolding qsort_contract_def
proof (intro allI impI)
  fix cmp xs assume c: "cmp \<in> {compare_cpu_entries, compare_cpu_entries_by_speed}"
  have t: "\<not> cmp a b \<le> 0 \<Longrightarrow> cmp b a \<le> 0" for a b
    using c by (auto simp: compare_cpu_entries_def compare_cpu_entries_by_speed_def split: if_splits)
  have r: "cmp a b \<le> 0 \<Longrightarrow> cmp b d \<le> 0 \<Longrightarrow> cmp a d \<le> 0" for a b d
    using c by (auto simp: compare_cpu_entries_def compare_cpu_entries_by_speed_def split: if_splits)
  show "mset (insertion_qsort cmp xs) = mset xs \<and> sorted_wrt (\<lambda>a b. cmp a b \<le> 0) (insertion_qsort cmp xs)"
    unfolding insertion_qsort_def
    by (induction xs) (simp_all add: sorted_insert_cmp [of cmp, OF t r])
qed

lemma qsort_facts:
  assumes "qsort_contract qsort"
  shows "mset (qsort compare_cpu_entries xs) = mset xs"
    "sorted_wrt (\<lambda>a b. compare_cpu_entries a b \<le> 0) (qsort compare_cpu_entries xs)"
    "mset (qsort compare_cpu_entries_by_speed xs) = mset xs"
    "sorted_wrt (\<lambda>a b. compare_cpu_entries_by_speed a b \<le> 0) (qsort compare_cpu_entries_by_speed xs)"
  using assms by (auto simp: qsort_contract_def)

section \<open>The plan\<close>

definition plan_ok :: "int \<Rightarrow> int list \<Rightarrow> bool" where
  "plan_ok mx out \<longleftrightarrow> distinct out \<and> int (length out) \<le> max 0 mx \<and> (\<forall>i\<in>set out. 0 \<le> i)"

lemma plan_ok_append: "plan_ok mx out \<Longrightarrow> plan_ok mx (append_cpu_id out mx i)"
  by (auto simp: plan_ok_def append_cpu_id_def)

lemma plan_ok_append_ids: "plan_ok mx out \<Longrightarrow> plan_ok mx (append_ids out mx ids)"
  by (induction out mx ids rule: append_ids.induct) (simp_all add: plan_ok_append)

lemma set_append_ids: "set (append_ids out mx ids) \<subseteq> set out \<union> set ids"
proof (induction out mx ids rule: append_ids.induct)
  case (2 out mx i ids)
  have "set (append_cpu_id out mx i) \<subseteq> insert i (set out)" by (auto simp: append_cpu_id_def)
  then show ?case using 2 by auto
qed simp

lemma append_ids_all:
  assumes "distinct (out @ ids)" "\<forall>i\<in>set ids. 0 \<le> i" "0 \<le> mx"
  shows "append_ids out mx ids = out @ take (nat mx - length out) ids"
  using assms
proof (induction out mx ids rule: append_ids.induct)
  case (2 out mx i ids)
  show ?case
  proof (cases "int (length out) < mx")
    case True
    then have "append_cpu_id out mx i = out @ [i]" using "2.prems" by (simp add: append_cpu_id_def)
    moreover have "nat mx - length out = Suc (nat mx - length (out @ [i]))" using True by simp
    ultimately show ?thesis using "2.IH" [OF True] "2.prems" True by simp
  qed (use "2.prems" in simp)
qed simp

lemma affinity_plan_ok: "plan_ok mx (cpu_info_affinity_plan qsort os info mx)"
  by (auto simp: cpu_info_affinity_plan_def append_sysconf_order_def append_entry_order_def split: option.splits
      intro!: plan_ok_append_ids) (simp_all add: plan_ok_def)

section \<open>What is detected\<close>

lemma parse_cpu_digits_range:
  "parse_cpu_digits s i = Some j \<Longrightarrow> 0 \<le> i \<Longrightarrow> i < int CPU_INFO_MAX_CPUS \<Longrightarrow> 0 \<le> j \<and> j < int CPU_INFO_MAX_CPUS"
proof (induction s i rule: parse_cpu_digits.induct)
  case (2 ch s i)
  have "48 \<le> (of_char ch :: int)" if "is_digit ch"
  proof -
    have "int 48 \<le> int (of_char ch)" using that unfolding is_digit_nat by linarith
    then show ?thesis unfolding of_nat_of_char by simp
  qed
  then show ?case using 2 by (auto simp: Let_def split: if_splits)
qed simp

lemma parse_cpu_dir_range: "parse_cpu_dir_name name = Some i \<Longrightarrow> 0 \<le> i \<and> i < int CPU_INFO_MAX_CPUS"
  using parse_cpu_digits_range [of "drop 3 name" 0 i] by (auto simp: parse_cpu_dir_name_def CPU_INFO_MAX_CPUS_def split: if_splits)

text \<open>The processors listed in the directory that are online, in the order of the directory.\<close>

definition online_cpus :: "os_env \<Rightarrow> string list \<Rightarrow> int list" where
  "online_cpus os names = filter (cpu_is_online os) (List.map_filter parse_cpu_dir_name names)"

lemma online_cpus_Cons [simp]:
  "online_cpus os (name # names) =
    (case parse_cpu_dir_name name of
       None \<Rightarrow> online_cpus os names
     | Some i \<Rightarrow> (if cpu_is_online os i then i # online_cpus os names else online_cpus os names))"
  by (simp add: online_cpus_def List.map_filter_simps split: option.splits)

lemma online_cpus_Nil [simp]: "online_cpus os [] = []"
  by (simp add: online_cpus_def List.map_filter_simps)

lemma online_cpus_range: "i \<in> set (online_cpus os names) \<Longrightarrow> 0 \<le> i \<and> i < int CPU_INFO_MAX_CPUS"
  by (induction names) (auto split: option.splits if_splits dest: parse_cpu_dir_range)

lemma sysfs_loop_online:
  "length es \<le> CPU_INFO_MAX_CPUS \<Longrightarrow>
   sysfs_loop os names es = take CPU_INFO_MAX_CPUS (es @ map (read_cpu_entry os) (online_cpus os names))"
proof (induction os names es rule: sysfs_loop.induct)
  case (2 os name names es)
  show ?case
  proof (cases "length es = CPU_INFO_MAX_CPUS")
    case False
    then have "CPU_INFO_MAX_CPUS - length es = Suc (CPU_INFO_MAX_CPUS - Suc (length es))" using "2.prems" by simp
    then show ?thesis using 2 False by (auto split: option.splits)
  qed simp
qed simp

lemma read_cpu_entry_id [simp]: "ce_id (read_cpu_entry os i) = i"
  by (simp add: read_cpu_entry_def Let_def)

lemma length_dropWhile_rev: "length (rev (dropWhile P (rev s))) \<le> length s"
  by (metis length_dropWhile_le length_rev)

lemma read_cpu_entry_siblings: "length (ce_thread_siblings (read_cpu_entry os i)) < CPU_INFO_SIBLINGS_SIZE"
proof -
  have "length t < CPU_INFO_SIBLINGS_SIZE" if t: "read_text_file os p CPU_INFO_SIBLINGS_SIZE = Some t" for p t
  proof -
    obtain y z where z: "fgets CPU_INFO_SIBLINGS_SIZE y = Some z" "t = rev (dropWhile is_line_blank (rev z))"
      using t by (auto simp: read_text_file_def bind_eq_Some_conv)
    then have "length z < CPU_INFO_SIBLINGS_SIZE"
      by (auto simp: fgets_def Let_def CPU_INFO_SIBLINGS_SIZE_def split: if_splits)
    then show ?thesis using length_dropWhile_rev [of is_line_blank z] unfolding z(2) by linarith
  qed
  then show ?thesis by (auto simp: read_cpu_entry_def Let_def CPU_INFO_SIBLINGS_SIZE_def split: option.splits)
qed

text \<open>The shape of what is detected: at least one processor and at most 256, no more physical ones than logical
  ones, all of them to be used, and either every processor described or none.\<close>

definition cpu_info_ok :: "cpu_info_t \<Rightarrow> bool" where
  "cpu_info_ok info \<longleftrightarrow> 1 \<le> ci_physical_count info \<and> ci_physical_count info \<le> ci_logical_count info \<and>
     ci_logical_count info \<le> int CPU_INFO_MAX_CPUS \<and> ci_recommended_threads info = ci_logical_count info \<and>
     (ci_entries info \<noteq> [] \<longrightarrow> int (length (ci_entries info)) = ci_logical_count info) \<and>
     (ci_logical_count info > ci_physical_count info \<longrightarrow> ci_has_smt info) \<and> length (ci_source info) < CPU_INFO_SOURCE_SIZE"

lemma sysconf_range: "1 \<le> sysconf_online_cpus os \<and> sysconf_online_cpus os \<le> int CPU_INFO_MAX_CPUS"
  by (simp add: sysconf_online_cpus_def Let_def CPU_INFO_MAX_CPUS_def)

lemma fallback_ok: "cpu_info_ok (set_fallback os)"
  using sysconf_range [of os] by (simp add: cpu_info_ok_def set_fallback_def snprintf_s_def CPU_INFO_SOURCE_SIZE_def)

lemma count_groups_range: "es \<noteq> [] \<Longrightarrow> 0 < count_groups es \<and> count_groups es \<le> length es"
proof
  let ?P = "\<lambda>i. \<not> list_ex (\<lambda>j. same_affinity_group (es ! i) (es ! j)) [0..<i]"
  assume "es \<noteq> []"
  then have "0 \<in> set (filter ?P [0..<length es])" by simp
  then show "0 < count_groups es" unfolding count_groups_def by (rule length_pos_if_in_set)
  show "count_groups es \<le> length es"
    unfolding count_groups_def using length_filter_le [of ?P "[0..<length es]"] by (simp only: length_upt diff_zero)
qed

lemma finalize_sysfs_ok:
  assumes "ci_entries info \<noteq> []" "length (ci_entries info) \<le> CPU_INFO_MAX_CPUS" "length src < CPU_INFO_SOURCE_SIZE"
  shows "cpu_info_ok ((finalize_sysfs_info info)\<lparr>ci_source := src\<rparr>)"
  using assms count_groups_range [OF assms(1)] by (simp add: cpu_info_ok_def finalize_sysfs_info_def Let_def)

lemma detect_sysfs_ok:
  assumes "qsort_contract qsort" "cpu_info_ok info" "ci_entries info = []"
  shows "cpu_info_ok (detect_sysfs qsort os info)"
proof (cases "os_cpu_dir os")
  case (Some names)
  let ?es = "sysfs_loop os names []" and ?sorted = "\<lambda>es. qsort compare_cpu_entries es"
  have l: "length (?sorted ?es) = length ?es" using qsort_facts(1) [OF assms(1), of ?es] by (metis size_mset)
  moreover have "length ?es \<le> CPU_INFO_MAX_CPUS" by (simp add: sysfs_loop_online)
  moreover have "?sorted ?es \<noteq> []" if "?es \<noteq> []" using that l by (metis length_0_conv)
  ultimately show ?thesis
    using assms(2,3) Some finalize_sysfs_ok [of "info\<lparr>ci_entries := ?sorted ?es\<rparr>"]
    by (auto simp: detect_sysfs_def Let_def snprintf_s_def CPU_INFO_SOURCE_SIZE_def)
qed (use assms(2) in \<open>simp add: detect_sysfs_def\<close>)

subsection \<open>Windows\<close>

lemma length_mask_entries:
  assumes "length es \<le> CPU_INFO_MAX_CPUS"
  shows "length (windows_mask_entries off core eff msk es) = min CPU_INFO_MAX_CPUS (length es + windows_mask_bit_count msk)"
proof -
  have "length (foldl (\<lambda>es b. if bit msk b \<and> length es < CPU_INFO_MAX_CPUS then es @ [f b] else es) es bs) =
    min CPU_INFO_MAX_CPUS (length es + length (filter (bit msk) bs))" for bs and f :: "nat \<Rightarrow> cpu_info_entry_t"
    using assms by (induction bs arbitrary: es) auto
  then show ?thesis by (simp add: windows_mask_entries_def windows_mask_bit_count_def)
qed

lemma length_core_entries:
  assumes "length es \<le> CPU_INFO_MAX_CPUS"
  shows "length (windows_core_entries os core r es) =
    min CPU_INFO_MAX_CPUS (length es + group_logical_count r)"
proof -
  have "length (foldl (\<lambda>es (grp, msk). if length es < CPU_INFO_MAX_CPUS
       then windows_mask_entries (windows_cpu_group_offset os grp) core (pr_efficiency r) msk es else es) es gs) =
    min CPU_INFO_MAX_CPUS (length es + sum_list (map (windows_mask_bit_count \<circ> snd) gs))" for gs
    using assms by (induction gs arbitrary: es) (auto simp: length_mask_entries)
  then show ?thesis by (simp add: windows_core_entries_def group_logical_count_def)
qed

lemma windows_loop_counts:
  assumes "windows_loop os rs es physical smt = (es', physical', smt')" "length es \<le> CPU_INFO_MAX_CPUS"
    "0 \<le> physical" "physical \<le> int (length es)"
  shows "length es' \<le> CPU_INFO_MAX_CPUS \<and> physical \<le> physical' \<and> physical' \<le> int (length es') \<and> length es \<le> length es'"
  using assms
proof (induction os rs es physical smt rule: windows_loop.induct)
  case (2 os r rs es physical smt)
  let ?n = "group_logical_count r"
  consider "length es \<ge> CPU_INFO_MAX_CPUS" | "length es < CPU_INFO_MAX_CPUS" "\<not> pr_core r"
    | "length es < CPU_INFO_MAX_CPUS" "pr_core r" "?n > 0" | "length es < CPU_INFO_MAX_CPUS" "pr_core r" "?n = 0"
    by linarith
  then show ?case
  proof cases
    case 3
    let ?es = "windows_core_entries os physical r es"
    have l: "length ?es = min CPU_INFO_MAX_CPUS (length es + ?n)" using 3 by (simp add: length_core_entries)
    have w: "windows_loop os rs ?es (physical + 1) (smt \<or> ?n > 1 \<or> pr_smt r) = (es', physical', smt')"
      using "2.prems"(1) 3 by (simp add: Let_def)
    have "physical + 1 \<le> int (length ?es)" using 3 "2.prems"(4) unfolding l by simp
    then have "length es' \<le> CPU_INFO_MAX_CPUS \<and> physical + 1 \<le> physical' \<and> physical' \<le> int (length es') \<and> length ?es \<le> length es'"
      using "2.IH"(2) [OF _ _ refl refl _ w] 3 "2.prems"(3) l by simp
    moreover have "length es \<le> length ?es" using l 3(1) by simp
    ultimately show ?thesis by linarith
  next
    case 4
    let ?es = "windows_core_entries os physical r es"
    have l: "length ?es = length es" using 4 by (simp add: length_core_entries)
    have w: "windows_loop os rs ?es physical smt = (es', physical', smt')"
      using "2.prems"(1) 4 by (simp add: Let_def)
    show ?thesis using "2.IH"(3) [OF _ _ refl refl _ w] 4 "2.prems"(2-4) l by simp
  qed (use 2 in \<open>auto simp: not_le\<close>)
qed simp


lemma windows_loop_found:
  assumes "windows_loop os rs [] 0 False = (es', physical', smt')"
    "\<exists>r\<in>set rs. pr_core r \<and> 0 < group_logical_count r"
  shows "es' \<noteq> []"
proof -
  have "0 < length es'" if "windows_loop os rs es physical smt = (es', physical', smt')"
    "length es \<le> CPU_INFO_MAX_CPUS" "0 \<le> physical" "physical \<le> int (length es)"
    "es \<noteq> [] \<or> (\<exists>r\<in>set rs. pr_core r \<and> 0 < group_logical_count r)" for es physical smt
    using that
  proof (induction rs arbitrary: es physical smt)
    case (Cons r rs)
    let ?n = "group_logical_count r"
    show ?case
    proof (cases "es = []")
      case True
      let ?es = "windows_core_entries os physical r es"
      show ?thesis
      proof (cases "pr_core r \<and> ?n > 0")
        case found: True
        have l: "length ?es = min CPU_INFO_MAX_CPUS ?n" using True by (simp add: length_core_entries)
        have w: "windows_loop os rs ?es (physical + 1) (smt \<or> ?n > 1 \<or> pr_smt r) = (es', physical', smt')"
          using Cons.prems(1) True found by (simp add: Let_def CPU_INFO_MAX_CPUS_def)
        have "length ?es \<le> length es'"
          using windows_loop_counts [OF w] l Cons.prems(3,4) True found by (simp add: CPU_INFO_MAX_CPUS_def)
        moreover have "0 < length ?es" using found unfolding l by (simp add: CPU_INFO_MAX_CPUS_def)
        ultimately show ?thesis by linarith
      next
        case False
        have l: "?es = []" if "pr_core r" using that False True length_core_entries [of es os physical r] by simp
        have w: "windows_loop os rs [] physical smt = (es', physical', smt')"
          using Cons.prems(1) False True l by (cases "pr_core r") (simp_all add: Let_def CPU_INFO_MAX_CPUS_def)
        show ?thesis by (rule Cons.IH [OF w]) (use Cons.prems(3-5) False True in \<open>auto simp: CPU_INFO_MAX_CPUS_def\<close>)
      qed
    qed (use windows_loop_counts [OF Cons.prems(1-4)] in auto)
  qed auto
  from this [OF assms(1)] assms(2) show ?thesis by (auto simp: CPU_INFO_MAX_CPUS_def)
qed

lemma detect_windows_ok:
  assumes "qsort_contract qsort" "cpu_info_ok info"
    "\<And>rs. os_cores os = Some rs \<Longrightarrow>
      \<exists>r\<in>set rs. pr_core r \<and> 0 < group_logical_count r"
  shows "cpu_info_ok (detect_windows qsort os info)"
proof (cases "os_cores os")
  case (Some rs)
  obtain es physical smt where w: "windows_loop os rs [] 0 False = (es, physical, smt)" by (metis prod_cases3)
  have "es \<noteq> []" by (rule windows_loop_found [OF w assms(3) [OF Some]])
  moreover from this have "1 \<le> length es" by (cases es) simp_all
  moreover have "length (qsort compare_cpu_entries es) = length es"
    using qsort_facts(1) [OF assms(1), of es] by (metis size_mset)
  ultimately show ?thesis
    using windows_loop_counts [OF w] Some w
    by (auto simp: detect_windows_def finalize_windows_info_def cpu_info_ok_def Let_def snprintf_s_def CPU_INFO_SOURCE_SIZE_def)
qed (use assms(2) in \<open>simp add: detect_windows_def\<close>)

section \<open>Properties\<close>

text \<open>A machine with two processors, the second of them faster.\<close>

definition demo_os :: os_env where
  "demo_os = \<lparr>os_platform = OS_Linux, os_online = 2, os_cpu_dir = Some [''cpu0'', ''cpufreq'', ''cpu1''],
     os_file = (\<lambda>p. if p = ''/sys/devices/system/cpu/cpu1/cpu_capacity'' then Some ''1024'' else None),
     os_cores = None, os_group_count = (\<lambda>g. 0)\<rparr>"

lemma demo_os_online: "online_cpus demo_os [''cpu0'', ''cpufreq'', ''cpu1''] = [0, 1]"
  by code_simp

text \<open>What is detected is consistent, on every platform and whatever the files say: at least one processor and
  at most 256, no more physical than logical ones, every logical one recommended for use. On Windows the
  system has to report a core, if it reports at all; the number of threads is in range even if it does not.\<close>

theorem cpu_detection_sound:
  assumes "qsort_contract qsort"
  shows "((os_platform os = OS_Windows \<longrightarrow> (\<forall>rs. os_cores os = Some rs \<longrightarrow>
      (\<exists>r\<in>set rs. pr_core r \<and> 0 < group_logical_count r))) \<longrightarrow> cpu_info_ok (cpu_info_detect qsort os)) \<and>
    1 \<le> cpu_info_recommended_threads qsort os \<and> cpu_info_recommended_threads qsort os \<le> int CPU_INFO_MAX_CPUS"
proof (cases "os_platform os = OS_Windows \<longrightarrow> (\<forall>rs. os_cores os = Some rs \<longrightarrow>
    (\<exists>r\<in>set rs. pr_core r \<and> 0 < group_logical_count r))")
  case True
  have "cpu_info_ok (cpu_info_detect qsort os)"
    using True fallback_ok [of os] detect_sysfs_ok [OF assms fallback_ok, of os os]
      detect_windows_ok [OF assms fallback_ok, of os os]
    by (auto simp: cpu_info_detect_def Let_def set_fallback_def split: os_platform.splits)
  then show ?thesis by (auto simp: cpu_info_recommended_threads_def cpu_info_ok_def Let_def)
next
  case False
  then obtain rs where w: "os_platform os = OS_Windows" "os_cores os = Some rs" by blast
  obtain es physical smt where l: "windows_loop os rs [] 0 False = (es, physical, smt)" by (metis prod_cases3)
  have "length (qsort compare_cpu_entries es) = length es" using qsort_facts(1) [OF assms, of es] by (metis size_mset)
  then have "length (qsort compare_cpu_entries es) \<le> CPU_INFO_MAX_CPUS" using windows_loop_counts [OF l] by simp
  then show ?thesis
    using False w l
    by (auto simp: cpu_info_recommended_threads_def cpu_info_detect_def detect_windows_def finalize_windows_info_def Let_def
        CPU_INFO_MAX_CPUS_def)
qed

theorem cpu_detection_sound_witness:
  "qsort_contract insertion_qsort \<and> os_platform demo_os \<noteq> OS_Windows \<and> cpu_info_ok (cpu_info_detect insertion_qsort demo_os) \<and>
   cpu_info_recommended_threads insertion_qsort demo_os \<le> int CPU_INFO_MAX_CPUS"
proof -
  have "os_platform demo_os \<noteq> OS_Windows" by (simp add: demo_os_def)
  then show ?thesis using cpu_detection_sound [OF insertion_qsort_contract, of demo_os] insertion_qsort_contract by blast
qed

text \<open>C39. The affinity plan lists the processors that are online, each once and fastest first, the processor with
  the smaller number first among equally fast ones; with fewer places than processors it lists the fastest. It
  depends neither on the order of the directory nor on how \<open>qsort\<close> arranges equal elements.\<close>

theorem affinity_plan_fastest_first:
  assumes "qsort_contract qsort" "os_platform os \<in> {OS_Linux, OS_Android}" "os_cpu_dir os = Some names"
    "distinct (online_cpus os names)" "online_cpus os names \<noteq> []"
  shows "\<exists>order. set order = set (online_cpus os names) \<and> distinct order \<and>
    sorted_wrt (\<lambda>i j. cpu_entry_rank (read_cpu_entry os j) < cpu_entry_rank (read_cpu_entry os i) \<or>
      cpu_entry_rank (read_cpu_entry os i) = cpu_entry_rank (read_cpu_entry os j) \<and> i < j) order \<and>
    cpu_info_affinity_plan qsort os (Some (cpu_info_detect qsort os)) mx = take (nat mx) order"
proof -
  let ?ids = "online_cpus os names" and ?rank = "\<lambda>i. cpu_entry_rank (read_cpu_entry os i)"
  let ?es = "qsort compare_cpu_entries (map (read_cpu_entry os) ?ids)"
  let ?by_speed = "qsort compare_cpu_entries_by_speed ?es"
  have "set ?ids \<subseteq> {0..<int CPU_INFO_MAX_CPUS}" using online_cpus_range by auto
  then have n: "length ?ids \<le> CPU_INFO_MAX_CPUS"
    using card_mono [of "{0..<int CPU_INFO_MAX_CPUS}" "set ?ids"] distinct_card [OF assms(4)] by simp
  have es: "mset ?es = mset (map (read_cpu_entry os) ?ids)" by (rule qsort_facts(1) [OF assms(1)])
  then have ne: "?es \<noteq> []" and len: "length ?es \<le> CPU_INFO_MAX_CPUS"
    using assms(5) n by (metis mset.simps(1) mset_zero_iff_right Nil_is_map_conv, metis length_map size_mset)
  have ms: "mset ?by_speed = mset (map (read_cpu_entry os) ?ids)" using qsort_facts(3) [OF assms(1), of ?es] es by simp
  have entry: "e = read_cpu_entry os (ce_id e)" if "e \<in> set ?by_speed" for e
    using that mset_eq_setD [OF ms] by auto
  define order where "order = map ce_id ?by_speed"
  have "mset order = mset ?ids" using arg_cong [OF ms, of "image_mset ce_id"] by (simp add: order_def multiset.map_comp comp_def)
  then have o: "set order = set ?ids" "distinct order" using assms(4) by (metis mset_eq_setD, metis mset_eq_imp_distinct_iff)
  have sorted: "sorted_wrt (\<lambda>i j. ?rank j < ?rank i \<or> ?rank i = ?rank j \<and> i < j) order"
    unfolding sorted_wrt_iff_nth_less
  proof (intro allI impI)
    fix k l assume kl: "k < l" "l < length order"
    then have "compare_cpu_entries_by_speed (?by_speed ! k) (?by_speed ! l) \<le> 0"
      using sorted_wrt_nth_less [OF qsort_facts(4) [OF assms(1)], of k l ?es] by (simp add: order_def)
    moreover have "?by_speed ! k = read_cpu_entry os (order ! k)" "?by_speed ! l = read_cpu_entry os (order ! l)"
      using kl entry nth_mem by (simp_all add: order_def)
    moreover have "order ! k \<noteq> order ! l" using kl o(2) by (simp add: nth_eq_iff_index_eq)
    ultimately show "?rank (order ! l) < ?rank (order ! k) \<or> ?rank (order ! k) = ?rank (order ! l) \<and> order ! k < order ! l"
      by (auto simp: compare_cpu_entries_by_speed_def split: if_splits)
  qed
  have "sysfs_loop os names [] = map (read_cpu_entry os) ?ids" using n by (simp add: sysfs_loop_online)
  then have d: "ci_entries (cpu_info_detect qsort os) = ?es"
    using assms(2,3,5) by (auto simp: cpu_info_detect_def detect_sysfs_def finalize_sysfs_info_def set_fallback_def Let_def)
  have "append_ids [] mx order = take (nat mx) order" if "0 < mx"
    using append_ids_all [of "[]" order mx] o online_cpus_range that by auto
  then have "cpu_info_affinity_plan qsort os (Some (cpu_info_detect qsort os)) mx = take (nat mx) order"
    using ne len by (simp add: cpu_info_affinity_plan_def append_entry_order_def d order_def)
  then show ?thesis using o sorted by blast
qed

theorem affinity_plan_fastest_first_witness:
  "cpu_info_affinity_plan insertion_qsort demo_os (Some (cpu_info_detect insertion_qsort demo_os)) 256 = [1, 0] \<and>
   (\<exists>order. set order = {0, 1} \<and>
      cpu_info_affinity_plan insertion_qsort demo_os (Some (cpu_info_detect insertion_qsort demo_os)) 256 = take 256 order)"
proof
  show "cpu_info_affinity_plan insertion_qsort demo_os (Some (cpu_info_detect insertion_qsort demo_os)) 256 = [1, 0]"
    by code_simp
  show "\<exists>order. set order = {0, 1} \<and>
      cpu_info_affinity_plan insertion_qsort demo_os (Some (cpu_info_detect insertion_qsort demo_os)) 256 = take 256 order"
    using affinity_plan_fastest_first [OF insertion_qsort_contract, of demo_os "[''cpu0'', ''cpufreq'', ''cpu1'']" 256]
    unfolding demo_os_online by (auto simp: demo_os_def)
qed

end
