(* ===== verification/Miner_Start.thy ===== *)
theory Miner_Start
  imports Miner_System Cuda_Miner Opencl_Miner Cpu_Info
begin

text \<open>
  The life of an engine in \<open>miner.c\<close>: \<open>miner_start\<close> plans the processors, opens and tests the GPUs and creates the
  threads; \<open>miner_stop\<close> joins them and closes the devices; \<open>miner_destroy\<close>. What the system answers (failing
  allocations and threads, the GPU libraries) is an argument. The log of a call tells which threads and devices it
  acquires and gives back. The last part puts the GPU backends under the workers of \<open>Miner_System\<close>.
\<close>

section \<open>Data\<close>

datatype gpu_dev = Opencl_Dev opencl_miner | Cuda_Dev cuda_miner

datatype thread_name = T_cpu nat | T_opencl nat | T_cuda

datatype engine_resource = R_thread thread_name | R_opencl nat | R_cuda

type_synonym engine_log = "engine_resource res_event list"

type_synonym 'ctx engine = "('ctx, gpu_dev) miner"

text \<open>The answers of the outside. The calls on the OpenCL devices are numbered by the devices resolved; \<open>st_calloc\<close> tells
  which of the three arrays for them can be allocated.\<close>

record 'ctx start_env =
  st_flags :: build_flags
  st_ssl :: "'ctx openssl"
  st_qsort :: qsort_func
  st_os :: os_env
  st_opencl :: opencl_env
  st_test_calls :: "nat \<Rightarrow> opencl_calls"
  st_test_run :: "nat \<Rightarrow> opencl_run"
  st_test_buffer :: "nat \<Rightarrow> u32 list"
  st_calls :: "nat \<Rightarrow> opencl_calls"
  st_calloc :: "bool \<times> bool \<times> bool"
  st_cuda_test :: cuda_env
  st_cuda_run :: cuda_run
  st_cuda_buffer :: "u32 list"
  st_cuda :: cuda_env
  st_arg_ok :: "thread_name \<Rightarrow> bool"
  st_thread_ok :: "thread_name \<Rightarrow> bool"

section \<open>Stopping\<close>

definition destroy_unstarted_gpu_devices :: "build_flags \<Rightarrow> 'ctx engine \<Rightarrow> 'ctx engine \<times> engine_log" where
  "destroy_unstarted_gpu_devices flags m =
    (let evs = map (Release \<circ> R_opencl) (opencl_live flags m) @
           (if BTC_MINER_CUDA flags \<and> cuda_device m \<noteq> None then [Release R_cuda] else []);
         m = (if BTC_MINER_OPENCL flags
              then m\<lparr>opencl_devices := map (\<lambda>i. if int i < opencl_started m then None else opencl_devices m ! i)
                       [0..<length (opencl_devices m)], opencl_started := 0\<rparr> else m);
         m = (if BTC_MINER_CUDA flags then m\<lparr>cuda_device := None, cuda_started := 0\<rparr> else m)
     in (m, evs))"

text \<open>\<open>miner_stop\<close>: the signal, the joins and the closing of the devices.\<close>

definition miner_stop :: "build_flags \<Rightarrow> 'ctx engine \<Rightarrow> 'ctx engine \<times> engine_log" where
  "miner_stop flags m =
    (if \<not> started m then (m, [])
     else (miner_stop_finish flags (miner_stop_signal m),
       map (Release \<circ> R_thread \<circ> T_cpu) [0..<nat (thread_count m)] @
       concat (map (\<lambda>i. [Release (R_thread (T_opencl i)), Release (R_opencl i)]) (opencl_live flags m)) @
       (if cuda_live flags m then [Release (R_thread T_cuda), Release R_cuda] else [])))"

definition stop_partially_started_cpu_threads ::
  "build_flags \<Rightarrow> nat \<Rightarrow> 'ctx engine \<Rightarrow> 'ctx engine \<times> engine_log" where
  "stop_partially_started_cpu_threads flags n m =
    (let (m, evs) = destroy_unstarted_gpu_devices flags m;
         (m, evs') = miner_stop flags (m\<lparr>thread_count := int n, started := True\<rparr>)
     in (m, evs @ evs'))"

text \<open>\<open>miner_destroy\<close>, without the memory it frees.\<close>

definition miner_destroy :: "build_flags \<Rightarrow> 'ctx engine \<Rightarrow> engine_log" where
  "miner_destroy flags m =
    (let (m, evs) = miner_stop flags m
     in evs @ (if BTC_MINER_CUDA flags \<and> cuda_device m \<noteq> None then [Release R_cuda] else []))"

section \<open>Starting\<close>

text \<open>The processors to bind the CPU threads to. The plan is written over the first places of the array.\<close>

definition plan_affinity :: "'ctx start_env \<Rightarrow> 'ctx engine \<Rightarrow> 'ctx engine" where
  "plan_affinity env m =
    (if cpu_affinity_enabled m \<and> thread_count m > 0 \<and> cpu_info_affinity_supported (st_os env)
     then let info = cpu_info_detect (st_qsort env) (st_os env);
              plan = cpu_info_affinity_plan (st_qsort env) (st_os env) (Some info) (int CPU_INFO_MAX_CPUS)
          in m\<lparr>cpu_affinity_plan := plan @ drop (length plan) (cpu_affinity_plan m),
               cpu_affinity_count := int (length plan), cpu_affinity_enabled := plan \<noteq> []\<rparr>
     else m\<lparr>cpu_affinity_enabled := False, cpu_affinity_count := 0\<rparr>)"

definition target_cpu :: "'ctx engine \<Rightarrow> nat \<Rightarrow> int" where
  "target_cpu m i =
    (if cpu_affinity_enabled m \<and> cpu_affinity_count m > 0
     then cpu_affinity_plan m ! (i mod nat (cpu_affinity_count m)) else - 1)"

text \<open>One device of the loop: tested, then opened; \<open>None\<close> when it is skipped.\<close>

definition open_opencl_device ::
  "'ctx start_env \<Rightarrow> miner_opencl_config_t \<Rightarrow> nat \<Rightarrow> miner_opencl_device_config_t \<Rightarrow> opencl_loader_t \<Rightarrow>
   opencl_loader_t \<times> opencl_miner option" where
  "open_opencl_device env base i d g =
    (let device_config = opencl_device_to_config (Some base) (Some d)
     in case opencl_miner_self_test (st_ssl env) (st_opencl env) (st_test_calls env i) (st_test_run env i) g
               (Some device_config) (st_test_buffer env i) of
          (g, evs, Some e) \<Rightarrow> (g, None)
        | (g, evs, None) \<Rightarrow>
           (case opencl_miner_create (st_opencl env) (st_calls env i) g (Some device_config) of
              (g, evs, Inl e) \<Rightarrow> (g, None)
            | (g, evs, Inr opencl) \<Rightarrow> (g, Some opencl)))"

fun open_opencl_devices ::
  "'ctx start_env \<Rightarrow> nat \<Rightarrow> miner_opencl_device_config_t list \<Rightarrow> opencl_loader_t \<Rightarrow> 'ctx engine \<Rightarrow>
   opencl_loader_t \<times> 'ctx engine \<times> engine_log" where
  "open_opencl_devices env i [] g m = (g, m, [])"
| "open_opencl_devices env i (d # ds) g m =
    (case open_opencl_device env (opencl_config m) i d g of
       (g, None) \<Rightarrow> open_opencl_devices env (Suc i) ds g m
     | (g, Some opencl) \<Rightarrow>
         let slot = nat (opencl_started m);
             m = m\<lparr>opencl_started := opencl_started m + 1,
                   opencl_devices := (opencl_devices m)[slot := Some (Opencl_Dev opencl)]\<rparr>;
             (g, m, evs) = open_opencl_devices env (Suc i) ds g m
         in (g, m, Acquire (R_opencl slot) # evs))"

definition start_opencl_devices ::
  "'ctx start_env \<Rightarrow> opencl_loader_t \<Rightarrow> 'ctx engine \<Rightarrow> opencl_loader_t \<times> 'ctx engine \<times> engine_log" where
  "start_opencl_devices env g m =
    (if \<not> BTC_MINER_OPENCL (st_flags env) \<or> \<not> ocl_enabled (opencl_config m) then (g, m, [])
     else case opencl_miner_resolve_devices (st_opencl env) g (Some (opencl_config m)) MINER_OPENCL_MAX_DEVICES of
         (g, Inl e) \<Rightarrow> (g, m, [])
       | (g, Inr resolved) \<Rightarrow>
          (case st_calloc env of (threads_ok, devices_ok, hashes_ok) \<Rightarrow>
             if resolved = [] then (g, m, [])
             else if \<not> threads_ok \<or> \<not> devices_ok \<or> \<not> hashes_ok
             then (g, m\<lparr>opencl_hashes := [], opencl_devices := []\<rparr>, [])
             else open_opencl_devices env 0 resolved g
               (m\<lparr>opencl_devices := replicate (length resolved) None, opencl_hashes := replicate (length resolved) 0\<rparr>)))"

definition start_cuda_device ::
  "'ctx start_env \<Rightarrow> cuda_driver_t \<Rightarrow> 'ctx engine \<Rightarrow> cuda_driver_t \<times> 'ctx engine \<times> engine_log" where
  "start_cuda_device env g m =
    (if \<not> BTC_MINER_CUDA (st_flags env) \<or> \<not> cuda_enabled (cuda_config m) then (g, m, [])
     else case cuda_miner_self_test (st_ssl env) (st_cuda_test env) (st_cuda_run env) g (Some (cuda_config m))
            (st_cuda_buffer env) of
         (g, evs, Some e) \<Rightarrow> (g, m, [])
       | (g, evs, None) \<Rightarrow>
          (case cuda_miner_create (st_cuda env) g (Some (cuda_config m)) of
             (g, evs, Inl e) \<Rightarrow> (g, m\<lparr>cuda_device := None\<rparr>, [])
           | (g, evs, Inr cuda) \<Rightarrow> (g, m\<lparr>cuda_device := Some (Cuda_Dev cuda), cuda_started := 1\<rparr>, [Acquire R_cuda])))"

text \<open>The loop that creates the CPU threads, from number \<open>i\<close> on, \<open>n\<close> of them. \<open>Inl\<close> is the early return with -1.\<close>

fun start_cpu_threads ::
  "'ctx start_env \<Rightarrow> nat \<Rightarrow> nat \<Rightarrow> 'ctx engine \<Rightarrow> ('ctx engine \<times> engine_log) + ('ctx engine \<times> engine_log)" where
  "start_cpu_threads env i 0 m = Inr (m, [])"
| "start_cpu_threads env i (Suc n) m =
    (if \<not> st_arg_ok env (T_cpu i) then Inl (stop_partially_started_cpu_threads (st_flags env) i m)
     else
       let m = m\<lparr>thread_count := int i + 1\<rparr>
       in if \<not> st_thread_ok env (T_cpu i) then Inl (stop_partially_started_cpu_threads (st_flags env) i m)
          else case start_cpu_threads env (Suc i) n m of
              Inl (m, evs) \<Rightarrow> Inl (m, Acquire (R_thread (T_cpu i)) # evs)
            | Inr (m, evs) \<Rightarrow> Inr (m, Acquire (R_thread (T_cpu i)) # evs))"

text \<open>The loop that creates the threads of the OpenCL devices, with the number of threads created.\<close>

fun start_opencl_threads ::
  "'ctx start_env \<Rightarrow> nat list \<Rightarrow> 'ctx engine \<Rightarrow> 'ctx engine \<times> engine_log \<times> nat" where
  "start_opencl_threads env [] m = (m, [], 0)"
| "start_opencl_threads env (i # is) m =
    (if opencl_devices m ! i = None then start_opencl_threads env is m
     else if \<not> st_arg_ok env (T_opencl i) \<or> \<not> st_thread_ok env (T_opencl i)
     then case start_opencl_threads env is (m\<lparr>opencl_devices := (opencl_devices m)[i := None]\<rparr>) of
         (m, evs, running) \<Rightarrow> (m, Release (R_opencl i) # evs, running)
     else case start_opencl_threads env is m of
         (m, evs, running) \<Rightarrow> (m, Acquire (R_thread (T_opencl i)) # evs, running + 1))"

definition start_cuda_thread :: "'ctx start_env \<Rightarrow> 'ctx engine \<Rightarrow> 'ctx engine \<times> engine_log \<times> nat" where
  "start_cuda_thread env m =
    (if \<not> (cuda_started m > 0 \<and> cuda_device m \<noteq> None) then (m, [], 0)
     else if \<not> st_arg_ok env T_cuda \<or> \<not> st_thread_ok env T_cuda
     then (m\<lparr>cuda_device := None, cuda_started := 0\<rparr>, [Release R_cuda], 0)
     else (m, [Acquire (R_thread T_cuda)], 1))"

text \<open>The second half of \<open>miner_start\<close>, from the creation of the threads on.\<close>

definition start_threads :: "'ctx start_env \<Rightarrow> int \<Rightarrow> 'ctx engine \<Rightarrow> 'ctx engine \<times> engine_log \<times> int" where
  "start_threads env requested_cpu_threads m =
    (case start_cpu_threads env 0 (nat requested_cpu_threads) (m\<lparr>thread_count := 0\<rparr>) of
       Inl (m, evs) \<Rightarrow> (m, evs, - 1)
     | Inr (m, evs) \<Rightarrow>
        (case (if BTC_MINER_OPENCL (st_flags env) then start_opencl_threads env [0..<nat (opencl_started m)] m else (m, [], 0)) of
           (m, evs', opencl_running) \<Rightarrow>
             if BTC_MINER_OPENCL (st_flags env) \<and> \<not> BTC_MINER_CUDA (st_flags env) \<and> thread_count m \<le> 0 \<and> opencl_running = 0
             then (case miner_stop (st_flags env) (m\<lparr>started := True\<rparr>) of (m, evs'') \<Rightarrow> (m, evs @ evs' @ evs'', - 1))
             else
              (case (if BTC_MINER_CUDA (st_flags env) then start_cuda_thread env m else (m, [], 0)) of
                 (m, evs'', cuda_running) \<Rightarrow>
                   if BTC_MINER_CUDA (st_flags env) \<and> thread_count m \<le> 0 \<and> opencl_running = 0 \<and> cuda_running = 0
                   then (m, evs @ evs' @ evs'', - 1)
                   else (m\<lparr>started := True\<rparr>, evs @ evs' @ evs'', 0))))"

definition miner_start ::
  "'ctx start_env \<Rightarrow> opencl_loader_t \<times> cuda_driver_t \<Rightarrow> 'ctx engine \<Rightarrow>
   (opencl_loader_t \<times> cuda_driver_t) \<times> 'ctx engine \<times> engine_log \<times> int" where
  "miner_start env g m =
    (if started m then (g, m, [], 0)
     else
       let requested_cpu_threads = thread_count m;
           m = plan_affinity env m;
           (g_opencl, m, evs) = start_opencl_devices env (fst g) m;
           (g_cuda, m, evs') = start_cuda_device env (snd g) m
       in if requested_cpu_threads \<le> 0 \<and> (BTC_MINER_OPENCL (st_flags env) \<longrightarrow> opencl_started m \<le> 0) \<and>
             (BTC_MINER_CUDA (st_flags env) \<longrightarrow> cuda_started m \<le> 0)
          then ((g_opencl, g_cuda), m, evs @ evs', - 1)
          else case start_threads env requested_cpu_threads m of
              (m, evs'', rc) \<Rightarrow> ((g_opencl, g_cuda), m, evs @ evs' @ evs'', rc))"

section \<open>Threads and devices\<close>

lemma track_SomeI: "track h evs = Some h' \<Longrightarrow> track h' evs' = Some h'' \<Longrightarrow> track h (evs @ evs') = Some h''"
  by (simp add: track_append)

lemma track_releases: "distinct rs \<Longrightarrow> set rs \<subseteq> h \<Longrightarrow> track h (map Release rs) = Some (h - set rs)"
proof (induction rs arbitrary: h)
  case (Cons r rs)
  then have "set rs \<subseteq> h - {r}" "h - {r} - set rs = h - set (r # rs)" by auto
  then show ?case using Cons by simp
qed simp

text \<open>The devices and the threads of an engine that runs.\<close>

definition device_set :: "build_flags \<Rightarrow> 'ctx engine \<Rightarrow> engine_resource set" where
  "device_set flags m = R_opencl ` set (opencl_live flags m) \<union> (if cuda_live flags m then {R_cuda} else {})"

definition gpu_threads :: "build_flags \<Rightarrow> 'ctx engine \<Rightarrow> engine_resource set" where
  "gpu_threads flags m =
    (R_thread \<circ> T_opencl) ` set (opencl_live flags m) \<union> (if cuda_live flags m then {R_thread T_cuda} else {})"

definition cpu_threads :: "nat set \<Rightarrow> engine_resource set" where
  "cpu_threads is = (R_thread \<circ> T_cpu) ` is"

definition running :: "build_flags \<Rightarrow> 'ctx engine \<Rightarrow> engine_resource set" where
  "running flags m = cpu_threads {0..<nat (thread_count m)} \<union> gpu_threads flags m \<union> device_set flags m"

text \<open>A CUDA device is open exactly when it counts as started.\<close>

definition cuda_slot_ok :: "build_flags \<Rightarrow> 'ctx engine \<Rightarrow> bool" where
  "cuda_slot_ok flags m \<longleftrightarrow> (BTC_MINER_CUDA flags \<longrightarrow> (cuda_device m \<noteq> None \<longleftrightarrow> cuda_started m > 0))"

lemma distinct_live [simp]: "distinct (opencl_live flags m)"
  by (simp add: opencl_live_def)

lemma live_cong: "opencl_devices m' = opencl_devices m \<Longrightarrow> opencl_started m' = opencl_started m \<Longrightarrow>
    opencl_live flags m' = opencl_live flags m"
  "cuda_device m' = cuda_device m \<Longrightarrow> cuda_started m' = cuda_started m \<Longrightarrow> cuda_live flags m' = cuda_live flags m"
  by (simp_all add: opencl_live_def cuda_live_def)

lemma live_updates [simp]:
  "opencl_live flags (m\<lparr>thread_count := n\<rparr>) = opencl_live flags m" "cuda_live flags (m\<lparr>thread_count := n\<rparr>) = cuda_live flags m"
  "opencl_live flags (m\<lparr>started := b\<rparr>) = opencl_live flags m" "cuda_live flags (m\<lparr>started := b\<rparr>) = cuda_live flags m"
  "opencl_live flags (m\<lparr>cuda_device := c, cuda_started := k\<rparr>) = opencl_live flags m"
  "cuda_live flags (m\<lparr>opencl_devices := ds, opencl_started := k\<rparr>) = cuda_live flags m"
  "cuda_live flags (m\<lparr>opencl_devices := ds\<rparr>) = cuda_live flags m"
  "opencl_live flags (miner_stop_signal m) = opencl_live flags m"
  by (simp_all add: opencl_live_def cuda_live_def miner_stop_signal_def)

subsection \<open>Stopping\<close>

lemma track_joins:
  assumes "distinct is" "(R_thread \<circ> T_opencl) ` set is \<subseteq> h" "R_opencl ` set is \<subseteq> h"
  shows "track h (concat (map (\<lambda>i. [Release (R_thread (T_opencl i)), Release (R_opencl i)]) is)) =
    Some (h - (R_thread \<circ> T_opencl) ` set is - R_opencl ` set is)"
  using assms
proof (induction "is" arbitrary: h)
  case (Cons i "is")
  let ?h = "h - {R_thread (T_opencl i)} - {R_opencl i}"
  have "track ?h (concat (map (\<lambda>i. [Release (R_thread (T_opencl i)), Release (R_opencl i)]) is)) =
    Some (?h - (R_thread \<circ> T_opencl) ` set is - R_opencl ` set is)"
    using Cons.prems by (intro Cons.IH) auto
  moreover have "?h - (R_thread \<circ> T_opencl) ` set is - R_opencl ` set is =
      h - (R_thread \<circ> T_opencl) ` set (i # is) - R_opencl ` set (i # is)" by auto
  ultimately show ?case using Cons.prems by simp
qed simp

lemma miner_stop_releases:
  assumes "miner_stop flags m = (m', evs)" "started m"
  shows "track (running flags m) evs = Some {}"
proof -
  let ?cpu = "map (R_thread \<circ> T_cpu) [0..<nat (thread_count m)]" and ?live = "opencl_live flags m"
  let ?h1 = "running flags m - set ?cpu"
  let ?h2 = "?h1 - (R_thread \<circ> T_opencl) ` set ?live - R_opencl ` set ?live"
  have "track (running flags m) (map Release ?cpu) = Some ?h1"
    by (rule track_releases) (auto simp: distinct_map inj_on_def running_def cpu_threads_def)
  moreover have "track ?h1 (concat (map (\<lambda>i. [Release (R_thread (T_opencl i)), Release (R_opencl i)]) ?live)) = Some ?h2"
    by (rule track_joins) (auto simp: running_def gpu_threads_def device_set_def)
  moreover have "track ?h2 (if cuda_live flags m then [Release (R_thread T_cuda), Release R_cuda] else []) = Some {}"
    by (auto simp: running_def gpu_threads_def device_set_def cpu_threads_def)
  ultimately show ?thesis
    using assms by (auto simp: miner_stop_def track_append o_assoc)
qed

lemma stop_finish_idle: "started m \<Longrightarrow> opencl_live flags (miner_stop_finish flags m) = [] \<and> \<not> cuda_live flags (miner_stop_finish flags m) \<and>
    \<not> started (miner_stop_finish flags m) \<and>
    (cuda_slot_ok flags m \<longrightarrow> BTC_MINER_CUDA flags \<longrightarrow> cuda_device (miner_stop_finish flags m) = None)"
  by (auto simp: miner_stop_finish_def opencl_live_def cuda_live_def cuda_slot_ok_def Let_def)

lemma miner_stop_idle:
  assumes "miner_stop flags m = (m', evs)" "started m"
  shows "opencl_live flags m' = []" "\<not> cuda_live flags m'" "\<not> started m'"
    "cuda_slot_ok flags m \<Longrightarrow> BTC_MINER_CUDA flags \<Longrightarrow> cuda_device m' = None"
  using assms stop_finish_idle [of "miner_stop_signal m" flags]
  by (auto simp: miner_stop_def miner_stop_signal_def cuda_slot_ok_def)

subsection \<open>Opening devices\<close>

text \<open>Every device of an engine is one that its backend created.\<close>

definition gpus_ok :: "'ctx engine \<Rightarrow> bool" where
  "gpus_ok m \<longleftrightarrow> (\<forall>d\<in>set (opencl_devices m). \<forall>x. d = Some x \<longrightarrow> (\<exists>opencl. x = Opencl_Dev opencl \<and> opencl_miner_ok opencl)) \<and>
     (\<forall>x. cuda_device m = Some x \<longrightarrow> (\<exists>cuda. x = Cuda_Dev cuda \<and> cuda_miner_ok cuda))"

definition slots_ok :: "'ctx engine \<Rightarrow> bool" where
  "slots_ok m \<longleftrightarrow> 0 \<le> opencl_started m \<and> nat (opencl_started m) \<le> length (opencl_devices m)"

lemma open_device_ok: "open_opencl_device env base i d g = (g', Some opencl) \<Longrightarrow> opencl_miner_ok opencl"
  by (auto simp: open_opencl_device_def Let_def split: prod.splits option.splits sum.splits dest: opencl_create_ok)

lemma gpus_ok_push:
  assumes "gpus_ok m" "opencl_miner_ok opencl"
  shows "gpus_ok (m\<lparr>opencl_started := k, opencl_devices := (opencl_devices m)[j := Some (Opencl_Dev opencl)]\<rparr>)"
proof -
  have "d = Some (Opencl_Dev opencl) \<or> d \<in> set (opencl_devices m)"
    if "d \<in> set ((opencl_devices m)[j := Some (Opencl_Dev opencl)])" for d
    using that set_update_subset_insert [of "opencl_devices m" j "Some (Opencl_Dev opencl)"] by blast
  then show ?thesis using assms unfolding gpus_ok_def by simp blast
qed

lemma live_push:
  assumes "BTC_MINER_OPENCL flags" "0 \<le> opencl_started m" "nat (opencl_started m) < length (opencl_devices m)"
  shows "opencl_live flags (m\<lparr>opencl_started := opencl_started m + 1,
      opencl_devices := (opencl_devices m)[nat (opencl_started m) := Some x]\<rparr>) =
    opencl_live flags m @ [nat (opencl_started m)]"
proof -
  have "nat (opencl_started m + 1) = Suc (nat (opencl_started m))" using assms(2) by simp
  moreover have "filter (\<lambda>i. opencl_devices m \<noteq> [] \<and> (opencl_devices m)[nat (opencl_started m) := Some x] ! i \<noteq> None)
      [0..<nat (opencl_started m)] =
    filter (\<lambda>i. opencl_devices m \<noteq> [] \<and> opencl_devices m ! i \<noteq> None) [0..<nat (opencl_started m)]"
    by (rule filter_cong) auto
  ultimately show ?thesis using assms by (auto simp: opencl_live_def)
qed

lemma open_devices:
  assumes "open_opencl_devices env i ds g m = (g', m', evs)" "BTC_MINER_OPENCL (st_flags env)"
    "0 \<le> opencl_started m" "nat (opencl_started m) + length ds \<le> length (opencl_devices m)" "gpus_ok m"
  shows "(\<exists>ds' k. m' = m\<lparr>opencl_devices := ds', opencl_started := k\<rparr>) \<and> slots_ok m' \<and> gpus_ok m' \<and>
    (\<forall>X. X \<inter> range R_opencl = {} \<longrightarrow> track (X \<union> R_opencl ` set (opencl_live (st_flags env) m)) evs =
       Some (X \<union> R_opencl ` set (opencl_live (st_flags env) m')))"
  using assms
proof (induction env i ds g m arbitrary: g' m' evs rule: open_opencl_devices.induct)
  case (1 env i g m)
  moreover have "\<exists>ds' k. m = m\<lparr>opencl_devices := ds', opencl_started := k\<rparr>"
    by (intro exI [of _ "opencl_devices m"] exI [of _ "opencl_started m"]) simp
  ultimately show ?case by (simp add: slots_ok_def)
next
  case (2 env i d ds g m)
  obtain g1 r where o: "open_opencl_device env (opencl_config m) i d g = (g1, r)" by fastforce
  show ?case
  proof (cases r)
    case None
    then show ?thesis using "2.IH"(1) [OF o [symmetric] None] "2.prems" o by simp
  next
    case (Some opencl)
    let ?slot = "nat (opencl_started m)" and ?live = "opencl_live (st_flags env)"
    let ?m = "m\<lparr>opencl_started := opencl_started m + 1, opencl_devices := (opencl_devices m)[?slot := Some (Opencl_Dev opencl)]\<rparr>"
    obtain evs1 where r: "open_opencl_devices env (Suc i) ds g1 ?m = (g', m', evs1)" "evs = Acquire (R_opencl ?slot) # evs1"
      using "2.prems"(1) o Some by (auto simp: Let_def split: prod.splits)
    have "gpus_ok ?m" by (rule gpus_ok_push [OF "2.prems"(5) open_device_ok [OF o [unfolded Some]]])
    then have IH: "(\<exists>ds' k. m' = ?m\<lparr>opencl_devices := ds', opencl_started := k\<rparr>) \<and> slots_ok m' \<and> gpus_ok m' \<and>
      (\<forall>X. X \<inter> range R_opencl = {} \<longrightarrow> track (X \<union> R_opencl ` set (?live ?m)) evs1 = Some (X \<union> R_opencl ` set (?live m')))"
      using "2.IH"(2) [OF o [symmetric] Some refl refl r(1)] "2.prems"(2-4) by simp
    have live: "?live ?m = ?live m @ [?slot]" by (rule live_push) (use "2.prems"(2-4) in auto)
    have "?slot \<notin> set (?live m)" by (simp add: opencl_live_def)
    then have "track (X \<union> R_opencl ` set (?live m)) evs = track (X \<union> R_opencl ` set (?live ?m)) evs1"
      if "X \<inter> range R_opencl = {}" for X
      using that by (auto simp: r(2) live)
    then show ?thesis using IH by auto
  qed
qed

lemma start_opencl:
  assumes "start_opencl_devices env g m = (g', m', evs)" "opencl_started m = 0" "gpus_ok m"
    "BTC_MINER_OPENCL (st_flags env) \<longrightarrow> opencl_devices m = []"
  shows "(\<exists>ds' hs k. m' = m\<lparr>opencl_devices := ds', opencl_hashes := hs, opencl_started := k\<rparr>) \<and> gpus_ok m' \<and>
    (BTC_MINER_OPENCL (st_flags env) \<longrightarrow> slots_ok m') \<and> (\<not> BTC_MINER_OPENCL (st_flags env) \<longrightarrow> evs = []) \<and>
    (\<forall>X. X \<inter> range R_opencl = {} \<longrightarrow> track X evs = Some (X \<union> R_opencl ` set (opencl_live (st_flags env) m')))"
proof -
  have idle: ?thesis if "m' = m \<or> m' = m\<lparr>opencl_hashes := [], opencl_devices := []\<rparr>" "evs = []"
  proof -
    have "\<exists>ds' hs k. m' = m\<lparr>opencl_devices := ds', opencl_hashes := hs, opencl_started := k\<rparr>"
      using that(1) assms(2)
      by (elim disjE; intro exI [of _ "opencl_devices m'"] exI [of _ "opencl_hashes m'"] exI [of _ "opencl_started m'"]) simp_all
    then show ?thesis using that assms(2,3,4) by (auto simp: opencl_live_def slots_ok_def gpus_ok_def)
  qed
  show ?thesis
  proof (cases "BTC_MINER_OPENCL (st_flags env) \<and> ocl_enabled (opencl_config m)")
    case True
    obtain g1 r where res: "opencl_miner_resolve_devices (st_opencl env) g (Some (opencl_config m)) MINER_OPENCL_MAX_DEVICES = (g1, r)"
      by fastforce
    show ?thesis
    proof (cases "\<exists>ds. r = Inr ds \<and> ds \<noteq> [] \<and> st_calloc env = (True, True, True)")
      case False
      then show ?thesis using idle assms(1) True res by (auto simp: start_opencl_devices_def split: sum.splits prod.splits if_splits)
    next
      case found: True
      then obtain ds where ds: "r = Inr ds" "ds \<noteq> []" "st_calloc env = (True, True, True)" by blast
      let ?m = "m\<lparr>opencl_devices := replicate (length ds) None, opencl_hashes := replicate (length ds) 0\<rparr>"
      have "open_opencl_devices env 0 ds g1 ?m = (g', m', evs)" using assms(1) True res ds by (simp add: start_opencl_devices_def)
      moreover have "gpus_ok ?m" using assms(3) by (auto simp: gpus_ok_def)
      moreover have "opencl_live (st_flags env) ?m = []" using assms(2) by (simp add: opencl_live_def)
      ultimately have o: "(\<exists>ds' k. m' = ?m\<lparr>opencl_devices := ds', opencl_started := k\<rparr>)" "slots_ok m'" "gpus_ok m'"
        "\<forall>X. X \<inter> range R_opencl = {} \<longrightarrow> track X evs = Some (X \<union> R_opencl ` set (opencl_live (st_flags env) m'))"
        using open_devices [of env 0 ds g1 ?m g' m' evs] True assms(2) by simp_all
      obtain ds' k where "m' = ?m\<lparr>opencl_devices := ds', opencl_started := k\<rparr>" using o(1) by blast
      then have "m' = m\<lparr>opencl_devices := ds', opencl_hashes := replicate (length ds) 0, opencl_started := k\<rparr>" by simp
      then have "\<exists>ds' hs k. m' = m\<lparr>opencl_devices := ds', opencl_hashes := hs, opencl_started := k\<rparr>" by blast
      then show ?thesis using o(2-4) True by blast
    qed
  qed (use idle assms(1) in \<open>auto simp: start_opencl_devices_def\<close>)
qed

lemma start_cuda:
  assumes "start_cuda_device env g m = (g', m', evs)" "cuda_device m = None" "cuda_started m = 0" "gpus_ok m"
  shows "(\<exists>c k. m' = m\<lparr>cuda_device := c, cuda_started := k\<rparr>) \<and> gpus_ok m' \<and> cuda_slot_ok (st_flags env) m' \<and>
    (\<forall>X. R_cuda \<notin> X \<longrightarrow> track X evs = Some (X \<union> (if cuda_live (st_flags env) m' then {R_cuda} else {})))"
proof -
  have idle: ?thesis if "m' = m" "evs = []"
    using that assms(2-4) by (auto simp: cuda_live_def cuda_slot_ok_def intro!: exI [of _ None] exI [of _ 0])
  have opened: ?thesis if "m' = m\<lparr>cuda_device := Some (Cuda_Dev cuda), cuda_started := 1\<rparr>" "evs = [Acquire R_cuda]"
    "BTC_MINER_CUDA (st_flags env)" "cuda_miner_ok cuda" for cuda
    using that assms(4) by (auto simp: cuda_live_def cuda_slot_ok_def gpus_ok_def)
  have "m\<lparr>cuda_device := None\<rparr> = m" using assms(2) by simp
  then have "m' = m \<and> evs = [] \<or> (\<exists>cuda. m' = m\<lparr>cuda_device := Some (Cuda_Dev cuda), cuda_started := 1\<rparr> \<and>
      evs = [Acquire R_cuda] \<and> BTC_MINER_CUDA (st_flags env) \<and> cuda_miner_ok cuda)"
    using assms(1)
    by (auto simp: start_cuda_device_def split: if_splits prod.splits option.splits sum.splits dest: cuda_create_ok)
  then show ?thesis using idle opened by metis
qed

subsection \<open>Creating threads\<close>

lemma cpu_threads_simps [simp]: "cpu_threads {} = {}" "cpu_threads (insert i A) = insert (R_thread (T_cpu i)) (cpu_threads A)"
  "cpu_threads (A \<union> B) = cpu_threads A \<union> cpu_threads B" "R_thread (T_cpu i) \<in> cpu_threads A \<longleftrightarrow> i \<in> A"
  by (auto simp: cpu_threads_def)

lemma device_threads_apart: "R_thread t \<notin> device_set flags m" "R_thread (T_cpu i) \<notin> gpu_threads flags m"
  "R_cuda \<notin> cpu_threads A" "R_opencl i \<notin> cpu_threads A" "R_thread T_cuda \<notin> cpu_threads A" "R_thread (T_opencl i) \<notin> cpu_threads A"
  by (auto simp: device_set_def gpu_threads_def cpu_threads_def)

lemma destroy_unstarted_releases:
  assumes "destroy_unstarted_gpu_devices flags m = (m', evs)" "cuda_slot_ok flags m" "X \<inter> device_set flags m = {}"
  shows "track (X \<union> device_set flags m) evs = Some X" "opencl_live flags m' = []" "\<not> cuda_live flags m'"
    "BTC_MINER_CUDA flags \<Longrightarrow> cuda_device m' = None" "cuda_slot_ok flags m'" "thread_count m' = thread_count m"
proof -
  let ?rs = "map R_opencl (opencl_live flags m) @ (if cuda_live flags m then [R_cuda] else [])"
  have "BTC_MINER_CUDA flags \<and> cuda_device m \<noteq> None \<longleftrightarrow> cuda_live flags m"
    using assms(2) by (auto simp: cuda_live_def cuda_slot_ok_def)
  then have e: "evs = map Release ?rs" using assms(1) by (auto simp: destroy_unstarted_gpu_devices_def Let_def)
  have s: "set ?rs = device_set flags m" by (auto simp: device_set_def)
  have "distinct ?rs" by (auto simp: distinct_map inj_on_def)
  then have "track (X \<union> device_set flags m) evs = Some (X \<union> device_set flags m - device_set flags m)"
    unfolding e s [symmetric] by (rule track_releases) auto
  moreover have "X \<union> device_set flags m - device_set flags m = X" using assms(3) by auto
  ultimately show "track (X \<union> device_set flags m) evs = Some X" by simp
  show "opencl_live flags m' = []" "\<not> cuda_live flags m'" "BTC_MINER_CUDA flags \<Longrightarrow> cuda_device m' = None"
    "cuda_slot_ok flags m'" "thread_count m' = thread_count m"
    using assms(1,2) by (auto simp: destroy_unstarted_gpu_devices_def Let_def opencl_live_def cuda_live_def cuda_slot_ok_def split: if_splits)
qed

text \<open>An engine that holds nothing.\<close>

definition idle :: "build_flags \<Rightarrow> 'ctx engine \<Rightarrow> bool" where
  "idle flags m \<longleftrightarrow> \<not> started m \<and> (BTC_MINER_CUDA flags \<longrightarrow> cuda_device m = None)"

lemma stop_partially_releases:
  assumes "stop_partially_started_cpu_threads flags i m = (m', evs)" "cuda_slot_ok flags m"
  shows "track (cpu_threads {0..<i} \<union> device_set flags m) evs = Some {} \<and> idle flags m'"
proof -
  obtain m1 evs1 where d: "destroy_unstarted_gpu_devices flags m = (m1, evs1)" by fastforce
  let ?m = "m1\<lparr>thread_count := int i, started := True\<rparr>"
  obtain evs2 where s: "miner_stop flags ?m = (m', evs2)" "evs = evs1 @ evs2"
    using assms(1) d by (auto simp: stop_partially_started_cpu_threads_def Let_def split: prod.splits)
  have "cpu_threads {0..<i} \<inter> device_set flags m = {}" by (auto simp: cpu_threads_def device_set_def)
  note r = destroy_unstarted_releases [OF d assms(2) this]
  have "running flags ?m = cpu_threads {0..<i}"
    using r(2,3) by (simp add: running_def gpu_threads_def device_set_def)
  then have "track (cpu_threads {0..<i}) evs2 = Some {}" using miner_stop_releases [OF s(1)] by simp
  then show ?thesis
    using r(1) miner_stop_idle [OF s(1)] r(5) by (auto simp: s(2) track_append idle_def cuda_slot_ok_def)
qed

lemma start_cpus:
  assumes "cuda_slot_ok (st_flags env) m" "thread_count m = int i"
  shows "case start_cpu_threads env i n m of
      Inl (m', evs) \<Rightarrow> track (cpu_threads {0..<i} \<union> device_set (st_flags env) m) evs = Some {} \<and> idle (st_flags env) m'
    | Inr (m', evs) \<Rightarrow> m' = m\<lparr>thread_count := int i + int n\<rparr> \<and>
        (\<forall>X. X \<inter> range (R_thread \<circ> T_cpu) = {} \<longrightarrow>
          track (cpu_threads {0..<i} \<union> X) evs = Some (cpu_threads {0..<i + n} \<union> X))"
  using assms
proof (induction env i n m rule: start_cpu_threads.induct)
  case (2 env i n m)
  let ?m = "m\<lparr>thread_count := int i + 1\<rparr>" and ?i = "R_thread (T_cpu i)"
  have t: "cpu_threads {0..<Suc i} = insert ?i (cpu_threads {0..<i})" by (auto simp: cpu_threads_def)
  have c: "cuda_slot_ok (st_flags env) ?m" using "2.prems"(1) by (simp add: cuda_slot_ok_def)
  have d: "device_set (st_flags env) ?m = device_set (st_flags env) m" by (simp add: device_set_def)
  consider "\<not> st_arg_ok env (T_cpu i)" | "st_arg_ok env (T_cpu i)" "\<not> st_thread_ok env (T_cpu i)"
    | "st_arg_ok env (T_cpu i)" "st_thread_ok env (T_cpu i)" by blast
  then show ?case
  proof cases
    case 1
    then show ?thesis using stop_partially_releases [OF _ "2.prems"(1), of i] by (simp split: prod.splits)
  next
    case 2
    then show ?thesis using stop_partially_releases [OF _ c, of i] d by (simp split: prod.splits)
  next
    case 3
    note IH = "2.IH" [OF _ refl _ c]
    have new: "?i \<notin> cpu_threads {0..<i} \<union> X" if "X \<inter> range (R_thread \<circ> T_cpu) = {}" for X using that by auto
    have "device_set (st_flags env) m \<inter> range (R_thread \<circ> T_cpu) = {}" by (auto simp: device_set_def)
    note new_d = new [OF this]
    show ?thesis
    proof (cases "start_cpu_threads env (Suc i) n ?m")
      case (Inl r)
      then show ?thesis using IH 3 new_d by (cases r) (simp add: t d)
    next
      case (Inr r)
      obtain m' evs where r: "r = (m', evs)" by fastforce
      have "m' = m\<lparr>thread_count := int i + int (Suc n)\<rparr>" using IH 3 Inr r by simp
      moreover have "track (cpu_threads {0..<i} \<union> X) (Acquire ?i # evs) = Some (cpu_threads {0..<i + Suc n} \<union> X)"
        if "X \<inter> range (R_thread \<circ> T_cpu) = {}" for X
      proof -
        have "track (cpu_threads {0..<Suc i} \<union> X) evs = Some (cpu_threads {0..<Suc i + n} \<union> X)" using IH 3 Inr r that by simp
        then show ?thesis using new [OF that] by (simp add: t)
      qed
      ultimately show ?thesis using 3 Inr r by simp
    qed
  qed
qed simp

lemma live_drop:
  assumes "slots_ok m"
  shows "set (opencl_live flags (m\<lparr>opencl_devices := (opencl_devices m)[i := None]\<rparr>)) = set (opencl_live flags m) - {i}"
    "slots_ok (m\<lparr>opencl_devices := (opencl_devices m)[i := None]\<rparr>)"
proof -
  have "j \<in> set (opencl_live flags (m\<lparr>opencl_devices := (opencl_devices m)[i := None]\<rparr>)) \<longleftrightarrow>
      j \<in> set (opencl_live flags m) - {i}" for j
    using assms by (cases "j = i") (auto simp: opencl_live_def slots_ok_def)
  then show "set (opencl_live flags (m\<lparr>opencl_devices := (opencl_devices m)[i := None]\<rparr>)) = set (opencl_live flags m) - {i}"
    by blast
  show "slots_ok (m\<lparr>opencl_devices := (opencl_devices m)[i := None]\<rparr>)" using assms by (simp add: slots_ok_def)
qed

lemma gpus_ok_drop: "gpus_ok m \<Longrightarrow> gpus_ok (m\<lparr>opencl_devices := (opencl_devices m)[i := None]\<rparr>)"
proof -
  have "d = None \<or> d \<in> set (opencl_devices m)" if "d \<in> set ((opencl_devices m)[i := None])" for d
    using that set_update_subset_insert [of "opencl_devices m" i None] by blast
  then show "gpus_ok m \<Longrightarrow> ?thesis" unfolding gpus_ok_def by simp blast
qed

lemma start_opencl_workers:
  assumes "start_opencl_threads env is m = (m', evs, running_count)" "slots_ok m" "gpus_ok m"
    "distinct is" "set is \<subseteq> {0..<nat (opencl_started m)}" "BTC_MINER_OPENCL flags"
  shows "(\<exists>ds'. m' = m\<lparr>opencl_devices := ds'\<rparr>) \<and> slots_ok m' \<and> gpus_ok m' \<and>
    set (opencl_live flags m') \<subseteq> set (opencl_live flags m) \<and> set (opencl_live flags m) - set is = set (opencl_live flags m') - set is \<and>
    (running_count = 0 \<longleftrightarrow> set (opencl_live flags m') \<inter> set is = {}) \<and>
    (\<forall>X. X \<inter> (range R_opencl \<union> (R_thread \<circ> T_opencl) ` set is) = {} \<longrightarrow>
      track (X \<union> R_opencl ` set (opencl_live flags m)) evs =
        Some (X \<union> R_opencl ` set (opencl_live flags m') \<union> (R_thread \<circ> T_opencl) ` (set (opencl_live flags m') \<inter> set is)))"
  using assms
proof (induction env "is" m arbitrary: m' evs running_count rule: start_opencl_threads.induct)
  case (1 env m)
  have "\<exists>ds'. m = m\<lparr>opencl_devices := ds'\<rparr>" by (rule exI [of _ "opencl_devices m"]) simp
  then show ?case using 1 by simp
next
  case (2 env i "is" m)
  let ?live = "\<lambda>m. set (opencl_live flags m)"
  have i: "i < length (opencl_devices m)" "i < nat (opencl_started m)" using "2.prems"(2,5) by (auto simp: slots_ok_def)
  then have live_i: "i \<in> ?live m \<longleftrightarrow> opencl_devices m ! i \<noteq> None" using "2.prems"(6) by (auto simp: opencl_live_def)
  have "is": "distinct is" "i \<notin> set is" "set is \<subseteq> {0..<nat (opencl_started m)}" using "2.prems"(4,5) by auto
  consider "opencl_devices m ! i = None"
    | "opencl_devices m ! i \<noteq> None" "\<not> st_arg_ok env (T_opencl i) \<or> \<not> st_thread_ok env (T_opencl i)"
    | "opencl_devices m ! i \<noteq> None" "st_arg_ok env (T_opencl i)" "st_thread_ok env (T_opencl i)" by blast
  then show ?case
  proof cases
    case 1
    then have "start_opencl_threads env is m = (m', evs, running_count)" using "2.prems"(1) by simp
    note IH = "2.IH"(1) [OF 1 this "2.prems"(2,3) "is"(1,3) "2.prems"(6)]
    have "i \<notin> ?live m'" using IH live_i 1 by blast
    then have e: "?live m' \<inter> set (i # is) = ?live m' \<inter> set is" "?live m' - set (i # is) = ?live m' - set is" "?live m - set (i # is) = ?live m - set is"
      using live_i 1 by auto
    show ?thesis unfolding e using IH by auto
  next
    case 2
    let ?m = "m\<lparr>opencl_devices := (opencl_devices m)[i := None]\<rparr>"
    obtain evs1 where r: "start_opencl_threads env is ?m = (m', evs1, running_count)" "evs = Release (R_opencl i) # evs1"
      using "2.prems"(1) 2 by (auto split: prod.splits)
    have live: "?live ?m = ?live m - {i}" by (rule live_drop(1) [OF "2.prems"(2)])
    have "set is \<subseteq> {0..<nat (opencl_started ?m)}" using "is"(3) by simp
    note IH = "2.IH"(2) [OF 2 r(1) live_drop(2) [OF "2.prems"(2)] gpus_ok_drop [OF "2.prems"(3)] "is"(1) this "2.prems"(6), unfolded live]
    have "i \<notin> ?live m'" using IH by blast
    then have e: "?live m' \<inter> set (i # is) = ?live m' \<inter> set is" "?live m' - set (i # is) = ?live m' - set is" "?live m - set (i # is) = ?live m - {i} - set is"
      by auto
    have f: "\<exists>ds'. m' = m\<lparr>opencl_devices := ds'\<rparr>" using IH by auto
    have t: "track (X \<union> R_opencl ` ?live m) evs = Some (X \<union> R_opencl ` ?live m' \<union> (R_thread \<circ> T_opencl) ` (?live m' \<inter> set is))"
      if "X \<inter> (range R_opencl \<union> (R_thread \<circ> T_opencl) ` set (i # is)) = {}" for X
    proof -
      have "X \<union> R_opencl ` ?live m - {R_opencl i} = X \<union> R_opencl ` (?live m - {i})" using that by auto
      moreover have "R_opencl i \<in> R_opencl ` ?live m" using live_i 2 by blast
      moreover have "X \<inter> (range R_opencl \<union> (R_thread \<circ> T_opencl) ` set is) = {}" using that by auto
      ultimately show ?thesis using IH unfolding r(2) by auto
    qed
    show ?thesis unfolding e using IH f t by blast
  next
    case 3
    obtain evs1 n where r: "start_opencl_threads env is m = (m', evs1, n)" "evs = Acquire (R_thread (T_opencl i)) # evs1"
      "running_count = n + 1"
      using "2.prems"(1) 3 by (auto split: prod.splits)
    note IH = "2.IH"(3) [OF 3(1) _ r(1) "2.prems"(2,3) "is"(1,3) "2.prems"(6)]
    have IH: "(\<exists>ds'. m' = m\<lparr>opencl_devices := ds'\<rparr>) \<and> slots_ok m' \<and> gpus_ok m' \<and> ?live m' \<subseteq> ?live m \<and> ?live m - set is = ?live m' - set is \<and>
      (\<forall>X. X \<inter> (range R_opencl \<union> (R_thread \<circ> T_opencl) ` set is) = {} \<longrightarrow>
      track (X \<union> R_opencl ` ?live m) evs1 = Some (X \<union> R_opencl ` ?live m' \<union> (R_thread \<circ> T_opencl) ` (?live m' \<inter> set is)))"
      using IH 3 by blast
    have "i \<in> ?live m'" using IH live_i 3(1) "is"(2) by blast
    then have e: "?live m' \<inter> set (i # is) = insert i (?live m' \<inter> set is)" by auto
    have t: "track (X \<union> R_opencl ` ?live m) evs =
        Some (X \<union> R_opencl ` ?live m' \<union> (R_thread \<circ> T_opencl) ` (?live m' \<inter> set (i # is)))"
      if X: "X \<inter> (range R_opencl \<union> (R_thread \<circ> T_opencl) ` set (i # is)) = {}" for X
    proof -
      let ?X = "insert (R_thread (T_opencl i)) X"
      have "?X \<inter> (range R_opencl \<union> (R_thread \<circ> T_opencl) ` set is) = {}" using X "is"(2) by auto
      then have "track (?X \<union> R_opencl ` ?live m) evs1 = Some (?X \<union> R_opencl ` ?live m' \<union> (R_thread \<circ> T_opencl) ` (?live m' \<inter> set is))"
        using IH by blast
      moreover have "R_thread (T_opencl i) \<notin> X \<union> R_opencl ` ?live m" using X by auto
      ultimately show ?thesis unfolding r(2) e by simp
    qed
    have "?live m - set (i # is) = ?live m' - set (i # is)" using IH by auto
    then show ?thesis using IH t r(3) e by auto
  qed
qed

lemma start_cuda_worker:
  assumes "start_cuda_thread env m = (m', evs, n)" "cuda_slot_ok flags m" "gpus_ok m" "BTC_MINER_CUDA flags"
    "R_cuda \<notin> Y" "R_thread T_cuda \<notin> Y"
  shows "(\<exists>c k. m' = m\<lparr>cuda_device := c, cuda_started := k\<rparr>) \<and> cuda_slot_ok flags m' \<and> gpus_ok m' \<and> (n = 0 \<longleftrightarrow> \<not> cuda_live flags m') \<and>
    track (Y \<union> (if cuda_live flags m then {R_cuda} else {})) evs =
      Some (Y \<union> (if cuda_live flags m' then {R_cuda, R_thread T_cuda} else {}))"
proof -
  have same: ?thesis if "m' = m" "evs = []" "n = 0" "\<not> cuda_live flags m"
  proof -
    have "\<exists>c k. m' = m\<lparr>cuda_device := c, cuda_started := k\<rparr>"
      by (intro exI [of _ "cuda_device m"] exI [of _ "cuda_started m"]) (simp add: that)
    then show ?thesis using that assms(2,3) by simp
  qed
  have up: ?thesis if "m' = m" "evs = [Acquire (R_thread T_cuda)]" "n = 1" "cuda_live flags m"
  proof -
    have "\<exists>c k. m' = m\<lparr>cuda_device := c, cuda_started := k\<rparr>"
      by (intro exI [of _ "cuda_device m"] exI [of _ "cuda_started m"]) (simp add: that)
    then show ?thesis using that assms(2,3,5,6) by (auto simp: insert_commute)
  qed
  have down: ?thesis if "m' = m\<lparr>cuda_device := None, cuda_started := 0\<rparr>" "evs = [Release R_cuda]" "n = 0" "cuda_live flags m"
  proof -
    have "Y \<union> {R_cuda} - {R_cuda} = Y" using assms(5) by auto
    moreover have "cuda_slot_ok flags m'" "gpus_ok m'" "\<not> cuda_live flags m'"
      using assms(3) by (simp_all add: that(1) cuda_slot_ok_def gpus_ok_def cuda_live_def)
    ultimately show ?thesis using that by auto
  qed
  have "cuda_live flags m \<longleftrightarrow> cuda_started m > 0 \<and> cuda_device m \<noteq> None" using assms(4) by (auto simp: cuda_live_def)
  then have "m' = m \<and> evs = [] \<and> n = 0 \<and> \<not> cuda_live flags m \<or>
      m' = m \<and> evs = [Acquire (R_thread T_cuda)] \<and> n = 1 \<and> cuda_live flags m \<or>
      m' = m\<lparr>cuda_device := None, cuda_started := 0\<rparr> \<and> evs = [Release R_cuda] \<and> n = 0 \<and> cuda_live flags m"
    using assms(1) by (auto simp: start_cuda_thread_def split: if_splits)
  then show ?thesis using same up down by blast
qed

text \<open>What the creation of the threads leaves: with 0, an engine whose threads and devices are those recorded in its state,
  and at least one thread; with -1, nothing.\<close>

definition start_outcome :: "build_flags \<Rightarrow> engine_resource set \<Rightarrow> 'ctx engine \<Rightarrow> engine_log \<Rightarrow> int \<Rightarrow> bool" where
  "start_outcome flags h m evs rc \<longleftrightarrow>
    (if rc = 0 then started m \<and> track h evs = Some (running flags m) \<and> cuda_slot_ok flags m \<and> gpus_ok m \<and>
        (BTC_MINER_OPENCL flags \<longrightarrow> slots_ok m) \<and> (0 < thread_count m \<or> opencl_live flags m \<noteq> [] \<or> cuda_live flags m)
     else rc = - 1 \<and> track h evs = Some {} \<and> idle flags m)"

text \<open>The two GPU phases, whichever backends are compiled in.\<close>

lemma opencl_phase:
  assumes "(if BTC_MINER_OPENCL flags then start_opencl_threads env [0..<nat (opencl_started m)] m else (m, [], 0)) = (m', evs, n)"
    "gpus_ok m" "BTC_MINER_OPENCL flags \<longrightarrow> slots_ok m" "X \<inter> (range R_opencl \<union> range (R_thread \<circ> T_opencl)) = {}"
  shows "\<exists>ds'. m' = m\<lparr>opencl_devices := ds'\<rparr>" "gpus_ok m'" "n = 0 \<longleftrightarrow> opencl_live flags m' = []"
    "BTC_MINER_OPENCL flags \<longrightarrow> slots_ok m'"
    "track (X \<union> R_opencl ` set (opencl_live flags m)) evs =
       Some (X \<union> R_opencl ` set (opencl_live flags m') \<union> (R_thread \<circ> T_opencl) ` set (opencl_live flags m'))"
proof -
  let ?live = "set (opencl_live flags m')"
  have "(\<exists>ds'. m' = m\<lparr>opencl_devices := ds'\<rparr>) \<and> gpus_ok m' \<and> (n = 0 \<longleftrightarrow> ?live = {}) \<and>
    (BTC_MINER_OPENCL flags \<longrightarrow> slots_ok m') \<and>
    track (X \<union> R_opencl ` set (opencl_live flags m)) evs = Some (X \<union> R_opencl ` ?live \<union> (R_thread \<circ> T_opencl) ` ?live)"
  proof (cases "BTC_MINER_OPENCL flags")
    case True
    have "start_opencl_threads env [0..<nat (opencl_started m)] m = (m', evs, n)" using assms(1) True by simp
    note W = start_opencl_workers [OF this, of flags]
    have "X \<inter> (range R_opencl \<union> (R_thread \<circ> T_opencl) ` set [0..<nat (opencl_started m)]) = {}" using assms(4) by auto
    moreover have "?live \<subseteq> {0..<nat (opencl_started m')}" by (auto simp: opencl_live_def)
    moreover have "opencl_started m' = opencl_started m" using W assms(2,3) True by auto
    ultimately show ?thesis using W assms(2,3) True by (auto simp: Int_absorb2)
  next
    case False
    have "\<exists>ds'. m = m\<lparr>opencl_devices := ds'\<rparr>" by (rule exI [of _ "opencl_devices m"]) simp
    moreover have "opencl_live flags m = []" using False by (simp add: opencl_live_def)
    ultimately show ?thesis using assms(1,2) False by simp
  qed
  then show "\<exists>ds'. m' = m\<lparr>opencl_devices := ds'\<rparr>" "gpus_ok m'" "n = 0 \<longleftrightarrow> opencl_live flags m' = []"
    "BTC_MINER_OPENCL flags \<longrightarrow> slots_ok m'"
    "track (X \<union> R_opencl ` set (opencl_live flags m)) evs =
       Some (X \<union> R_opencl ` set (opencl_live flags m') \<union> (R_thread \<circ> T_opencl) ` set (opencl_live flags m'))"
    by simp_all
qed

lemma cuda_phase:
  assumes "(if BTC_MINER_CUDA flags then start_cuda_thread env m else (m, [], 0)) = (m', evs, n)"
    "cuda_slot_ok flags m" "gpus_ok m" "R_cuda \<notin> Y" "R_thread T_cuda \<notin> Y"
  shows "(\<exists>c k. m' = m\<lparr>cuda_device := c, cuda_started := k\<rparr>) \<and> cuda_slot_ok flags m' \<and> gpus_ok m' \<and>
    (n = 0 \<longleftrightarrow> \<not> cuda_live flags m') \<and>
    track (Y \<union> (if cuda_live flags m then {R_cuda} else {})) evs =
      Some (Y \<union> (if cuda_live flags m' then {R_cuda, R_thread T_cuda} else {}))"
proof (cases "BTC_MINER_CUDA flags")
  case True
  then show ?thesis using start_cuda_worker [of env m m' evs n flags Y] assms by simp
next
  case False
  have "\<exists>c k. m = m\<lparr>cuda_device := c, cuda_started := k\<rparr>"
    by (intro exI [of _ "cuda_device m"] exI [of _ "cuda_started m"]) simp
  moreover have "\<not> cuda_live flags m" using False by (simp add: cuda_live_def)
  ultimately show ?thesis using assms(1,2,3) False by simp
qed

text \<open>What is held is what the state of the engine records, once the three phases are over.\<close>

lemma running_phases:
  assumes "thread_count m = int n"
  shows "running flags (m\<lparr>started := True\<rparr>) = cpu_threads {0..<n} \<union> R_opencl ` set (opencl_live flags m) \<union>
    (R_thread \<circ> T_opencl) ` set (opencl_live flags m) \<union> (if cuda_live flags m then {R_cuda, R_thread T_cuda} else {})"
  using assms by (auto simp: running_def gpu_threads_def device_set_def)

lemma running_nothing:
  "thread_count m \<le> 0 \<Longrightarrow> opencl_live flags m = [] \<Longrightarrow> \<not> cuda_live flags m \<Longrightarrow> running flags m = {}"
  by (simp add: running_def gpu_threads_def device_set_def)

lemma start_threads_outcome:
  assumes "start_threads env req m = (m', evs, rc)" "\<not> started m" "gpus_ok m" "cuda_slot_ok (st_flags env) m"
    "BTC_MINER_OPENCL (st_flags env) \<longrightarrow> slots_ok m" "0 < req \<or> BTC_MINER_OPENCL (st_flags env) \<or> BTC_MINER_CUDA (st_flags env)"
  shows "start_outcome (st_flags env) (device_set (st_flags env) m) m' evs rc"
proof -
  let ?flags = "st_flags env"
  let ?m0 = "m\<lparr>thread_count := 0\<rparr>" and ?cpu = "cpu_threads {0..<nat req}"
  have c0: "cuda_slot_ok ?flags ?m0" "thread_count ?m0 = int 0" using assms(4) by (simp_all add: cuda_slot_ok_def)
  have d0: "device_set ?flags ?m0 = device_set ?flags m" by (simp add: device_set_def)
  note cpus = start_cpus [OF c0, of "nat req", simplified d0]
  show ?thesis
  proof (cases "start_cpu_threads env 0 (nat req) ?m0")
    case (Inl r)
    then show ?thesis using cpus assms(1) by (cases r) (simp add: start_threads_def start_outcome_def)
  next
    case (Inr r)
    obtain m1 evs1 where r: "r = (m1, evs1)" by fastforce
    have m1: "m1 = m\<lparr>thread_count := int (nat req)\<rparr>" using cpus Inr r by simp
    have gpu1: "gpus_ok m1" "BTC_MINER_OPENCL ?flags \<longrightarrow> slots_ok m1" using assms(3,5) by (simp_all add: m1 gpus_ok_def slots_ok_def)
    have "device_set ?flags m \<inter> range (R_thread \<circ> T_cpu) = {}" by (auto simp: device_set_def)
    then have t1: "track (device_set ?flags m) evs1 = Some (?cpu \<union> device_set ?flags m)" using cpus Inr r by simp
    obtain m2 evs2 n where o: "(if BTC_MINER_OPENCL ?flags then start_opencl_threads env [0..<nat (opencl_started m1)] m1
        else (m1, [], 0)) = (m2, evs2, n)" by (metis prod_cases3)
    let ?cuda = "if cuda_live ?flags m then {R_cuda} else {}" and ?live = "set (opencl_live ?flags m2)"
    let ?Y = "?cpu \<union> R_opencl ` ?live \<union> (R_thread \<circ> T_opencl) ` ?live"
    have "(?cpu \<union> ?cuda) \<inter> (range R_opencl \<union> range (R_thread \<circ> T_opencl)) = {}" by (auto simp: cpu_threads_def)
    note two = opencl_phase [OF o gpu1 this]
    have "?cpu \<union> ?cuda \<union> R_opencl ` set (opencl_live ?flags m1) = ?cpu \<union> device_set ?flags m"
      "?cpu \<union> ?cuda \<union> R_opencl ` ?live \<union> (R_thread \<circ> T_opencl) ` ?live = ?Y \<union> ?cuda" by (auto simp: m1 device_set_def)
    then have t2: "track (device_set ?flags m) (evs1 @ evs2) = Some (?Y \<union> ?cuda)" using t1 two(5) by (simp add: track_append)
    obtain ds' where m2: "m2 = m1\<lparr>opencl_devices := ds'\<rparr>" using two(1) by blast
    have c2: "cuda_slot_ok ?flags m2" "cuda_live ?flags m2 = cuda_live ?flags m" "thread_count m2 = int (nat req)"
      using assms(4) by (simp_all add: m2 m1 cuda_slot_ok_def)
    obtain m3 evs3 k where c: "(if BTC_MINER_CUDA ?flags then start_cuda_thread env m2 else (m2, [], 0)) = (m3, evs3, k)"
      by (metis prod_cases3)
    have "R_cuda \<notin> ?Y" "R_thread T_cuda \<notin> ?Y" by (auto simp: cpu_threads_def)
    note three = cuda_phase [OF c c2(1) two(2) this, unfolded c2(2)]
    then obtain c' k' where m3: "m3 = m2\<lparr>cuda_device := c', cuda_started := k'\<rparr>" by blast
    have live3: "opencl_live ?flags m3 = opencl_live ?flags m2" "thread_count m3 = int (nat req)" "\<not> started m3"
      using c2(3) assms(2) by (simp_all add: m3 m2 m1)
    have "track (device_set ?flags m) ((evs1 @ evs2) @ evs3) =
        Some (?Y \<union> (if cuda_live ?flags m3 then {R_cuda, R_thread T_cuda} else {}))"
      by (rule track_SomeI [OF t2]) (use three in blast)
    then have t3: "track (device_set ?flags m) (evs1 @ evs2 @ evs3) = Some (running ?flags (m3\<lparr>started := True\<rparr>))"
      unfolding running_phases [OF live3(2)] live3(1) by (simp only: append_assoc)
    show ?thesis
    proof (cases "BTC_MINER_OPENCL ?flags \<and> \<not> BTC_MINER_CUDA ?flags \<and> thread_count m2 \<le> 0 \<and> n = 0")
      case True
      obtain m4 evs4 where st: "miner_stop ?flags (m2\<lparr>started := True\<rparr>) = (m4, evs4)" by fastforce
      have "m3 = m2" "evs3 = []" using c True by auto
      then have "track (device_set ?flags m) (evs1 @ evs2) = Some (running ?flags (m2\<lparr>started := True\<rparr>))" using t3 by simp
      then have "track (device_set ?flags m) (evs1 @ evs2 @ evs4) = Some {}"
        using track_SomeI [of _ "evs1 @ evs2" _ evs4 "{}"] miner_stop_releases [OF st] by simp
      moreover have "idle ?flags m4" using miner_stop_idle [OF st] True by (simp add: idle_def)
      moreover have "m' = m4" "evs = evs1 @ evs2 @ evs4" "rc = - 1"
        using assms(1) Inr r o st True by (simp_all add: start_threads_def)
      ultimately show ?thesis by (simp add: start_outcome_def)
    next
      case False
      show ?thesis
      proof (cases "BTC_MINER_CUDA ?flags \<and> thread_count m3 \<le> 0 \<and> n = 0 \<and> k = 0")
        case none: True
        then have "running ?flags (m3\<lparr>started := True\<rparr>) = {}" using two(3) three live3 by (intro running_nothing) auto
        moreover have "idle ?flags m3" using none three live3(3) by (auto simp: idle_def cuda_slot_ok_def cuda_live_def)
        moreover have "m' = m3" "evs = evs1 @ evs2 @ evs3" "rc = - 1"
          using assms(1) Inr r o c False none by (auto simp: start_threads_def)
        ultimately show ?thesis using t3 by (simp add: start_outcome_def)
      next
        case some: False
        have "0 < thread_count m3 \<or> opencl_live ?flags m3 \<noteq> [] \<or> cuda_live ?flags m3"
          using some False assms(6) two(3) three live3 c2(3) by auto
        moreover have "m' = m3\<lparr>started := True\<rparr>" "evs = evs1 @ evs2 @ evs3" "rc = 0"
          using assms(1) Inr r o c False some by (auto simp: start_threads_def)
        ultimately show ?thesis using t3 three two(4) by (simp add: start_outcome_def cuda_slot_ok_def gpus_ok_def slots_ok_def m3)
      qed
    qed
  qed
qed

lemma start_outcome_append:
  "track h evs = Some h' \<Longrightarrow> start_outcome flags h' m evs' rc \<Longrightarrow> start_outcome flags h m (evs @ evs') rc"
  by (auto simp: start_outcome_def track_append split: if_splits)

text \<open>The engine a caller hands to \<open>miner_start\<close>: one that was created and not started yet.\<close>

definition unstarted :: "'ctx engine \<Rightarrow> bool" where
  "unstarted m \<longleftrightarrow> \<not> started m \<and> opencl_devices m = [] \<and> opencl_started m = 0 \<and> cuda_device m = None \<and> cuda_started m = 0"

lemma create_unstarted: "miner_create_with_backend_options flags c z n oc cc = Some m \<Longrightarrow> unstarted m"
  by (auto simp: miner_create_with_backend_options_def unstarted_def Let_def split: if_splits prod.splits)

lemma set_affinity_unstarted: "unstarted m \<Longrightarrow> unstarted (miner_set_cpu_affinity b m)"
  by (simp add: miner_set_cpu_affinity_def unstarted_def)

lemma plan_affinity_unstarted: "unstarted m \<Longrightarrow> unstarted (plan_affinity env m) \<and> thread_count (plan_affinity env m) = thread_count m"
  by (simp add: plan_affinity_def unstarted_def Let_def)

lemma miner_start_outcome:
  assumes "miner_start env g m = (g', m', evs, rc)" "unstarted m"
  shows "start_outcome (st_flags env) {} m' evs rc"
proof -
  let ?flags = "st_flags env" and ?m = "plan_affinity env m"
  have u: "unstarted ?m" "thread_count ?m = thread_count m" using plan_affinity_unstarted [OF assms(2)] by auto
  obtain go m1 evs1 where o: "start_opencl_devices env (fst g) ?m = (go, m1, evs1)" by (metis prod_cases3)
  have "gpus_ok ?m" using u(1) by (simp add: gpus_ok_def unstarted_def)
  note O = start_opencl [OF o _ this]
  obtain gc m2 evs2 where c: "start_cuda_device env (snd g) m1 = (gc, m2, evs2)" by (metis prod_cases3)
  have O': "(\<exists>ds' hs k. m1 = ?m\<lparr>opencl_devices := ds', opencl_hashes := hs, opencl_started := k\<rparr>)" "gpus_ok m1"
    "BTC_MINER_OPENCL ?flags \<longrightarrow> slots_ok m1" "track {} evs1 = Some (R_opencl ` set (opencl_live ?flags m1))"
    using O u(1) by (auto simp: unstarted_def)
  then have m1: "cuda_device m1 = None" "cuda_started m1 = 0" "\<not> started m1" using u(1) by (auto simp: unstarted_def)
  note C = start_cuda [OF c m1(1,2) O'(2)]
  then obtain c' k' where m2: "m2 = m1\<lparr>cuda_device := c', cuda_started := k'\<rparr>" by blast
  have "R_cuda \<notin> R_opencl ` set (opencl_live ?flags m1)" by auto
  then have t: "track {} (evs1 @ evs2) = Some (device_set ?flags m2)"
    using C O'(4) by (auto simp: track_append device_set_def m2)
  let ?none = "thread_count m \<le> 0 \<and> (BTC_MINER_OPENCL ?flags \<longrightarrow> opencl_started m2 \<le> 0) \<and>
    (BTC_MINER_CUDA ?flags \<longrightarrow> cuda_started m2 \<le> 0)"
  have start: "miner_start env g m =
    (if ?none then ((go, gc), m2, evs1 @ evs2, - 1)
     else case start_threads env (thread_count m) m2 of (m, evs3, rc) \<Rightarrow> ((go, gc), m, evs1 @ evs2 @ evs3, rc))"
    using assms(2) o c by (simp add: miner_start_def unstarted_def Let_def)
  show ?thesis
  proof (cases ?none)
    case True
    have "opencl_live ?flags m2 = []" "\<not> cuda_live ?flags m2" using True by (auto simp: opencl_live_def cuda_live_def)
    moreover have "idle ?flags m2" using True C m1(3) by (auto simp: idle_def cuda_slot_ok_def m2)
    ultimately show ?thesis using t start True assms(1) by (simp add: start_outcome_def device_set_def)
  next
    case False
    obtain m3 evs3 rc3 where r: "start_threads env (thread_count m) m2 = (m3, evs3, rc3)" by (metis prod_cases3)
    have "start_outcome ?flags (device_set ?flags m2) m3 evs3 rc3"
      by (rule start_threads_outcome [OF r]) (use False C O'(3) m1(3) in \<open>auto simp: m2 slots_ok_def\<close>)
    from start_outcome_append [OF t this] show ?thesis using start False r assms(1) by auto
  qed
qed

text \<open>C8. The life of an engine. A start that returns 0 leaves at least one worker running, and the threads and devices acquired
  are exactly those the engine's state records. A start that fails, at whatever point (no device, a failed self
  test, a failed allocation, a thread that cannot be created), returns -1 and holds nothing. In both cases destroying the
  engine joins every thread and closes every device, each once.\<close>

theorem engine_lifecycle:
  assumes "miner_create_with_backend_options flags calloc_ok zero_ctx n oc cc = Some m0" "m = miner_set_cpu_affinity b m0"
    "miner_start env g m = (g', m', evs, rc)" "st_flags env = flags"
  shows "(rc = 0 \<and> started m' \<and> track {} evs = Some (running flags m') \<and>
      (0 < thread_count m' \<or> opencl_live flags m' \<noteq> [] \<or> cuda_live flags m') \<or>
    rc = - 1 \<and> \<not> started m' \<and> track {} evs = Some {}) \<and> track {} (evs @ miner_destroy flags m') = Some {}"
proof -
  have "start_outcome flags {} m' evs rc"
    using miner_start_outcome [OF assms(3)] assms(1,2,4) create_unstarted set_affinity_unstarted by metis
  moreover obtain m1 evs1 where s: "miner_stop flags m' = (m1, evs1)" by fastforce
  ultimately show ?thesis
    using miner_stop_releases [OF s] miner_stop_idle(4) [OF s]
    by (auto simp: start_outcome_def idle_def miner_destroy_def track_append miner_stop_def split: if_splits)
qed

text \<open>An engine for the witness: two CPU threads, of which the second may fail to be created.\<close>

definition demo_start :: "bool \<Rightarrow> u32 list start_env" where
  "demo_start thread_ok =
    \<lparr>st_flags = \<lparr>BTC_MINER_OPENCL = False, BTC_MINER_CUDA = False\<rparr>, st_ssl = openssl_ref, st_qsort = insertion_qsort, st_os = demo_os,
     st_opencl = demo_opencl, st_test_calls = (\<lambda>i. demo_calls), st_test_run = (\<lambda>i. demo_opencl_run),
     st_test_buffer = (\<lambda>i. []), st_calls = (\<lambda>i. demo_calls), st_calloc = (True, True, True), st_cuda_test = demo_cuda,
     st_cuda_run = demo_cuda_run, st_cuda_buffer = [], st_cuda = demo_cuda, st_arg_ok = (\<lambda>t. True),
     st_thread_ok = (\<lambda>t. thread_ok \<or> t \<noteq> T_cpu 1)\<rparr>"

definition demo_engine :: "u32 list engine" where
  "demo_engine = the (miner_create_with_backend_options \<lparr>BTC_MINER_OPENCL = False, BTC_MINER_CUDA = False\<rparr> (True, True, True) [] 2 None None)"

theorem engine_lifecycle_witness:
  "\<exists>g' m' evs. miner_start (demo_start False) (demo_loader, demo_driver) (miner_set_cpu_affinity True demo_engine) = (g', m', evs, - 1) \<and>
     evs = [Acquire (R_thread (T_cpu 0)), Release (R_thread (T_cpu 0))] \<and> track {} evs = Some {}"
proof -
  obtain g' m' evs rc where r: "miner_start (demo_start False) (demo_loader, demo_driver) (miner_set_cpu_affinity True demo_engine) =
      (g', m', evs, rc)" by (metis prod_cases4)
  have c: "miner_create_with_backend_options \<lparr>BTC_MINER_OPENCL = False, BTC_MINER_CUDA = False\<rparr> (True, True, True) [] 2 None None = Some demo_engine"
    by (simp add: demo_engine_def miner_create_with_backend_options_def)
  have "rc = - 1 \<and> evs = [Acquire (R_thread (T_cpu 0)), Release (R_thread (T_cpu 0))]"
    using r
    by (auto simp: demo_start_def demo_engine_def miner_create_with_backend_options_def miner_set_cpu_affinity_def miner_start_def
        plan_affinity_def start_opencl_devices_def start_cuda_device_def start_threads_def numeral_2_eq_2 Let_def
        stop_partially_started_cpu_threads_def destroy_unstarted_gpu_devices_def miner_stop_def opencl_live_def cuda_live_def
        split: if_splits prod.splits)
  then show ?thesis using r engine_lifecycle [OF c refl r] by (auto simp: demo_start_def)
qed

end
