(* ===== verification/Gpu_Engine.thy ===== *)
theory Gpu_Engine
  imports Miner_Start
begin

text \<open>
  The engine on its devices: the workers that \<open>miner_start\<close> leaves running, each with the backend it scans with
  (\<open>worker_main\<close>, \<open>opencl_worker_main\<close>, \<open>cuda_worker_main\<close> of \<open>miner.c\<close>). The contract \<open>gpu_sound\<close> that \<open>Miner_System\<close> asks of
  a GPU is proved for the two backends, so what is shown of the interleaved system holds for the program as it is
  put together.
\<close>

section \<open>Workers\<close>

text \<open>How the driver and the device answer one scan.\<close>

record gpu_behaviour =
  gb_cuda :: cuda_run
  gb_opencl :: opencl_run
  gb_buffer :: "u32 list"

definition gpu_dev_batch :: "gpu_dev \<Rightarrow> u32" where
  "gpu_dev_batch d =
    (case d of Opencl_Dev opencl \<Rightarrow> opencl_miner_batch_size (Some opencl) | Cuda_Dev cuda \<Rightarrow> cuda_miner_batch_size (Some cuda))"

definition gpu_dev_max_results :: "gpu_dev \<Rightarrow> nat" where
  "gpu_dev_max_results d = (case d of Opencl_Dev opencl \<Rightarrow> unat (om_max_results opencl) | Cuda_Dev cuda \<Rightarrow> unat (cm_max_results cuda))"

text \<open>The call of the backend in a worker's loop: the matches in the order in which \<open>queue_scan_match\<close> gets them,
  \<open>None\<close> for a failed scan, which fails before the first match.\<close>

definition gpu_dev_scan ::
  "gpu_dev \<Rightarrow> gpu_behaviour \<Rightarrow> 'ctx active_job_t \<Rightarrow> u32 \<Rightarrow> u32 \<Rightarrow> (u32 \<times> u32 list) list option" where
  "gpu_dev_scan d b a start_nonce nonce_count =
    (case d of
       Opencl_Dev opencl \<Rightarrow>
         opencl_scan_list (gb_opencl b) opencl (gb_buffer b) (midstate a) (tail_words a) (target_words a) start_nonce nonce_count
     | Cuda_Dev cuda \<Rightarrow>
         cuda_scan_list (gb_cuda b) cuda (gb_buffer b) (midstate a) (tail_words a) (target_words a) start_nonce nonce_count)"

text \<open>The threads of an engine that was started: the CPU threads, the OpenCL devices that run, the CUDA device.\<close>

type_synonym engine_worker = "worker_kind \<times> int \<times> gpu_dev option"

definition engine_workers :: "build_flags \<Rightarrow> 'ctx engine \<Rightarrow> engine_worker list" where
  "engine_workers flags m =
    map (\<lambda>i. (CPU_WORKER, int i, None)) [0..<nat (thread_count m)] @
    map (\<lambda>i. (OPENCL_WORKER, int i, opencl_devices m ! i)) (opencl_live flags m) @
    (if cuda_live flags m then [(CUDA_WORKER, 0, cuda_device m)] else [])"

definition worker_device :: "engine_worker list \<Rightarrow> nat \<Rightarrow> gpu_dev option" where
  "worker_device ws i = (if i < length ws then snd (snd (ws ! i)) else None)"

text \<open>The environment of the system: worker \<open>i\<close> is the \<open>i\<close>-th of the list; \<open>b\<close> tells how its device behaves in each scan.\<close>

definition engine_env ::
  "'ctx miner_env \<Rightarrow> (nat \<Rightarrow> 'ctx active_job_t \<Rightarrow> u32 \<Rightarrow> u32 \<Rightarrow> gpu_behaviour) \<Rightarrow> engine_worker list \<Rightarrow> 'ctx miner_env" where
  "engine_env e b ws =
    e\<lparr>env_kind := (\<lambda>i. if i < length ws then fst (ws ! i) else CPU_WORKER),
      env_id := (\<lambda>i. if i < length ws then fst (snd (ws ! i)) else int i),
      env_batch := (\<lambda>i. case worker_device ws i of None \<Rightarrow> 0 | Some d \<Rightarrow> gpu_dev_batch d),
      env_gpu_scan := (\<lambda>i a s c. case worker_device ws i of None \<Rightarrow> None | Some d \<Rightarrow> gpu_dev_scan d (b i a s c) a s c)\<rparr>"

section \<open>What a backend reports\<close>

text \<open>What is asked of the machine: batch and result array small enough for the 32-bit arithmetic of the kernels, threads
  that run to their end, a result buffer of the size that was allocated.\<close>

definition gpu_dev_fits :: "gpu_dev \<Rightarrow> bool" where
  "gpu_dev_fits d =
    (case d of
       Opencl_Dev opencl \<Rightarrow> opencl_scan_fits opencl (batch_limit (gpu_dev_batch d))
     | Cuda_Dev cuda \<Rightarrow> cuda_scan_fits cuda (batch_limit (gpu_dev_batch d)))"

definition behaves :: "gpu_dev \<Rightarrow> gpu_behaviour \<Rightarrow> bool" where
  "behaves d b \<longleftrightarrow> length (gb_buffer b) = 9 * gpu_dev_max_results d \<and>
    (case d of Opencl_Dev opencl \<Rightarrow> device_contract (or_device (gb_opencl b)) | Cuda_Dev cuda \<Rightarrow> device_contract (run_device (gb_cuda b)))"

definition gpu_dev_ok :: "gpu_dev \<Rightarrow> bool" where
  "gpu_dev_ok d = (case d of Opencl_Dev opencl \<Rightarrow> opencl_miner_ok opencl | Cuda_Dev cuda \<Rightarrow> cuda_miner_ok cuda)"

text \<open>The matches of a job's range, and their nonces.\<close>

definition job_matches :: "'ctx active_job_t \<Rightarrow> u32 \<Rightarrow> u32 \<Rightarrow> (u32 \<times> u32 list) list" where
  "job_matches a s c = scan_matches (tail_hash (fast_state (midstate a))) (tail_words a) (target_words a) (nonce_range s c)"

definition solutions :: "miner_job_t \<Rightarrow> u32 list \<Rightarrow> u32 list" where
  "solutions j = filter (\<lambda>nonce. solves j nonce (sha256d (take 76 (job_header j) @ le32_bytes nonce)))"

lemma job_matches_ok:
  assumes "active_ok ssl a"
  shows "list_all (match_ok (public_job a)) (job_matches a s c)" "map fst (job_matches a s c) = solutions (public_job a) (nonce_range s c)"
proof -
  let ?h76 = "take 76 (job_header (public_job a))"
  have p: "prepared_midstate ssl (midstate a) (take 64 ?h76)"
    using assms by (simp add: prepared_midstate_def active_ok_def job_shape_def)
  have a: "length ?h76 = 76" "length (tail_words a) = 4" "take 3 (tail_words a) = be32_words (drop 64 ?h76)"
    "length (target_words a) = 8" "le_words_val (target_words a) = le_bytes_val (job_target (public_job a))"
    using assms by (simp_all add: active_ok_def job_shape_def)
  let ?hash = "\<lambda>nonce. sha256d_80_midstate_hash_fast_c (midstate a) ((tail_words a)[3 := bswap32 nonce])"
  have m: "job_matches a s c = scan_matches (sha256d_80_midstate_hash_fast_c (midstate a)) (tail_words a) (target_words a) (nonce_range s c)"
    unfolding job_matches_def by (rule scan_matches_fast_c [OF p a(2)])
  have len: "length (?hash nonce) = 8" for nonce
    using fast_c.hash_tail_spec [OF p, of "(tail_words a)[3 := bswap32 nonce]"] a(2) by simp
  have "sha256d_words_to_hash (?hash nonce) = sha256d (?h76 @ le32_bytes nonce)" for nonce
    using fast_c.hash_nonce [OF p a(1-3), of nonce] len by (simp add: words_to_hash_bytes)
  moreover have "hash_words_meet_target (?hash nonce) (target_words a) \<longleftrightarrow>
      le_bytes_val (sha256d (?h76 @ le32_bytes nonce)) \<le> le_bytes_val (job_target (public_job a))" for nonce
    using fast_c.match_iff [OF p a(1-4), of nonce] a(5) by simp
  ultimately show "list_all (match_ok (public_job a)) (job_matches a s c)"
    unfolding m by (auto simp: list_all_iff scan_matches_def match_ok_def solves_def)
  show "map fst (job_matches a s c) = solutions (public_job a) (nonce_range s c)"
    unfolding m using fast_c.matched_nonces [OF p a(1-4), of "nonce_range s c"] a(5) by (simp add: solutions_def solves_def)
qed

lemma gpu_dev_scan_matches:
  assumes "gpu_dev_ok d" "gpu_dev_fits d" "behaves d b" "active_ok ssl a" "unat c \<le> unat (batch_limit (gpu_dev_batch d))"
    "gpu_dev_scan d b a s c = Some ms"
  shows "\<exists>L. mset L = mset (job_matches a s c) \<and> ms = take (gpu_dev_max_results d) L"
proof -
  have st: "length (fast_state (midstate a)) = 8" "length (tail_words a) = 4"
    using assms(4) by (simp_all add: active_ok_def job_shape_def midstate_prepare_fast_state)
  show ?thesis
  proof (cases d)
    case (Opencl_Dev opencl)
    have "opencl_scan_fits opencl c" using assms(2,5) by (simp add: gpu_dev_fits_def Opencl_Dev opencl_scan_fits_def)
    then show ?thesis
      using opencl_scan_list_matches [of opencl c "gb_opencl b" "midstate a" "tail_words a" "gb_buffer b" "target_words a" s ms] assms(1,3,6) st
      by (simp add: Opencl_Dev gpu_dev_ok_def behaves_def gpu_dev_scan_def gpu_dev_max_results_def job_matches_def)
  next
    case (Cuda_Dev cuda)
    have "cuda_scan_fits cuda c" using assms(2,5) by (simp add: gpu_dev_fits_def Cuda_Dev cuda_scan_fits_def)
    then show ?thesis
      using cuda_scan_list_matches [of cuda c "gb_cuda b" "midstate a" "tail_words a" "gb_buffer b" "target_words a" s ms] assms(1,3,6) st
      by (simp add: Cuda_Dev gpu_dev_ok_def behaves_def gpu_dev_scan_def gpu_dev_max_results_def job_matches_def)
  qed
qed

lemma gpu_dev_scan_sound:
  assumes "gpu_dev_ok d" "gpu_dev_fits d" "behaves d b" "active_ok ssl a" "unat c \<le> unat (batch_limit (gpu_dev_batch d))"
    "gpu_dev_scan d b a s c = Some ms"
  shows "list_all (match_ok (public_job a)) ms"
proof -
  obtain L where L: "mset L = mset (job_matches a s c)" "ms = take (gpu_dev_max_results d) L"
    using gpu_dev_scan_matches [OF assms] by blast
  have "set ms \<subseteq> set (job_matches a s c)" using L set_take_subset [of _ L] mset_eq_setD [OF L(1)] by simp
  then show ?thesis using job_matches_ok(1) [OF assms(4), of s c] by (auto simp: list_all_iff)
qed

lemma engine_env_sound:
  assumes "\<And>i d. worker_device ws i = Some d \<Longrightarrow> gpu_dev_ok d \<and> gpu_dev_fits d \<and> (\<forall>a s c. behaves d (b i a s c))"
  shows "gpu_sound (engine_env e b ws)"
  unfolding gpu_sound_def
proof (intro allI impI)
  fix i a s c ms
  assume a: "active_ok (env_ssl (engine_env e b ws)) a" "unat c \<le> unat (batch_limit (env_batch (engine_env e b ws) i))"
    "env_gpu_scan (engine_env e b ws) i a s c = Some ms"
  then obtain d where d: "worker_device ws i = Some d" by (auto simp: engine_env_def split: option.splits)
  then show "list_all (match_ok (public_job a)) ms"
    using gpu_dev_scan_sound [of d "b i a s c" "env_ssl e" a c s ms] assms [OF d] a by (simp add: engine_env_def)
qed

section \<open>The engine after its start\<close>

lemma worker_device_ok:
  assumes "gpus_ok m" "BTC_MINER_OPENCL flags \<longrightarrow> slots_ok m" "worker_device (engine_workers flags m) i = Some d"
  shows "gpu_dev_ok d"
proof -
  obtain k j where "(k, j, Some d) \<in> set (engine_workers flags m)"
    using assms(3) by (auto simp: worker_device_def split: if_splits) (metis nth_mem prod.collapse)
  then consider i where "i \<in> set (opencl_live flags m)" "opencl_devices m ! i = Some d" | "cuda_device m = Some d"
    by (auto simp: engine_workers_def split: if_splits)
  then show ?thesis
  proof cases
    case 1
    then have "Some d \<in> set (opencl_devices m)"
      using assms(2) nth_mem [of i "opencl_devices m"] by (auto simp: opencl_live_def slots_ok_def split: if_splits)
    then obtain opencl where "d = Opencl_Dev opencl" "opencl_miner_ok opencl" using assms(1) unfolding gpus_ok_def by blast
    then show ?thesis by (simp add: gpu_dev_ok_def)
  qed (use assms(1) in \<open>auto simp: gpus_ok_def gpu_dev_ok_def\<close>)
qed

text \<open>Starting touches neither the job nor the shares.\<close>

definition same_work :: "'ctx engine \<Rightarrow> 'ctx engine \<Rightarrow> bool" where
  "same_work m m' \<longleftrightarrow> share_ring.truncate m' = share_ring.truncate m \<and> job m' = job m \<and> next_nonce m' = next_nonce m"

lemma same_work_fresh: "same_work m m' \<Longrightarrow> fresh_miner m \<Longrightarrow> fresh_miner m'"
  by (auto simp: same_work_def fresh_miner_def ring_ok_def share_ring.truncate_def)

lemma same_work_trans: "same_work m m' \<Longrightarrow> same_work m' m'' \<Longrightarrow> same_work m m''"
  by (simp add: same_work_def)

lemma same_work_updates [simp]: "same_work m m" "same_work m (m\<lparr>thread_count := n\<rparr>)" "same_work m (m\<lparr>started := b\<rparr>)"
  "same_work m (m\<lparr>opencl_devices := ds\<rparr>)" "same_work m (m\<lparr>opencl_devices := ds, opencl_hashes := hs, opencl_started := k\<rparr>)"
  "same_work m (m\<lparr>cuda_device := c, cuda_started := k\<rparr>)" "same_work m (plan_affinity env m)"
  "same_work m (miner_set_cpu_affinity b m)"
  by (simp_all add: same_work_def share_ring.truncate_def plan_affinity_def miner_set_cpu_affinity_def Let_def)

lemma start_threads_work:
  assumes "start_threads env req m = (m', evs, 0)" "gpus_ok m" "cuda_slot_ok (st_flags env) m" "BTC_MINER_OPENCL (st_flags env) \<longrightarrow> slots_ok m"
  shows "same_work m m'"
proof -
  let ?flags = "st_flags env" and ?m0 = "m\<lparr>thread_count := 0\<rparr>"
  have c0: "cuda_slot_ok ?flags ?m0" "thread_count ?m0 = int 0" using assms(3) by (simp_all add: cuda_slot_ok_def)
  obtain m1 evs1 where r: "start_cpu_threads env 0 (nat req) ?m0 = Inr (m1, evs1)"
    using assms(1) by (auto simp: start_threads_def split: sum.splits prod.splits)
  have m1: "m1 = m\<lparr>thread_count := int (nat req)\<rparr>" using start_cpus [OF c0, of "nat req"] r by simp
  have gpu1: "gpus_ok m1" "BTC_MINER_OPENCL ?flags \<longrightarrow> slots_ok m1" "cuda_slot_ok ?flags m1"
    using assms(2-4) by (simp_all add: m1 gpus_ok_def slots_ok_def cuda_slot_ok_def)
  obtain m2 evs2 n where o: "(if BTC_MINER_OPENCL ?flags then start_opencl_threads env [0..<nat (opencl_started m1)] m1
      else (m1, [], 0)) = (m2, evs2, n)" by (metis prod_cases3)
  have two: "\<exists>ds'. m2 = m1\<lparr>opencl_devices := ds'\<rparr>" "gpus_ok m2" using opencl_phase [OF o gpu1(1,2), of "{}"] by simp_all
  then have "cuda_slot_ok ?flags m2" using gpu1(3) by (auto simp: cuda_slot_ok_def)
  moreover obtain m3 evs3 k where c: "(if BTC_MINER_CUDA ?flags then start_cuda_thread env m2 else (m2, [], 0)) = (m3, evs3, k)"
    by (metis prod_cases3)
  ultimately have "\<exists>c k. m3 = m2\<lparr>cuda_device := c, cuda_started := k\<rparr>" using cuda_phase [OF c _ two(2), of "{}"] by simp
  then have "same_work m m3" using two(1) m1 by (metis same_work_updates same_work_trans)
  moreover have "m' = m3\<lparr>started := True\<rparr>"
    using assms(1) r o c by (auto simp: start_threads_def split: if_splits prod.splits)
  ultimately show ?thesis by (metis same_work_updates(3) same_work_trans)
qed

lemma miner_start_work:
  assumes "miner_start env g m = (g', m', evs, 0)" "unstarted m"
  shows "same_work m m'"
proof -
  let ?m = "plan_affinity env m"
  have u: "unstarted ?m" using plan_affinity_unstarted [OF assms(2)] by simp
  obtain go m1 evs1 where o: "start_opencl_devices env (fst g) ?m = (go, m1, evs1)" by (metis prod_cases3)
  obtain gc m2 evs2 where c: "start_cuda_device env (snd g) m1 = (gc, m2, evs2)" by (metis prod_cases3)
  have "gpus_ok ?m" using u by (simp add: gpus_ok_def unstarted_def)
  then have O: "(\<exists>ds' hs k. m1 = ?m\<lparr>opencl_devices := ds', opencl_hashes := hs, opencl_started := k\<rparr>)" "gpus_ok m1"
    "BTC_MINER_OPENCL (st_flags env) \<longrightarrow> slots_ok m1"
    using start_opencl [OF o] u by (auto simp: unstarted_def)
  then have "cuda_device m1 = None" "cuda_started m1 = 0" using u by (auto simp: unstarted_def)
  note C = start_cuda [OF c this O(2)]
  have w: "same_work m m2"
    using O(1) C same_work_updates(5) [of ?m] same_work_updates(6) [of m1] same_work_updates(7) [of m env] same_work_trans by metis
  have "slots_ok m2 \<longleftrightarrow> slots_ok m1" using C by (auto simp: slots_ok_def)
  moreover obtain m3 evs3 where "start_threads env (thread_count m) m2 = (m3, evs3, 0)" "m' = m3"
    using assms o c by (auto simp: miner_start_def unstarted_def Let_def split: if_splits prod.splits)
  ultimately show ?thesis using start_threads_work C O(3) w same_work_trans by metis
qed

lemma started_engine_devices:
  assumes "miner_start env g m = (g', m', evs, 0)" "unstarted m" "worker_device (engine_workers (st_flags env) m') i = Some d"
  shows "gpu_dev_ok d"
  by (rule worker_device_ok [OF _ _ assms(3)]) (use miner_start_outcome [OF assms(1,2)] in \<open>simp_all add: start_outcome_def\<close>)

text \<open>A CUDA driver that is loaded, and an engine that mines with it alone.\<close>

definition loaded_driver :: cuda_driver_t where
  "loaded_driver = \<lparr>drv_attempted = True, drv_loaded = True\<rparr>"

definition cuda_flags :: build_flags where
  "cuda_flags = \<lparr>BTC_MINER_OPENCL = False, BTC_MINER_CUDA = True\<rparr>"

definition demo_cuda_start :: "u32 list start_env" where
  "demo_cuda_start = (demo_start True)\<lparr>st_flags := cuda_flags, st_cuda_buffer := replicate 288 0\<rparr>"

definition demo_cuda_engine :: "u32 list engine" where
  "demo_cuda_engine = the (miner_create_with_backend_options cuda_flags (True, True, True) [] 0 None
     (Some (miner_cuda_config_defaults\<lparr>cuda_enabled := True\<rparr>)))"

lemma demo_cuda_engine_create:
  "miner_create_with_backend_options cuda_flags (True, True, True) [] 0 None (Some (miner_cuda_config_defaults\<lparr>cuda_enabled := True\<rparr>)) =
     Some demo_cuda_engine"
  by (simp add: demo_cuda_engine_def miner_create_with_backend_options_def)

lemma loaded_create:
  assumes "cuda_device_index (effective_config config) = 0"
  shows "\<exists>evs m. cuda_miner_create demo_cuda loaded_driver config = (loaded_driver, evs, Inr m)"
  using assms
  by (simp add: cuda_miner_create_def cuda_miner_setup_def cuda_driver_load_def loaded_driver_def demo_cuda_def CUDA_SUCCESS_def Let_def)

lemma demo_cuda_started:
  obtains g' m evs cuda where "miner_start demo_cuda_start (demo_loader, loaded_driver) (miner_set_cpu_affinity False demo_cuda_engine) = (g', m, evs, 0)"
    "engine_workers cuda_flags m = [(CUDA_WORKER, 0, Some (Cuda_Dev cuda))]" "gpu_dev_fits (Cuda_Dev cuda)" "cm_max_results cuda = 256"
    "unat (gpu_dev_batch (Cuda_Dev cuda)) = 4194304"
proof -
  let ?cfg = "miner_cuda_config_defaults\<lparr>cuda_enabled := True\<rparr>"
  have cfg: "cuda_config demo_cuda_engine = ?cfg"
    by (simp add: demo_cuda_engine_def miner_create_with_backend_options_def repair_cuda_config_def miner_cuda_config_defaults_def gpu_constants Let_def)
  have i: "cuda_device_index (effective_config (Some ?cfg)) = 0"
    "cuda_device_index (effective_config (Some (?cfg\<lparr>cuda_batch_size := 1024, cuda_max_results := 32\<rparr>))) = 0"
    by (simp_all add: effective_config_fields given_config_def miner_cuda_config_defaults_def)
  obtain evs0 m0 where t: "cuda_miner_create demo_cuda loaded_driver (Some ((given_config (Some ?cfg))\<lparr>cuda_batch_size := 1024, cuda_max_results := 32\<rparr>)) =
      (loaded_driver, evs0, Inr m0)"
    using loaded_create [OF i(2)] by (auto simp: given_config_def)
  have "snd (snd (cuda_miner_self_test openssl_ref demo_cuda demo_cuda_run loaded_driver (Some ?cfg) (replicate 288 0))) = None"
    by (rule cuda_self_test_passes [OF t openssl_contract_ref])
      (simp_all add: demo_cuda_run_def seq_device_contract cuda_run_succeeds_def CUDA_SUCCESS_def)
  moreover have "fst (cuda_miner_self_test openssl_ref demo_cuda demo_cuda_run loaded_driver (Some ?cfg) (replicate 288 0)) = loaded_driver"
    using t by (simp add: cuda_miner_self_test_def given_config_def Let_def split: prod.split)
  ultimately obtain evs1 where st: "cuda_miner_self_test openssl_ref demo_cuda demo_cuda_run loaded_driver (Some ?cfg) (replicate 288 0) =
      (loaded_driver, evs1, None)" by (metis prod.collapse)
  obtain evs2 cuda where c: "cuda_miner_create demo_cuda loaded_driver (Some ?cfg) = (loaded_driver, evs2, Inr cuda)"
    using loaded_create [OF i(1)] by blast
  then have s: "cuda_miner_setup demo_cuda loaded_driver (effective_config (Some ?cfg)) = (loaded_driver, evs2, Inr cuda)"
    using cuda_create_setup by fastforce
  have fits: "gpu_dev_fits (Cuda_Dev cuda)" "cm_max_results cuda = 256" "unat (gpu_dev_batch (Cuda_Dev cuda)) = 4194304"
    by (simp_all add: gpu_dev_fits_def cuda_scan_fits_def gpu_dev_batch_def cuda_miner_batch_size_def batch_limit_def
        cuda_setup_settings [OF s] effective_config_def miner_cuda_config_defaults_def config_u32_or_def
        clamp_threads_per_block_def clamp_nonces_per_thread_def normalize_kernel_variant_def kernel_variant_forced_npt_def
        gpu_constants cuda_variants Let_def)
  let ?m = "plan_affinity demo_cuda_start (miner_set_cpu_affinity False demo_cuda_engine)"
  have env: "st_flags demo_cuda_start = cuda_flags" "st_ssl demo_cuda_start = openssl_ref" "st_cuda_test demo_cuda_start = demo_cuda"
    "st_cuda demo_cuda_start = demo_cuda" "st_cuda_run demo_cuda_start = demo_cuda_run" "st_cuda_buffer demo_cuda_start = replicate 288 0"
    "st_arg_ok demo_cuda_start T_cuda" "st_thread_ok demo_cuda_start T_cuda"
    by (simp_all add: demo_cuda_start_def demo_start_def)
  have eng: "\<not> started (miner_set_cpu_affinity False demo_cuda_engine)" "thread_count ?m = 0"
      "thread_count (miner_set_cpu_affinity False demo_cuda_engine) = 0" "cuda_config ?m = ?cfg"
    using cfg by (simp_all add: plan_affinity_def miner_set_cpu_affinity_def demo_cuda_engine_def miner_create_with_backend_options_def Let_def)
  let ?m' = "?m\<lparr>cuda_device := Some (Cuda_Dev cuda), cuda_started := 1\<rparr>"
  have "start_opencl_devices demo_cuda_start demo_loader ?m = (demo_loader, ?m, [])"
    by (simp add: start_opencl_devices_def env cuda_flags_def)
  moreover have "start_cuda_device demo_cuda_start loaded_driver ?m = (loaded_driver, ?m', [Acquire R_cuda])"
    by (simp add: start_cuda_device_def env eng st c cuda_flags_def)
  moreover have "start_threads demo_cuda_start 0 ?m' = (?m'\<lparr>thread_count := 0, started := True\<rparr>, [Acquire (R_thread T_cuda)], 0)"
    by (simp add: start_threads_def start_cuda_thread_def env cuda_flags_def)
  ultimately have "miner_start demo_cuda_start (demo_loader, loaded_driver) (miner_set_cpu_affinity False demo_cuda_engine) =
      ((demo_loader, loaded_driver), ?m'\<lparr>thread_count := 0, started := True\<rparr>, [Acquire R_cuda, Acquire (R_thread T_cuda)], 0)"
    using eng by (simp add: miner_start_def env cuda_flags_def Let_def)
  moreover have "engine_workers cuda_flags (?m'\<lparr>thread_count := 0, started := True\<rparr>) = [(CUDA_WORKER, 0, Some (Cuda_Dev cuda))]"
    by (simp add: engine_workers_def opencl_live_def cuda_live_def cuda_flags_def)
  ultimately show thesis using that fits by blast
qed

section \<open>Properties\<close>

text \<open>C7. The engine as it is put together, on CPU threads and GPUs of both kinds: the state in which \<open>miner_start\<close> returns is an
  initial state of the interleaved system of its workers, and whatever the interleaving, every share in the queue is a
  proof of work for the current job. Nothing is assumed of what a GPU reports; what is needed of it is that it runs the
  threads of a launch to their end, and that its batch and result array fit the 32-bit arithmetic of the kernels.\<close>

theorem started_engine_sound:
  assumes "miner_create_with_backend_options (st_flags env) calloc_ok zero_ctx n oc cc = Some m0"
    "miner_start env g (miner_set_cpu_affinity affinity m0) = (g', m, evs, 0)" "ws = engine_workers (st_flags env) m"
    "\<forall>i d. worker_device ws i = Some d \<longrightarrow> gpu_dev_fits d \<and> (\<forall>a s c. behaves d (b i a s c))"
    "openssl_contract (env_ssl e)"
  shows "reachable (engine_env e b ws) \<lparr>sys_miner = m, sys_workers = (\<lambda>i. W_check), sys_jobs = [], sys_ranges = []\<rparr> \<and>
    (\<forall>s :: ('ctx, gpu_dev) system. reachable (engine_env e b ws) s \<longrightarrow> length (sys_jobs s) < 2 ^ 64 \<longrightarrow>
      list_all (share_ok (public_job (job (sys_miner s)))) (ring_contents (sys_miner s)))"
proof -
  have u: "unstarted (miner_set_cpu_affinity affinity m0)" using create_unstarted [OF assms(1)] set_affinity_unstarted by blast
  have "fresh_miner m"
    using fresh_miner_create [OF assms(1)] same_work_updates(8) miner_start_work [OF assms(2) u] same_work_trans same_work_fresh by metis
  moreover have "gpu_sound (engine_env e b ws)"
    using started_engine_devices [OF assms(2) u] assms(3,4) by (intro engine_env_sound) auto
  moreover have "openssl_contract (env_ssl (engine_env e b ws))" using assms(5) by (simp add: engine_env_def)
  ultimately show ?thesis using reachable_inv reachable.init by (auto simp: sys_inv_def engine_inv_def)
qed

text \<open>C9. A GPU worker loses no solution: when the scan of a range succeeds and the range has no more solutions than the result array
  has places, the matches are exactly the nonces of the range that solve the job, each once.\<close>

theorem gpu_worker_complete:
  assumes "miner_create_with_backend_options (st_flags env) calloc_ok zero_ctx n oc cc = Some m0"
    "miner_start env g (miner_set_cpu_affinity affinity m0) = (g', m, evs, 0)" "ws = engine_workers (st_flags env) m"
    "worker_device ws i = Some d" "gpu_dev_fits d" "\<forall>a s c. behaves d (b i a s c)"
    "job_shape j" "a = job (miner_set_job (env_ssl e) j m1)" "unat c \<le> unat (batch_limit (gpu_dev_batch d))"
    "worker_scan (engine_env e b ws) i a s c = Some ms" "length (solutions j (nonce_range s c)) \<le> gpu_dev_max_results d"
  shows "mset (map fst ms) = mset (solutions j (nonce_range s c)) \<and> list_all (match_ok (public_job a)) ms"
proof -
  have u: "unstarted (miner_set_cpu_affinity affinity m0)" using create_unstarted [OF assms(1)] set_affinity_unstarted by blast
  have ok: "gpu_dev_ok d" using started_engine_devices [OF assms(2) u] assms(3,4) by simp
  have act: "active_ok (env_ssl e) a" unfolding assms(8) by (rule active_ok_set_job [OF assms(7)])
  have "job_header (public_job a) = job_header j" "job_target (public_job a) = job_target j"
    by (simp_all add: assms(8) miner_set_job_def Let_def ring_clear_def)
  then have sol: "solutions (public_job a) = solutions j" by (simp add: solutions_def solves_def fun_eq_iff)
  have "env_kind (engine_env e b ws) i \<noteq> CPU_WORKER"
  proof -
    have "i < length ws" "snd (snd (ws ! i)) = Some d" using assms(4) by (auto simp: worker_device_def split: if_splits)
    moreover have "fst w \<noteq> CPU_WORKER" if "w \<in> set ws" "snd (snd w) = Some d" for w
      using that unfolding assms(3) engine_workers_def by (auto split: if_splits)
    ultimately show ?thesis using nth_mem by (auto simp: engine_env_def)
  qed
  then have scan: "gpu_dev_scan d (b i a s c) a s c = Some ms"
    using assms(4,10) by (simp add: worker_scan_def engine_env_def split: if_splits)
  have "behaves d (b i a s c)" using assms(6) by blast
  then obtain L where L: "mset L = mset (job_matches a s c)" "ms = take (gpu_dev_max_results d) L"
    using gpu_dev_scan_matches [OF ok assms(5) _ act assms(9) scan] by blast
  have n: "map fst (job_matches a s c) = solutions j (nonce_range s c)" using job_matches_ok(2) [OF act] sol by simp
  then have "length L \<le> gpu_dev_max_results d" using assms(11) mset_eq_length [OF L(1)] by (metis length_map)
  then have "mset ms = mset (job_matches a s c)" using L by simp
  then have "mset (map fst ms) = mset (solutions j (nonce_range s c))" using n by (metis mset_map)
  moreover have "list_all (match_ok (public_job a)) ms"
    by (rule gpu_dev_scan_sound [OF ok assms(5) _ act assms(9) scan]) (use assms(6) in blast)
  ultimately show ?thesis by simp
qed

text \<open>A device that runs its threads one after the other.\<close>

definition demo_behaviour :: gpu_behaviour where
  "demo_behaviour = \<lparr>gb_cuda = demo_cuda_run, gb_opencl = demo_opencl_run, gb_buffer = replicate (9 * 256) 0\<rparr>"

lemma demo_behaves: "cm_max_results cuda = 256 \<Longrightarrow> behaves (Cuda_Dev cuda) demo_behaviour"
  by (simp add: behaves_def demo_behaviour_def gpu_dev_max_results_def demo_cuda_run_def seq_device_contract)

theorem started_engine_sound_witness:
  "\<exists>g' m evs. miner_start demo_cuda_start (demo_loader, loaded_driver) (miner_set_cpu_affinity False demo_cuda_engine) = (g', m, evs, 0) \<and>
    engine_workers cuda_flags m \<noteq> [] \<and>
    reachable (engine_env demo_env (\<lambda>i a s c. demo_behaviour) (engine_workers cuda_flags m))
      \<lparr>sys_miner = m, sys_workers = (\<lambda>i. W_check), sys_jobs = [], sys_ranges = []\<rparr>"
proof -
  obtain g' m evs cuda where s: "miner_start demo_cuda_start (demo_loader, loaded_driver) (miner_set_cpu_affinity False demo_cuda_engine) = (g', m, evs, 0)"
    and w: "engine_workers cuda_flags m = [(CUDA_WORKER, 0, Some (Cuda_Dev cuda))]" "gpu_dev_fits (Cuda_Dev cuda)" "cm_max_results cuda = 256"
      "unat (gpu_dev_batch (Cuda_Dev cuda)) = 4194304"
    by (rule demo_cuda_started)
  have f: "st_flags demo_cuda_start = cuda_flags" by (simp add: demo_cuda_start_def demo_start_def)
  have "\<forall>i d. worker_device (engine_workers cuda_flags m) i = Some d \<longrightarrow> gpu_dev_fits d \<and> behaves d demo_behaviour"
    using w demo_behaves [OF w(3)] by (auto simp: worker_device_def split: if_splits)
  then show ?thesis
    using started_engine_sound [of demo_cuda_start, unfolded f, OF demo_cuda_engine_create s refl, of "\<lambda>i a s c. demo_behaviour" demo_env]
      s w(1) demo_assumptions(1) by auto
qed

theorem gpu_worker_complete_witness:
  "\<exists>g' m evs ms. miner_start demo_cuda_start (demo_loader, loaded_driver) (miner_set_cpu_affinity False demo_cuda_engine) = (g', m, evs, 0) \<and>
    worker_scan (engine_env demo_env (\<lambda>i a s c. demo_behaviour) (engine_workers cuda_flags m)) 0 (job demo_loaded) 7 3 = Some ms \<and>
    mset (map fst ms) = mset (solutions demo_job (nonce_range 7 3))"
proof -
  obtain g' m evs cuda where s: "miner_start demo_cuda_start (demo_loader, loaded_driver) (miner_set_cpu_affinity False demo_cuda_engine) = (g', m, evs, 0)"
    and w: "engine_workers cuda_flags m = [(CUDA_WORKER, 0, Some (Cuda_Dev cuda))]" "gpu_dev_fits (Cuda_Dev cuda)" "cm_max_results cuda = 256"
      "unat (gpu_dev_batch (Cuda_Dev cuda)) = 4194304"
    by (rule demo_cuda_started)
  have f: "st_flags demo_cuda_start = cuda_flags" by (simp add: demo_cuda_start_def demo_start_def)
  have d: "worker_device (engine_workers cuda_flags m) 0 = Some (Cuda_Dev cuda)" by (simp add: worker_device_def w(1))
  have "unstarted (miner_set_cpu_affinity False demo_cuda_engine)"
    using create_unstarted [OF demo_cuda_engine_create] by (rule set_affinity_unstarted)
  then have ok: "cuda_miner_ok cuda" using started_engine_devices [OF s, unfolded f, OF _ d] by (simp add: gpu_dev_ok_def)
  let ?a = "job demo_loaded" and ?e = "engine_env demo_env (\<lambda>i a s c. demo_behaviour) (engine_workers cuda_flags m)"
  obtain ms where "cuda_scan_list demo_cuda_run cuda (replicate (9 * 256) 0) (midstate ?a) (tail_words ?a) (target_words ?a) 7 3 = Some ms"
    using cuda_scan_succeeds [OF ok, of demo_cuda_run "midstate ?a" "tail_words ?a" "target_words ?a" 7 3 "[]" "Some collect_match" "replicate (9 * 256) 0"]
    by (cases "cuda_miner_scan demo_cuda_run (Some cuda) (Some (midstate ?a)) (Some (tail_words ?a)) (Some (target_words ?a)) 7 3 []
          (Some collect_match) (replicate (9 * 256) 0)")
       (simp add: cuda_scan_list_def cuda_run_succeeds_def demo_cuda_run_def CUDA_SUCCESS_def del: replicate_numeral)
  then have scan: "worker_scan ?e 0 ?a 7 3 = Some ms"
    using d by (simp add: worker_scan_def engine_env_def w(1) gpu_dev_scan_def demo_behaviour_def del: replicate_numeral)
  have "length (solutions demo_job (nonce_range 7 3)) \<le> 3"
    unfolding solutions_def by (rule le_trans [OF length_filter_le]) simp
  moreover have "unat (3 :: u32) \<le> unat (batch_limit (gpu_dev_batch (Cuda_Dev cuda)))" using w(4) by (auto simp: batch_limit_def)
  moreover have "?a = job (miner_set_job (env_ssl demo_env) demo_job demo_miner)" by (simp add: demo_env_def)
  ultimately show ?thesis
    using gpu_worker_complete [of demo_cuda_start, unfolded f, OF demo_cuda_engine_create s refl d w(2), of "\<lambda>i a s c. demo_behaviour"
        demo_job ?a demo_env demo_miner 3 7 ms] demo_behaves [OF w(3)] demo_assumptions(3) s scan w(3)
    by (auto simp: gpu_dev_max_results_def)
qed

end
