(* ===== verification/Pending_Shares.thy ===== *)
theory Pending_Shares
  imports Prelude
begin

text \<open>
  The table of submitted shares that the pool has not answered yet: \<open>stratum_pending_share_t\<close> of
  \<open>src/src/stratum.h\<close>, and the table part of \<open>register_pending_share\<close> and \<open>complete_pending_share\<close> of
  \<open>src/src/stratum.c\<close>. The table is an array of 64 slots and a counter. The interface the client relies on
  is the locale \<open>share_table\<close>: a finite map from request ids to what was recorded, of bounded size.
\<close>

section \<open>The table\<close>

definition STRATUM_PENDING_SHARES :: nat where "STRATUM_PENDING_SHARES = 64"

record 'v stratum_pending_share_t =
  pend_id :: int
  pend_active :: bool
  pend_value :: 'v

record 'v pending_table =
  pending :: "'v stratum_pending_share_t list"
  pending_count :: int

text \<open>The search loop of \<open>register_pending_share\<close>: \<open>slot\<close> is the first free slot seen so far.\<close>

fun find_slot :: "int \<Rightarrow> nat \<Rightarrow> nat option \<Rightarrow> 'v stratum_pending_share_t list \<Rightarrow> nat option" where
  "find_slot rid i slot [] = slot"
| "find_slot rid i slot (p # ps) =
    (if pend_active p \<and> pend_id p = rid then Some i
     else find_slot rid (Suc i) (if slot = None \<and> \<not> pend_active p then Some i else slot) ps)"

definition register_slot :: "int \<Rightarrow> 'v pending_table \<Rightarrow> nat" where
  "register_slot rid t =
    (case find_slot rid 0 None (pending t) of
       Some slot \<Rightarrow> slot
     | None \<Rightarrow> let slot = (if rid < 0 then - ((- rid) mod int STRATUM_PENDING_SHARES) else rid mod int STRATUM_PENDING_SHARES)
               in if slot < 0 then 0 else nat slot)"

definition pending_insert :: "int \<Rightarrow> 'v \<Rightarrow> 'v pending_table \<Rightarrow> 'v pending_table" where
  "pending_insert rid v t =
    (let slot = register_slot rid t;
         t = (if \<not> pend_active (pending t ! slot) then t\<lparr>pending_count := pending_count t + 1\<rparr> else t)
     in t\<lparr>pending := (pending t)[slot := \<lparr>pend_id = rid, pend_active = True, pend_value = v\<rparr>]\<rparr>)"

text \<open>The loop of \<open>complete_pending_share\<close>: the first active slot with the id is released.\<close>

fun find_active :: "int \<Rightarrow> nat \<Rightarrow> 'v stratum_pending_share_t list \<Rightarrow> nat option" where
  "find_active rid i [] = None"
| "find_active rid i (p # ps) = (if pend_active p \<and> pend_id p = rid then Some i else find_active rid (Suc i) ps)"

definition pending_remove :: "int \<Rightarrow> 'v pending_table \<Rightarrow> 'v option \<times> 'v pending_table" where
  "pending_remove rid t =
    (case find_active rid 0 (pending t) of
       None \<Rightarrow> (None, t)
     | Some i \<Rightarrow>
         (Some (pend_value (pending t ! i)),
          t\<lparr>pending := (pending t)[i := (pending t ! i)\<lparr>pend_active := False\<rparr>],
            pending_count := (if pending_count t > 0 then pending_count t - 1 else pending_count t)\<rparr>))"

section \<open>Abstraction\<close>

definition active_ids :: "'v stratum_pending_share_t list \<Rightarrow> int list" where
  "active_ids ps = map pend_id (filter pend_active ps)"

definition pending_map :: "'v pending_table \<Rightarrow> int \<rightharpoonup> 'v" where
  "pending_map t = map_of (map (\<lambda>p. (pend_id p, pend_value p)) (filter pend_active (pending t)))"

definition pending_ok :: "'v pending_table \<Rightarrow> bool" where
  "pending_ok t \<longleftrightarrow> length (pending t) = STRATUM_PENDING_SHARES \<and> distinct (active_ids (pending t)) \<and>
     pending_count t = int (length (active_ids (pending t)))"

text \<open>The contract of such a table: \<open>room\<close> tells whether an id can be stored without giving up another one.\<close>

locale share_table =
  fixes lookup :: "'t \<Rightarrow> int \<rightharpoonup> 'v" and insert_share :: "int \<Rightarrow> 'v \<Rightarrow> 't \<Rightarrow> 't"
    and remove_share :: "int \<Rightarrow> 't \<Rightarrow> 'v option \<times> 't" and ok :: "'t \<Rightarrow> bool"
    and count :: "'t \<Rightarrow> int" and capacity :: nat
  assumes ok_insert: "ok t \<Longrightarrow> ok (insert_share rid v t)"
    and ok_remove: "ok t \<Longrightarrow> ok (snd (remove_share rid t))"
    and count_dom: "ok t \<Longrightarrow> count t = int (card (dom (lookup t)))"
    and finite_dom: "ok t \<Longrightarrow> finite (dom (lookup t))"
    and insert_room: "ok t \<Longrightarrow> lookup t rid \<noteq> None \<or> count t < int capacity \<Longrightarrow>
      lookup (insert_share rid v t) = (lookup t)(rid \<mapsto> v)"
    and remove_lookup: "ok t \<Longrightarrow> fst (remove_share rid t) = lookup t rid"
    and remove_map: "ok t \<Longrightarrow> lookup (snd (remove_share rid t)) = (lookup t)(rid := None)"
begin

text \<open>Storing a list of new shares in turn.\<close>

fun insert_all :: "(int \<times> 'v) list \<Rightarrow> 't \<Rightarrow> 't" where
  "insert_all [] t = t"
| "insert_all ((rid, v) # xs) t = insert_all xs (insert_share rid v t)"

fun remove_all :: "int list \<Rightarrow> 't \<Rightarrow> 'v option list \<times> 't" where
  "remove_all [] t = ([], t)"
| "remove_all (rid # rids) t =
    (let (v, t') = remove_share rid t; (vs, t'') = remove_all rids t' in (v # vs, t''))"

lemma ok_insert_all: "ok t \<Longrightarrow> ok (insert_all xs t)"
  by (induction xs t rule: insert_all.induct) (auto intro: ok_insert)

lemma count_insert_room:
  assumes "ok t" "count t < int capacity" "lookup t rid = None"
  shows "count (insert_share rid v t) = count t + 1"
  using assms insert_room [of t rid v] count_dom [of t] count_dom [of "insert_share rid v t"] ok_insert [of t rid v]
    finite_dom [of t]
  by (simp add: card_insert_if domIff)

lemma lookup_insert_all:
  assumes "ok t" "distinct (map fst xs)" "\<forall>rid \<in> set (map fst xs). lookup t rid = None"
    "count t + int (length xs) \<le> int capacity"
  shows "lookup (insert_all xs t) = lookup t ++ map_of xs \<and> count (insert_all xs t) = count t + int (length xs)"
  using assms
proof (induction xs t rule: insert_all.induct)
  case (2 rid v xs t)
  have r: "lookup (insert_share rid v t) = (lookup t)(rid \<mapsto> v)" "count (insert_share rid v t) = count t + 1"
    using 2 insert_room [of t rid v] count_insert_room [of t rid v] by auto
  have ih: "lookup (insert_all xs (insert_share rid v t)) = lookup (insert_share rid v t) ++ map_of xs \<and>
      count (insert_all xs (insert_share rid v t)) = count (insert_share rid v t) + int (length xs)"
    using 2 r by (intro "2.IH") (auto intro: ok_insert)
  have "(lookup t)(rid \<mapsto> v) ++ map_of xs = lookup t ++ map_of ((rid, v) # xs)"
    using "2.prems"(2) by (simp add: map_add_upd_left dom_map_of_conv_image_fst)
  with ih have "lookup (insert_all ((rid, v) # xs) t) = lookup t ++ map_of ((rid, v) # xs)"
    by (simp only: insert_all.simps r(1))
  moreover have "count (insert_all ((rid, v) # xs) t) = count t + int (length ((rid, v) # xs))"
    using ih r(2) by simp
  ultimately show ?case by blast
qed simp

text \<open>Releasing an id that is there makes the table smaller by one, and the id is gone.\<close>

lemma count_remove:
  assumes "ok t"
  shows "count (snd (remove_share rid t)) = count t - (if lookup t rid = None then 0 else 1)"
proof (cases "lookup t rid")
  case None
  then show ?thesis
    using count_dom [OF assms] count_dom [OF ok_remove [OF assms], of rid] remove_map [OF assms, of rid]
    by (simp add: domIff fun_upd_idem)
next
  case (Some v)
  then have "rid \<in> dom (lookup t)" by (rule domI)
  then have "0 < card (dom (lookup t))" using finite_dom [OF assms] by (auto simp: card_gt_0_iff)
  then show ?thesis
    using Some \<open>rid \<in> dom (lookup t)\<close> count_dom [OF assms] count_dom [OF ok_remove [OF assms], of rid]
      remove_map [OF assms, of rid]
    by (simp add: card_Diff_singleton of_nat_diff Suc_le_eq)
qed

lemma remove_again: "ok t \<Longrightarrow> fst (remove_share rid (snd (remove_share rid t))) = None"
  by (simp add: remove_lookup ok_remove remove_map)

text \<open>Every answer finds its share: after storing, removing the same ids in any order gives back what was
  stored.\<close>

lemma remove_all_lookup:
  assumes "ok t" "distinct rids"
  shows "fst (remove_all rids t) = map (lookup t) rids \<and> ok (snd (remove_all rids t)) \<and>
    lookup (snd (remove_all rids t)) = (lookup t) |` (- set rids)"
  using assms
proof (induction rids arbitrary: t)
  case (Cons rid rids)
  let ?t = "snd (remove_share rid t)"
  have ok: "ok ?t" and l: "lookup ?t = (lookup t)(rid := None)"
    using Cons.prems by (simp_all add: ok_remove remove_map)
  have "fst (remove_all rids ?t) = map (lookup t) rids"
    using Cons ok l by auto
  moreover have "lookup (snd (remove_all rids ?t)) = (lookup t) |` (- set (rid # rids))"
    using Cons ok l by (auto simp: fun_eq_iff restrict_map_def)
  ultimately show ?case
    using Cons ok by (simp add: case_prod_beta remove_lookup)
qed (simp add: fun_eq_iff restrict_map_def)

end

section \<open>The array implements the contract\<close>

lemma find_active_offset: "find_active rid (Suc i) ps = map_option Suc (find_active rid i ps)"
  by (induction ps arbitrary: i) auto

lemma find_active_None: "find_active rid i ps = None \<longleftrightarrow> rid \<notin> set (active_ids ps)"
  by (induction ps arbitrary: i) (auto simp: active_ids_def)

lemma find_active_Some:
  "find_active rid 0 ps = Some i \<Longrightarrow> i < length ps \<and> pend_active (ps ! i) \<and> pend_id (ps ! i) = rid"
  by (induction ps arbitrary: i) (auto simp: find_active_offset split: if_splits)

lemma find_slot_hit: "find_active rid i ps = Some k \<Longrightarrow> find_slot rid i slot ps = Some k"
  by (induction ps arbitrary: i slot) (auto split: if_splits)

lemma find_slot_miss_Some: "find_active rid i ps = None \<Longrightarrow> find_slot rid i (Some k) ps = Some k"
  by (induction ps arbitrary: i) (auto split: if_splits)

lemma find_slot_miss_None:
  assumes "find_active rid i ps = None"
  shows "case find_slot rid i None ps of
      Some k \<Rightarrow> i \<le> k \<and> k < i + length ps \<and> \<not> pend_active (ps ! (k - i))
    | None \<Rightarrow> \<forall>p \<in> set ps. pend_active p"
  using assms
proof (induction ps arbitrary: i)
  case (Cons p ps)
  show ?case
  proof (cases "pend_active p")
    case True
    then show ?thesis
      using Cons.IH [of "Suc i"] Cons.prems
      by (auto simp: nth_Cons' Suc_diff_Suc split: option.splits if_splits)
  next
    case False
    then show ?thesis using Cons.prems by (simp add: find_slot_miss_Some split: if_splits)
  qed
qed simp

lemma register_slot_less:
  assumes "pending_ok t"
  shows "register_slot rid t < 64"
proof (cases "find_slot rid 0 None (pending t)")
  case None
  then show ?thesis by (auto simp: register_slot_def STRATUM_PENDING_SHARES_def Let_def nat_less_iff)
next
  case (Some k)
  show ?thesis
  proof (cases "find_active rid 0 (pending t)")
    case None
    then show ?thesis using find_slot_miss_None [OF None] Some assms
      by (simp add: register_slot_def pending_ok_def STRATUM_PENDING_SHARES_def)
  next
    case (Some i)
    then show ?thesis using find_slot_hit [OF Some] find_active_Some [OF Some] assms
      by (simp add: register_slot_def pending_ok_def STRATUM_PENDING_SHARES_def)
  qed
qed

definition active_pairs :: "'v stratum_pending_share_t list \<Rightarrow> (int \<times> 'v) list" where
  "active_pairs ps = map (\<lambda>p. (pend_id p, pend_value p)) (filter pend_active ps)"

lemma active_pairs_simps [simp]:
  "active_pairs [] = []"
  "active_pairs (p # ps) = (if pend_active p then [(pend_id p, pend_value p)] else []) @ active_pairs ps"
  "active_pairs (ps @ qs) = active_pairs ps @ active_pairs qs"
  by (simp_all add: active_pairs_def)

lemma active_ids_pairs: "active_ids ps = map fst (active_pairs ps)"
  by (simp add: active_ids_def active_pairs_def)

lemma pending_map_pairs: "pending_map t = map_of (active_pairs (pending t))"
  by (simp add: pending_map_def active_pairs_def)

text \<open>The slot that is written splits the array.\<close>

lemma slot_split:
  assumes "i < length ps"
  shows "\<exists>as bs. ps = as @ ps ! i # bs \<and> (\<forall>x. ps[i := x] = as @ x # bs)"
  using assms by (intro exI [of _ "take i ps"] exI [of _ "drop (Suc i) ps"]) (simp add: id_take_nth_drop upd_conv_take_nth_drop)

lemma all_active_full: "\<forall>p \<in> set ps. pend_active p \<Longrightarrow> length (active_ids ps) = length ps"
  by (simp add: active_ids_def)

text \<open>The three places a share can go: the slot of the same id, a free slot, or somebody else's slot when
  the table is full.\<close>

lemma register_slot_cases:
  assumes "pending_ok t"
  obtains (same) "pend_active (pending t ! register_slot rid t)" "pend_id (pending t ! register_slot rid t) = rid"
    | (free) "\<not> pend_active (pending t ! register_slot rid t)" "rid \<notin> set (active_ids (pending t))"
    | (evict) "pend_active (pending t ! register_slot rid t)" "rid \<notin> set (active_ids (pending t))"
        "pending_count t = int STRATUM_PENDING_SHARES"
proof (cases "find_active rid 0 (pending t)")
  case None
  then have n: "rid \<notin> set (active_ids (pending t))" by (simp add: find_active_None)
  show ?thesis
  proof (cases "find_slot rid 0 None (pending t)")
    case (Some k)
    then show ?thesis using find_slot_miss_None [OF None] n free by (simp add: register_slot_def)
  next
    case fs: None
    then have all: "\<forall>p \<in> set (pending t). pend_active p" using find_slot_miss_None [OF None] by simp
    have "register_slot rid t < length (pending t)"
      using register_slot_less [OF assms, of rid] assms by (simp add: pending_ok_def STRATUM_PENDING_SHARES_def)
    then have "pend_active (pending t ! register_slot rid t)" using all by simp
    then show ?thesis using n evict all_active_full [OF all] assms by (simp add: pending_ok_def)
  qed
next
  case (Some i)
  then show ?thesis using find_slot_hit [OF Some] find_active_Some [OF Some] same by (simp add: register_slot_def)
qed

lemma map_of_replace:
  "rid \<notin> fst ` set xs \<Longrightarrow> map_of (xs @ (rid, v) # ys) = (map_of (xs @ ys))(rid \<mapsto> v)"
  by (induction xs) (auto simp: fun_eq_iff)

lemma map_of_delete:
  "rid \<notin> fst ` set xs \<Longrightarrow> rid \<notin> fst ` set ys \<Longrightarrow> (map_of (xs @ (rid, v) # ys))(rid := None) = map_of (xs @ ys)"
  by (simp add: map_of_replace map_of_eq_None_iff fun_upd_idem image_Un del: map_of_append)

lemma pending_insert_ok:
  assumes "pending_ok t"
  shows "pending_ok (pending_insert rid v t)"
proof -
  let ?k = "register_slot rid t"
  have k: "?k < length (pending t)"
    using register_slot_less [OF assms, of rid] assms by (simp add: pending_ok_def STRATUM_PENDING_SHARES_def)
  obtain as bs where s: "pending t = as @ pending t ! ?k # bs" "\<And>x. (pending t)[?k := x] = as @ x # bs"
    using slot_split [OF k] by blast
  have prs: "active_pairs (pending t) = active_pairs as @
      (if pend_active (pending t ! ?k) then [(pend_id (pending t ! ?k), pend_value (pending t ! ?k))] else []) @ active_pairs bs"
    by (subst s(1)) simp
  have len: "length (pending t) = Suc (length as + length bs)" by (subst s(1)) simp
  from assms show ?thesis
    by (cases rule: register_slot_cases [of t rid])
       (use assms prs len in \<open>auto simp: pending_ok_def pending_insert_def Let_def s(2) active_ids_pairs\<close>)
qed

lemma pending_insert_map:
  assumes "pending_ok t" "pending_map t rid \<noteq> None \<or> pending_count t < int STRATUM_PENDING_SHARES"
  shows "pending_map (pending_insert rid v t) = (pending_map t)(rid \<mapsto> v)"
proof -
  let ?k = "register_slot rid t"
  have k: "?k < length (pending t)"
    using register_slot_less [OF assms(1), of rid] assms(1) by (simp add: pending_ok_def STRATUM_PENDING_SHARES_def)
  obtain as bs where s: "pending t = as @ pending t ! ?k # bs" "\<And>x. (pending t)[?k := x] = as @ x # bs"
    using slot_split [OF k] by blast
  have prs: "active_pairs (pending t) = active_pairs as @
      (if pend_active (pending t ! ?k) then [(pend_id (pending t ! ?k), pend_value (pending t ! ?k))] else []) @ active_pairs bs"
    by (subst s(1)) simp
  have d: "distinct (map fst (active_pairs (pending t)))" using assms(1) by (simp add: pending_ok_def active_ids_pairs)
  have new: "pending_map (pending_insert rid v t) = map_of (active_pairs as @ (rid, v) # active_pairs bs)"
    by (simp add: pending_map_pairs pending_insert_def Let_def s(2))
  from assms(1) show ?thesis
  proof (cases rule: register_slot_cases [of t rid])
    case same
    then have "rid \<notin> fst ` set (active_pairs as)" using d prs by auto
    then show ?thesis unfolding new unfolding pending_map_pairs prs using same by (simp add: map_of_replace del: map_of_append)
  next
    case free
    then have "rid \<notin> fst ` set (active_pairs as)" using prs by (auto simp: active_ids_pairs)
    then show ?thesis unfolding new unfolding pending_map_pairs prs using free by (simp add: map_of_replace del: map_of_append)
  next
    case evict
    then have "pending_map t rid = None" by (auto simp: pending_map_pairs map_of_eq_None_iff active_ids_pairs)
    then show ?thesis using assms(2) evict by simp
  qed
qed

lemma pending_remove_map:
  assumes "pending_ok t"
  shows "fst (pending_remove rid t) = pending_map t rid" "pending_ok (snd (pending_remove rid t))"
    "pending_map (snd (pending_remove rid t)) = (pending_map t)(rid := None)"
proof -
  have "fst (pending_remove rid t) = pending_map t rid \<and> pending_ok (snd (pending_remove rid t)) \<and>
    pending_map (snd (pending_remove rid t)) = (pending_map t)(rid := None)"
  proof (cases "find_active rid 0 (pending t)")
    case None
    then have "pending_map t rid = None" by (simp add: find_active_None pending_map_pairs map_of_eq_None_iff active_ids_pairs)
    then show ?thesis using None assms by (simp add: pending_remove_def fun_upd_idem)
  next
    case (Some i)
    note f = find_active_Some [OF Some]
    obtain as bs where s: "pending t = as @ pending t ! i # bs" "\<And>x. (pending t)[i := x] = as @ x # bs"
      using f slot_split [of i "pending t"] by blast
    have prs: "active_pairs (pending t) = active_pairs as @ (rid, pend_value (pending t ! i)) # active_pairs bs"
      by (subst s(1)) (simp add: f)
    then have d: "rid \<notin> fst ` set (active_pairs as)" "rid \<notin> fst ` set (active_pairs bs)"
      and c: "pending_count t = 1 + int (length (active_pairs as @ active_pairs bs))"
      using assms by (auto simp: pending_ok_def active_ids_pairs)
    have r: "pending_remove rid t = (Some (pend_value (pending t ! i)),
        t\<lparr>pending := as @ (pending t ! i)\<lparr>pend_active := False\<rparr> # bs, pending_count := pending_count t - 1\<rparr>)"
      using Some c by (simp add: pending_remove_def s(2))
    have "map_of (active_pairs as @ active_pairs bs) = (pending_map t)(rid := None)"
      unfolding pending_map_pairs prs by (rule map_of_delete [OF d, symmetric])
    moreover have "length (as @ (pending t ! i)\<lparr>pend_active := False\<rparr> # bs) = length (pending t)"
      by (subst (2) s(1)) simp
    ultimately show ?thesis
      using assms prs d c unfolding r
      by (auto simp: pending_ok_def pending_map_pairs active_ids_pairs map_of_replace simp del: map_of_append)
  qed
  then show "fst (pending_remove rid t) = pending_map t rid" "pending_ok (snd (pending_remove rid t))"
    "pending_map (snd (pending_remove rid t)) = (pending_map t)(rid := None)" by auto
qed

lemma pending_count_dom:
  assumes "pending_ok t"
  shows "pending_count t = int (card (dom (pending_map t)))"
  using assms
  by (simp add: pending_ok_def pending_map_pairs dom_map_of_conv_image_fst active_ids_pairs
      distinct_card [symmetric] del: length_map)

interpretation pending: share_table pending_map pending_insert pending_remove pending_ok pending_count STRATUM_PENDING_SHARES
  by unfold_locales
     (simp_all add: pending_insert_ok pending_remove_map pending_count_dom pending_insert_map,
      simp_all add: pending_map_pairs finite_dom_map_of)

lemma pending_count_le: "pending_ok t \<Longrightarrow> pending_count t \<le> 64"
  using length_filter_le [of pend_active "pending t"] by (simp add: pending_ok_def active_ids_def STRATUM_PENDING_SHARES_def)

section \<open>Properties\<close>

text \<open>C30. The table refines a map from request ids to what was recorded. Every operation keeps the table
  well formed. With a free slot, or when the id is already there, storing is an update of the map and touches
  no other id; releasing an id returns what the map has for it and deletes exactly that id; before and after
  every operation the counter is the size of the map, which never exceeds 64. So up to 64 new shares can be
  stored, answers that come in any order find exactly what was stored, and an id that was answered is gone: a
  second answer to it finds nothing.\<close>

theorem pending_table_refines_map:
  assumes "pending_ok t" "distinct (map fst xs)" "\<forall>rid \<in> fst ` set xs. pending_map t rid = None"
    "pending_count t + int (length xs) \<le> 64"
  shows "pending_map (pending.insert_all xs t) = pending_map t ++ map_of xs \<and>
    pending_count (pending.insert_all xs t) = pending_count t + int (length xs) \<and>
    (\<forall>rids. distinct rids \<longrightarrow>
       fst (pending.remove_all rids (pending.insert_all xs t)) = map (pending_map t ++ map_of xs) rids \<and>
       pending_map (snd (pending.remove_all rids (pending.insert_all xs t))) =
         (pending_map t ++ map_of xs) |` (- set rids)) \<and>
    (\<forall>rid v. pending_ok (pending_insert rid v t) \<and>
       pending_count (pending_insert rid v t) = int (card (dom (pending_map (pending_insert rid v t)))) \<and>
       pending_count (pending_insert rid v t) \<le> 64 \<and>
       (pending_map t rid \<noteq> None \<or> pending_count t < 64 \<longrightarrow>
          pending_map (pending_insert rid v t) = (pending_map t)(rid \<mapsto> v))) \<and>
    (\<forall>rid. pending_ok (snd (pending_remove rid t)) \<and>
       fst (pending_remove rid t) = pending_map t rid \<and>
       pending_map (snd (pending_remove rid t)) = (pending_map t)(rid := None) \<and>
       fst (pending_remove rid (snd (pending_remove rid t))) = None \<and>
       pending_count (snd (pending_remove rid t)) =
         pending_count t - (if pending_map t rid = None then 0 else 1)) \<and>
    pending_count t = int (card (dom (pending_map t)))"
proof (intro conjI allI)
  have l: "pending_map (pending.insert_all xs t) = pending_map t ++ map_of xs \<and>
    pending_count (pending.insert_all xs t) = pending_count t + int (length xs)"
    using assms by (intro pending.lookup_insert_all) (auto simp: STRATUM_PENDING_SHARES_def)
  then show "pending_map (pending.insert_all xs t) = pending_map t ++ map_of xs"
    "pending_count (pending.insert_all xs t) = pending_count t + int (length xs)" by blast+
  show "distinct rids \<longrightarrow>
      fst (pending.remove_all rids (pending.insert_all xs t)) = map (pending_map t ++ map_of xs) rids \<and>
      pending_map (snd (pending.remove_all rids (pending.insert_all xs t))) =
        (pending_map t ++ map_of xs) |` (- set rids)" for rids
    using pending.remove_all_lookup [OF pending.ok_insert_all [OF assms(1)], of rids] l by simp
next
  fix rid v
  note i = pending.ok_insert [OF assms(1), of rid v]
  show "pending_ok (pending_insert rid v t)" by (rule i)
  show "pending_count (pending_insert rid v t) = int (card (dom (pending_map (pending_insert rid v t))))"
    by (rule pending.count_dom [OF i])
  show "pending_count (pending_insert rid v t) \<le> 64" by (rule pending_count_le [OF i])
  show "pending_map t rid \<noteq> None \<or> pending_count t < 64 \<longrightarrow>
      pending_map (pending_insert rid v t) = (pending_map t)(rid \<mapsto> v)"
    using pending.insert_room [OF assms(1), of rid v] by (simp add: STRATUM_PENDING_SHARES_def)
next
  fix rid
  show "pending_ok (snd (pending_remove rid t))" by (rule pending.ok_remove [OF assms(1)])
  show "fst (pending_remove rid t) = pending_map t rid" by (rule pending.remove_lookup [OF assms(1)])
  show "pending_map (snd (pending_remove rid t)) = (pending_map t)(rid := None)"
    by (rule pending.remove_map [OF assms(1)])
  show "fst (pending_remove rid (snd (pending_remove rid t))) = None" by (rule pending.remove_again [OF assms(1)])
  show "pending_count (snd (pending_remove rid t)) = pending_count t - (if pending_map t rid = None then 0 else 1)"
    by (rule pending.count_remove [OF assms(1)])
qed (rule pending.count_dom [OF assms(1)])

text \<open>The table of a new connection.\<close>

definition empty_table :: "'v \<Rightarrow> 'v pending_table" where
  "empty_table v = \<lparr>pending = replicate 64 \<lparr>pend_id = 0, pend_active = False, pend_value = v\<rparr>, pending_count = 0\<rparr>"

lemma pending_ok_empty: "pending_ok (empty_table v)" "pending_map (empty_table v) = Map.empty"
  by (simp_all add: pending_ok_def empty_table_def STRATUM_PENDING_SHARES_def active_ids_def pending_map_def)

lemma pending_count_empty: "pending_count (empty_table v) = 0"
  by (simp add: empty_table_def)

theorem pending_table_refines_map_witness:
  "pending_ok (empty_table (0 :: nat)) \<and>
   fst (pending.remove_all [5, 4, 6] (pending.insert_all [(4, 40), (5, 50)] (empty_table (0 :: nat)))) =
     [Some 50, Some 40, None] \<and>
   pending_map (snd (pending.remove_all [5, 6] (pending.insert_all [(4, 40), (5, 50)] (empty_table (0 :: nat))))) 4 = Some 40 \<and>
   pending_map (snd (pending.remove_all [5, 6] (pending.insert_all [(4, 40), (5, 50)] (empty_table (0 :: nat))))) 5 = None"
proof -
  have r: "\<forall>rids. distinct rids \<longrightarrow> fst (pending.remove_all rids
      (pending.insert_all [(4, 40), (5, 50)] (empty_table (0 :: nat)))) =
      map (pending_map (empty_table (0 :: nat)) ++ map_of [(4, 40), (5, 50)]) rids \<and>
      pending_map (snd (pending.remove_all rids (pending.insert_all [(4, 40), (5, 50)] (empty_table (0 :: nat))))) =
      (pending_map (empty_table (0 :: nat)) ++ map_of [(4, 40), (5, 50)]) |` (- set rids)"
    using pending_table_refines_map [OF pending_ok_empty(1), of "[(4, 40), (5, 50)]" "0 :: nat"]
    by (simp add: pending_ok_empty pending_count_empty del: pending.insert_all.simps pending.remove_all.simps)
  show ?thesis
    using r [rule_format, of "[5, 4, 6]"] r [rule_format, of "[5, 6]"]
    by (simp add: pending_ok_empty restrict_map_def del: pending.insert_all.simps pending.remove_all.simps)
qed

end
