(* ===== verification/Stratum.thy ===== *)
theory Stratum
  imports Miner Pending_Shares Json
begin

text \<open>
  The Stratum protocol client, \<open>src/src/stratum.c\<close>: the state kept for a connection, the handlers of what
  the pool sends (\<open>handle_response\<close>, \<open>handle_set_difficulty\<close>, \<open>handle_notify\<close>, \<open>handle_set_extranonce\<close>), the
  rebuilding of the miner's job, and the submission of shares.

  Parsing a JSON text is the parameter \<open>json_loads\<close>, floating point rounding the parameter \<open>fl\<close>. Output to the
  terminal is not modelled.
\<close>

section \<open>The state of a connection\<close>

definition STRATUM_MAX_MERKLE_BRANCHES :: nat where "STRATUM_MAX_MERKLE_BRANCHES = 128"
definition STRATUM_MAX_COINBASE_HEX :: nat where "STRATUM_MAX_COINBASE_HEX = 16384"

text \<open>A difficulty is a double that may be infinite: \<open>None\<close> is infinity, as in \<open>miner_hash_difficulty\<close>. A
  pending share records its difficulty and the time of its submission. The array \<open>template_merkle\<close> and its
  count are one list. \<open>unsigned long\<close> has 64 bits.\<close>

type_synonym diff = "real option"

record ('ctx, 'dev) stratum_state_t = "(diff \<times> real) pending_table" +
  extranonce1 :: string
  pool_url :: string
  pool_host :: string
  pool_port :: string
  user :: string
  current_job_id :: string
  current_ntime :: string
  template_job_id :: string
  template_prevhash :: string
  template_coinb1 :: string
  template_coinb2 :: string
  template_version :: string
  template_nbits :: string
  template_ntime :: string
  template_merkle :: "string list"
  template_valid :: bool
  extranonce2_size :: int
  difficulty :: real
  started_at :: real
  connected_at :: real
  last_share_difficulty :: diff
  best_share_difficulty :: diff
  last_result_difficulty :: diff
  last_result_elapsed :: real
  notify_count :: u64
  submit_count :: u64
  accept_count :: u64
  reject_count :: u64
  connect_count :: u64
  last_result_accepted :: int
  subscribed :: bool
  authorized :: bool
  st_miner :: "('ctx, 'dev) miner option"
  extranonce2_counter :: u64

definition stratum_state_init :: "real \<Rightarrow> ('ctx, 'dev) stratum_state_t" where
  "stratum_state_init now =
    \<lparr>pending = replicate 64 \<lparr>pend_id = 0, pend_active = False, pend_value = (Some 0, 0)\<rparr>, pending_count = 0,
     extranonce1 = [], pool_url = [], pool_host = [], pool_port = [], user = [],
     current_job_id = [], current_ntime = [],
     template_job_id = [], template_prevhash = [], template_coinb1 = [], template_coinb2 = [],
     template_version = [], template_nbits = [], template_ntime = [], template_merkle = [],
     template_valid = False, extranonce2_size = 4, difficulty = 1, started_at = now, connected_at = 0,
     last_share_difficulty = Some 0, best_share_difficulty = Some 0, last_result_difficulty = Some 0,
     last_result_elapsed = 0, notify_count = 0, submit_count = 0, accept_count = 0, reject_count = 0,
     connect_count = 0, last_result_accepted = 0, subscribed = False, authorized = False,
     st_miner = None, extranonce2_counter = 1\<rparr>"

text \<open>What the handlers need from outside: OpenSSL, memory allocation, rounding and the clock.\<close>

record 'ctx stratum_env =
  se_ssl :: "'ctx openssl"
  se_alloc :: "nat \<Rightarrow> bool"
  se_fl :: "real \<Rightarrow> real"
  se_now :: real

section \<open>Pending shares\<close>

fun diff_greater :: "diff \<Rightarrow> diff \<Rightarrow> bool" where
  "diff_greater _ None = False"
| "diff_greater None (Some _) = True"
| "diff_greater (Some a) (Some b) = (a > b)"

definition register_pending_share ::
  "int \<Rightarrow> miner_share_t \<Rightarrow> real \<Rightarrow> ('ctx, 'dev) stratum_state_t \<Rightarrow> ('ctx, 'dev) stratum_state_t" where
  "register_pending_share rid share now st =
    (let t = pending_insert rid (share_difficulty share, now) (pending_table.truncate st);
         st = st\<lparr>pending := pending t, pending_count := pending_count t,
                 last_share_difficulty := share_difficulty share\<rparr>
     in if diff_greater (share_difficulty share) (best_share_difficulty st)
        then st\<lparr>best_share_difficulty := share_difficulty share\<rparr> else st)"

definition complete_pending_share ::
  "int \<Rightarrow> bool \<Rightarrow> real \<Rightarrow> ('ctx, 'dev) stratum_state_t \<Rightarrow> ('ctx, 'dev) stratum_state_t" where
  "complete_pending_share rid accepted now st =
    (let (found, t) = pending_remove rid (pending_table.truncate st);
         (d, elapsed) = (case found of None \<Rightarrow> (Some 0, 0) | Some (d, submitted_at) \<Rightarrow> (d, now - submitted_at))
     in st\<lparr>pending := pending t, pending_count := pending_count t,
           last_result_accepted := (if accepted then 1 else - 1),
           last_result_difficulty := d, last_result_elapsed := elapsed\<rparr>)"

section \<open>The job of the miner\<close>

text \<open>Returns 1 when a job was installed, 0 when there is nothing to build one from, -1 on an error. The
  extranonce2 counter moves on whenever a job was tried.\<close>

definition rebuild_miner_job ::
  "'ctx stratum_env \<Rightarrow> ('ctx, 'dev) stratum_state_t \<Rightarrow> int \<times> ('ctx, 'dev) stratum_state_t" where
  "rebuild_miner_job env st =
    (case st_miner st of
       None \<Rightarrow> (0, st)
     | Some m \<Rightarrow>
        if \<not> template_valid st \<or> extranonce1 st = [] \<or> extranonce2_size st \<le> 0 then (0, st)
        else
          let extranonce2 = miner_format_extranonce2 32 (extranonce2_size st) (extranonce2_counter st);
              st = st\<lparr>extranonce2_counter := extranonce2_counter st + 1\<rparr>
          in if extranonce2 = [] then (- 1, st)
             else
               (case miner_build_job (se_ssl env) (se_alloc env) (se_fl env) (template_job_id st)
                       (template_prevhash st) (template_coinb1 st) (template_coinb2 st) (template_merkle st)
                       (template_version st) (template_nbits st) (template_ntime st)
                       (extranonce1 st) extranonce2 (difficulty st) of
                  None \<Rightarrow> (- 1, st)
                | Some j \<Rightarrow> (1, st\<lparr>st_miner := Some (miner_set_job (se_ssl env) j m)\<rparr>)))"

section \<open>What the pool sends\<close>

definition handle_response :: "'ctx stratum_env \<Rightarrow> json_t \<Rightarrow> ('ctx, 'dev) stratum_state_t \<Rightarrow> ('ctx, 'dev) stratum_state_t" where
  "handle_response env msg st =
    (let id_value = json_object_get msg ''id'';
         result = json_object_get msg ''result'';
         error = json_object_get msg ''error'';
         rid = (case json_integer_value id_value of Some i \<Rightarrow> i | None \<Rightarrow> - 1)
     in if error \<noteq> None \<and> error \<noteq> Some JNull then
          (if rid \<ge> 4
           then complete_pending_share (c_int rid) False (se_now env) (st\<lparr>reject_count := reject_count st + 1\<rparr>)
           else st)
        else if rid = 1 then
          (if json_is_array result \<and> json_array_size result \<ge> 3 then
             let st = (case json_string_value (json_array_get result 1) of
                         Some en1 \<Rightarrow> st\<lparr>extranonce1 := snprintf_s 128 en1\<rparr> | None \<Rightarrow> st);
                 st = (case json_integer_value (json_array_get result 2) of
                         Some i \<Rightarrow> st\<lparr>extranonce2_size := c_int i\<rparr> | None \<Rightarrow> st)
             in st\<lparr>subscribed := True\<rparr>
           else st)
        else if rid = 2 then st\<lparr>authorized := json_is_true result\<rparr>
        else if rid \<ge> 4 then
          (let st = complete_pending_share (c_int rid) (json_is_true result) (se_now env) st
           in if json_is_true result then st\<lparr>accept_count := accept_count st + 1\<rparr>
              else st\<lparr>reject_count := reject_count st + 1\<rparr>)
        else st)"

definition handle_set_difficulty ::
  "'ctx stratum_env \<Rightarrow> json_t option \<Rightarrow> ('ctx, 'dev) stratum_state_t \<Rightarrow> ('ctx, 'dev) stratum_state_t" where
  "handle_set_difficulty env params st =
    (let val = (if json_is_array params then json_array_get params 0 else None)
     in case json_number_value (se_fl env) val of
          Some d \<Rightarrow>
            (let st = st\<lparr>difficulty := d\<rparr>
             in if template_valid st then snd (rebuild_miner_job env st) else st)
        | None \<Rightarrow> st)"

definition handle_set_extranonce ::
  "'ctx stratum_env \<Rightarrow> json_t option \<Rightarrow> ('ctx, 'dev) stratum_state_t \<Rightarrow> ('ctx, 'dev) stratum_state_t" where
  "handle_set_extranonce env params st =
    (let en1 = (if json_is_array params then json_array_get params 0 else None);
         en2_size = (if json_is_array params then json_array_get params 1 else None);
         st = (case json_string_value en1 of Some s \<Rightarrow> st\<lparr>extranonce1 := snprintf_s 128 s\<rparr> | None \<Rightarrow> st);
         st = (case json_integer_value en2_size of Some i \<Rightarrow> st\<lparr>extranonce2_size := c_int i\<rparr> | None \<Rightarrow> st)
     in if template_valid st then snd (rebuild_miner_job env st) else st)"

text \<open>A chain of stores, each with its buffer size, that stops at the first text that does not fit. The
  result tells whether all were stored.\<close>

fun store_template_strings :: "(nat \<times> string \<times> (string \<Rightarrow> 's \<Rightarrow> 's)) list \<Rightarrow> 's \<Rightarrow> bool \<times> 's" where
  "store_template_strings [] st = (True, st)"
| "store_template_strings ((dst_size, src, put) # xs) st =
    (case copy_checked dst_size src of
       None \<Rightarrow> (False, st)
     | Some s \<Rightarrow> store_template_strings xs (put s st))"

text \<open>The Merkle branch, at most 128 entries.\<close>

definition merkle_entries :: "json_t option \<Rightarrow> string list" where
  "merkle_entries branch =
    (if json_is_array branch
     then map (\<lambda>i. json_string_or_empty (json_array_get branch i))
            [0..<min (json_array_size branch) STRATUM_MAX_MERKLE_BRANCHES]
     else [])"

text \<open>The middle of \<open>handle_notify\<close>: the texts of the notification go to the template, in order.\<close>

definition store_template ::
  "json_t option \<Rightarrow> ('ctx, 'dev) stratum_state_t \<Rightarrow> bool \<times> ('ctx, 'dev) stratum_state_t" where
  "store_template params st =
    (let str = (\<lambda>i. json_string_or_empty (json_array_get params i));
         (stored, st) = store_template_strings
           [(128, str 0, \<lambda>s st. st\<lparr>template_job_id := s\<rparr>),
            (65, str 1, \<lambda>s st. st\<lparr>template_prevhash := s\<rparr>),
            (STRATUM_MAX_COINBASE_HEX, str 2, \<lambda>s st. st\<lparr>template_coinb1 := s\<rparr>),
            (STRATUM_MAX_COINBASE_HEX, str 3, \<lambda>s st. st\<lparr>template_coinb2 := s\<rparr>),
            (9, str 5, \<lambda>s st. st\<lparr>template_version := s\<rparr>),
            (9, str 6, \<lambda>s st. st\<lparr>template_nbits := s\<rparr>),
            (9, str 7, \<lambda>s st. st\<lparr>template_ntime := s\<rparr>)] (st\<lparr>template_valid := False, template_merkle := []\<rparr>)
     in if \<not> stored then (False, st)
        else store_template_strings
          (map (\<lambda>b. (65, b, \<lambda>s st. st\<lparr>template_merkle := template_merkle st @ [s]\<rparr>))
             (merkle_entries (json_array_get params 4))) st)"

definition handle_notify ::
  "'ctx stratum_env \<Rightarrow> json_t option \<Rightarrow> ('ctx, 'dev) stratum_state_t \<Rightarrow> ('ctx, 'dev) stratum_state_t" where
  "handle_notify env params st =
    (if \<not> json_is_array params \<or> json_array_size params < 9 then st
     else
       let job_id = json_string_or_empty (json_array_get params 0);
           ntime = json_string_or_empty (json_array_get params 7);
           st = st\<lparr>notify_count := notify_count st + 1,
                   current_job_id := snprintf_s 128 job_id, current_ntime := snprintf_s 16 ntime\<rparr>;
           (stored, st) = store_template params st
       in if \<not> stored then st
          else snd (rebuild_miner_job env (st\<lparr>template_valid := True\<rparr>)))"

definition handle_method :: "'ctx stratum_env \<Rightarrow> json_t \<Rightarrow> ('ctx, 'dev) stratum_state_t \<Rightarrow> ('ctx, 'dev) stratum_state_t" where
  "handle_method env msg st =
    (let params = json_object_get msg ''params''
     in case json_string_value (json_object_get msg ''method'') of
          None \<Rightarrow> st
        | Some method \<Rightarrow>
            if method = ''mining.set_difficulty'' then handle_set_difficulty env params st
            else if method = ''mining.notify'' then handle_notify env params st
            else if method = ''mining.set_extranonce'' then handle_set_extranonce env params st
            else st)"

definition stratum_process_line ::
  "(string \<Rightarrow> json_t option) \<Rightarrow> 'ctx stratum_env \<Rightarrow> string \<Rightarrow> ('ctx, 'dev) stratum_state_t \<Rightarrow>
   int \<times> ('ctx, 'dev) stratum_state_t" where
  "stratum_process_line json_loads env line st =
    (case json_loads line of
       None \<Rightarrow> (- 1, st)
     | Some msg \<Rightarrow>
         (0, if json_object_get msg ''method'' \<noteq> None then handle_method env msg st else handle_response env msg st))"

section \<open>What the client sends\<close>

definition request :: "int \<Rightarrow> string \<Rightarrow> json_t list \<Rightarrow> json_t" where
  "request rid method params = JObj [(''id'', JInt rid), (''method'', JStr method), (''params'', JArr params)]"

definition submit_request :: "int \<Rightarrow> string \<Rightarrow> miner_share_t \<Rightarrow> json_t" where
  "submit_request rid usr share =
    request rid ''mining.submit''
      [JStr usr, JStr (share_job_id share), JStr (share_extranonce2 share), JStr (share_ntime share),
       JStr (snprintf_s 9 (pad_zeros 8 (hex_digits (unat (share_nonce share)))))]"

text \<open>The loop of \<open>flush_shares\<close>. \<open>send_ok\<close> tells whether the request with an id is sent, \<open>clock\<close> the time of
  its registration. The result: return code, requests sent, next id, state. Ids are unbounded; the C program's \<open>int\<close>
  overflows only after \<open>2 ^ 31 - 4\<close> submissions on one connection.\<close>

definition st_share_count :: "('ctx, 'dev) stratum_state_t \<Rightarrow> nat" where
  "st_share_count st = (case st_miner st of None \<Rightarrow> 0 | Some m \<Rightarrow> share_count m)"

function (sequential) flush_shares ::
  "(int \<Rightarrow> bool) \<Rightarrow> (int \<Rightarrow> real) \<Rightarrow> string \<Rightarrow> int \<Rightarrow> ('ctx, 'dev) stratum_state_t \<Rightarrow>
   int \<times> json_t list \<times> int \<times> ('ctx, 'dev) stratum_state_t" where
  "flush_shares send_ok clock usr next_rpc_id st =
    (case st_miner st of
       None \<Rightarrow> (0, [], next_rpc_id, st)
     | Some m \<Rightarrow>
        (case miner_pop_share m of
           (None, m') \<Rightarrow> (0, [], next_rpc_id, st\<lparr>st_miner := Some m'\<rparr>)
         | (Some share, m') \<Rightarrow>
            let st = st\<lparr>st_miner := Some m'\<rparr>;
                rid = next_rpc_id
            in if \<not> send_ok rid then (- 1, [], rid + 1, st)
               else
                 let st = register_pending_share rid share (clock rid) st;
                     (rc, sent, next_rpc_id, st) =
                       flush_shares send_ok clock usr (rid + 1) (st\<lparr>submit_count := submit_count st + 1\<rparr>)
                 in (rc, submit_request rid usr share # sent, next_rpc_id, st)))"
  by pat_completeness auto

termination
  by (relation "measure (\<lambda>(send_ok, clock, usr, next_rpc_id, st). st_share_count st)")
     (auto simp: st_share_count_def register_pending_share_def Let_def miner_pop_share_def ring_pop_def split: if_splits)

definition maybe_roll_extranonce :: "'ctx stratum_env \<Rightarrow> ('ctx, 'dev) stratum_state_t \<Rightarrow> ('ctx, 'dev) stratum_state_t" where
  "maybe_roll_extranonce env st =
    (case st_miner st of
       None \<Rightarrow> st
     | Some m \<Rightarrow>
        (case miner_take_nonce_exhausted m of
           (exhausted, m') \<Rightarrow>
             let st = st\<lparr>st_miner := Some m'\<rparr>
             in if exhausted then snd (rebuild_miner_job env st) else st))"

end
