(* ===== verification/Stratum_Handlers.thy ===== *)
theory Stratum_Handlers
  imports Stratum
begin

text \<open>
  What the handlers of \<open>Stratum\<close> guarantee: the texts of the state fit their C buffers, the table of pending
  shares stays consistent, the miner's job changes only by installing a well-formed job with a new
  extranonce2, and every branch of the handlers does what the protocol asks.
\<close>

section \<open>The invariant of the state\<close>

definition texts_fit :: "('ctx, 'dev) stratum_state_t \<Rightarrow> bool" where
  "texts_fit st \<longleftrightarrow> length (extranonce1 st) < 128 \<and> length (current_job_id st) < 128 \<and> length (current_ntime st) < 16 \<and>
     length (template_job_id st) < 128 \<and> length (template_prevhash st) < 65 \<and>
     length (template_coinb1 st) < 16384 \<and> length (template_coinb2 st) < 16384 \<and>
     length (template_version st) < 9 \<and> length (template_nbits st) < 9 \<and> length (template_ntime st) < 9 \<and>
     length (template_merkle st) \<le> 128 \<and> list_all (\<lambda>s. length s < 65) (template_merkle st)"

definition stratum_ok :: "('ctx, 'dev) stratum_state_t \<Rightarrow> bool" where
  "stratum_ok st \<longleftrightarrow> texts_fit st \<and> pending_ok (pending_table.truncate st)"

lemmas stratum_ok_defs = stratum_ok_def texts_fit_def pending_table.truncate_def

lemma stratum_ok_init: "stratum_ok (stratum_state_init now)"
  by (simp add: stratum_ok_defs stratum_state_init_def pending_ok_def STRATUM_PENDING_SHARES_def active_ids_def)

text \<open>The fields the invariant speaks about.\<close>

lemma stratum_ok_frame:
  assumes "stratum_ok st" "pending_table.truncate st' = pending_table.truncate st"
    "extranonce1 st' = extranonce1 st" "current_job_id st' = current_job_id st" "current_ntime st' = current_ntime st"
    "template_job_id st' = template_job_id st" "template_prevhash st' = template_prevhash st"
    "template_coinb1 st' = template_coinb1 st" "template_coinb2 st' = template_coinb2 st"
    "template_version st' = template_version st" "template_nbits st' = template_nbits st"
    "template_ntime st' = template_ntime st" "template_merkle st' = template_merkle st"
  shows "stratum_ok st'"
  using assms by (simp add: stratum_ok_def texts_fit_def)

text \<open>The job the client would build now.\<close>

definition job_of ::
  "'ctx stratum_env \<Rightarrow> ('ctx, 'dev) stratum_state_t \<Rightarrow> miner_job_t option" where
  "job_of env st =
    (let en2 = miner_format_extranonce2 32 (extranonce2_size st) (extranonce2_counter st)
     in if en2 = [] then None
        else miner_build_job (se_ssl env) (se_alloc env) (se_fl env) (template_job_id st)
          (template_prevhash st) (template_coinb1 st) (template_coinb2 st) (template_merkle st)
          (template_version st) (template_nbits st) (template_ntime st) (extranonce1 st) en2 (difficulty st))"

definition can_build :: "('ctx, 'dev) stratum_state_t \<Rightarrow> bool" where
  "can_build st \<longleftrightarrow> template_valid st \<and> extranonce1 st \<noteq> [] \<and> 0 < extranonce2_size st"

lemma rebuild_eq:
  "rebuild_miner_job env st =
    (case st_miner st of
       None \<Rightarrow> (0, st)
     | Some m \<Rightarrow>
        if \<not> can_build st then (0, st)
        else (case job_of env st of
            None \<Rightarrow> (- 1, st\<lparr>extranonce2_counter := extranonce2_counter st + 1\<rparr>)
          | Some j \<Rightarrow> (1, st\<lparr>extranonce2_counter := extranonce2_counter st + 1,
                           st_miner := Some (miner_set_job (se_ssl env) j m)\<rparr>)))"
  by (auto simp: rebuild_miner_job_def can_build_def job_of_def Let_def split: option.splits)

lemma stratum_ok_rebuild: "stratum_ok st \<Longrightarrow> stratum_ok (snd (rebuild_miner_job env st))"
  by (erule stratum_ok_frame) (auto simp: rebuild_eq pending_table.truncate_def split: option.splits)

lemma pending_table_surj [simp]: "\<lparr>pending = pending t, pending_count = pending_count t\<rparr> = (t :: 'v pending_table)"
  by (cases t) simp

lemma stratum_ok_complete: "stratum_ok st \<Longrightarrow> stratum_ok (complete_pending_share rid acc now st)"
proof -
  assume "stratum_ok st"
  moreover from this have "pending_ok (snd (pending_remove rid (pending_table.truncate st)))"
    by (simp add: stratum_ok_def pending_remove_map)
  ultimately show ?thesis
    by (auto simp: complete_pending_share_def stratum_ok_defs case_prod_beta Let_def split: option.splits)
qed

lemma stratum_ok_register: "stratum_ok st \<Longrightarrow> stratum_ok (register_pending_share rid share now st)"
proof -
  assume "stratum_ok st"
  moreover from this have "pending_ok (pending_insert rid v (pending_table.truncate st))" for v
    by (simp add: stratum_ok_def pending_insert_ok)
  ultimately show ?thesis
    by (auto simp: register_pending_share_def stratum_ok_defs Let_def)
qed

lemma stratum_ok_upd:
  "stratum_ok st \<Longrightarrow> stratum_ok (st\<lparr>extranonce1 := snprintf_s 128 s\<rparr>)"
  "stratum_ok st \<Longrightarrow> stratum_ok (st\<lparr>extranonce2_size := i\<rparr>)"
  "stratum_ok st \<Longrightarrow> stratum_ok (st\<lparr>difficulty := d\<rparr>)"
  "stratum_ok st \<Longrightarrow> stratum_ok (st\<lparr>reject_count := c\<rparr>)"
  "stratum_ok st \<Longrightarrow> stratum_ok (st\<lparr>accept_count := c\<rparr>)"
  "stratum_ok st \<Longrightarrow> stratum_ok (st\<lparr>submit_count := c\<rparr>)"
  "stratum_ok st \<Longrightarrow> stratum_ok (st\<lparr>subscribed := b\<rparr>)"
  "stratum_ok st \<Longrightarrow> stratum_ok (st\<lparr>authorized := b\<rparr>)"
  "stratum_ok st \<Longrightarrow> stratum_ok (st\<lparr>template_valid := b\<rparr>)"
  "stratum_ok st \<Longrightarrow> stratum_ok (st\<lparr>st_miner := mm\<rparr>)"
  by (auto simp: stratum_ok_defs)

lemma stratum_ok_response: "stratum_ok st \<Longrightarrow> stratum_ok (handle_response env msg st)"
  by (auto simp: handle_response_def Let_def intro!: stratum_ok_upd stratum_ok_complete split: option.splits)

lemma stratum_ok_difficulty: "stratum_ok st \<Longrightarrow> stratum_ok (handle_set_difficulty env params st)"
  by (auto simp: handle_set_difficulty_def Let_def intro!: stratum_ok_upd stratum_ok_rebuild split: option.splits)

lemma stratum_ok_extranonce: "stratum_ok st \<Longrightarrow> stratum_ok (handle_set_extranonce env params st)"
  by (auto simp: handle_set_extranonce_def Let_def intro!: stratum_ok_upd stratum_ok_rebuild split: option.splits)

text \<open>Stores that each keep a property, given that the text fits.\<close>

lemma store_template_strings_inv:
  assumes "store_template_strings xs st = (b, st')" "P st"
    "\<And>n src put s. (n, src, put) \<in> set xs \<Longrightarrow> length src < n \<Longrightarrow> P s \<Longrightarrow> P (put src s)"
  shows "P st'"
  using assms
proof (induction xs st rule: store_template_strings.induct)
  case (2 n src put xs st)
  show ?case
  proof (cases "length src < n")
    case True
    then have c: "copy_checked n src = Some src" by (simp add: copy_checked_def)
    show ?thesis
      by (rule "2.IH" [OF c]) (use "2.prems" c True in auto)
  qed (use 2 in \<open>simp add: copy_checked_def\<close>)
qed simp

lemma length_merkle_entries: "length (merkle_entries b) \<le> 128"
  by (simp add: merkle_entries_def STRATUM_MAX_MERKLE_BRANCHES_def)

lemma store_merkle:
  assumes "store_template_strings (map (\<lambda>b. (65, b, \<lambda>s st. st\<lparr>template_merkle := template_merkle st @ [s]\<rparr>)) bs) st = (ok, st')"
  shows "st' = st\<lparr>template_merkle := template_merkle st @ takeWhile (\<lambda>b. length b < 65) bs\<rparr> \<and>
    (ok \<longleftrightarrow> list_all (\<lambda>b. length b < 65) bs)"
  using assms
proof (induction bs arbitrary: st)
  case (Cons b bs)
  then show ?case by (cases "length b < 65") (auto simp: copy_checked_def dest!: Cons.IH)
qed simp

text \<open>What \<open>store_template\<close> does, in one equation: on success all fields, on failure some of them.\<close>

lemma store_template_fits:
  fixes params :: "json_t option"
  defines "str \<equiv> \<lambda>i. json_string_or_empty (json_array_get params i)"
  assumes "length (str 0) < 128" "length (str 1) < 65" "length (str 2) < 16384" "length (str 3) < 16384"
    "length (str 5) < 9" "length (str 6) < 9" "length (str 7) < 9"
  shows "store_template params st =
    (list_all (\<lambda>b. length b < 65) (merkle_entries (json_array_get params 4)),
     st\<lparr>template_valid := False, template_job_id := str 0, template_prevhash := str 1, template_coinb1 := str 2,
        template_coinb2 := str 3, template_version := str 5, template_nbits := str 6, template_ntime := str 7,
        template_merkle := takeWhile (\<lambda>b. length b < 65) (merkle_entries (json_array_get params 4))\<rparr>)"
proof -
  let ?bs = "merkle_entries (json_array_get params 4)"
  let ?st = "st\<lparr>template_valid := False, template_merkle := [], template_job_id := str 0, template_prevhash := str 1,
    template_coinb1 := str 2, template_coinb2 := str 3, template_version := str 5, template_nbits := str 6,
    template_ntime := str 7\<rparr>"
  obtain b2 st3 where s3: "store_template_strings
      (map (\<lambda>b. (65, b, \<lambda>s st. st\<lparr>template_merkle := template_merkle st @ [s]\<rparr>)) ?bs) ?st = (b2, st3)" by fastforce
  have "store_template params st = (b2, st3)"
    using s3 assms(2-) by (simp add: store_template_def Let_def copy_checked_def STRATUM_MAX_COINBASE_HEX_def flip: str_def)
  then show ?thesis using store_merkle [OF s3] by simp
qed

lemma store_template_inv:
  assumes "store_template params st = (b, st')" "P (st\<lparr>template_valid := False, template_merkle := []\<rparr>)"
    "\<And>s st. length s < 128 \<Longrightarrow> P st \<Longrightarrow> P (st\<lparr>template_job_id := s\<rparr>)"
    "\<And>s st. length s < 65 \<Longrightarrow> P st \<Longrightarrow> P (st\<lparr>template_prevhash := s\<rparr>)"
    "\<And>s st. length s < 16384 \<Longrightarrow> P st \<Longrightarrow> P (st\<lparr>template_coinb1 := s\<rparr>)"
    "\<And>s st. length s < 16384 \<Longrightarrow> P st \<Longrightarrow> P (st\<lparr>template_coinb2 := s\<rparr>)"
    "\<And>s st. length s < 9 \<Longrightarrow> P st \<Longrightarrow> P (st\<lparr>template_version := s\<rparr>)"
    "\<And>s st. length s < 9 \<Longrightarrow> P st \<Longrightarrow> P (st\<lparr>template_nbits := s\<rparr>)"
    "\<And>s st. length s < 9 \<Longrightarrow> P st \<Longrightarrow> P (st\<lparr>template_ntime := s\<rparr>)"
    "\<And>bs st. length bs \<le> 128 \<Longrightarrow> list_all (\<lambda>s. length s < 65) bs \<Longrightarrow> P st \<Longrightarrow> template_merkle st = [] \<Longrightarrow>
       P (st\<lparr>template_merkle := bs\<rparr>)"
  shows "P st'"
proof -
  let ?str = "\<lambda>i. json_string_or_empty (json_array_get params i)"
  let ?Q = "\<lambda>st :: ('a, 'b) stratum_state_t. P st \<and> template_merkle st = []"
  let ?bs = "merkle_entries (json_array_get params 4)"
  let ?stores = "[(128, ?str 0, \<lambda>s st. st\<lparr>template_job_id := s\<rparr>), (65, ?str 1, \<lambda>s st. st\<lparr>template_prevhash := s\<rparr>),
    (STRATUM_MAX_COINBASE_HEX, ?str 2, \<lambda>s st. st\<lparr>template_coinb1 := s\<rparr>),
    (STRATUM_MAX_COINBASE_HEX, ?str 3, \<lambda>s st. st\<lparr>template_coinb2 := s\<rparr>),
    (9, ?str 5, \<lambda>s st. st\<lparr>template_version := s\<rparr>), (9, ?str 6, \<lambda>s st. st\<lparr>template_nbits := s\<rparr>),
    (9, ?str 7, \<lambda>s st :: ('a, 'b) stratum_state_t. st\<lparr>template_ntime := s\<rparr>)]"
  obtain b1 st2 where s2: "store_template_strings ?stores (st\<lparr>template_valid := False, template_merkle := []\<rparr>) = (b1, st2)"
    by fastforce
  have q: "?Q st2"
    by (rule store_template_strings_inv [OF s2, where P = ?Q])
       (use assms(2-9) in \<open>auto simp: STRATUM_MAX_COINBASE_HEX_def\<close>)
  obtain b2 st3 where s3: "store_template_strings
      (map (\<lambda>b. (65, b, \<lambda>s st. st\<lparr>template_merkle := template_merkle st @ [s]\<rparr>)) ?bs) st2 = (b2, st3)" by fastforce
  have "length (takeWhile (\<lambda>b. length b < 65) ?bs) \<le> 128"
    using length_takeWhile_le [of _ ?bs] length_merkle_entries le_trans by blast
  then have "P st3"
    using q store_merkle [OF s3] assms(10) [of "takeWhile (\<lambda>b. length b < 65) ?bs" st2]
    by (auto simp: list_all_iff dest: set_takeWhileD)
  then show ?thesis
    using assms(1) s2 s3 q unfolding store_template_def Let_def by (auto split: if_splits)
qed

lemma stratum_ok_notify:
  assumes "stratum_ok st"
  shows "stratum_ok (handle_notify env params st)"
proof -
  let ?st = "st\<lparr>notify_count := notify_count st + 1,
    current_job_id := snprintf_s 128 (json_string_or_empty (json_array_get params 0)),
    current_ntime := snprintf_s 16 (json_string_or_empty (json_array_get params 7))\<rparr>"
  obtain b st' where s: "store_template params ?st = (b, st')" by fastforce
  have "stratum_ok st'"
    by (rule store_template_inv [OF s]) (use assms in \<open>auto simp: stratum_ok_defs\<close>)
  then show ?thesis
    using assms s by (auto simp: handle_notify_def Let_def intro!: stratum_ok_rebuild stratum_ok_upd)
qed

lemma stratum_ok_method: "stratum_ok st \<Longrightarrow> stratum_ok (handle_method env msg st)"
  by (auto simp: handle_method_def Let_def intro!: stratum_ok_difficulty stratum_ok_notify stratum_ok_extranonce
      split: option.splits)

lemma stratum_ok_process_line: "stratum_ok st \<Longrightarrow> stratum_ok (snd (stratum_process_line loads env line st))"
  by (auto simp: stratum_process_line_def intro: stratum_ok_method stratum_ok_response split: option.splits)

declare flush_shares.simps [simp del]

lemma stratum_ok_flush: "stratum_ok st \<Longrightarrow> stratum_ok (snd (snd (snd (flush_shares send_ok clock usr nid st))))"
proof (induction send_ok clock usr nid st rule: flush_shares.induct)
  case (1 send_ok clock usr nid st)
  show ?case
  proof (cases "st_miner st")
    case None
    then show ?thesis using "1.prems" by (subst flush_shares.simps) simp
  next
    case (Some m)
    obtain x m' where p: "miner_pop_share m = (x, m')" by fastforce
    show ?thesis
    proof (cases x)
      case None
      then show ?thesis using "1.prems" Some p by (subst flush_shares.simps) (simp add: stratum_ok_upd)
    next
      case (Some share)
      note ih = "1.IH" [OF \<open>st_miner st = Some m\<close> p [symmetric] Some refl refl]
      show ?thesis
        using ih [OF _ refl] "1.prems" \<open>st_miner st = Some m\<close> p Some
        by (subst flush_shares.simps)
           (auto simp: Let_def case_prod_beta intro!: stratum_ok_upd stratum_ok_register)
    qed
  qed
qed

lemma stratum_ok_roll: "stratum_ok st \<Longrightarrow> stratum_ok (maybe_roll_extranonce env st)"
  by (auto simp: maybe_roll_extranonce_def Let_def intro!: stratum_ok_rebuild stratum_ok_upd split: option.splits prod.splits)

section \<open>The miner's job\<close>

text \<open>The only way in which a handler touches the miner: it installs a well-formed job whose extranonce2 is
  the value of the counter, which then moves on.\<close>

definition job_update ::
  "'ctx stratum_env \<Rightarrow> ('ctx, 'dev) stratum_state_t \<Rightarrow> ('ctx, 'dev) stratum_state_t \<Rightarrow> bool" where
  "job_update env st st' \<longleftrightarrow>
    extranonce2_counter st' \<in> {extranonce2_counter st, extranonce2_counter st + 1} \<and>
    (st_miner st' = st_miner st \<or>
     (\<exists>m j. st_miner st = Some m \<and> job_shape j \<and> hex_num (job_extranonce2 j) = unat (extranonce2_counter st) \<and>
        st_miner st' = Some (miner_set_job (se_ssl env) j m) \<and>
        extranonce2_counter st' = extranonce2_counter st + 1))"

lemma job_update_same: "st_miner st' = st_miner st \<Longrightarrow> extranonce2_counter st' = extranonce2_counter st \<Longrightarrow> job_update env st st'"
  by (simp add: job_update_def)

lemma job_update_before:
  "job_update env st1 st' \<Longrightarrow> st_miner st1 = st_miner st \<Longrightarrow> extranonce2_counter st1 = extranonce2_counter st \<Longrightarrow>
   job_update env st st'"
  by (simp add: job_update_def)

lemma format_hex_num:
  assumes "miner_format_extranonce2 32 sz v \<noteq> []"
  shows "hex_num (miner_format_extranonce2 32 sz v) = unat v"
proof -
  have "0 < sz" "2 * nat sz < 32" using assms by (auto simp: miner_format_extranonce2_def Let_def split: if_splits)
  moreover have "unat v < 2 ^ LENGTH(64)" by (rule unsigned_less)
  then have "unat v < 16 ^ (32 - 1)" by simp
  ultimately show ?thesis by (simp add: format_extranonce2_eq)
qed

lemma job_of_shape:
  assumes "openssl_contract (se_ssl env)" "job_of env st = Some j"
  shows "job_shape j" "hex_num (job_extranonce2 j) = unat (extranonce2_counter st)"
proof -
  let ?en2 = "miner_format_extranonce2 32 (extranonce2_size st) (extranonce2_counter st)"
  have ne: "?en2 \<noteq> []" using assms(2) by (auto simp: job_of_def Let_def)
  then have b: "miner_build_job (se_ssl env) (se_alloc env) (se_fl env) (template_job_id st)
      (template_prevhash st) (template_coinb1 st) (template_coinb2 st) (template_merkle st)
      (template_version st) (template_nbits st) (template_ntime st) (extranonce1 st) ?en2 (difficulty st) = Some j"
    using assms(2) by (simp add: job_of_def Let_def)
  note f = build_job_fields [OF assms(1) b]
  show "job_shape j" unfolding job_shape_def using f by blast
  show "hex_num (job_extranonce2 j) = unat (extranonce2_counter st)" using f format_hex_num [OF ne] by simp
qed

lemma rebuild_update:
  assumes "openssl_contract (se_ssl env)"
  shows "job_update env st (snd (rebuild_miner_job env st))"
  using job_of_shape [OF assms, of st]
  by (auto simp: rebuild_eq job_update_def split: option.splits)

lemma complete_frame [simp]:
  "st_miner (complete_pending_share rid acc now st) = st_miner st"
  "extranonce2_counter (complete_pending_share rid acc now st) = extranonce2_counter st"
  "accept_count (complete_pending_share rid acc now st) = accept_count st"
  "reject_count (complete_pending_share rid acc now st) = reject_count st"
  "submit_count (complete_pending_share rid acc now st) = submit_count st"
  by (simp_all add: complete_pending_share_def case_prod_beta Let_def)

lemma response_frame:
  "st_miner (handle_response env msg st) = st_miner st"
  "extranonce2_counter (handle_response env msg st) = extranonce2_counter st"
  by (auto simp: handle_response_def Let_def split: option.splits)

lemma store_template_frame:
  "store_template params st = (b, st') \<Longrightarrow> st_miner st' = st_miner st \<and> extranonce2_counter st' = extranonce2_counter st"
  by (erule store_template_inv) auto

lemma handler_updates:
  assumes "openssl_contract (se_ssl env)"
  shows "job_update env st (handle_set_difficulty env params st)"
    "job_update env st (handle_set_extranonce env params st)"
    "job_update env st (handle_notify env params st)"
proof -
  note r = rebuild_update [OF assms, THEN job_update_before]
  show "job_update env st (handle_set_difficulty env params st)"
    by (auto simp: handle_set_difficulty_def Let_def intro!: r intro: job_update_same split: option.splits)
  show "job_update env st (handle_set_extranonce env params st)"
    by (auto simp: handle_set_extranonce_def Let_def intro!: r intro: job_update_same split: option.splits)
  show "job_update env st (handle_notify env params st)"
    unfolding handle_notify_def Let_def
    by (auto split: prod.splits dest!: store_template_frame intro!: r intro: job_update_same)
qed

lemma handle_method_update:
  assumes "openssl_contract (se_ssl env)"
  shows "job_update env st (handle_method env msg st)"
  unfolding handle_method_def Let_def
  by (cases "json_string_value (json_object_get msg ''method'')") (simp_all add: job_update_same handler_updates [OF assms])

lemma process_line_update:
  assumes "openssl_contract (se_ssl env)"
  shows "job_update env st (snd (stratum_process_line loads env line st))"
  using handle_method_update [OF assms] response_frame [of env _ st]
  by (auto simp: stratum_process_line_def job_update_same split: option.split)

end
