(* ===== verification/Stratum_Protocol.thy ===== *)
theory Stratum_Protocol
  imports Stratum_Handlers
begin

text \<open>
  The protocol-level properties of the Stratum client: what a notification does, how responses are accounted
  for, how each step advances the extranonce2 of the installed jobs, and in which order shares are submitted.
\<close>

section \<open>Notifications\<close>

definition notify_params ::
  "string \<Rightarrow> string \<Rightarrow> string \<Rightarrow> string \<Rightarrow> string list \<Rightarrow> string \<Rightarrow> string \<Rightarrow> string \<Rightarrow> bool \<Rightarrow> json_t option" where
  "notify_params job_id prevhash coinb1 coinb2 merkle version nbits ntime clean =
    Some (JArr [JStr job_id, JStr prevhash, JStr coinb1, JStr coinb2, JArr (map JStr merkle),
                JStr version, JStr nbits, JStr ntime, JBool clean])"

lemma notify_params_get:
  assumes "p = notify_params job_id prevhash coinb1 coinb2 merkle version nbits ntime clean"
  shows "json_string_or_empty (json_array_get p 0) = job_id" "json_string_or_empty (json_array_get p 1) = prevhash"
    "json_string_or_empty (json_array_get p 2) = coinb1" "json_string_or_empty (json_array_get p 3) = coinb2"
    "json_string_or_empty (json_array_get p 5) = version" "json_string_or_empty (json_array_get p 6) = nbits"
    "json_string_or_empty (json_array_get p 7) = ntime" "json_is_array p" "json_array_size p = 9"
    "json_array_get p 4 = Some (JArr (map JStr merkle))"
  by (simp_all add: assms notify_params_def json_string_or_empty_def)

lemma merkle_entries_strings:
  "length merkle \<le> 128 \<Longrightarrow> merkle_entries (Some (JArr (map JStr merkle))) = merkle"
  unfolding merkle_entries_def STRATUM_MAX_MERKLE_BRANCHES_def
  by (simp, rule nth_equalityI) (simp_all add: json_string_or_empty_def)

lemma store_template_fails:
  assumes "store_template params st = (False, st')"
  shows "\<not> template_valid st' \<and> st_miner st' = st_miner st"
  using store_template_frame [OF assms] store_template_inv [OF assms, of "\<lambda>st. \<not> template_valid st"] by auto

section \<open>Installed jobs\<close>

text \<open>The job the miner works on: its sequence number, by which an installation is recognised, and its
  extranonce2.\<close>

definition installed_seq :: "('ctx, 'dev) stratum_state_t \<Rightarrow> u64 option" where
  "installed_seq st = map_option (\<lambda>m. job_seq (public_job (job m))) (st_miner st)"

definition installed_extranonce2 :: "('ctx, 'dev) stratum_state_t \<Rightarrow> string list" where
  "installed_extranonce2 st = (case st_miner st of None \<Rightarrow> [] | Some m \<Rightarrow> [job_extranonce2 (public_job (job m))])"

lemma job_update_extranonce2:
  assumes "job_update env st st'" "installed_seq st' \<noteq> installed_seq st"
  shows "map hex_num (installed_extranonce2 st') = [unat (extranonce2_counter st)]"
    "extranonce2_counter st' = extranonce2_counter st + 1"
  using assms
  by (auto simp: job_update_def installed_seq_def installed_extranonce2_def miner_set_job_def Let_def ring_clear_def)

text \<open>What every step of a connection may do: the counter of extranonce2 values stays or moves on by one, and a
  job is installed only together with such a move, under the value the counter had.\<close>

definition counts_extranonce2 :: "('ctx, 'dev) stratum_state_t \<Rightarrow> ('ctx, 'dev) stratum_state_t \<Rightarrow> bool" where
  "counts_extranonce2 st st' \<longleftrightarrow>
    extranonce2_counter st' \<in> {extranonce2_counter st, extranonce2_counter st + 1} \<and>
    (installed_seq st' \<noteq> installed_seq st \<longrightarrow>
       map hex_num (installed_extranonce2 st') = [unat (extranonce2_counter st)] \<and>
       extranonce2_counter st' = extranonce2_counter st + 1)"

lemma job_update_counts:
  assumes "job_update env st st'"
  shows "counts_extranonce2 st st'"
proof -
  have "extranonce2_counter st' \<in> {extranonce2_counter st, extranonce2_counter st + 1}"
    using assms unfolding job_update_def by blast
  then show ?thesis using job_update_extranonce2 [OF assms] unfolding counts_extranonce2_def by blast
qed

lemma counts_before:
  "counts_extranonce2 st1 st' \<Longrightarrow> installed_seq st1 = installed_seq st \<Longrightarrow>
   extranonce2_counter st1 = extranonce2_counter st \<Longrightarrow> counts_extranonce2 st st'"
  unfolding counts_extranonce2_def by metis

lemma counts_same:
  "extranonce2_counter st' = extranonce2_counter st \<Longrightarrow> installed_seq st' = installed_seq st \<Longrightarrow> counts_extranonce2 st st'"
  by (simp add: counts_extranonce2_def)

lemma roll_counts:
  assumes "openssl_contract (se_ssl env)"
  shows "counts_extranonce2 st (maybe_roll_extranonce env st)"
proof (cases "st_miner st")
  case None
  then show ?thesis by (simp add: maybe_roll_extranonce_def counts_same)
next
  case (Some m)
  let ?st = "st\<lparr>st_miner := Some (m\<lparr>nonce_exhausted := False\<rparr>)\<rparr>"
  have same: "installed_seq ?st = installed_seq st" "extranonce2_counter ?st = extranonce2_counter st"
    using Some by (simp_all add: installed_seq_def)
  have "counts_extranonce2 st (snd (rebuild_miner_job env ?st))"
    by (rule counts_before [OF job_update_counts [OF rebuild_update [OF assms]] same])
  moreover have "counts_extranonce2 st ?st" by (rule counts_same [OF same(2,1)])
  moreover have "maybe_roll_extranonce env st = (if nonce_exhausted m then snd (rebuild_miner_job env ?st) else ?st)"
    using Some by (simp add: maybe_roll_extranonce_def miner_take_nonce_exhausted_def Let_def)
  ultimately show ?thesis by simp
qed

section \<open>Submission\<close>

lemma register_frame [simp]:
  "st_miner (register_pending_share rid share now st) = st_miner st"
  "submit_count (register_pending_share rid share now st) = submit_count st"
  by (simp_all add: register_pending_share_def Let_def)

lemma register_pending_map:
  assumes "stratum_ok st" "pending_count st < 64"
  shows "pending_map (pending_table.truncate (register_pending_share rid share now st)) =
    (pending_map (pending_table.truncate st))(rid \<mapsto> (share_difficulty share, now))"
proof -
  have "pending_table.truncate (register_pending_share rid share now st) =
      pending_insert rid (share_difficulty share, now) (pending_table.truncate st)"
    by (simp add: register_pending_share_def Let_def pending_table.truncate_def)
  moreover have "pending_count (pending_table.truncate st) < int STRATUM_PENDING_SHARES"
    using assms(2) by (simp add: pending_table.truncate_def STRATUM_PENDING_SHARES_def)
  ultimately show ?thesis using assms(1) by (simp add: stratum_ok_def pending_insert_map)
qed

text \<open>One turn of the loop.\<close>

lemma flush_none:
  "st_miner st = Some m \<Longrightarrow> miner_pop_share m = (None, m') \<Longrightarrow>
   flush_shares send_ok clock usr nid st = (0, [], nid, st\<lparr>st_miner := Some m'\<rparr>)"
  by (subst flush_shares.simps) simp

lemma flush_fail:
  "st_miner st = Some m \<Longrightarrow> miner_pop_share m = (Some x, m') \<Longrightarrow> \<not> send_ok nid \<Longrightarrow>
   flush_shares send_ok clock usr nid st = (- 1, [], nid + 1, st\<lparr>st_miner := Some m'\<rparr>)"
  by (subst flush_shares.simps) (simp add: Let_def)

lemma flush_one:
  "st_miner st = Some m \<Longrightarrow> miner_pop_share m = (Some x, m') \<Longrightarrow> send_ok nid \<Longrightarrow>
   st1 = register_pending_share nid x (clock nid) (st\<lparr>st_miner := Some m'\<rparr>) \<Longrightarrow>
   flush_shares send_ok clock usr (nid + 1) (st1\<lparr>submit_count := submit_count st1 + 1\<rparr>) = (rc, sent, nid', st') \<Longrightarrow>
   flush_shares send_ok clock usr nid st = (rc, submit_request nid usr x # sent, nid', st')"
  by (subst flush_shares.simps) (simp add: Let_def)

lemma flush_shares_prefix:
  assumes "st_miner st = Some m" "ring_ok m" "k \<le> length (ring_contents m)"
    "\<forall>i < k. send_ok (nid + int i)" "k = length (ring_contents m) \<or> \<not> send_ok (nid + int k)"
    "flush_shares send_ok clock usr nid st = (rc, sent, nid', st')"
  shows "sent = map (\<lambda>i. submit_request (nid + int i) usr (ring_contents m ! i)) [0..<k] \<and>
    rc = (if k = length (ring_contents m) then 0 else - 1) \<and>
    submit_count st' = submit_count st + of_nat k \<and>
    (\<exists>m'. st_miner st' = Some m' \<and> ring_ok m' \<and> ring_contents m' = drop (Suc k) (ring_contents m))"
  using assms
proof (induction k arbitrary: st m nid rc sent nid' st')
  case 0
  have p: "case ring_contents m of [] \<Rightarrow> ring_pop m = (None, m)
      | x # xs \<Rightarrow> fst (ring_pop m) = Some x \<and> ring_contents (snd (ring_pop m)) = xs"
    by (rule ring_pop_contents [OF 0(2)])
  show ?case
  proof (cases "ring_contents m")
    case Nil
    then have "miner_pop_share m = (None, m)" using p by (simp add: miner_pop_share_def)
    then show ?thesis using flush_none [OF 0(1), of m send_ok clock usr nid] 0 Nil by auto
  next
    case (Cons x xs)
    then have "miner_pop_share m = (Some x, snd (ring_pop m))" "ring_contents (snd (ring_pop m)) = xs"
      using p by (auto simp: miner_pop_share_def prod_eq_iff)
    then show ?thesis
      using flush_fail [OF 0(1), of x "snd (ring_pop m)" send_ok nid clock usr] 0 Cons ring_ok_pop [OF 0(2)] by simp
  qed
next
  case (Suc k)
  obtain x xs where xs: "ring_contents m = x # xs" using Suc.prems(3) by (cases "ring_contents m") auto
  let ?m = "snd (ring_pop m)"
  have p: "miner_pop_share m = (Some x, ?m)" "ring_contents ?m = xs" "ring_ok ?m"
    using ring_pop_contents [OF Suc.prems(2)] ring_ok_pop [OF Suc.prems(2)] xs
    by (auto simp: miner_pop_share_def prod_eq_iff)
  let ?st = "register_pending_share nid x (clock nid) (st\<lparr>st_miner := Some ?m\<rparr>)"
  let ?st2 = "?st\<lparr>submit_count := submit_count ?st + 1\<rparr>"
  obtain rc2 sent2 nid2 st2 where f: "flush_shares send_ok clock usr (nid + 1) ?st2 = (rc2, sent2, nid2, st2)"
    by (cases "flush_shares send_ok clock usr (nid + 1) ?st2")
  have ok: "send_ok nid" using Suc.prems(4) [rule_format, of 0] by simp
  have eq: "nid + 1 + int i = nid + int (Suc i)" for i by simp
  have e: "rc = rc2" "sent = submit_request nid usr x # sent2" "st' = st2"
    using Suc.prems(6) flush_one [OF Suc.prems(1) p(1) ok refl f] by simp_all
  have shift: "\<forall>i < k. send_ok (nid + 1 + int i)" "k = length (ring_contents ?m) \<or> \<not> send_ok (nid + 1 + int k)"
    unfolding eq using Suc.prems(4,5) xs p(2) by (simp_all del: of_nat_Suc)
  have "sent2 = map (\<lambda>i. submit_request (nid + 1 + int i) usr (ring_contents ?m ! i)) [0..<k] \<and>
    rc2 = (if k = length (ring_contents ?m) then 0 else - 1) \<and>
    submit_count st2 = submit_count ?st2 + of_nat k \<and>
    (\<exists>m'. st_miner st2 = Some m' \<and> ring_ok m' \<and> ring_contents m' = drop (Suc k) (ring_contents ?m))"
    using Suc.prems(3) xs p(2,3) shift by (intro Suc.IH [OF _ _ _ _ _ f]) simp_all
  moreover have "[0..<Suc k] = 0 # map Suc [0..<k]" by (simp add: upt_conv_Cons map_Suc_upt del: upt_Suc)
  ultimately show ?case
    unfolding eq using e p(2) xs by (simp add: comp_def del: upt_Suc of_nat_Suc) (simp add: add.assoc)
qed

lemma notify_template:
  assumes "p = notify_params job_id prevhash coinb1 coinb2 merkle version nbits ntime clean" "length merkle \<le> 128"
  shows "(length job_id < 128 \<and> length prevhash < 65 \<and> length coinb1 < 16384 \<and> length coinb2 < 16384 \<and>
      length version < 9 \<and> length nbits < 9 \<and> length ntime < 9 \<and> list_all (\<lambda>b. length b < 65) merkle \<longrightarrow>
      handle_notify env p st = snd (rebuild_miner_job env
        (st\<lparr>notify_count := notify_count st + 1, current_job_id := job_id, current_ntime := ntime,
           template_job_id := job_id, template_prevhash := prevhash, template_coinb1 := coinb1,
           template_coinb2 := coinb2, template_version := version, template_nbits := nbits,
           template_ntime := ntime, template_merkle := merkle, template_valid := True\<rparr>))) \<and>
    (\<not> template_valid (handle_notify env p st) \<longrightarrow>
      st_miner (handle_notify env p st) = st_miner st \<and>
      rebuild_miner_job env (handle_notify env p st) = (0, handle_notify env p st))"
proof (intro conjI impI)
  note g = notify_params_get [OF assms(1)]
  have m: "merkle_entries (json_array_get p 4) = merkle" unfolding g by (rule merkle_entries_strings [OF assms(2)])
  let ?st1 = "st\<lparr>notify_count := notify_count st + 1, current_job_id := snprintf_s 128 job_id,
    current_ntime := snprintf_s 16 ntime\<rparr>"
  show "handle_notify env p st = snd (rebuild_miner_job env
      (st\<lparr>notify_count := notify_count st + 1, current_job_id := job_id, current_ntime := ntime,
         template_job_id := job_id, template_prevhash := prevhash, template_coinb1 := coinb1,
         template_coinb2 := coinb2, template_version := version, template_nbits := nbits,
         template_ntime := ntime, template_merkle := merkle, template_valid := True\<rparr>))"
    if fits: "length job_id < 128 \<and> length prevhash < 65 \<and> length coinb1 < 16384 \<and> length coinb2 < 16384 \<and>
      length version < 9 \<and> length nbits < 9 \<and> length ntime < 9 \<and> list_all (\<lambda>b. length b < 65) merkle"
  proof -
    have w: "takeWhile (\<lambda>b. length b < 65) merkle = merkle" using fits by (simp add: takeWhile_eq_all_conv list_all_iff)
    have "store_template p ?st1 = (True, ?st1\<lparr>template_valid := False, template_job_id := job_id, template_prevhash := prevhash,
        template_coinb1 := coinb1, template_coinb2 := coinb2, template_version := version, template_nbits := nbits,
        template_ntime := ntime, template_merkle := merkle\<rparr>)"
      using store_template_fits [of p ?st1] fits by (simp add: g(1-7) m w del: One_nat_def)
    then show ?thesis using fits by (simp add: handle_notify_def g(1,7,8,9) Let_def snprintf_s_def)
  qed
  assume nv: "\<not> template_valid (handle_notify env p st)"
  obtain b st2 where s: "store_template p ?st1 = (b, st2)" by fastforce
  have "\<not> b"
  proof
    assume b
    then have "handle_notify env p st = snd (rebuild_miner_job env (st2\<lparr>template_valid := True\<rparr>))"
      using s by (simp add: handle_notify_def g(1,7,8,9) Let_def)
    then show False using nv by (auto simp: rebuild_eq split: option.splits if_splits)
  qed
  then have h: "handle_notify env p st = st2" using s by (simp add: handle_notify_def g(1,7,8,9) Let_def)
  show "st_miner (handle_notify env p st) = st_miner st"
    using store_template_frame [OF s] unfolding h by simp
  show "rebuild_miner_job env (handle_notify env p st) = (0, handle_notify env p st)"
    using nv by (simp add: rebuild_eq can_build_def split: option.splits)
qed

section \<open>Properties\<close>

text \<open>C26. The state of a connection stays within its C buffers, and its table of pending shares consistent,
  whatever the pool sends and however many shares are submitted.\<close>

theorem stratum_state_bounds:
  "stratum_ok (stratum_state_init now) \<and>
   (stratum_ok st \<longrightarrow> stratum_ok (snd (stratum_process_line loads env line st)) \<and>
      stratum_ok (snd (snd (snd (flush_shares send_ok clock usr nid st)))) \<and>
      stratum_ok (maybe_roll_extranonce env st))"
  using stratum_ok_init stratum_ok_process_line stratum_ok_flush stratum_ok_roll by blast

theorem stratum_state_bounds_witness:
  "stratum_ok (stratum_state_init 0 :: (u32 list, unit) stratum_state_t) \<and>
   stratum_ok (snd (stratum_process_line (\<lambda>s. Some (JObj [(''id'', JInt 1), (''result'', JArr [JNull, JStr (replicate 500 CHR ''a''), JInt 4])]))
     \<lparr>se_ssl = openssl_ref, se_alloc = (\<lambda>n. True), se_fl = (\<lambda>x. x), se_now = 0\<rparr> ''x''
     (stratum_state_init 0 :: (u32 list, unit) stratum_state_t)))"
  using stratum_state_bounds [of 0 "stratum_state_init 0 :: (u32 list, unit) stratum_state_t"] stratum_ok_init by blast

text \<open>A notification whose texts fit replaces the template by exactly these texts and rebuilds the job
  at once; one with a text that does not fit leaves the miner on its job and the template invalid, so that
  nothing is built until the next notification.\<close>

theorem notify_replaces_template:
  assumes "p = notify_params job_id prevhash coinb1 coinb2 merkle version nbits ntime clean" "length merkle \<le> 128"
  shows "(length job_id < 128 \<and> length prevhash < 65 \<and> length coinb1 < 16384 \<and> length coinb2 < 16384 \<and>
      length version < 9 \<and> length nbits < 9 \<and> length ntime < 9 \<and> list_all (\<lambda>b. length b < 65) merkle \<longrightarrow>
      handle_notify env p st = snd (rebuild_miner_job env
        (st\<lparr>notify_count := notify_count st + 1, current_job_id := job_id, current_ntime := ntime,
           template_job_id := job_id, template_prevhash := prevhash, template_coinb1 := coinb1,
           template_coinb2 := coinb2, template_version := version, template_nbits := nbits,
           template_ntime := ntime, template_merkle := merkle, template_valid := True\<rparr>))) \<and>
    (\<not> template_valid (handle_notify env p st) \<longrightarrow>
      st_miner (handle_notify env p st) = st_miner st \<and>
      rebuild_miner_job env (handle_notify env p st) = (0, handle_notify env p st))"
  by (rule notify_template [OF assms])

theorem notify_replaces_template_witness:
  "template_ntime (handle_notify \<lparr>se_ssl = openssl_ref, se_alloc = (\<lambda>n. True), se_fl = (\<lambda>x. x), se_now = 0\<rparr>
     (notify_params ''1'' ''ab'' ''00'' ''11'' [''22''] ''2'' ''3'' ''5f5e1000'' True)
     (stratum_state_init 0 :: (u32 list, unit) stratum_state_t)) = ''5f5e1000''"
  using notify_replaces_template [OF refl, of "[''22'']" "''1''" "''ab''" "''00''" "''11''" "''2''" "''3''" "''5f5e1000''"
      "\<lparr>se_ssl = openssl_ref, se_alloc = (\<lambda>n. True), se_fl = (\<lambda>x. x), se_now = 0\<rparr>" True
      "stratum_state_init 0 :: (u32 list, unit) stratum_state_t"]
  by (simp add: rebuild_miner_job_def stratum_state_init_def)

text \<open>C24. Shares are submitted first in first out, with consecutive request ids, until the queue is empty or
  a request cannot be sent; the submit counter counts what was sent. On a failure the share in hand is lost
  and the rest stays in the queue.\<close>

theorem shares_submitted_in_order:
  assumes "st_miner st = Some m" "ring_ok m" "k \<le> length (ring_contents m)"
    "\<forall>i < k. send_ok (nid + int i)" "k = length (ring_contents m) \<or> \<not> send_ok (nid + int k)"
    "flush_shares send_ok clock usr nid st = (rc, sent, nid', st')"
  shows "sent = map (\<lambda>i. submit_request (nid + int i) usr (ring_contents m ! i)) [0..<k] \<and>
    rc = (if k = length (ring_contents m) then 0 else - 1) \<and>
    submit_count st' = submit_count st + of_nat k \<and>
    (\<exists>m'. st_miner st' = Some m' \<and> ring_contents m' = drop (Suc k) (ring_contents m))"
  using flush_shares_prefix [OF assms] by blast

definition demo_share :: "u32 \<Rightarrow> miner_share_t" where
  "demo_share n = zero_share\<lparr>share_nonce := n, share_job_id := ''j''\<rparr>"

definition demo_connected :: "(nat, nat) stratum_state_t" where
  "demo_connected = (stratum_state_init 0)\<lparr>st_miner := Some (ring_push (demo_share 8) (ring_push (demo_share 7) almost_exhausted))\<rparr>"

lemma demo_connected_queue:
  "\<exists>m. st_miner demo_connected = Some m \<and> ring_ok m \<and> ring_contents m = [demo_share 7, demo_share 8]"
proof -
  have ok: "ring_ok almost_exhausted" "ring_contents almost_exhausted = []"
    by (simp_all add: almost_exhausted_def miner_create_with_backend_options_def Let_def ring_ok_def ring_contents_def)
  then have "ring_contents (ring_push (demo_share 7) almost_exhausted) = [demo_share 7]"
    using length_ring_contents [of almost_exhausted] by (simp add: ring_contents_push SHARE_QUEUE_SIZE_def)
  then have "ring_contents (ring_push (demo_share 8) (ring_push (demo_share 7) almost_exhausted)) = [demo_share 7, demo_share 8]"
    using ok length_ring_contents [of "ring_push (demo_share 7) almost_exhausted"]
    by (simp add: ring_contents_push ring_ok_push SHARE_QUEUE_SIZE_def)
  then show ?thesis using ok by (simp add: demo_connected_def ring_ok_push)
qed

theorem shares_submitted_in_order_witness:
  "fst (snd (flush_shares (\<lambda>rid. rid < 5) (\<lambda>rid. 0) ''u'' 4 demo_connected)) = [submit_request 4 ''u'' (demo_share 7)] \<and>
   fst (flush_shares (\<lambda>rid. rid < 5) (\<lambda>rid. 0) ''u'' 4 demo_connected) = - 1"
proof -
  obtain m where m: "st_miner demo_connected = Some m" "ring_ok m" "ring_contents m = [demo_share 7, demo_share 8]"
    using demo_connected_queue by blast
  obtain rc sent nid' st' where f: "flush_shares (\<lambda>rid. rid < 5) (\<lambda>rid. 0) ''u'' 4 demo_connected = (rc, sent, nid', st')"
    by (cases "flush_shares (\<lambda>rid. rid < 5) (\<lambda>rid. 0) ''u'' 4 demo_connected")
  show ?thesis
    using shares_submitted_in_order [OF m(1,2) _ _ _ f, of 1] f m(3) by simp
qed

text \<open>C25. A response to a submission is counted once, as accepted or rejected, and releases exactly the
  pending share it answers; a response to anything else touches neither counters nor pending shares.\<close>

theorem response_accounting:
  assumes "stratum_ok st" "json_integer_value (json_object_get msg ''id'') = Some rid"
    "0 \<le> rid" "rid < 2 ^ 31" "st' = handle_response env msg st"
  shows "(4 \<le> rid \<longrightarrow>
      pending_map (pending_table.truncate st') = (pending_map (pending_table.truncate st))(rid := None) \<and>
      (if json_object_get msg ''error'' \<in> {None, Some JNull} \<and> json_is_true (json_object_get msg ''result'')
       then accept_count st' = accept_count st + 1 \<and> reject_count st' = reject_count st
       else accept_count st' = accept_count st \<and> reject_count st' = reject_count st + 1)) \<and>
    (rid < 4 \<longrightarrow> pending_table.truncate st' = pending_table.truncate st \<and>
      accept_count st' = accept_count st \<and> reject_count st' = reject_count st)"
proof -
  have c: "c_int rid = rid" using assms(3,4) by (simp add: c_int_def signed_take_bit_int_eq_self)
  have t: "pending_table.truncate (complete_pending_share rid acc now s) = snd (pending_remove rid (pending_table.truncate s))"
    for acc now and s :: "('a, 'b) stratum_state_t"
    by (simp add: complete_pending_share_def case_prod_beta Let_def pending_table.truncate_def)
  have f: "pending_table.truncate (s\<lparr>accept_count := x\<rparr>) = pending_table.truncate s"
    "pending_table.truncate (s\<lparr>reject_count := x\<rparr>) = pending_table.truncate s"
    "pending_table.truncate (s\<lparr>extranonce1 := y\<rparr>) = pending_table.truncate s"
    "pending_table.truncate (s\<lparr>extranonce2_size := z\<rparr>) = pending_table.truncate s"
    "pending_table.truncate (s\<lparr>subscribed := b\<rparr>) = pending_table.truncate s"
    "pending_table.truncate (s\<lparr>authorized := b\<rparr>) = pending_table.truncate s"
    for s :: "('a, 'b) stratum_state_t" and x y z b
    by (simp_all add: pending_table.truncate_def)
  have "pending_ok (pending_table.truncate st)" using assms(1) by (simp add: stratum_ok_def)
  note r = pending_remove_map [OF this]
  show ?thesis
  proof (cases "4 \<le> rid")
    case True
    then show ?thesis
      unfolding assms(5) handle_response_def Let_def assms(2)
      by (auto simp: c t f r)
  next
    case False
    then show ?thesis
      unfolding assms(5) handle_response_def Let_def assms(2)
      by (auto simp: f split: option.splits)
  qed
qed

theorem response_accounting_witness:
  "accept_count (handle_response \<lparr>se_ssl = openssl_ref, se_alloc = (\<lambda>n. True), se_fl = (\<lambda>x. x), se_now = 0\<rparr>
     (JObj [(''id'', JInt 4), (''result'', JBool True), (''error'', JNull)])
     (stratum_state_init 0 :: (u32 list, unit) stratum_state_t)) = 1"
  using response_accounting [OF stratum_ok_init, of "JObj [(''id'', JInt 4), (''result'', JBool True), (''error'', JNull)]" 4
      "handle_response \<lparr>se_ssl = openssl_ref, se_alloc = (\<lambda>n. True), se_fl = (\<lambda>x. x), se_now = 0\<rparr>
         (JObj [(''id'', JInt 4), (''result'', JBool True), (''error'', JNull)])
         (stratum_state_init 0 :: (u32 list, unit) stratum_state_t)"
      "\<lparr>se_ssl = openssl_ref, se_alloc = (\<lambda>n. True), se_fl = (\<lambda>x. x), se_now = 0\<rparr>" 0]
  by (simp add: json_is_true_def) (simp add: stratum_state_init_def)

text \<open>Input that means nothing to the client changes nothing: text that is not JSON (return code -1), a
  method it does not know, a difficulty that is not a number, a notification with too few parameters.\<close>

theorem unknown_input_ignored:
  "(loads line = None \<longrightarrow> stratum_process_line loads env line st = (- 1, st)) \<and>
   (loads line = Some msg \<and> json_object_get msg ''method'' = Some (JStr method) \<and>
      method \<notin> {''mining.set_difficulty'', ''mining.notify'', ''mining.set_extranonce''} \<longrightarrow>
      stratum_process_line loads env line st = (0, st)) \<and>
   (json_number_value (se_fl env) (json_array_get params 0) = None \<longrightarrow> handle_set_difficulty env params st = st) \<and>
   (json_array_size params < 9 \<longrightarrow> handle_notify env params st = st)"
  by (auto simp: stratum_process_line_def handle_method_def handle_set_difficulty_def handle_notify_def Let_def
      simp del: insert_iff)

theorem unknown_input_ignored_witness:
  "stratum_process_line (\<lambda>line. Some (JObj [(''method'', JStr ''client.reconnect'')]))
     \<lparr>se_ssl = openssl_ref, se_alloc = (\<lambda>n. True), se_fl = (\<lambda>x. x), se_now = 0\<rparr> ''x''
     (stratum_state_init 0 :: (u32 list, unit) stratum_state_t) = (0, stratum_state_init 0)"
  using unknown_input_ignored [of "\<lambda>line. Some (JObj [(''method'', JStr ''client.reconnect'')])" "''x''"
      "\<lparr>se_ssl = openssl_ref, se_alloc = (\<lambda>n. True), se_fl = (\<lambda>x. x), se_now = 0\<rparr>"
      "stratum_state_init 0 :: (u32 list, unit) stratum_state_t"
      "JObj [(''method'', JStr ''client.reconnect'')]" "''client.reconnect''" None]
  by simp

end
