(* ===== verification/Pool_Url.thy ===== *)
theory Pool_Url
  imports Hex
begin

text \<open>
  Where to connect: \<open>parse_pool_url\<close> of \<open>src/src/stratum.c\<close>, which splits the URL of a pool into host,
  port and TLS mode, and \<open>conn_open\<close>, which tries the connection modes in turn. Strings are C strings
  without their terminating zero byte.
\<close>

section \<open>Parsing the URL of a pool\<close>

record pool_endpoint_t =
  ep_host :: string
  ep_port :: string
  ep_use_tls :: bool
  ep_verify_tls :: bool

text \<open>The branches of the scheme test, in the order of the code: what remains of the URL, whether TLS is
  used and whether its certificate is verified.\<close>

definition url_scheme :: "string \<Rightarrow> string \<times> bool \<times> bool" where
  "url_scheme p =
    (if prefix ''stratum+tcp://'' p then (drop 14 p, False, True)
     else if prefix ''stratum+tls-insecure://'' p \<or> prefix ''stratum+ssl-insecure://'' p then (drop 23 p, True, False)
     else if prefix ''stratum+tls://'' p then (drop 14 p, True, True)
     else if prefix ''stratum+ssl://'' p then (drop 14 p, True, True)
     else if prefix ''tcp://'' p then (drop 6 p, False, True)
     else if prefix ''tls-insecure://'' p \<or> prefix ''ssl-insecure://'' p then (drop 15 p, True, False)
     else if prefix ''tls://'' p \<or> prefix ''ssl://'' p then (drop 6 p, True, True)
     else (p, False, True))"

text \<open>\<open>strrchr\<close>: the parts before and after the last occurrence of a character.\<close>

fun split_last :: "char \<Rightarrow> string \<Rightarrow> (string \<times> string) option" where
  "split_last c [] = None"
| "split_last c (x # xs) =
    (case split_last c xs of
       Some (a, b) \<Rightarrow> Some (x # a, b)
     | None \<Rightarrow> if x = c then Some ([], xs) else None)"

definition parse_pool_url :: "string \<Rightarrow> pool_endpoint_t option" where
  "parse_pool_url url =
    (let (p, use_tls, verify_tls) = url_scheme url
     in if p = [] then None
        else
          let hostport = take 319 p;
              hostport = takeWhile (\<lambda>c. c \<noteq> CHR ''/'') hostport
          in case split_last CHR '':'' hostport of
               None \<Rightarrow>
                 (case (copy_checked 256 hostport, copy_checked 16 (if use_tls then ''4333'' else ''3333'')) of
                    (Some host, Some port) \<Rightarrow>
                      if host = [] then None
                      else Some \<lparr>ep_host = host, ep_port = port, ep_use_tls = use_tls, ep_verify_tls = verify_tls\<rparr>
                  | _ \<Rightarrow> None)
             | Some (h, rest) \<Rightarrow>
                 (case (copy_checked 256 h, copy_checked 16 rest) of
                    (Some host, Some port) \<Rightarrow>
                      if host = [] \<or> port = [] then None
                      else Some \<lparr>ep_host = host, ep_port = port, ep_use_tls = use_tls, ep_verify_tls = verify_tls\<rparr>
                  | _ \<Rightarrow> None))"

section \<open>Opening the connection\<close>

text \<open>The result of one call of \<open>conn_open_once\<close>; the network and the TLS library decide which.\<close>

datatype open_result = OPEN_OK | OPEN_FAILED | OPEN_HANDSHAKE_FAILED

text \<open>What the network and the TLS library answer during one attempt: connecting, creating the TLS context and session, and
  the handshake, which depends on whether the certificate is verified.\<close>

record open_attempt =
  at_tcp :: bool
  at_ctx :: bool
  at_ssl :: bool
  at_handshake :: "bool \<Rightarrow> bool"

definition conn_open_once :: "open_attempt \<Rightarrow> bool \<times> bool \<Rightarrow> open_result" where
  "conn_open_once a mode =
    (case mode of (use_tls, verify_tls) \<Rightarrow>
      if \<not> at_tcp a then OPEN_FAILED
      else if \<not> use_tls then OPEN_OK
      else if \<not> at_ctx a then OPEN_FAILED
      else if \<not> at_ssl a then OPEN_FAILED
      else if \<not> at_handshake a verify_tls then OPEN_HANDSHAKE_FAILED
      else OPEN_OK)"

text \<open>A mode is whether TLS is used and whether the certificate is verified. \<open>once n mode\<close> is the outcome of
  attempt number \<open>n\<close>. The result is the mode that was opened, if any, and the modes that were tried.\<close>

definition conn_open ::
  "(nat \<Rightarrow> bool \<times> bool \<Rightarrow> open_result) \<Rightarrow> pool_endpoint_t \<Rightarrow> (bool \<times> bool) option \<times> (bool \<times> bool) list" where
  "conn_open once ep =
    (let use_tls = ep_use_tls ep;
         verify = ep_verify_tls ep;
         m1 = (use_tls, verify);
         r1 = once 0 m1;
         tls_handshake_failed = (r1 = OPEN_HANDSHAKE_FAILED)
     in if r1 = OPEN_OK then (Some m1, [m1])
        else
          let retry = use_tls \<and> verify \<and> tls_handshake_failed;
              tried = (if retry then [m1, (True, False)] else [m1])
          in if retry \<and> once 1 (True, False) = OPEN_OK then (Some (True, False), tried)
             else if use_tls then
               (if once (length tried) (False, False) = OPEN_OK
                then (Some (False, False), tried @ [(False, False)])
                else (None, tried @ [(False, False)]))
             else (None, tried))"

section \<open>Lemmas\<close>

lemma split_last_None: "split_last c s = None \<longleftrightarrow> c \<notin> set s"
  by (induction s) (auto split: option.splits)

lemma split_last_append: "c \<notin> set b \<Longrightarrow> split_last c (a @ c # b) = Some (a, b)"
  by (induction a) (simp_all add: split_last_None [THEN iffD2])

lemma split_last_Some: "split_last c s = Some (a, b) \<longleftrightarrow> s = a @ c # b \<and> c \<notin> set b"
proof
  show "split_last c s = Some (a, b) \<Longrightarrow> s = a @ c # b \<and> c \<notin> set b"
    by (induction s arbitrary: a) (auto simp: split_last_None split: option.splits if_splits)
qed (auto simp: split_last_append)

text \<open>The host and port part of a URL, whatever path follows it.\<close>

lemma hostport_of_url:
  assumes "CHR ''/'' \<notin> set hp" "length hp < 319" "path = [] \<or> hd path = CHR ''/''"
  shows "takeWhile (\<lambda>c. c \<noteq> CHR ''/'') (take 319 (hp @ path)) = hp"
proof -
  have "take 319 (hp @ path) = hp @ take (319 - length hp) path" using assms(2) by simp
  moreover have "takeWhile (\<lambda>c. c \<noteq> CHR ''/'') (take (319 - length hp) path) = []"
    using assms(2,3) by (cases path) (auto simp: take_Cons')
  moreover have "\<forall>x \<in> set hp. x \<noteq> CHR ''/''" using assms(1) by auto
  ultimately show ?thesis by (simp add: takeWhile_append2)
qed

text \<open>The accepted schemes: text, TLS, verification.\<close>

definition pool_schemes :: "(string \<times> bool \<times> bool) list" where
  "pool_schemes =
    [(''stratum+tcp://'', False, True), (''tcp://'', False, True),
     (''stratum+tls://'', True, True), (''stratum+ssl://'', True, True), (''tls://'', True, True), (''ssl://'', True, True),
     (''stratum+tls-insecure://'', True, False), (''stratum+ssl-insecure://'', True, False),
     (''tls-insecure://'', True, False), (''ssl-insecure://'', True, False)]"

lemma url_scheme_of:
  "(sch, tls, verify) \<in> set pool_schemes \<Longrightarrow> url_scheme (sch @ rest) = (rest, tls, verify)"
  unfolding pool_schemes_def url_scheme_def
  by (simp only: list.set insert_iff empty_iff prod.inject) (elim disjE; simp)

text \<open>The schemes that switch the certificate check off.\<close>

definition insecure_url :: "string \<Rightarrow> bool" where
  "insecure_url url \<longleftrightarrow> prefix ''stratum+tls-insecure://'' url \<or> prefix ''stratum+ssl-insecure://'' url \<or>
     prefix ''tls-insecure://'' url \<or> prefix ''ssl-insecure://'' url"

lemma url_scheme_insecure: "url_scheme url = (p, tls, verify) \<Longrightarrow> verify \<longleftrightarrow> \<not> insecure_url url"
  by (auto simp: url_scheme_def insecure_url_def prefix_def split: if_splits)

section \<open>Properties\<close>

text \<open>A URL made of one of the ten schemes, a host, a port and any path is taken apart correctly, and
  without a port the default one of the mode is used; the host must fit 255 and the port 15 characters.\<close>

theorem pool_url_parses:
  assumes "(sch, tls, verify) \<in> set pool_schemes"
    "host \<noteq> []" "length host < 256" "CHR ''/'' \<notin> set host"
    "port \<noteq> []" "length port < 16" "CHR ''/'' \<notin> set port" "CHR '':'' \<notin> set port"
    "path = [] \<or> hd path = CHR ''/''"
  shows "parse_pool_url (sch @ host @ [CHR '':''] @ port @ path) =
      Some \<lparr>ep_host = host, ep_port = port, ep_use_tls = tls, ep_verify_tls = verify\<rparr> \<and>
    (CHR '':'' \<notin> set host \<longrightarrow> parse_pool_url (sch @ host @ path) =
      Some \<lparr>ep_host = host, ep_port = (if tls then ''4333'' else ''3333''), ep_use_tls = tls, ep_verify_tls = verify\<rparr>)"
proof -
  have s: "url_scheme (sch @ r) = (r, tls, verify)" for r by (rule url_scheme_of [OF assms(1)])
  have h1: "takeWhile (\<lambda>c. c \<noteq> CHR ''/'') (take 319 ((host @ [CHR '':''] @ port) @ path)) = host @ [CHR '':''] @ port"
    using assms by (intro hostport_of_url) auto
  have h2: "takeWhile (\<lambda>c. c \<noteq> CHR ''/'') (take 319 (host @ path)) = host"
    using assms by (intro hostport_of_url) auto
  have "split_last CHR '':'' (host @ [CHR '':''] @ port) = Some (host, port)"
    using assms by (simp add: split_last_Some)
  then have "parse_pool_url (sch @ host @ [CHR '':''] @ port @ path) =
      Some \<lparr>ep_host = host, ep_port = port, ep_use_tls = tls, ep_verify_tls = verify\<rparr>"
    using assms h1 by (simp add: parse_pool_url_def s copy_checked_def)
  moreover have "parse_pool_url (sch @ host @ path) =
      Some \<lparr>ep_host = host, ep_port = (if tls then ''4333'' else ''3333''), ep_use_tls = tls, ep_verify_tls = verify\<rparr>"
    if "CHR '':'' \<notin> set host"
  proof -
    have "split_last CHR '':'' host = None" using that by (simp add: split_last_None)
    then show ?thesis using assms h2 by (simp add: parse_pool_url_def s copy_checked_def)
  qed
  ultimately show ?thesis by blast
qed

theorem pool_url_parses_witness:
  "parse_pool_url ''stratum+tls://pool.example:3334/x'' =
    Some \<lparr>ep_host = ''pool.example'', ep_port = ''3334'', ep_use_tls = True, ep_verify_tls = True\<rparr> \<and>
   parse_pool_url ''tcp://pool.example'' =
    Some \<lparr>ep_host = ''pool.example'', ep_port = ''3333'', ep_use_tls = False, ep_verify_tls = True\<rparr>"
  using pool_url_parses [of "''stratum+tls://''" True True "''pool.example''" "''3334''" "''/x''"]
    pool_url_parses [of "''tcp://''" False True "''pool.example''" "''1''" "[]"]
  by (simp add: pool_schemes_def)

text \<open>What the parser accepts fits the buffers and is usable: host and port are not empty, at most 255
  and 15 characters, neither contains a slash and the port no colon. The certificate check is switched off
  only by a scheme that says so.\<close>

theorem pool_url_bounds:
  assumes "parse_pool_url url = Some ep"
  shows "ep_host ep \<noteq> [] \<and> length (ep_host ep) < 256 \<and> ep_port ep \<noteq> [] \<and> length (ep_port ep) < 16 \<and>
    CHR ''/'' \<notin> set (ep_host ep) \<and> CHR ''/'' \<notin> set (ep_port ep) \<and> CHR '':'' \<notin> set (ep_port ep) \<and>
    (ep_verify_tls ep \<longleftrightarrow> \<not> insecure_url url)"
proof -
  obtain p tls verify where sch: "url_scheme url = (p, tls, verify)" by (cases "url_scheme url")
  define hp where "hp = takeWhile (\<lambda>c. c \<noteq> CHR ''/'') (take 319 p)"
  have slash: "CHR ''/'' \<notin> set hp" unfolding hp_def by (auto dest: set_takeWhileD)
  have v: "ep_verify_tls ep = verify"
    using assms sch by (auto simp: parse_pool_url_def copy_checked_def Let_def split: option.splits if_splits)
  have "ep_host ep \<noteq> [] \<and> length (ep_host ep) < 256 \<and> ep_port ep \<noteq> [] \<and> length (ep_port ep) < 16 \<and>
    CHR ''/'' \<notin> set (ep_host ep) \<and> CHR ''/'' \<notin> set (ep_port ep) \<and> CHR '':'' \<notin> set (ep_port ep)"
  proof (cases "split_last CHR '':'' hp")
    case None
    then show ?thesis using assms sch slash
      by (auto simp: parse_pool_url_def copy_checked_def simp flip: hp_def split: if_splits)
  next
    case (Some ab)
    obtain a b where ab: "ab = (a, b)" by (cases ab)
    then have "hp = a @ CHR '':'' # b \<and> CHR '':'' \<notin> set b" using Some by (simp add: split_last_Some)
    then show ?thesis using assms sch slash Some ab
      by (auto simp: parse_pool_url_def copy_checked_def simp flip: hp_def split: if_splits)
  qed
  then show ?thesis using url_scheme_insecure [OF sch] v by blast
qed

theorem pool_url_bounds_witness:
  "parse_pool_url ''ssl-insecure://h:1'' =
     Some \<lparr>ep_host = ''h'', ep_port = ''1'', ep_use_tls = True, ep_verify_tls = False\<rparr> \<and>
   length ''h'' < 256"
proof -
  have p: "parse_pool_url ''ssl-insecure://h:1'' =
     Some \<lparr>ep_host = ''h'', ep_port = ''1'', ep_use_tls = True, ep_verify_tls = False\<rparr>"
    by (simp add: parse_pool_url_def url_scheme_def copy_checked_def)
  then show ?thesis using pool_url_bounds [OF p] by simp
qed



end
