(* ===== verification/Line_Reader.thy ===== *)
theory Line_Reader
  imports Prelude
begin

text \<open>
  \<open>read_line\<close> of \<open>src/src/stratum.c\<close>: cutting the byte stream of a connection into lines with a fixed
  buffer. The connection is an input of the model: \<open>wire\<close> are the bytes the pool sends before it closes, and
  a list of events tells what \<open>select\<close> and \<open>recv\<close> (or their TLS counterparts) return, one event per turn of
  the loop. A run whose events are used up is still waiting, the value \<open>None\<close>.
\<close>

section \<open>The loop\<close>

definition READER_BUFFER :: nat where "READER_BUFFER = 65536"

abbreviation newline :: char where "newline \<equiv> CHR 0x0A"

text \<open>\<open>NET_RECV n\<close>: up to \<open>n\<close> bytes arrive. \<open>select\<close> is skipped when TLS has bytes pending, so a receive event
  needs no event before it.\<close>

datatype net_event = NET_TIMEOUT | NET_EINTR | NET_SELECT_ERROR | NET_RECV nat | NET_WOULD_BLOCK | NET_RECV_ERROR

text \<open>\<open>conn_read\<close> with room for \<open>len\<close> bytes: the bytes read and what remains on the wire.\<close>

definition conn_read :: "nat \<Rightarrow> nat \<Rightarrow> string \<Rightarrow> string \<times> string" where
  "conn_read n len wire = (take (min n len) wire, drop (min n len) wire)"

definition strip_cr :: "string \<Rightarrow> string" where
  "strip_cr l = (if l \<noteq> [] \<and> last l = CHR 0x0D then butlast l else l)"

text \<open>The head of the loop: a line in the buffer, or no room for one. The result is the return code, the line
  and the bytes that stay in the buffer.\<close>

definition buffered_line :: "nat \<Rightarrow> string \<Rightarrow> (int \<times> string \<times> string) option" where
  "buffered_line out_size buf =
    (if newline \<in> set buf then
       let l = takeWhile (\<lambda>c. c \<noteq> newline) buf;
           line = strip_cr l
       in if length line \<ge> out_size then Some (- 2, [], buf)
          else Some (1, line, drop (length l + 1) buf)
     else if length buf = READER_BUFFER then Some (- 2, [], buf)
     else None)"

fun read_line :: "nat \<Rightarrow> net_event list \<Rightarrow> string \<Rightarrow> string \<Rightarrow> (int \<times> string \<times> string \<times> string) option" where
  "read_line out_size [] buf wire =
    (case buffered_line out_size buf of Some (rc, line, buf') \<Rightarrow> Some (rc, line, buf', wire) | None \<Rightarrow> None)"
| "read_line out_size (e # es) buf wire =
    (case buffered_line out_size buf of
       Some (rc, line, buf') \<Rightarrow> Some (rc, line, buf', wire)
     | None \<Rightarrow>
       (case e of
          NET_TIMEOUT \<Rightarrow> Some (- 3, [], buf, wire)
        | NET_EINTR \<Rightarrow> read_line out_size es buf wire
        | NET_SELECT_ERROR \<Rightarrow> Some (- 1, [], buf, wire)
        | NET_WOULD_BLOCK \<Rightarrow> read_line out_size es buf wire
        | NET_RECV_ERROR \<Rightarrow> Some (- 1, [], buf, wire)
        | NET_RECV n \<Rightarrow>
            let (data, wire') = conn_read n (READER_BUFFER - length buf) wire
            in if data = [] then Some (0, [], buf, wire) else read_line out_size es (buf @ data) wire'))"

text \<open>\<open>conn_write\<close>: the whole text is written, in as many pieces as the connection takes. \<open>NET_RECV n\<close> stands here for
  a write of at most \<open>n\<close> bytes. The result is whether it succeeded and the bytes written; \<open>None\<close> is still waiting.\<close>

fun conn_write :: "net_event list \<Rightarrow> string \<Rightarrow> (bool \<times> string) option" where
  "conn_write es [] = Some (True, [])"
| "conn_write [] (c # cs) = None"
| "conn_write (e # es) (c # cs) =
    (case e of
       NET_RECV n \<Rightarrow> (case conn_write es (drop n (c # cs)) of None \<Rightarrow> None | Some (ok, out) \<Rightarrow> Some (ok, take n (c # cs) @ out))
     | NET_WOULD_BLOCK \<Rightarrow> conn_write es (c # cs)
     | NET_EINTR \<Rightarrow> conn_write es (c # cs)
     | _ \<Rightarrow> Some (False, []))"

lemma conn_write_complete: "conn_write es s = Some (ok, out) \<Longrightarrow> prefix out s \<and> (ok \<longrightarrow> out = s)"
proof (induction es s arbitrary: out rule: conn_write.induct)
  case (3 e es c cs)
  show ?case
  proof (cases e)
    case (NET_RECV n)
    then obtain out' where o: "conn_write es (drop n (c # cs)) = Some (ok, out')" "out = take n (c # cs) @ out'"
      using 3(4) by (auto split: option.splits)
    from 3(2) [OF NET_RECV o(1)] have "prefix out' (drop n (c # cs)) \<and> (ok \<longrightarrow> out' = drop n (c # cs))" .
    moreover have "c # cs = take n (c # cs) @ drop n (c # cs)" by (rule append_take_drop_id [symmetric])
    ultimately show ?thesis using o(2) by (metis same_prefix_prefix)
  qed (use 3 in auto)
qed auto

section \<open>The specification: lines of a stream\<close>

text \<open>The first line of a stream and what follows it.\<close>

definition first_line :: "string \<Rightarrow> (string \<times> string) option" where
  "first_line s =
    (if newline \<in> set s
     then Some (takeWhile (\<lambda>c. c \<noteq> newline) s, drop (length (takeWhile (\<lambda>c. c \<noteq> newline) s) + 1) s) else None)"

lemma first_line_split: "newline \<notin> set l \<Longrightarrow> first_line (l @ newline # r) = Some (l, r)"
proof -
  assume "newline \<notin> set l"
  then have "takeWhile (\<lambda>c. c \<noteq> newline) (l @ newline # r) = l" by (subst takeWhile_append2) auto
  then show ?thesis by (simp add: first_line_def)
qed

lemma first_line_None: "first_line s = None \<longleftrightarrow> newline \<notin> set s"
  by (simp add: first_line_def)

lemma first_line_SomeD: "first_line s = Some (l, r) \<Longrightarrow> newline \<notin> set l \<and> s = l @ newline # r"
proof -
  assume a: "first_line s = Some (l, r)"
  then have "newline \<in> set s" by (simp add: first_line_def split: if_splits)
  then obtain a b where s: "s = a @ newline # b" "newline \<notin> set a" by (metis split_list_first)
  then show ?thesis using a first_line_split [of a b] by auto
qed

lemma first_line_append: "first_line s = Some (l, r) \<Longrightarrow> first_line (s @ t) = Some (l, r @ t)"
  using first_line_SomeD [of s l r] first_line_split [of l "r @ t"] by auto

lemma buffered_line_first:
  "buffered_line out_size buf =
    (case first_line buf of
       Some (l, r) \<Rightarrow> if length (strip_cr l) \<ge> out_size then Some (- 2, [], buf) else Some (1, strip_cr l, r)
     | None \<Rightarrow> if length buf = READER_BUFFER then Some (- 2, [], buf) else None)"
  by (simp add: buffered_line_def first_line_def Let_def)

lemma buffered_line_cases:
  assumes "buffered_line out_size buf = Some (rc, line, buf')"
  obtains (line) l where "first_line buf = Some (l, buf')" "rc = 1" "line = strip_cr l" "length line < out_size"
    | (long) l r where "first_line buf = Some (l, r)" "out_size \<le> length (strip_cr l)" "rc = - 2" "line = []" "buf' = buf"
    | (full) "first_line buf = None" "length buf = READER_BUFFER" "rc = - 2" "line = []" "buf' = buf"
  using assms unfolding buffered_line_first by (auto split: option.splits if_splits)

lemma buffered_line_stream:
  assumes "buffered_line out_size buf = Some (rc, line, buf')"
  shows "if rc = 1 then \<exists>l. first_line (buf @ wire) = Some (l, buf' @ wire) \<and> line = strip_cr l \<and> length line < out_size
     else rc \<in> {0, - 1, - 2, - 3} \<and> line = [] \<and> buf' = buf"
  using assms by (cases rule: buffered_line_cases) (auto dest: first_line_append)

lemma buffered_line_length:
  "buffered_line out_size buf = Some (rc, line, buf') \<Longrightarrow> length buf' \<le> length buf"
  by (cases rule: buffered_line_cases) (auto dest!: first_line_SomeD)

lemma conn_read_split: "conn_read n len wire = (d, w) \<Longrightarrow> wire = d @ w \<and> length d \<le> len"
  by (auto simp: conn_read_def)

text \<open>What one call does to the stream, whatever the events.\<close>

lemma read_line_stream:
  assumes "read_line out_size es buf wire = Some (rc, line, buf', wire')" "length buf \<le> READER_BUFFER"
  shows "length buf' \<le> READER_BUFFER \<and>
    (if rc = 1 then \<exists>l. first_line (buf @ wire) = Some (l, buf' @ wire') \<and> line = strip_cr l \<and> length line < out_size
     else rc \<in> {0, - 1, - 2, - 3} \<and> line = [] \<and> buf' @ wire' = buf @ wire)"
  using assms
proof (induction out_size es buf wire rule: read_line.induct)
  case (1 out_size buf wire)
  then have "buffered_line out_size buf = Some (rc, line, buf') \<and> wire' = wire" by (auto split: option.splits)
  then show ?case
    using buffered_line_stream [of out_size buf rc line buf' wire] buffered_line_length [of out_size buf rc line buf'] 1
    by auto
next
  case (2 out_size e es buf wire)
  show ?case
  proof (cases "buffered_line out_size buf")
    case (Some r)
    then have "buffered_line out_size buf = Some (rc, line, buf') \<and> wire' = wire" using "2.prems" by (cases r) simp
    then show ?thesis
      using buffered_line_stream [of out_size buf rc line buf' wire] buffered_line_length [of out_size buf rc line buf'] 2
      by auto
  next
    case None
    show ?thesis
    proof (cases e)
      case (NET_RECV n)
      obtain d w where dw: "conn_read n (READER_BUFFER - length buf) wire = (d, w)" by (cases "conn_read n (READER_BUFFER - length buf) wire")
      have s: "wire = d @ w" "length (buf @ d) \<le> READER_BUFFER"
        using conn_read_split [OF dw] "2.prems"(2) by auto
      show ?thesis
      proof (cases "d = []")
        case True
        then show ?thesis using 2 None NET_RECV dw by auto
      next
        case False
        then have "read_line out_size es (buf @ d) w = Some (rc, line, buf', wire')"
          using "2.prems"(1) None NET_RECV dw by simp
        from "2.IH"(2) [OF None NET_RECV dw [symmetric] refl False this s(2)] show ?thesis unfolding s(1) append_assoc .
      qed
    qed (use 2 None in auto)
  qed
qed

lemma read_line_rc:
  "read_line out_size es buf wire = Some (rc, line, buf', wire') \<Longrightarrow> rc \<in> {1, 0, - 1, - 2, - 3}"
proof (induction out_size es buf wire rule: read_line.induct)
  case (1 out_size buf wire)
  then show ?case using buffered_line_stream [of out_size buf] by (fastforce split: option.splits if_splits)
next
  case (2 out_size e es buf wire)
  then show ?case
    using buffered_line_stream [of out_size buf]
    by (cases e) (fastforce simp: Let_def split: option.splits if_splits prod.splits)+
qed

text \<open>Progress: receive events that each bring at least one byte.\<close>

fun productive :: "net_event \<Rightarrow> bool" where
  "productive (NET_RECV n) = (0 < n)"
| "productive NET_EINTR = True"
| "productive NET_WOULD_BLOCK = True"
| "productive _ = False"

fun receives :: "net_event list \<Rightarrow> nat" where
  "receives [] = 0"
| "receives (NET_RECV n # es) = Suc (receives es)"
| "receives (e # es) = receives es"

lemma buffered_line_waits:
  assumes "first_line (buf @ wire) = Some (l, r)" "length l < READER_BUFFER" "buffered_line out_size buf = None"
  shows "length buf \<le> length l" "wire \<noteq> []"
proof -
  have nb: "newline \<notin> set buf"
    using assms(3) by (auto simp: buffered_line_def Let_def split: if_splits)
  have s: "buf @ wire = l @ newline # r" using first_line_SomeD [OF assms(1)] by simp
  show "length buf \<le> length l"
  proof (rule ccontr)
    assume "\<not> ?thesis"
    then have "buf ! length l = (buf @ wire) ! length l" "length l < length buf" by (simp_all add: nth_append)
    then show False using nb s by (metis nth_append_length nth_mem)
  qed
  then show "wire \<noteq> []" using s by (auto dest: arg_cong [of _ _ length])
qed

lemma buffered_line_delivers:
  assumes "first_line (buf @ wire) = Some (l, r)" "length l < READER_BUFFER" "length (strip_cr l) < out_size"
    "buffered_line out_size buf = Some x"
  shows "\<exists>buf'. x = (1, strip_cr l, buf') \<and> buf' @ wire = r"
proof -
  obtain rc line buf' where x: "x = (rc, line, buf')" by (cases x)
  from assms(4) [unfolded x] show ?thesis
  proof (cases rule: buffered_line_cases)
    case (line l')
    then show ?thesis using first_line_append [of buf l' buf' wire] assms(1) x by simp
  next
    case (long l' r')
    then show ?thesis using first_line_append [of buf l' r' wire] assms(1,3) by simp
  next
    case full
    then have nb: "newline \<notin> set buf" by (simp add: first_line_None)
    have s: "buf @ wire = l @ newline # r" using first_line_SomeD [OF assms(1)] by simp
    have "(buf @ wire) ! length l = buf ! length l" using full(2) assms(2) by (simp add: nth_append)
    then have "newline \<in> set buf" using s full(2) assms(2) by (metis nth_append_length nth_mem)
    with nb show ?thesis by simp
  qed
qed

lemma read_line_progress_gen:
  assumes "first_line (buf @ wire) = Some (l, r)" "length l < READER_BUFFER" "length (strip_cr l) < out_size"
    "list_all productive es" "Suc (length l) \<le> length buf + receives es"
  shows "\<exists>buf' wire'. read_line out_size es buf wire = Some (1, strip_cr l, buf', wire') \<and> buf' @ wire' = r"
  using assms
proof (induction out_size es buf wire rule: read_line.induct)
  case (1 out_size buf wire)
  show ?case
  proof (cases "buffered_line out_size buf")
    case None
    then show ?thesis using buffered_line_waits [of buf wire l r out_size] 1 by simp
  next
    case (Some x)
    then show ?thesis using buffered_line_delivers [OF "1.prems"(1-3) Some] by auto
  qed
next
  case (2 out_size e es buf wire)
  show ?case
  proof (cases "buffered_line out_size buf")
    case (Some x)
    then show ?thesis using buffered_line_delivers [OF "2.prems"(1-3) Some] by auto
  next
    case None
    note w = buffered_line_waits [OF "2.prems"(1,2) None]
    show ?thesis
    proof (cases e)
      case (NET_RECV n)
      obtain d w' where dw: "conn_read n (READER_BUFFER - length buf) wire = (d, w')" by (cases "conn_read n (READER_BUFFER - length buf) wire")
      have s: "wire = d @ w'" "d \<noteq> []"
        using dw w "2.prems"(2,4) NET_RECV by (auto simp: conn_read_def min_def split: if_splits)
      have len: "1 \<le> length d" using s(2) by (simp add: Suc_le_eq)
      have "\<exists>buf' wire'. read_line out_size es (buf @ d) w' = Some (1, strip_cr l, buf', wire') \<and> buf' @ wire' = r"
        by (rule "2.IH"(2) [OF None NET_RECV dw [symmetric] refl s(2)])
           (use "2.prems" s len NET_RECV in auto)
      then show ?thesis using None NET_RECV dw s(2) by simp
    qed (use 2 None in auto)
  qed
qed

section \<open>Properties\<close>

text \<open>Reading a line loses and invents nothing. On success the line is the first one of the stream (what
  is buffered followed by what is still on the wire), without its line feed and one carriage return before it,
  it fits the caller's buffer with its terminator, and the rest of the stream is exactly what follows. On every
  other return code the stream is untouched. The buffer never overflows.\<close>

theorem read_line_framing:
  assumes "read_line out_size es buf wire = Some (rc, line, buf', wire')" "length buf \<le> 65536"
  shows "length buf' \<le> 65536 \<and>
    (if rc = 1
     then \<exists>l. newline \<notin> set l \<and> buf @ wire = l @ newline # buf' @ wire' \<and> line = strip_cr l \<and> length line < out_size
     else rc \<in> {0, - 1, - 2, - 3} \<and> line = [] \<and> buf' @ wire' = buf @ wire)"
  using read_line_stream [OF assms(1)] assms(2) first_line_SomeD [of "buf @ wire"]
  by (auto simp: READER_BUFFER_def split: if_splits)

theorem read_line_framing_witness:
  "read_line 100 [NET_EINTR, NET_RECV 3] ''a'' (''b'' @ [CHR 0x0D, newline] @ ''cd'') = Some (1, ''ab'', [], ''cd'') \<and>
   length ''ab'' < (100 :: nat)"
proof -
  have r: "read_line 100 [NET_EINTR, NET_RECV 3] ''a'' (''b'' @ [CHR 0x0D, newline] @ ''cd'') = Some (1, ''ab'', [], ''cd'')"
    by (simp add: buffered_line_def READER_BUFFER_def conn_read_def strip_cr_def)
  show ?thesis using read_line_framing [OF r] r by (simp add: strip_cr_def del: read_line.simps)
qed

text \<open>C28. How the network cuts the stream into pieces does not matter: two readers that start with the same
  stream, however much of it each has buffered and whatever events each sees, read the same line when both
  succeed, and are left with the same stream.\<close>

theorem read_line_chunking:
  assumes "read_line out_size es1 buf1 wire1 = Some (1, line1, buf1', wire1')"
    "read_line out_size es2 buf2 wire2 = Some (1, line2, buf2', wire2')"
    "buf1 @ wire1 = buf2 @ wire2" "length buf1 \<le> 65536" "length buf2 \<le> 65536"
  shows "line1 = line2 \<and> buf1' @ wire1' = buf2' @ wire2'"
  using read_line_stream [OF assms(1)] read_line_stream [OF assms(2)] assms(3-5)
  by (auto simp: READER_BUFFER_def)

theorem read_line_chunking_witness:
  "\<exists>b1 w1 b2 w2. read_line 9 [NET_RECV 1, NET_RECV 1, NET_RECV 1] [] (''ok'' @ [newline]) = Some (1, ''ok'', b1, w1) \<and>
     read_line 9 [] (''ok'' @ [newline]) [] = Some (1, ''ok'', b2, w2) \<and> b1 @ w1 = b2 @ w2"
proof -
  have 1: "read_line 9 [NET_RECV 1, NET_RECV 1, NET_RECV 1] [] (''ok'' @ [newline]) = Some (1, ''ok'', [], [])"
    by (simp add: buffered_line_def READER_BUFFER_def conn_read_def strip_cr_def)
  have 2: "read_line 9 [] (''ok'' @ [newline]) [] = Some (1, ''ok'', [], [])"
    by (simp add: buffered_line_def READER_BUFFER_def strip_cr_def)
  show ?thesis using read_line_chunking [OF 1 2] 1 2 by blast
qed

text \<open>C29. A line of at most 65535 bytes that the pool has sent is delivered: as soon as the network has
  delivered as many pieces as the line has bytes (each at least one byte, interruptions do not count), the
  call returns it.\<close>

theorem read_line_delivers:
  assumes "newline \<notin> set l" "buf @ wire = l @ newline # r" "length l < 65536" "length (strip_cr l) < out_size"
    "list_all productive es" "Suc (length l) \<le> length buf + receives es"
  shows "\<exists>buf' wire'. read_line out_size es buf wire = Some (1, strip_cr l, buf', wire') \<and> buf' @ wire' = r"
  using assms by (intro read_line_progress_gen) (simp_all add: READER_BUFFER_def first_line_split)

theorem read_line_delivers_witness:
  "\<exists>buf' wire'. read_line 65536 [NET_RECV 10, NET_EINTR, NET_RECV 1, NET_RECV 2] [] (''{}'' @ newline # ''x'') =
     Some (1, ''{}'', buf', wire') \<and> buf' @ wire' = ''x''"
  using read_line_delivers [of "''{}''" "[]" "''{}'' @ newline # ''x''" "''x''" 65536
      "[NET_RECV 10, NET_EINTR, NET_RECV 1, NET_RECV 2]"]
  by (simp add: strip_cr_def del: read_line.simps)

end
