(* ===== verification/Stratum_Client.thy ===== *)
theory Stratum_Client
  imports Stratum_Protocol Pool_Url Line_Reader
begin

text \<open>
  The main loop of the client, \<open>stratum_run_client\<close> of \<open>src/src/stratum.c\<close>, with the keyboard commands. One
  turn of the loop is a function of the state and of what the outside world does in that turn: clock readings,
  keys, network events, whether each request can be sent. The statistics (windows of hash rates) are not part
  of the state.
\<close>

section \<open>Keyboard\<close>

text \<open>\<open>handle_keyboard_input\<close>: only pausing and resuming change the state; the other keys print.\<close>

definition handle_key :: "char \<Rightarrow> ('ctx, 'dev) stratum_state_t \<Rightarrow> ('ctx, 'dev) stratum_state_t" where
  "handle_key ch st =
    (case st_miner st of
       None \<Rightarrow> st
     | Some m \<Rightarrow>
        if ch = CHR ''h'' \<or> ch = CHR ''H'' then st
        else if ch = CHR ''p'' \<or> ch = CHR ''P'' then
          (if miner_is_paused m then st else st\<lparr>st_miner := Some (miner_set_paused True m)\<rparr>)
        else if ch = CHR ''r'' \<or> ch = CHR ''R'' then
          (if \<not> miner_is_paused m then st else st\<lparr>st_miner := Some (miner_set_paused False m)\<rparr>)
        else st)"

definition handle_keyboard_input :: "string \<Rightarrow> ('ctx, 'dev) stratum_state_t \<Rightarrow> ('ctx, 'dev) stratum_state_t" where
  "handle_keyboard_input keys st = fold handle_key keys st"

section \<open>Requests\<close>

definition send_subscribe :: "string \<Rightarrow> json_t" where
  "send_subscribe user_agent = request 1 ''mining.subscribe'' [JStr user_agent]"

definition send_authorize :: "string \<Rightarrow> string \<Rightarrow> json_t" where
  "send_authorize usr password = request 2 ''mining.authorize'' [JStr usr, JStr password]"

definition send_suggest_difficulty :: "real \<Rightarrow> json_t" where
  "send_suggest_difficulty d = request 3 ''mining.suggest_difficulty'' [JReal d]"

section \<open>The loop\<close>

record client_config =
  cc_user :: string
  cc_password :: string
  cc_suggest_difficulty :: real
  cc_stop_at :: real
  cc_session_seconds :: real

record ('ctx, 'dev) client =
  cl_state :: "('ctx, 'dev) stratum_state_t"
  cl_buffer :: string
  cl_wire :: string
  authorize_sent :: bool
  suggest_sent :: bool
  next_rpc_id :: int
  session_stop_at :: real

text \<open>What happens outside during one turn.\<close>

record 'ctx turn =
  t_clock_stop :: real
  t_clock_session :: real
  t_keys :: string
  t_submit_ok :: "int \<Rightarrow> bool"
  t_submit_clock :: "int \<Rightarrow> real"
  t_events :: "net_event list"
  t_env :: "'ctx stratum_env"
  t_authorize_ok :: bool
  t_suggest_ok :: bool
  t_clock_end :: real

datatype loop_result = LOOP_CONTINUE | LOOP_BREAK int

text \<open>The part of the loop after a line was read: authorize once after the subscription, suggest a difficulty
  once after the authorization, start the session clock with the first job. The flag tells whether the request
  could be sent.\<close>

definition maybe_authorize :: "client_config \<Rightarrow> bool \<Rightarrow> ('ctx, 'dev) client \<Rightarrow> bool \<times> json_t list \<times> ('ctx, 'dev) client" where
  "maybe_authorize cfg send_ok c =
    (if subscribed (cl_state c) \<and> \<not> authorize_sent c then
       if \<not> send_ok then (False, [], c)
       else (True, [send_authorize (cc_user cfg) (cc_password cfg)], c\<lparr>authorize_sent := True\<rparr>)
     else (True, [], c))"

definition maybe_suggest :: "client_config \<Rightarrow> bool \<Rightarrow> ('ctx, 'dev) client \<Rightarrow> bool \<times> json_t list \<times> ('ctx, 'dev) client" where
  "maybe_suggest cfg send_ok c =
    (if authorized (cl_state c) \<and> cc_suggest_difficulty cfg > 0 \<and> \<not> suggest_sent c then
       if \<not> send_ok then (False, [], c)
       else (True, [send_suggest_difficulty (cc_suggest_difficulty cfg)], c\<lparr>suggest_sent := True\<rparr>)
     else (True, [], c))"

definition maybe_start_session :: "client_config \<Rightarrow> real \<Rightarrow> ('ctx, 'dev) client \<Rightarrow> ('ctx, 'dev) client" where
  "maybe_start_session cfg now c =
    (if session_stop_at c = 0 \<and> cc_session_seconds cfg > 0 \<and> authorized (cl_state c) \<and> notify_count (cl_state c) > 0
     then c\<lparr>session_stop_at := now + cc_session_seconds cfg\<rparr> else c)"

definition after_line ::
  "(string \<Rightarrow> json_t option) \<Rightarrow> client_config \<Rightarrow> 'ctx turn \<Rightarrow> string \<Rightarrow> ('ctx, 'dev) client \<Rightarrow>
   loop_result \<times> json_t list \<times> ('ctx, 'dev) client" where
  "after_line loads cfg t line c =
    (let c = (if line \<noteq> [] then c\<lparr>cl_state := snd (stratum_process_line loads (t_env t) line (cl_state c))\<rparr> else c);
         (sent_ok, sent, c) = maybe_authorize cfg (t_authorize_ok t) c
     in if \<not> sent_ok then (LOOP_BREAK 1, sent, c)
        else
          let (sent_ok, sent2, c) = maybe_suggest cfg (t_suggest_ok t) c
          in if \<not> sent_ok then (LOOP_BREAK 1, sent @ sent2, c)
             else (LOOP_CONTINUE, sent @ sent2, maybe_start_session cfg (t_clock_end t) c))"

text \<open>One turn of the loop. \<open>None\<close>: the events do not say when the read ends.\<close>

definition client_turn ::
  "(string \<Rightarrow> json_t option) \<Rightarrow> client_config \<Rightarrow> 'ctx turn \<Rightarrow> ('ctx, 'dev) client \<Rightarrow>
   (loop_result \<times> json_t list \<times> ('ctx, 'dev) client) option" where
  "client_turn loads cfg t c =
    (if cc_stop_at cfg > 0 \<and> t_clock_stop t \<ge> cc_stop_at cfg then Some (LOOP_BREAK 0, [], c)
     else if session_stop_at c > 0 \<and> t_clock_session t \<ge> session_stop_at c then Some (LOOP_BREAK 0, [], c)
     else
       let st = handle_keyboard_input (t_keys t) (cl_state c);
           (rc, sent, nid, st) = flush_shares (t_submit_ok t) (t_submit_clock t) (cc_user cfg) (next_rpc_id c) st;
           c = c\<lparr>cl_state := st, next_rpc_id := nid\<rparr>
       in if rc \<noteq> 0 then Some (LOOP_BREAK 1, sent, c)
          else
            let c = c\<lparr>cl_state := maybe_roll_extranonce (t_env t) (cl_state c)\<rparr>
            in case read_line 65536 (t_events t) (cl_buffer c) (cl_wire c) of
                 None \<Rightarrow> None
               | Some (rc, line, buf, wire) \<Rightarrow>
                   let c = c\<lparr>cl_buffer := buf, cl_wire := wire\<rparr>
                   in if rc = - 3 then Some (LOOP_CONTINUE, sent, c)
                      else if rc = 0 then Some (LOOP_BREAK 1, sent, c)
                      else if rc < 0 then Some (LOOP_BREAK 1, sent, c)
                      else
                        let (res, sent2, c) = after_line loads cfg t line c
                        in Some (res, sent @ sent2, c))"

text \<open>Turn after turn, until the loop is left: the return code, all requests sent, the final state.\<close>

fun client_loop ::
  "(string \<Rightarrow> json_t option) \<Rightarrow> client_config \<Rightarrow> 'ctx turn list \<Rightarrow> ('ctx, 'dev) client \<Rightarrow>
   int option \<times> json_t list \<times> ('ctx, 'dev) client" where
  "client_loop loads cfg [] c = (None, [], c)"
| "client_loop loads cfg (t # ts) c =
    (case client_turn loads cfg t c of
       None \<Rightarrow> (None, [], c)
     | Some (LOOP_BREAK rc, sent, c') \<Rightarrow> (Some rc, sent, c')
     | Some (LOOP_CONTINUE, sent, c') \<Rightarrow>
         (case client_loop loads cfg ts c' of (rc, sent2, c'') \<Rightarrow> (rc, sent @ sent2, c'')))"

text \<open>Everything before the loop: the URL, the connection, the engine, the subscription. \<open>user_agent\<close> is the name
  the build generates, \<open>start\<close> is \<open>miner_start\<close> and \<open>stats_ok\<close> the allocation of the statistics. An error is the
  return code; otherwise the requests that were sent, and the client that enters the loop.\<close>

definition client_setup ::
  "string \<Rightarrow> (nat \<Rightarrow> open_attempt) \<Rightarrow> bool \<Rightarrow> ('ctx, 'dev) miner option \<Rightarrow>
   (('ctx, 'dev) miner \<Rightarrow> ('ctx, 'dev) miner option) \<Rightarrow> bool \<Rightarrow> bool \<Rightarrow> bool \<Rightarrow> real \<Rightarrow> real \<Rightarrow> string \<Rightarrow> string \<Rightarrow> string \<Rightarrow>
   int + json_t list \<times> ('ctx, 'dev) client" where
  "client_setup user_agent attempts enable_mining created start cpu_affinity stats_ok subscribe_ok now conn_time url usr wire =
    (case parse_pool_url url of
       None \<Rightarrow> Inl 2
     | Some endpoint \<Rightarrow>
        if fst (conn_open (\<lambda>n. conn_open_once (attempts n)) endpoint) = None then Inl 1
        else
          let st = (stratum_state_init now)\<lparr>pool_url := snprintf_s 256 url, pool_host := snprintf_s 256 (ep_host endpoint),
                     pool_port := snprintf_s 16 (ep_port endpoint), user := snprintf_s 256 usr,
                     connected_at := conn_time, connect_count := 1\<rparr>;
              mm = (case created of None \<Rightarrow> None | Some m \<Rightarrow> start (miner_set_cpu_affinity cpu_affinity m))
          in if enable_mining \<and> (mm = None \<or> \<not> stats_ok) then Inl 1
             else if \<not> subscribe_ok then Inl 1
             else Inr ([send_subscribe user_agent],
                       \<lparr>cl_state = (if enable_mining then st\<lparr>st_miner := mm\<rparr> else st), cl_buffer = [], cl_wire = wire,
                        authorize_sent = False, suggest_sent = False, next_rpc_id = 4, session_stop_at = 0\<rparr>))"

section \<open>Lemmas\<close>

fun msg_method :: "json_t \<Rightarrow> string" where
  "msg_method msg = json_string_or_empty (json_object_get msg ''method'')"

fun msg_id :: "json_t \<Rightarrow> int" where
  "msg_id msg = (case json_integer_value (json_object_get msg ''id'') of Some i \<Rightarrow> i | None \<Rightarrow> - 1)"

lemma msg_simps [simp]:
  "msg_method (request rid method ps) = method" "msg_id (request rid method ps) = rid"
  by (simp_all add: request_def json_string_or_empty_def)

declare msg_method.simps [simp del] msg_id.simps [simp del]

lemma msg_submit [simp]: "msg_method (submit_request rid u s) = ''mining.submit''" "msg_id (submit_request rid u s) = rid"
  by (simp_all add: submit_request_def)

lemma msg_authorize [simp]: "msg_method (send_authorize u p) = ''mining.authorize''" "msg_id (send_authorize u p) = 2"
  by (simp_all add: send_authorize_def)

lemma msg_suggest [simp]:
  "msg_method (send_suggest_difficulty d) = ''mining.suggest_difficulty''" "msg_id (send_suggest_difficulty d) = 3"
  by (simp_all add: send_suggest_difficulty_def)

abbreviation submits :: "json_t list \<Rightarrow> int list" where
  "submits msgs \<equiv> map msg_id (filter (\<lambda>m. msg_method m = ''mining.submit'') msgs)"

abbreviation count_method :: "string \<Rightarrow> json_t list \<Rightarrow> nat" where
  "count_method name msgs \<equiv> length (filter (\<lambda>m. msg_method m = name) msgs)"

text \<open>The requests of a flush carry the ids from \<open>nid\<close> on.\<close>

lemma flush_ids:
  assumes "flush_shares send_ok clock usr nid st = (rc, sent, nid', st')"
  shows "nid \<le> nid' \<and> map msg_id sent = [nid..nid + int (length sent) - 1] \<and> nid + int (length sent) \<le> nid' \<and>
    list_all (\<lambda>m. msg_method m = ''mining.submit'') sent"
  using assms
proof (induction send_ok clock usr nid st arbitrary: rc sent nid' st' rule: flush_shares.induct)
  case (1 send_ok clock usr nid st)
  show ?case
  proof (cases "st_miner st")
    case None
    then show ?thesis using "1.prems" by (simp add: flush_shares.simps [of send_ok clock usr nid st])
  next
    case (Some m)
    obtain x m' where p: "miner_pop_share m = (x, m')" by fastforce
    show ?thesis
    proof (cases x)
      case None
      then show ?thesis using flush_none [OF Some, of m'] p "1.prems" by auto
    next
      case x: (Some share)
      show ?thesis
      proof (cases "send_ok nid")
        case False
        then show ?thesis using flush_fail [OF Some, of share m' send_ok nid clock usr] p x "1.prems" by auto
      next
        case True
        let ?st = "register_pending_share nid share (clock nid) (st\<lparr>st_miner := Some m'\<rparr>)"
        obtain rc2 sent2 nid2 st2 where
          f: "flush_shares send_ok clock usr (nid + 1) (?st\<lparr>submit_count := submit_count ?st + 1\<rparr>) = (rc2, sent2, nid2, st2)"
          by (cases "flush_shares send_ok clock usr (nid + 1) (?st\<lparr>submit_count := submit_count ?st + 1\<rparr>)")
        have e: "sent = submit_request nid usr share # sent2" "nid' = nid2"
          using flush_one [OF Some _ True refl f, of] p x "1.prems" by auto
        have ih: "nid + 1 \<le> nid2 \<and> map msg_id sent2 = [nid + 1..nid + 1 + int (length sent2) - 1] \<and>
            nid + 1 + int (length sent2) \<le> nid2 \<and> list_all (\<lambda>m. msg_method m = ''mining.submit'') sent2"
          by (rule "1.IH" [OF Some p [symmetric] x refl refl _ refl f]) (simp add: True)
        have "[nid..nid + (1 + int (length sent2)) - 1] = nid # [nid + 1..nid + int (length sent2)]"
          by (subst upto.simps) simp
        then show ?thesis using ih e by simp
      qed
    qed
  qed
qed

lemma flush_submits:
  assumes "flush_shares send_ok clock usr nid st = (rc, sent, nid', st')"
  shows "submits sent = [nid..nid + int (length sent) - 1]" "nid + int (length sent) \<le> nid'" "nid \<le> nid'"
    "name \<noteq> ''mining.submit'' \<Longrightarrow> count_method name sent = 0"
proof -
  note f = flush_ids [OF assms]
  have "filter (\<lambda>m. msg_method m = ''mining.submit'') sent = sent" using f by (simp add: list_all_iff filter_id_conv)
  then show "submits sent = [nid..nid + int (length sent) - 1]" using f by simp
  show "nid + int (length sent) \<le> nid'" "nid \<le> nid'" using f by auto
  show "count_method name sent = 0" if "name \<noteq> ''mining.submit''"
    using f that by (auto simp: list_all_iff filter_empty_conv)
qed

text \<open>What a step of the loop may do to the client: ids only grow, each of the two one-time requests is sent
  when its flag is set, and only then.\<close>

definition sends_ok :: "('ctx, 'dev) client \<Rightarrow> json_t list \<Rightarrow> ('ctx, 'dev) client \<Rightarrow> bool" where
  "sends_ok c sent c' \<longleftrightarrow> next_rpc_id c \<le> next_rpc_id c' \<and>
     sorted_wrt (<) (submits sent) \<and> (\<forall>i \<in> set (submits sent). next_rpc_id c \<le> i \<and> i < next_rpc_id c') \<and>
     count_method ''mining.subscribe'' sent = 0 \<and>
     count_method ''mining.authorize'' sent + (if authorize_sent c then 1 else 0) = (if authorize_sent c' then 1 else 0) \<and>
     count_method ''mining.suggest_difficulty'' sent + (if suggest_sent c then 1 else 0) = (if suggest_sent c' then 1 else 0)"

lemma sends_ok_refl [simp]: "sends_ok c [] c"
  by (simp add: sends_ok_def)

lemma sends_ok_trans: "sends_ok c s1 c1 \<Longrightarrow> sends_ok c1 s2 c2 \<Longrightarrow> sends_ok c (s1 @ s2) c2"
proof -
  assume a: "sends_ok c s1 c1" and b: "sends_ok c1 s2 c2"
  have c: "\<forall>x \<in> set (submits s1). \<forall>y \<in> set (submits s2). x < y"
    using a b unfolding sends_ok_def by (meson order_less_le_trans)
  have "\<forall>i \<in> set (submits s1) \<union> set (submits s2). next_rpc_id c \<le> i \<and> i < next_rpc_id c2"
    using a b unfolding sends_ok_def by (meson Un_iff order_less_le_trans order_trans)
  then show ?thesis
    using a b c unfolding sends_ok_def filter_append map_append sorted_wrt_append length_append set_append by simp
qed

lemma sends_ok_silent:
  "next_rpc_id c' = next_rpc_id c \<Longrightarrow> authorize_sent c' = authorize_sent c \<Longrightarrow> suggest_sent c' = suggest_sent c \<Longrightarrow> sends_ok c [] c'"
  by (simp add: sends_ok_def)

lemma maybe_authorize_sends: "maybe_authorize cfg b c = (r, sent, c') \<Longrightarrow> sends_ok c sent c' \<and> cl_state c' = cl_state c \<and> cl_buffer c' = cl_buffer c"
  by (auto simp: maybe_authorize_def sends_ok_def split: if_splits)

lemma maybe_suggest_sends: "maybe_suggest cfg b c = (r, sent, c') \<Longrightarrow> sends_ok c sent c' \<and> cl_state c' = cl_state c \<and> cl_buffer c' = cl_buffer c"
  by (auto simp: maybe_suggest_def sends_ok_def split: if_splits)

lemma maybe_start_session_sends: "sends_ok c [] (maybe_start_session cfg now c)"
  "cl_state (maybe_start_session cfg now c) = cl_state c" "cl_buffer (maybe_start_session cfg now c) = cl_buffer c"
  by (simp_all add: maybe_start_session_def sends_ok_silent)

lemma flush_sends:
  assumes "flush_shares send_ok clock usr (next_rpc_id c) st = (rc, sent, nid, st')"
    "next_rpc_id c' = nid" "authorize_sent c' = authorize_sent c" "suggest_sent c' = suggest_sent c"
  shows "sends_ok c sent c'"
  using flush_submits [OF assms(1)] assms(2-) by (auto simp: sends_ok_def sorted_wrt_upto)

lemma after_line_facts:
  assumes "after_line loads cfg t line c = (res, sent, c')"
  shows "sends_ok c sent c'" "res \<in> {LOOP_CONTINUE, LOOP_BREAK 1}" "cl_buffer c' = cl_buffer c"
    "cl_state c' = (if line \<noteq> [] then snd (stratum_process_line loads (t_env t) line (cl_state c)) else cl_state c)"
proof -
  let ?c = "if line \<noteq> [] then c\<lparr>cl_state := snd (stratum_process_line loads (t_env t) line (cl_state c))\<rparr> else c"
  obtain r1 s1 c1 where a: "maybe_authorize cfg (t_authorize_ok t) ?c = (r1, s1, c1)" by (cases "maybe_authorize cfg (t_authorize_ok t) ?c")
  obtain r2 s2 c2 where s: "maybe_suggest cfg (t_suggest_ok t) c1 = (r2, s2, c2)" by (cases "maybe_suggest cfg (t_suggest_ok t) c1")
  have 0: "sends_ok c [] ?c" "cl_buffer ?c = cl_buffer c"
    "cl_state ?c = (if line \<noteq> [] then snd (stratum_process_line loads (t_env t) line (cl_state c)) else cl_state c)"
    by (simp_all add: sends_ok_silent)
  note 1 = maybe_authorize_sends [OF a] and 2 = maybe_suggest_sends [OF s] and 3 = maybe_start_session_sends [where c = c2 and cfg = cfg and now = "t_clock_end t"]
  have 01: "sends_ok c s1 c1" using sends_ok_trans [OF 0(1)] 1 by simp
  then have 02: "sends_ok c (s1 @ s2) c2" using sends_ok_trans 2 by blast
  then have 03: "sends_ok c (s1 @ s2) (maybe_start_session cfg (t_clock_end t) c2)" using sends_ok_trans [OF 02 3(1)] by simp
  have r: "(res, sent, c') = (if \<not> r1 then (LOOP_BREAK 1, s1, c1) else if \<not> r2 then (LOOP_BREAK 1, s1 @ s2, c2)
      else (LOOP_CONTINUE, s1 @ s2, maybe_start_session cfg (t_clock_end t) c2))"
    using assms a s unfolding after_line_def Let_def by (cases r1; cases r2; simp)
  show "sends_ok c sent c'" "res \<in> {LOOP_CONTINUE, LOOP_BREAK 1}" "cl_buffer c' = cl_buffer c"
    "cl_state c' = (if line \<noteq> [] then snd (stratum_process_line loads (t_env t) line (cl_state c)) else cl_state c)"
    using r 01 02 03 0 1 2 3 by (auto split: if_splits)
qed

text \<open>One turn: the cases of its outcome.\<close>

lemma client_turn_cases:
  assumes "client_turn loads cfg t c = Some (res, sent, c')"
  obtains (time_up) "res = LOOP_BREAK 0" "sent = []" "c' = c"
      "cc_stop_at cfg > 0 \<and> t_clock_stop t \<ge> cc_stop_at cfg \<or> session_stop_at c > 0 \<and> t_clock_session t \<ge> session_stop_at c"
    | (submit_failed) rc nid st where
      "flush_shares (t_submit_ok t) (t_submit_clock t) (cc_user cfg) (next_rpc_id c)
         (handle_keyboard_input (t_keys t) (cl_state c)) = (rc, sent, nid, st)"
      "res = LOOP_BREAK 1" "c' = c\<lparr>cl_state := st, next_rpc_id := nid\<rparr>"
    | (no_line) nid st rc line buf wire where
      "flush_shares (t_submit_ok t) (t_submit_clock t) (cc_user cfg) (next_rpc_id c)
         (handle_keyboard_input (t_keys t) (cl_state c)) = (0, sent, nid, st)"
      "read_line 65536 (t_events t) (cl_buffer c) (cl_wire c) = Some (rc, line, buf, wire)"
      "res = LOOP_CONTINUE \<and> rc = - 3 \<or> res = LOOP_BREAK 1 \<and> rc \<in> {0, - 1, - 2}"
      "c' = c\<lparr>next_rpc_id := nid, cl_state := maybe_roll_extranonce (t_env t) st, cl_buffer := buf, cl_wire := wire\<rparr>"
    | (line) nid st line buf wire sent1 sent2 where
      "flush_shares (t_submit_ok t) (t_submit_clock t) (cc_user cfg) (next_rpc_id c)
         (handle_keyboard_input (t_keys t) (cl_state c)) = (0, sent1, nid, st)"
      "read_line 65536 (t_events t) (cl_buffer c) (cl_wire c) = Some (1, line, buf, wire)"
      "after_line loads cfg t line (c\<lparr>next_rpc_id := nid, cl_state := maybe_roll_extranonce (t_env t) st,
         cl_buffer := buf, cl_wire := wire\<rparr>) = (res, sent2, c')" "sent = sent1 @ sent2"
proof -
  obtain rc s1 nid st where f: "flush_shares (t_submit_ok t) (t_submit_clock t) (cc_user cfg) (next_rpc_id c)
      (handle_keyboard_input (t_keys t) (cl_state c)) = (rc, s1, nid, st)"
    by (cases "flush_shares (t_submit_ok t) (t_submit_clock t) (cc_user cfg) (next_rpc_id c)
      (handle_keyboard_input (t_keys t) (cl_state c))")
  let ?time = "cc_stop_at cfg > 0 \<and> t_clock_stop t \<ge> cc_stop_at cfg \<or> session_stop_at c > 0 \<and> t_clock_session t \<ge> session_stop_at c"
  show ?thesis
  proof (cases "?time \<or> rc \<noteq> 0")
    case True
    then show ?thesis
      using assms f time_up submit_failed [of rc nid st] by (auto simp: client_turn_def Let_def split: if_splits)
  next
    case False
    then have nt: "\<not> (cc_stop_at cfg > 0 \<and> t_clock_stop t \<ge> cc_stop_at cfg)"
      "\<not> (session_stop_at c > 0 \<and> t_clock_session t \<ge> session_stop_at c)" "rc = 0" by auto
    then obtain rc2 line buf wire where
      r: "read_line 65536 (t_events t) (cl_buffer c) (cl_wire c) = Some (rc2, line, buf, wire)"
      using assms f unfolding client_turn_def Let_def by (auto split: option.splits)
    let ?c = "c\<lparr>next_rpc_id := nid, cl_state := maybe_roll_extranonce (t_env t) st, cl_buffer := buf, cl_wire := wire\<rparr>"
    obtain res2 s2 c2 where a: "after_line loads cfg t line ?c = (res2, s2, c2)" by (cases "after_line loads cfg t line ?c")
    have e: "(res, sent, c') = (if rc2 = - 3 then (LOOP_CONTINUE, s1, ?c) else if rc2 \<le> 0 then (LOOP_BREAK 1, s1, ?c)
        else (res2, s1 @ s2, c2))"
      using assms f r a unfolding client_turn_def Let_def if_not_P [OF nt(1)] if_not_P [OF nt(2)]
      by (cases "rc2 = - 3"; cases "rc2 = 0"; cases "rc2 < 0"; simp add: nt(3))
    show ?thesis
    proof (cases "rc2 = 1")
      case True
      then show ?thesis using e f r a False line [of s1 nid st line buf wire s2] by simp
    next
      case neq: False
      then have "rc2 \<in> {0, - 1, - 2, - 3}" using read_line_rc [OF r] by simp
      then show ?thesis using e f r False no_line [of nid st rc2] by auto
    qed
  qed
qed

lemma client_turn_sends:
  assumes "client_turn loads cfg t c = Some (res, sent, c')"
  shows "sends_ok c sent c'"
  using assms
proof (cases rule: client_turn_cases)
  case (line nid st line buf wire sent1 sent2)
  have "sends_ok c sent1 (c\<lparr>next_rpc_id := nid, cl_state := maybe_roll_extranonce (t_env t) st, cl_buffer := buf, cl_wire := wire\<rparr>)"
    by (rule flush_sends [OF line(1)]) simp_all
  from sends_ok_trans [OF this after_line_facts(1) [OF line(3)]] line(4) show ?thesis by simp
qed (auto intro: flush_sends)

lemma client_loop_sends: "client_loop loads cfg ts c = (rc, sent, c') \<Longrightarrow> sends_ok c sent c'"
proof (induction ts arbitrary: c sent)
  case (Cons t ts)
  show ?case
  proof (cases "client_turn loads cfg t c")
    case None
    then show ?thesis using Cons.prems by simp
  next
    case (Some r)
    obtain res s1 c1 where r: "r = (res, s1, c1)" by (cases r)
    note s = client_turn_sends [OF Some [unfolded r]]
    show ?thesis
    proof (cases res)
      case LOOP_CONTINUE
      obtain rc2 s2 c2 where l: "client_loop loads cfg ts c1 = (rc2, s2, c2)" by (cases "client_loop loads cfg ts c1")
      then have e: "rc = rc2" "sent = s1 @ s2" "c' = c2" using Cons.prems Some r LOOP_CONTINUE by auto
      with l have "client_loop loads cfg ts c1 = (rc, s2, c')" by simp
      from sends_ok_trans [OF s Cons.IH [OF this]] e show ?thesis by simp
    qed (use Cons.prems Some r s in auto)
  qed
qed simp

section \<open>The flags of the session\<close>

text \<open>A property of the state that survives the three changes a flush makes survives the flush.\<close>

lemma flush_keeps:
  assumes "flush_shares send_ok clock usr nid st = (rc, sent, nid', st')" "P st"
    "\<And>st m. P st \<Longrightarrow> st_miner st = Some m \<Longrightarrow> P (st\<lparr>st_miner := Some (snd (miner_pop_share m))\<rparr>)"
    "\<And>st rid share now. P st \<Longrightarrow> P (register_pending_share rid share now st)"
    "\<And>st n. P st \<Longrightarrow> P (st\<lparr>submit_count := n\<rparr>)"
  shows "P st'"
  using assms(1,2)
proof (induction send_ok clock usr nid st arbitrary: rc sent nid' st' rule: flush_shares.induct)
  case (1 send_ok clock usr nid st)
  show ?case
  proof (cases "st_miner st")
    case None
    then show ?thesis using "1.prems" by (simp add: flush_shares.simps [of send_ok clock usr nid st])
  next
    case (Some m)
    obtain x m' where p: "miner_pop_share m = (x, m')" by fastforce
    have q: "P (st\<lparr>st_miner := Some m'\<rparr>)" using assms(3) [OF "1.prems"(2) Some] p by simp
    show ?thesis
    proof (cases "x = None \<or> \<not> send_ok nid")
      case True
      then show ?thesis
        using flush_none [OF Some, of m'] flush_fail [OF Some, of _ m' send_ok nid clock usr] p q "1.prems" by (cases x) auto
    next
      case False
      then obtain share where x: "x = Some share" and ok: "send_ok nid" by auto
      let ?st = "register_pending_share nid share (clock nid) (st\<lparr>st_miner := Some m'\<rparr>)"
      obtain rc2 sent2 nid2 st2 where
        f: "flush_shares send_ok clock usr (nid + 1) (?st\<lparr>submit_count := submit_count ?st + 1\<rparr>) = (rc2, sent2, nid2, st2)"
        by (cases "flush_shares send_ok clock usr (nid + 1) (?st\<lparr>submit_count := submit_count ?st + 1\<rparr>)")
      have "P st2" by (rule "1.IH" [OF Some p [symmetric] x refl refl _ refl f]) (simp_all add: ok assms(4,5) q)
      moreover have "st' = st2" using flush_one [OF Some _ ok refl f] p x "1.prems" by auto
      ultimately show ?thesis by simp
    qed
  qed
qed

lemma register_flags [simp]:
  "subscribed (register_pending_share rid share now st) = subscribed st"
  "authorized (register_pending_share rid share now st) = authorized st"
  "extranonce2_counter (register_pending_share rid share now st) = extranonce2_counter st"
  by (simp_all add: register_pending_share_def Let_def)

lemma complete_flags [simp]:
  "subscribed (complete_pending_share rid acc now st) = subscribed st"
  by (simp add: complete_pending_share_def case_prod_beta Let_def)

lemma rebuild_flags [simp]:
  "subscribed (snd (rebuild_miner_job env st)) = subscribed st"
  "authorized (snd (rebuild_miner_job env st)) = authorized st"
  by (auto simp: rebuild_eq split: option.splits)

lemma roll_flags:
  "subscribed (maybe_roll_extranonce env st) = subscribed st \<and> authorized (maybe_roll_extranonce env st) = authorized st"
  by (simp add: maybe_roll_extranonce_def Let_def split: option.split prod.split)

lemma keyboard_flags:
  "subscribed (handle_keyboard_input keys st) = subscribed st \<and> authorized (handle_keyboard_input keys st) = authorized st"
proof -
  have "subscribed (handle_key ch st) = subscribed st \<and> authorized (handle_key ch st) = authorized st"
    for ch and st :: "('a, 'b) stratum_state_t"
    by (simp add: handle_key_def split: option.split)
  then show ?thesis unfolding handle_keyboard_input_def by (induction keys arbitrary: st) simp_all
qed

lemma flush_flags:
  assumes "flush_shares send_ok clock usr nid st = (rc, sent, nid', st')"
  shows "subscribed st' = subscribed st \<and> authorized st' = authorized st"
  by (rule flush_keeps [OF assms, where P = "\<lambda>s. subscribed s = subscribed st \<and> authorized s = authorized st"]) simp_all

text \<open>The pool cannot take a subscription back.\<close>

lemma store_template_subscribed: "store_template params st = (b, st') \<Longrightarrow> subscribed st' = subscribed st"
  by (erule store_template_inv) simp_all

lemma handlers_subscribed:
  "subscribed st \<Longrightarrow> subscribed (handle_response env msg st)"
  "subscribed st \<Longrightarrow> subscribed (handle_set_difficulty env params st)"
  "subscribed st \<Longrightarrow> subscribed (handle_set_extranonce env params st)"
  "subscribed st \<Longrightarrow> subscribed (handle_notify env params st)"
proof -
  assume st: "subscribed st"
  show "subscribed (handle_response env msg st)"
    using st by (simp add: handle_response_def Let_def split: option.split)
  show "subscribed (handle_set_difficulty env params st)"
    using st by (simp add: handle_set_difficulty_def Let_def split: option.split)
  show "subscribed (handle_set_extranonce env params st)"
    using st by (simp add: handle_set_extranonce_def Let_def split: option.split)
  show "subscribed (handle_notify env params st)"
    using st by (auto simp: handle_notify_def Let_def dest: store_template_subscribed split: prod.split)
qed

lemma process_line_subscribed: "subscribed st \<Longrightarrow> subscribed (snd (stratum_process_line loads env line st))"
  by (simp add: stratum_process_line_def handle_method_def handlers_subscribed Let_def split: option.split)

text \<open>The two guards, seen from the outside: what a turn sends, judged in the state it was sent in, and what the
  flags say between turns. A turn ends in the state in which its last requests were sent.\<close>

definition guarded_sends :: "client_config \<Rightarrow> json_t list \<Rightarrow> ('ctx, 'dev) client \<Rightarrow> bool" where
  "guarded_sends cfg sent c \<longleftrightarrow>
    (0 < count_method ''mining.authorize'' sent \<longrightarrow> subscribed (cl_state c)) \<and>
    (0 < count_method ''mining.suggest_difficulty'' sent \<longrightarrow> authorized (cl_state c) \<and> 0 < cc_suggest_difficulty cfg)"

definition flags_ok :: "client_config \<Rightarrow> bool \<Rightarrow> ('ctx, 'dev) client \<Rightarrow> bool" where
  "flags_ok cfg running c \<longleftrightarrow> (authorize_sent c \<longrightarrow> subscribed (cl_state c)) \<and>
    (running \<longrightarrow> (subscribed (cl_state c) \<longrightarrow> authorize_sent c) \<and>
       (authorized (cl_state c) \<and> 0 < cc_suggest_difficulty cfg \<longrightarrow> suggest_sent c))"

lemma flags_ok_frame:
  "flags_ok cfg running c \<Longrightarrow> subscribed (cl_state c') = subscribed (cl_state c) \<Longrightarrow>
   authorized (cl_state c') = authorized (cl_state c) \<Longrightarrow> authorize_sent c' = authorize_sent c \<Longrightarrow>
   suggest_sent c' = suggest_sent c \<Longrightarrow> flags_ok cfg running c'"
  by (simp add: flags_ok_def)

lemma guarded_append: "guarded_sends cfg s1 c \<Longrightarrow> guarded_sends cfg s2 c \<Longrightarrow> guarded_sends cfg (s1 @ s2) c"
  by (auto simp: guarded_sends_def)

lemma flush_guarded:
  assumes "flush_shares send_ok clock usr nid st = (rc, sent, nid', st')"
  shows "guarded_sends cfg sent c"
  using flush_submits(4) [OF assms] by (simp add: guarded_sends_def)

lemma maybe_authorize_flags:
  assumes "maybe_authorize cfg b c = (r, sent, c')" "authorize_sent c \<longrightarrow> subscribed (cl_state c)"
  shows "guarded_sends cfg sent c' \<and> (authorize_sent c' \<longrightarrow> subscribed (cl_state c')) \<and>
    (r \<longrightarrow> subscribed (cl_state c') \<longrightarrow> authorize_sent c')"
  using assms by (auto simp: maybe_authorize_def guarded_sends_def split: if_splits)

lemma maybe_suggest_flags:
  assumes "maybe_suggest cfg b c = (r, sent, c')"
  shows "guarded_sends cfg sent c' \<and> authorize_sent c' = authorize_sent c \<and>
    (r \<longrightarrow> authorized (cl_state c') \<and> 0 < cc_suggest_difficulty cfg \<longrightarrow> suggest_sent c')"
  using assms by (auto simp: maybe_suggest_def guarded_sends_def split: if_splits)

lemma after_line_flags:
  assumes "after_line loads cfg t line c = (res, sent, c')" "authorize_sent c \<longrightarrow> subscribed (cl_state c)"
  shows "guarded_sends cfg sent c' \<and> flags_ok cfg (res = LOOP_CONTINUE) c'"
proof -
  let ?c = "if line \<noteq> [] then c\<lparr>cl_state := snd (stratum_process_line loads (t_env t) line (cl_state c))\<rparr> else c"
  have inv: "authorize_sent ?c \<longrightarrow> subscribed (cl_state ?c)"
    using assms(2) process_line_subscribed [of "cl_state c" loads "t_env t" line] by simp
  obtain r1 s1 c1 where a: "maybe_authorize cfg (t_authorize_ok t) ?c = (r1, s1, c1)"
    by (cases "maybe_authorize cfg (t_authorize_ok t) ?c")
  obtain r2 s2 c2 where s: "maybe_suggest cfg (t_suggest_ok t) c1 = (r2, s2, c2)"
    by (cases "maybe_suggest cfg (t_suggest_ok t) c1")
  note 1 = maybe_authorize_flags [OF a inv] and 2 = maybe_suggest_flags [OF s]
  note st = maybe_suggest_sends [OF s]
  have "guarded_sends cfg s1 c2" using 1 st by (simp add: guarded_sends_def)
  then have g: "guarded_sends cfg (s1 @ s2) c2" using 2 by (intro guarded_append) simp_all
  have r: "(res, sent, c') = (if \<not> r1 then (LOOP_BREAK 1, s1, c1) else if \<not> r2 then (LOOP_BREAK 1, s1 @ s2, c2)
      else (LOOP_CONTINUE, s1 @ s2, maybe_start_session cfg (t_clock_end t) c2))"
    using assms(1) a s unfolding after_line_def Let_def by (cases r1; cases r2; simp)
  consider "\<not> r1" | "r1" "\<not> r2" | "r1" "r2" by blast
  then show ?thesis
  proof cases
    case 3
    have "guarded_sends cfg (s1 @ s2) (maybe_start_session cfg (t_clock_end t) c2)"
      using g by (simp add: guarded_sends_def maybe_start_session_def)
    moreover have "flags_ok cfg True (maybe_start_session cfg (t_clock_end t) c2)"
      using 1 2 3 st by (simp add: flags_ok_def maybe_start_session_def)
    ultimately show ?thesis using r 3 by simp
  qed (use r 1 2 g st in \<open>simp_all add: flags_ok_def\<close>)
qed

lemma client_turn_flags:
  assumes "client_turn loads cfg t c = Some (res, sent, c')" "flags_ok cfg True c"
  shows "guarded_sends cfg sent c' \<and> flags_ok cfg (res = LOOP_CONTINUE) c'"
proof -
  have weak: "flags_ok cfg True d \<Longrightarrow> flags_ok cfg running d" for running and d :: "('a, 'b) client"
    by (simp add: flags_ok_def)
  have f: "subscribed st = subscribed (cl_state c) \<and> authorized st = authorized (cl_state c)"
    if "flush_shares a b u n (handle_keyboard_input (t_keys t) (cl_state c)) = (rc, s, nid, st)" for a b u n rc s nid st
    using flush_flags [OF that] keyboard_flags [of "t_keys t" "cl_state c"] by simp
  from assms(1) show ?thesis
  proof (cases rule: client_turn_cases)
    case time_up
    then show ?thesis using assms(2) weak by (simp add: guarded_sends_def)
  next
    case (submit_failed rc nid st)
    have "flags_ok cfg True c'"
      by (rule flags_ok_frame [OF assms(2)]) (simp_all add: submit_failed(3) f [OF submit_failed(1)])
    then show ?thesis using weak flush_guarded [OF submit_failed(1)] by blast
  next
    case (no_line nid st rc line buf wire)
    have "flags_ok cfg True c'"
      by (rule flags_ok_frame [OF assms(2)]) (simp_all add: no_line(4) roll_flags f [OF no_line(1)])
    then show ?thesis using weak flush_guarded [OF no_line(1)] by blast
  next
    case (line nid st line buf wire sent1 sent2)
    have "guarded_sends cfg sent2 c' \<and> flags_ok cfg (res = LOOP_CONTINUE) c'"
      by (rule after_line_flags [OF line(3)]) (use assms(2) f [OF line(1)] in \<open>simp add: roll_flags flags_ok_def\<close>)
    then show ?thesis using guarded_append [OF flush_guarded [OF line(1)]] line(4) by blast
  qed
qed

text \<open>The log of a session: what each turn sent, and the client right after it.\<close>

fun client_log ::
  "(string \<Rightarrow> json_t option) \<Rightarrow> client_config \<Rightarrow> 'ctx turn list \<Rightarrow> ('ctx, 'dev) client \<Rightarrow>
   (json_t list \<times> ('ctx, 'dev) client) list" where
  "client_log loads cfg [] c = []"
| "client_log loads cfg (t # ts) c =
    (case client_turn loads cfg t c of
       None \<Rightarrow> []
     | Some (LOOP_BREAK rc, sent, c') \<Rightarrow> [(sent, c')]
     | Some (LOOP_CONTINUE, sent, c') \<Rightarrow> (sent, c') # client_log loads cfg ts c')"

lemma client_log_flags:
  "client_loop loads cfg ts c = (rc, sent, c') \<Longrightarrow> flags_ok cfg True c \<Longrightarrow>
   concat (map fst (client_log loads cfg ts c)) = sent \<and>
   (\<forall>(msgs, d) \<in> set (client_log loads cfg ts c). guarded_sends cfg msgs d) \<and> flags_ok cfg (rc = None) c'"
proof (induction ts arbitrary: c sent)
  case (Cons t ts)
  show ?case
  proof (cases "client_turn loads cfg t c")
    case None
    then show ?thesis using Cons.prems by simp
  next
    case (Some r)
    obtain res s1 c1 where r: "r = (res, s1, c1)" by (cases r)
    note s = client_turn_flags [OF Some [unfolded r] Cons.prems(2)]
    show ?thesis
    proof (cases res)
      case LOOP_CONTINUE
      obtain s2 where l: "client_loop loads cfg ts c1 = (rc, s2, c')" "sent = s1 @ s2"
        using Cons.prems(1) Some r LOOP_CONTINUE by (auto split: prod.splits)
      from Cons.IH [OF l(1)] s l(2) Some r LOOP_CONTINUE show ?thesis by simp
    qed (use Cons.prems Some r s in auto)
  qed
qed simp

section \<open>The steps of a connection\<close>

text \<open>Everything that can happen to the state of a connection, in any order: a line of the pool, the check for
  an exhausted nonce range, a key, a flush of the queue, and the work of the engine's threads in between, which
  change the engine but not the job it has. Only \<open>miner_set_job\<close> writes the job; a function that would do so is
  not a step of the threads and has no effect here.\<close>

datatype ('ctx, 'dev) conn_event =
    Ev_line "'ctx stratum_env" string
  | Ev_roll "'ctx stratum_env"
  | Ev_key char
  | Ev_flush "int \<Rightarrow> bool" "int \<Rightarrow> real" string int
  | Ev_engine "('ctx, 'dev) miner \<Rightarrow> ('ctx, 'dev) miner"

fun conn_step ::
  "(string \<Rightarrow> json_t option) \<Rightarrow> ('ctx, 'dev) conn_event \<Rightarrow> ('ctx, 'dev) stratum_state_t \<Rightarrow> ('ctx, 'dev) stratum_state_t" where
  "conn_step loads (Ev_line env line) st = snd (stratum_process_line loads env line st)"
| "conn_step loads (Ev_roll env) st = maybe_roll_extranonce env st"
| "conn_step loads (Ev_key ch) st = handle_key ch st"
| "conn_step loads (Ev_flush send_ok clock usr nid) st = snd (snd (snd (flush_shares send_ok clock usr nid st)))"
| "conn_step loads (Ev_engine f) st =
    (case st_miner st of
       None \<Rightarrow> st
     | Some m \<Rightarrow> if job (f m) = job m then st\<lparr>st_miner := Some (f m)\<rparr> else st)"

text \<open>The hash library behaves as documented in the events that use it.\<close>

fun event_contract :: "('ctx, 'dev) conn_event \<Rightarrow> bool" where
  "event_contract (Ev_line env line) = openssl_contract (se_ssl env)"
| "event_contract (Ev_roll env) = openssl_contract (se_ssl env)"
| "event_contract _ = True"

text \<open>The extranonce2 of every job that a sequence of events installs.\<close>

fun extranonces_used ::
  "(string \<Rightarrow> json_t option) \<Rightarrow> ('ctx, 'dev) conn_event list \<Rightarrow> ('ctx, 'dev) stratum_state_t \<Rightarrow> string list" where
  "extranonces_used loads [] st = []"
| "extranonces_used loads (ev # evs) st =
    (let st' = conn_step loads ev st
     in (if installed_seq st' \<noteq> installed_seq st then installed_extranonce2 st' else []) @
        extranonces_used loads evs st')"

lemma flush_counts:
  assumes "flush_shares send_ok clock usr nid st = (rc, sent, nid', st')"
  shows "counts_extranonce2 st st'"
proof -
  have "extranonce2_counter st' = extranonce2_counter st \<and> installed_seq st' = installed_seq st"
    by (rule flush_keeps [OF assms, where P = "\<lambda>s. extranonce2_counter s = extranonce2_counter st \<and> installed_seq s = installed_seq st"])
       (simp_all add: installed_seq_def miner_pop_share_def ring_pop_def Let_def)
  then show ?thesis by (simp add: counts_same)
qed

lemma key_counts: "counts_extranonce2 st (handle_key ch st)"
  by (rule counts_same)
     (simp_all add: handle_key_def installed_seq_def miner_set_paused_def Let_def split: option.split)

lemma conn_step_counts:
  assumes "event_contract ev"
  shows "counts_extranonce2 st (conn_step loads ev st)"
proof (cases ev)
  case (Ev_line env line)
  then show ?thesis using assms by (simp add: job_update_counts [OF process_line_update])
next
  case (Ev_roll env)
  then show ?thesis using assms by (simp add: roll_counts)
next
  case (Ev_key ch)
  then show ?thesis by (simp add: key_counts)
next
  case (Ev_flush send_ok clock usr nid)
  then show ?thesis by (cases "flush_shares send_ok clock usr nid st") (simp add: flush_counts)
next
  case (Ev_engine f)
  then show ?thesis by (auto simp: installed_seq_def intro!: counts_same split: option.split)
qed

lemma extranonces_used_increasing:
  assumes "\<forall>ev \<in> set evs. event_contract ev" "unat (extranonce2_counter st) + length evs < 2 ^ 64"
  shows "sorted_wrt (<) (map hex_num (extranonces_used loads evs st)) \<and>
    (\<forall>s \<in> set (extranonces_used loads evs st). unat (extranonce2_counter st) \<le> hex_num s)"
  using assms
proof (induction evs arbitrary: st)
  case (Cons ev evs)
  let ?st' = "conn_step loads ev st"
  have u: "counts_extranonce2 st ?st'" using Cons.prems(1) by (intro conn_step_counts) simp
  then have c: "extranonce2_counter ?st' = extranonce2_counter st \<or> extranonce2_counter ?st' = extranonce2_counter st + 1"
    by (simp add: counts_extranonce2_def)
  have plus: "unat (extranonce2_counter st + 1) = unat (extranonce2_counter st) + 1"
    using Cons.prems(2) by (simp add: unat_word_ariths)
  have ih: "sorted_wrt (<) (map hex_num (extranonces_used loads evs ?st')) \<and>
      (\<forall>s \<in> set (extranonces_used loads evs ?st'). unat (extranonce2_counter ?st') \<le> hex_num s)"
    using c plus Cons.prems by (intro Cons.IH) auto
  show ?case
  proof (cases "installed_seq ?st' = installed_seq st")
    case True
    then show ?thesis using ih c plus by (auto simp: Let_def)
  next
    case False
    with u have j: "map hex_num (installed_extranonce2 ?st') = [unat (extranonce2_counter st)]"
      "extranonce2_counter ?st' = extranonce2_counter st + 1"
      by (simp_all add: counts_extranonce2_def)
    obtain x where "installed_extranonce2 ?st' = [x]" "hex_num x = unat (extranonce2_counter st)"
      using j(1) by (cases "installed_extranonce2 ?st'") auto
    then show ?thesis using ih False j(2) plus by (auto simp: Let_def)
  qed
qed simp

text \<open>A turn of the loop is such a sequence: its keys, a flush, the check for an exhausted range, a line.\<close>

lemma keyboard_events: "handle_keyboard_input keys st = fold (conn_step loads) (map Ev_key keys) st"
  unfolding handle_keyboard_input_def by (induction keys arbitrary: st) simp_all

lemma client_turn_events:
  assumes "client_turn loads cfg t c = Some (res, sent, c')" "openssl_contract (se_ssl (t_env t))"
  shows "\<exists>evs. (\<forall>ev \<in> set evs. event_contract ev) \<and> length evs \<le> length (t_keys t) + 3 \<and>
    cl_state c' = fold (conn_step loads) evs (cl_state c)"
proof -
  let ?flush = "map Ev_key (t_keys t) @ [Ev_flush (t_submit_ok t) (t_submit_clock t) (cc_user cfg) (next_rpc_id c)]"
  have f: "st = fold (conn_step loads) ?flush (cl_state c)"
    if "flush_shares (t_submit_ok t) (t_submit_clock t) (cc_user cfg) (next_rpc_id c)
      (handle_keyboard_input (t_keys t) (cl_state c)) = (rc, s, nid, st)" for rc s nid st
    using that by (simp add: keyboard_events [symmetric])
  from assms(1) show ?thesis
  proof (cases rule: client_turn_cases)
    case time_up
    then show ?thesis by (intro exI [of _ "[]"]) simp
  next
    case (submit_failed rc nid st)
    then show ?thesis using f [OF submit_failed(1)] by (intro exI [of _ ?flush]) auto
  next
    case (no_line nid st rc line buf wire)
    then show ?thesis
      using f [OF no_line(1)] assms(2) by (intro exI [of _ "?flush @ [Ev_roll (t_env t)]"]) auto
  next
    case (line nid st line buf wire sent1 sent2)
    note a = after_line_facts(4) [OF line(3)]
    show ?thesis
      using f [OF line(1)] a assms(2)
      by (intro exI [of _ "?flush @ [Ev_roll (t_env t)] @ (if line \<noteq> [] then [Ev_line (t_env t) line] else [])"]) auto
  qed
qed

section \<open>Safety of the loop\<close>

definition client_ok :: "('ctx, 'dev) client \<Rightarrow> bool" where
  "client_ok c \<longleftrightarrow> stratum_ok (cl_state c) \<and> length (cl_buffer c) \<le> 65536"

lemma stratum_ok_key: "stratum_ok st \<Longrightarrow> stratum_ok (handle_key ch st)"
  by (auto simp: handle_key_def intro: stratum_ok_upd split: option.split)

lemma stratum_ok_keyboard: "stratum_ok st \<Longrightarrow> stratum_ok (handle_keyboard_input keys st)"
  unfolding handle_keyboard_input_def by (induction keys arbitrary: st) (auto intro: stratum_ok_key)

lemma client_turn_ok:
  assumes "client_turn loads cfg t c = Some (res, sent, c')" "client_ok c"
  shows "client_ok c'"
proof -
  have st: "stratum_ok st" if "flush_shares a b u n (handle_keyboard_input (t_keys t) (cl_state c)) = (rc, s, nid, st)" for a b u n rc s nid st
    using stratum_ok_flush [OF stratum_ok_keyboard, of "cl_state c" a b u n "t_keys t"] that assms(2) by (simp add: client_ok_def)
  have rd: "length buf \<le> 65536" if "read_line 65536 es (cl_buffer c) (cl_wire c) = Some (rc, line, buf, wire)" for es rc line buf wire
    using read_line_stream [OF that] assms(2) by (simp add: client_ok_def READER_BUFFER_def)
  from assms(1) show ?thesis
  proof (cases rule: client_turn_cases)
    case (line nid st' line buf wire sent1 sent2)
    then show ?thesis
      using st [OF line(1)] rd [OF line(2)] after_line_facts(3,4) [OF line(3)]
      by (auto simp: client_ok_def intro!: stratum_ok_process_line stratum_ok_roll)
  qed (use st rd assms(2) in \<open>auto simp: client_ok_def intro!: stratum_ok_roll\<close>)
qed

lemma client_loop_ok:
  "client_loop loads cfg ts c = (rc, sent, c') \<Longrightarrow> client_ok c \<Longrightarrow> client_ok c'"
  by (induction loads cfg ts c arbitrary: rc sent c' rule: client_loop.induct)
     (auto split: option.splits prod.splits loop_result.splits dest: client_turn_ok)

lemma client_setup_ok:
  assumes "client_setup ua attempts mining created start aff stats sub now conn_time url usr wire = Inr (first, c)"
  shows "client_ok c" "first = [send_subscribe ua]" "\<not> subscribed (cl_state c)" "\<not> authorized (cl_state c)" "next_rpc_id c = 4" "\<not> authorize_sent c" "\<not> suggest_sent c" "cl_wire c = wire"
proof -
  have s: "stratum_ok ((stratum_state_init now)\<lparr>pool_url := a, pool_host := b, pool_port := p, user := u,
      connected_at := conn_time, connect_count := 1\<rparr>)" for a b p u
    by (rule stratum_ok_frame [OF stratum_ok_init [of now]]) (simp_all add: pending_table.truncate_def)
  have f: "\<not> subscribed (stratum_state_init now)" "\<not> authorized (stratum_state_init now)"
    by (simp_all add: stratum_state_init_def)
  show "client_ok c" "first = [send_subscribe ua]" "\<not> subscribed (cl_state c)" "\<not> authorized (cl_state c)" "next_rpc_id c = 4"
    "\<not> authorize_sent c" "\<not> suggest_sent c" "cl_wire c = wire"
    using assms s f by (auto simp: client_setup_def client_ok_def Let_def intro!: stratum_ok_upd(10) split: option.splits if_splits)
qed

section \<open>Properties\<close>

text \<open>C27. The discipline of the protocol. In every session, however long and whatever the pool does: the
  first request is the subscription, and it is not repeated. The authorization is sent only in a state in which
  the pool has answered the subscription, the suggested difficulty only in one in which the pool has accepted the
  authorization and a difficulty is configured; both are seen in the log, which has, turn by turn, the requests and
  the client they left. Each of the two is sent at most once, exactly once if the session remembers it; and while
  the session runs they are not forgotten: a subscribed client has sent its authorization, an authorized one its
  suggestion if it has one. The requests for shares carry strictly increasing ids from 4 on, so no id is used twice
  and none collides with the three fixed ids; ids are unbounded here, so this holds for fewer than \<open>2 ^ 31\<close> requests
  on a connection.\<close>

theorem session_discipline:
  assumes "client_setup ua attempts mining created start aff stats sub now conn_time url usr wire = Inr (first, c)"
    "client_loop loads cfg ts c = (rc, sent, c')"
  shows "first = [send_subscribe ua] \<and> count_method ''mining.subscribe'' sent = 0 \<and>
    concat (map fst (client_log loads cfg ts c)) = sent \<and>
    (\<forall>(msgs, d) \<in> set (client_log loads cfg ts c).
       (0 < count_method ''mining.authorize'' msgs \<longrightarrow> subscribed (cl_state d)) \<and>
       (0 < count_method ''mining.suggest_difficulty'' msgs \<longrightarrow>
          authorized (cl_state d) \<and> 0 < cc_suggest_difficulty cfg)) \<and>
    \<not> subscribed (cl_state c) \<and> \<not> authorized (cl_state c) \<and>
    (authorize_sent c' \<longrightarrow> subscribed (cl_state c')) \<and>
    (rc = None \<and> subscribed (cl_state c') \<longrightarrow> authorize_sent c') \<and>
    (rc = None \<and> authorized (cl_state c') \<and> 0 < cc_suggest_difficulty cfg \<longrightarrow> suggest_sent c') \<and>
    sorted_wrt (<) (submits sent) \<and> (\<forall>i \<in> set (submits sent). 4 \<le> i) \<and>
    count_method ''mining.authorize'' sent = (if authorize_sent c' then 1 else 0) \<and>
    count_method ''mining.suggest_difficulty'' sent = (if suggest_sent c' then 1 else 0)"
proof -
  note c = client_setup_ok(2-7) [OF assms(1)]
  have "flags_ok cfg True c" using c by (simp add: flags_ok_def)
  note l = client_log_flags [OF assms(2) this]
  have "\<forall>(msgs, d) \<in> set (client_log loads cfg ts c).
      (0 < count_method ''mining.authorize'' msgs \<longrightarrow> subscribed (cl_state d)) \<and>
      (0 < count_method ''mining.suggest_difficulty'' msgs \<longrightarrow> authorized (cl_state d) \<and> 0 < cc_suggest_difficulty cfg)"
    using l unfolding guarded_sends_def by blast
  moreover have "(authorize_sent c' \<longrightarrow> subscribed (cl_state c')) \<and>
      (rc = None \<and> subscribed (cl_state c') \<longrightarrow> authorize_sent c') \<and>
      (rc = None \<and> authorized (cl_state c') \<and> 0 < cc_suggest_difficulty cfg \<longrightarrow> suggest_sent c')"
    using l by (simp add: flags_ok_def)
  moreover have "count_method ''mining.subscribe'' sent = 0 \<and>
      sorted_wrt (<) (submits sent) \<and> (\<forall>i \<in> set (submits sent). 4 \<le> i) \<and>
      count_method ''mining.authorize'' sent = (if authorize_sent c' then 1 else 0) \<and>
      count_method ''mining.suggest_difficulty'' sent = (if suggest_sent c' then 1 else 0)"
    using client_loop_sends [OF assms(2)] c by (simp add: sends_ok_def)
  ultimately show ?thesis using c l by blast
qed

text \<open>A session on which nothing happens in the first turn.\<close>

definition demo_turn :: "u32 list turn" where
  "demo_turn = \<lparr>t_clock_stop = 1, t_clock_session = 1, t_keys = ''p'', t_submit_ok = (\<lambda>i. True), t_submit_clock = (\<lambda>i. 1),
     t_events = [NET_RECV 100], t_env = \<lparr>se_ssl = openssl_ref, se_alloc = (\<lambda>n. True), se_fl = (\<lambda>x. x), se_now = 1\<rparr>,
     t_authorize_ok = True, t_suggest_ok = True, t_clock_end = 1\<rparr>"

definition demo_loads :: "string \<Rightarrow> json_t option" where
  "demo_loads line = Some (JObj [(''id'', JInt 1), (''result'', JArr [JNull, JStr ''abcd'', JInt 4])])"

definition demo_config :: client_config where
  "demo_config = \<lparr>cc_user = ''u'', cc_password = ''x'', cc_suggest_difficulty = 0, cc_stop_at = 0, cc_session_seconds = 0\<rparr>"

definition demo_attempts :: "nat \<Rightarrow> open_attempt" where
  "demo_attempts n = \<lparr>at_tcp = True, at_ctx = True, at_ssl = True, at_handshake = (\<lambda>verify. True)\<rparr>"

definition demo_setup :: "int + json_t list \<times> (u32 list, unit) client" where
  "demo_setup = client_setup ''agent'' demo_attempts False None Some False True True 0 0 ''tcp://h:1'' ''u'' (''r'' @ [newline])"

definition demo_client :: "(u32 list, unit) client" where
  "demo_client = \<lparr>cl_state = (stratum_state_init 0)\<lparr>pool_url := ''tcp://h:1'', pool_host := ''h'', pool_port := ''1'',
       user := ''u'', connected_at := 0, connect_count := 1\<rparr>,
     cl_buffer = [], cl_wire = ''r'' @ [newline], authorize_sent = False, suggest_sent = False, next_rpc_id = 4, session_stop_at = 0\<rparr>"

lemma demo_setup_ok: "demo_setup = Inr ([send_subscribe ''agent''], demo_client)"
proof -
  have u: "parse_pool_url ''tcp://h:1'' = Some \<lparr>ep_host = ''h'', ep_port = ''1'', ep_use_tls = False, ep_verify_tls = True\<rparr>"
    by (simp add: parse_pool_url_def url_scheme_def copy_checked_def)
  show ?thesis
    by (simp add: demo_setup_def demo_client_def client_setup_def u conn_open_def conn_open_once_def demo_attempts_def Let_def snprintf_s_def)
qed

lemma demo_authorizes:
  "fst (snd (client_loop demo_loads demo_config [demo_turn] demo_client)) = [send_authorize ''u'' ''x'']"
proof -
  have m: "st_miner (cl_state demo_client) = None" by (simp add: demo_client_def stratum_state_init_def)
  have f: "flush_shares a b u n (cl_state demo_client) = (0, [], n, cl_state demo_client)" for a b u n
    using m by (simp add: flush_shares.simps)
  have k: "handle_keyboard_input ''p'' (cl_state demo_client) = cl_state demo_client"
    "maybe_roll_extranonce e (cl_state demo_client) = cl_state demo_client" for e
    using m by (simp_all add: handle_keyboard_input_def handle_key_def maybe_roll_extranonce_def)
  have r: "read_line 65536 [NET_RECV 100] [] (''r'' @ [newline]) = Some (1, ''r'', [], [])"
    by (simp add: buffered_line_def READER_BUFFER_def conn_read_def strip_cr_def)
  have c: "cl_buffer demo_client = []" "cl_wire demo_client = ''r'' @ [newline]" "session_stop_at demo_client = 0"
    "\<not> authorize_sent demo_client" "\<not> authorized (cl_state demo_client)" "next_rpc_id demo_client = 4"
    by (simp_all add: demo_client_def stratum_state_init_def)
  show ?thesis
    using r by (simp add: client_turn_def demo_turn_def demo_config_def f k c del: read_line.simps)
      (simp add: after_line_def stratum_process_line_def demo_loads_def handle_response_def Let_def maybe_authorize_def
        maybe_suggest_def c)
qed

theorem session_discipline_witness:
  "client_setup ''agent'' demo_attempts False None Some False True True 0 0 ''tcp://h:1'' ''u'' (''r'' @ [newline]) =
     Inr ([send_subscribe ''agent''], demo_client) \<and>
   authorize_sent (snd (snd (client_loop demo_loads demo_config [demo_turn] demo_client))) \<and>
   subscribed (cl_state (snd (snd (client_loop demo_loads demo_config [demo_turn] demo_client))))"
proof -
  obtain rc sent c' where l: "client_loop demo_loads demo_config [demo_turn] demo_client = (rc, sent, c')"
    by (cases "client_loop demo_loads demo_config [demo_turn] demo_client")
  have s: "sent = [send_authorize ''u'' ''x'']" using demo_authorizes unfolding l by simp
  have "authorize_sent c' \<and> subscribed (cl_state c')"
    using session_discipline [OF demo_setup_ok [unfolded demo_setup_def] l] unfolding s by (simp split: if_split_asm)
  then show ?thesis using demo_setup_ok unfolding l demo_setup_def by simp
qed

text \<open>A subscribed client with a template, and the pool's change of difficulty.\<close>

definition demo_env_ref :: "u32 list stratum_env" where
  "demo_env_ref = \<lparr>se_ssl = openssl_ref, se_alloc = (\<lambda>n. True), se_fl = (\<lambda>x. x), se_now = 0\<rparr>"

definition demo_engine :: "(u32 list, unit) miner" where
  "demo_engine = the (miner_create_with_backend_options \<lparr>BTC_MINER_OPENCL = False, BTC_MINER_CUDA = False\<rparr>
     (True, True, True) [] 1 None None)"

definition demo_templated :: "(u32 list, unit) stratum_state_t" where
  "demo_templated = (stratum_state_init 0)\<lparr>st_miner := Some demo_engine, template_valid := True, template_job_id := ''j'',
     template_prevhash := hex_of_bytes (concat (map be32_bytes (replicate 8 0))),
     template_version := hex_of_bytes (be32_bytes 2), template_nbits := hex_of_bytes (be32_bytes 3),
     template_ntime := hex_of_bytes (be32_bytes 4), extranonce1 := ''aa'', extranonce2_size := 2\<rparr>"

definition demo_difficulty :: "string \<Rightarrow> json_t option" where
  "demo_difficulty line = Some (JObj [(''method'', JStr ''mining.set_difficulty''), (''params'', JArr [JInt 1])])"

text \<open>The threads use up the nonces of the job.\<close>

definition demo_events :: "(u32 list, unit) conn_event list" where
  "demo_events = [Ev_line demo_env_ref ''d'', Ev_engine (\<lambda>m. m\<lparr>nonce_exhausted := True\<rparr>), Ev_roll demo_env_ref,
     Ev_key CHR ''p'']"

lemma demo_format:
  "miner_format_extranonce2 32 2 1 = ''0001''" "miner_format_extranonce2 32 2 2 = ''0002''"
proof -
  have "miner_format_extranonce2 32 2 1 = pad_zeros 4 (hex_digits 1)" "miner_format_extranonce2 32 2 2 = pad_zeros 4 (hex_digits 2)"
    using format_extranonce2_eq [of 2 32 1] format_extranonce2_eq [of 2 32 2] by simp_all
  then show "miner_format_extranonce2 32 2 1 = ''0001''" "miner_format_extranonce2 32 2 2 = ''0002''"
    by (simp_all add: pad_zeros_def hex_digits.simps hex_digit_def numeral_eq_Suc)
qed

lemma demo_job_of:
  assumes "k \<in> {1, 2}"
  shows "\<exists>j. job_of demo_env_ref (demo_templated\<lparr>extranonce2_counter := k, st_miner := mm\<rparr>) = Some j \<and>
    job_extranonce2 j = miner_format_extranonce2 32 2 k"
proof -
  have h: "hex_to_alloc (\<lambda>n. True) ''aa0001'' = Some [0xaa, 0x00, 0x01]" "hex_to_alloc (\<lambda>n. True) ''aa0002'' = Some [0xaa, 0x00, 0x02]"
    by (simp_all add: hex_to_alloc_def hex_to_bytes_def hex_value_def less_eq_char_def)
  have "\<exists>j. miner_build_job openssl_ref (\<lambda>n. True) (\<lambda>x. x) ''j''
     (hex_of_bytes (concat (map be32_bytes (replicate 8 0)))) [] [] [] (hex_of_bytes (be32_bytes 2))
     (hex_of_bytes (be32_bytes 3)) (hex_of_bytes (be32_bytes 4)) ''aa'' en2 1 = Some j \<and> job_extranonce2 j = en2"
    if "en2 = ''0001'' \<or> en2 = ''0002''" for en2
    using that prevhash_words [of "replicate 8 0"] h by (auto simp: miner_build_job_Some_iff)
  moreover have "miner_format_extranonce2 32 2 k = ''0001'' \<or> miner_format_extranonce2 32 2 k = ''0002''"
    using assms demo_format by auto
  ultimately show ?thesis
    by (fastforce simp: job_of_def Let_def demo_env_ref_def demo_templated_def stratum_state_init_def)
qed

lemma demo_rebuild:
  assumes "k \<in> {1, 2}"
  shows "\<exists>j. snd (rebuild_miner_job demo_env_ref (demo_templated\<lparr>extranonce2_counter := k, st_miner := Some m\<rparr>)) =
      demo_templated\<lparr>extranonce2_counter := k + 1, st_miner := Some (miner_set_job openssl_ref j m)\<rparr> \<and>
    job_extranonce2 j = miner_format_extranonce2 32 2 k"
proof -
  obtain j where j: "job_of demo_env_ref (demo_templated\<lparr>extranonce2_counter := k, st_miner := Some m\<rparr>) = Some j"
    "job_extranonce2 j = miner_format_extranonce2 32 2 k"
    using demo_job_of [OF assms] by blast
  have "can_build (demo_templated\<lparr>extranonce2_counter := k, st_miner := Some m\<rparr>)" "se_ssl demo_env_ref = openssl_ref"
    by (simp_all add: can_build_def demo_templated_def demo_env_ref_def)
  then show ?thesis using j by (intro exI [of _ j]) (simp add: rebuild_eq)
qed

lemma demo_extranonces: "extranonces_used demo_difficulty demo_events demo_templated = [''0001'', ''0002'']"
proof -
  let ?D = "\<lambda>m k. demo_templated\<lparr>extranonce2_counter := k, st_miner := Some m\<rparr>"
  have start: "demo_templated = ?D demo_engine 1" "(?D m k)\<lparr>difficulty := 1\<rparr> = ?D m k" "template_valid demo_templated" for m k
    by (simp_all add: demo_templated_def stratum_state_init_def)
  obtain j1 where j1: "snd (rebuild_miner_job demo_env_ref (?D demo_engine 1)) = ?D (miner_set_job openssl_ref j1 demo_engine) 2"
    "job_extranonce2 j1 = ''0001''"
    using demo_rebuild [of 1 demo_engine] demo_format(1) by auto
  let ?m = "(miner_set_job openssl_ref j1 demo_engine)\<lparr>nonce_exhausted := False\<rparr>"
  obtain j2 where j2: "snd (rebuild_miner_job demo_env_ref (?D ?m 2)) = ?D (miner_set_job openssl_ref j2 ?m) 3"
    "job_extranonce2 j2 = ''0002''"
    using demo_rebuild [of 2 ?m] demo_format(2) by auto
  have line: "snd (stratum_process_line demo_difficulty demo_env_ref ''d'' demo_templated) =
      ?D (miner_set_job openssl_ref j1 demo_engine) 2"
    using j1(1) start(1) start(2) [where m = demo_engine and k = 1] start(3)
    by (simp add: stratum_process_line_def demo_difficulty_def handle_method_def handle_set_difficulty_def Let_def
        demo_env_ref_def)
  have roll: "maybe_roll_extranonce demo_env_ref (?D ((miner_set_job openssl_ref j1 demo_engine)\<lparr>nonce_exhausted := True\<rparr>) 2) =
      ?D (miner_set_job openssl_ref j2 ?m) 3"
    using j2(1) by (simp add: maybe_roll_extranonce_def miner_take_nonce_exhausted_def Let_def)
  have seq: "job_seq (public_job (job (miner_set_job openssl_ref j m))) = job_seq (public_job (job m)) + 1"
    "job_extranonce2 (public_job (job (miner_set_job openssl_ref j m))) = job_extranonce2 j" for j and m :: "(u32 list, unit) miner"
    by (simp_all add: miner_set_job_def Let_def ring_clear_def)
  have "installed_seq demo_templated = Some (job_seq (public_job (job demo_engine)))"
    by (subst start(1)) (simp add: installed_seq_def)
  moreover have "installed_seq (handle_key ch st) = installed_seq st" for ch and st :: "(u32 list, unit) stratum_state_t"
    by (simp add: handle_key_def installed_seq_def miner_set_paused_def Let_def split: option.split)
  ultimately show ?thesis
    using j1(2) j2(2)
    by (simp add: demo_events_def line roll installed_seq_def [of "demo_templated\<lparr>extranonce2_counter := _, st_miner := _\<rparr>"]
        installed_extranonce2_def seq)
qed

text \<open>C23. No extranonce2 is used twice on a connection. Take any interleaving of the things that happen on a
  connection: lines of the pool, the roll to a new extranonce2 when the nonces are used up, keys, submissions, and
  the work of the threads, which keep the job. The jobs installed on the way, by a line or by a roll, carry
  extranonce2 values that strictly increase, as long as the 64-bit counter does not wrap. Every turn of the client's
  loop is such a sequence of events, one for each key and at most three more.\<close>

theorem extranonce2_never_repeats:
  assumes "\<forall>ev \<in> set evs. event_contract ev" "unat (extranonce2_counter st) + length evs < 2 ^ 64"
  shows "distinct (extranonces_used loads evs st) \<and>
    sorted_wrt (<) (map hex_num (extranonces_used loads evs st)) \<and>
    (\<forall>cfg t c res sent c'. client_turn loads cfg t c = Some (res, sent, c') \<longrightarrow> openssl_contract (se_ssl (t_env t)) \<longrightarrow>
       (\<exists>evs'. (\<forall>ev \<in> set evs'. event_contract ev) \<and> length evs' \<le> length (t_keys t) + 3 \<and>
          cl_state (c' :: ('ctx, 'dev) client) = fold (conn_step loads) evs' (cl_state c)))"
proof (intro conjI allI impI)
  show s: "sorted_wrt (<) (map hex_num (extranonces_used loads evs st))"
    using extranonces_used_increasing [OF assms] by blast
  then have "distinct (map hex_num (extranonces_used loads evs st))" by (simp add: strict_sorted_iff)
  then show "distinct (extranonces_used loads evs st)" by (simp add: distinct_map)
qed (rule client_turn_events)

theorem extranonce2_never_repeats_witness:
  "extranonces_used demo_difficulty demo_events demo_templated = [''0001'', ''0002''] \<and>
   sorted_wrt (<) (map hex_num [''0001'', ''0002''])"
proof -
  have "\<forall>ev \<in> set demo_events. event_contract ev" "unat (extranonce2_counter demo_templated) + length demo_events < 2 ^ 64"
    by (simp_all add: demo_events_def demo_env_ref_def openssl_contract_ref demo_templated_def stratum_state_init_def)
  from extranonce2_never_repeats [OF this, of demo_difficulty] show ?thesis unfolding demo_extranonces by blast
qed

text \<open>Why the loop is left: with code 0 exactly when a time limit is reached, before anything is sent in
  that turn; with code 1 when a request cannot be sent or the connection fails or closes. No other code.\<close>

theorem loop_exit_codes:
  assumes "client_turn loads cfg t c = Some (LOOP_BREAK rc, sent, c')"
  shows "rc \<in> {0, 1} \<and>
    (rc = 0 \<longleftrightarrow> cc_stop_at cfg > 0 \<and> t_clock_stop t \<ge> cc_stop_at cfg \<or>
               session_stop_at c > 0 \<and> t_clock_session t \<ge> session_stop_at c) \<and>
    (rc = 0 \<longrightarrow> sent = [] \<and> c' = c)"
proof -
  let ?time = "cc_stop_at cfg > 0 \<and> t_clock_stop t \<ge> cc_stop_at cfg \<or>
    session_stop_at c > 0 \<and> t_clock_session t \<ge> session_stop_at c"
  have "?time \<Longrightarrow> client_turn loads cfg t c = Some (LOOP_BREAK 0, [], c)" by (auto simp: client_turn_def)
  then have up: "?time \<Longrightarrow> rc = 0" using assms by simp
  from assms show ?thesis
  proof (cases rule: client_turn_cases)
    case (line nid st line buf wire sent1 sent2)
    then show ?thesis using after_line_facts(2) [OF line(3)] up by auto
  qed (use up in auto)
qed

theorem loop_exit_codes_witness:
  "client_turn demo_loads (demo_config\<lparr>cc_stop_at := 1\<rparr>) demo_turn demo_client = Some (LOOP_BREAK 0, [], demo_client)"
proof -
  have t: "client_turn demo_loads (demo_config\<lparr>cc_stop_at := 1\<rparr>) demo_turn demo_client = Some (LOOP_BREAK 0, [], demo_client)"
    by (simp add: client_turn_def demo_turn_def)
  show ?thesis using loop_exit_codes [OF t] t by simp
qed

end
