(* ===== verification/Donation.thy ===== *)
theory Donation
  imports Prelude
begin

text \<open>
  The donation schedule, \<open>src/src/donation.c\<close>: of every cycle of 100 minutes of mining, as many minutes as the level
  says go to the address of the project. Floating point rounding is the parameter \<open>fl\<close>; the clock, the time of day and
  the process id, from which the length of the first period is drawn, are arguments.
\<close>

definition DONATION_DEFAULT_LEVEL :: int where "DONATION_DEFAULT_LEVEL = 1"
definition DONATION_MINIMUM_LEVEL :: int where "DONATION_MINIMUM_LEVEL = 1"
definition DONATION_CYCLE_MINUTES :: int where "DONATION_CYCLE_MINUTES = 100"
definition DONATION_USER :: string where "DONATION_USER = ''bc1qqz0wutk9kk5mmaf7fu4dm5w4fq4fhaah9hpzr3''"

lemmas donation_constants = DONATION_DEFAULT_LEVEL_def DONATION_MINIMUM_LEVEL_def DONATION_CYCLE_MINUTES_def

definition donation_seed :: "(real \<Rightarrow> real) \<Rightarrow> u64 \<Rightarrow> real \<Rightarrow> u64 \<Rightarrow> u64" where
  "donation_seed fl time_now clock pid =
    (let seed = time_now;
         seed = seed XOR word_of_int \<lfloor>fl (clock * 1000000)\<rfloor>;
         seed = seed XOR push_bit 32 pid;
         seed = seed XOR drop_bit 12 seed;
         seed = seed XOR push_bit 25 seed;
         seed = seed XOR drop_bit 27 seed
     in seed * 2685821657736338717)"

definition donation_level_valid :: "int \<Rightarrow> bool" where
  "donation_level_valid level \<longleftrightarrow> level \<ge> DONATION_MINIMUM_LEVEL \<and> level < DONATION_CYCLE_MINUTES"

definition donation_phase_seconds :: "(real \<Rightarrow> real) \<Rightarrow> int \<Rightarrow> bool \<Rightarrow> real" where
  "donation_phase_seconds fl level donating =
    (let minutes = (if donating then level else DONATION_CYCLE_MINUTES - level)
     in fl (of_int minutes * 60))"

definition donation_initial_user_seconds :: "(real \<Rightarrow> real) \<Rightarrow> u64 \<Rightarrow> int \<Rightarrow> real" where
  "donation_initial_user_seconds fl seed level =
    (let unit_value = fl (fl (real (unat (drop_bit 11 seed))) * fl (1 / 9007199254740992))
     in fl (donation_phase_seconds fl level False * fl (1 / 2 + unit_value)))"

text \<open>What the schedule needs of the floating point numbers: rounding is monotone, and numbers with a mantissa of at
  most 53 bits and a small exponent are exact.\<close>

definition ieee_double :: "(real \<Rightarrow> real) \<Rightarrow> bool" where
  "ieee_double fl \<longleftrightarrow> mono fl \<and>
    (\<forall>k :: int. \<forall>e :: nat. \<bar>k\<bar> \<le> 2 ^ 53 \<and> e \<le> 1000 \<longrightarrow> fl (of_int k / 2 ^ e) = of_int k / 2 ^ e)"

lemma ieee_double_id: "ieee_double (\<lambda>x. x)"
  by (simp add: ieee_double_def mono_def)

lemma ieee_double_exact: "ieee_double fl \<Longrightarrow> \<bar>k\<bar> \<le> 2 ^ 53 \<Longrightarrow> e \<le> 1000 \<Longrightarrow> fl (of_int k / 2 ^ e) = of_int k / 2 ^ e"
  by (simp add: ieee_double_def)

lemma ieee_double_int: "ieee_double fl \<Longrightarrow> \<bar>k\<bar> \<le> 2 ^ 53 \<Longrightarrow> fl (of_int k) = of_int k"
  using ieee_double_exact [of fl k 0] by simp

lemma ieee_double_mono: "ieee_double fl \<Longrightarrow> x \<le> y \<Longrightarrow> fl x \<le> fl y"
  by (auto simp: ieee_double_def mono_def)

lemma donation_phase_exact:
  assumes "ieee_double fl" "donation_level_valid level"
  shows "donation_phase_seconds fl level donating = of_int ((if donating then level else 100 - level) * 60)"
proof -
  let ?m = "(if donating then level else 100 - level)"
  have "\<bar>?m * 60\<bar> \<le> 2 ^ 53" using assms(2) by (simp add: donation_level_valid_def donation_constants)
  then have "fl (of_int (?m * 60)) = of_int (?m * 60)" by (rule ieee_double_int [OF assms(1)])
  then show ?thesis
    unfolding donation_phase_seconds_def Let_def DONATION_CYCLE_MINUTES_def of_int_mult of_int_numeral .
qed

lemma donation_initial_bounds:
  assumes fl: "ieee_double fl" and "donation_level_valid level"
  shows "of_int ((100 - level) * 30) \<le> donation_initial_user_seconds fl seed level \<and>
    donation_initial_user_seconds fl seed level \<le> of_int ((100 - level) * 90)"
proof -
  define n where "n = unat (drop_bit 11 seed)"
  let ?k = "int n"
  have "unat seed < 2 ^ LENGTH(64)" by (rule unsigned_less)
  then have "unat (drop_bit 11 seed) < 2 ^ 53" 
    unfolding unat_drop_bit_eq by (simp add: drop_bit_eq_div less_mult_imp_div_less)
  then have k: "0 \<le> ?k" "?k < 2 ^ 53" by (simp_all flip: n_def)
  have e: "fl (real n) = real n" "fl (1 / 9007199254740992) = 1 / 2 ^ 53" "fl (real n / 2 ^ 53) = real n / 2 ^ 53"
    using k ieee_double_int [OF fl, of ?k] ieee_double_exact [OF fl, of 1 53] ieee_double_exact [OF fl, of ?k 53] by simp_all
  have u: "fl (fl (real n) * fl (1 / 9007199254740992)) = of_int ?k / 2 ^ 53"
    unfolding e(1,2) using e(3) by (simp only: times_divide_eq_right mult_1_right of_int_of_nat_eq)
  let ?x = "1 / 2 + of_int ?k / 2 ^ 53 :: real"
  have "real_of_int ?k / 2 ^ 53 \<le> 1" using k by (simp add: divide_le_eq)
  then have x: "1 / 2 \<le> ?x" "?x \<le> 3 / 2" by simp_all
  have "fl (1 / 2) = 1 / 2" "fl (3 / 2) = 3 / 2"
    using ieee_double_exact [OF fl, of 1 1] ieee_double_exact [OF fl, of 3 1] by simp_all
  then have f: "1 / 2 \<le> fl ?x" "fl ?x \<le> 3 / 2" using x [THEN ieee_double_mono [OF fl]] by simp_all
  let ?p = "donation_phase_seconds fl level False"
  have p: "?p = of_int ((100 - level) * 60)" "0 \<le> ?p"
    using donation_phase_exact [OF assms, of False] assms(2) by (simp_all add: donation_level_valid_def donation_constants)
  have "?p * (1 / 2) \<le> ?p * fl ?x" "?p * fl ?x \<le> ?p * (3 / 2)" using f p(2) by (simp_all only: mult_left_mono)
  then have "of_int ((100 - level) * 30) \<le> ?p * fl ?x" "?p * fl ?x \<le> of_int ((100 - level) * 90)" by (simp_all add: p(1))
  then have "fl (of_int ((100 - level) * 30)) \<le> fl (?p * fl ?x)" "fl (?p * fl ?x) \<le> fl (of_int ((100 - level) * 90))"
    by (auto intro: ieee_double_mono [OF fl])
  moreover have "fl (of_int ((100 - level) * 30)) = of_int ((100 - level) * 30)"
    "fl (of_int ((100 - level) * 90)) = of_int ((100 - level) * 90)"
    using assms(2) by (intro ieee_double_int [OF fl]; simp add: donation_level_valid_def donation_constants)+
  ultimately show ?thesis by (simp add: donation_initial_user_seconds_def Let_def u flip: n_def)
qed

end
