(* ===== verification/App_Config.thy ===== *)
theory App_Config
  imports Options Donation
begin

text \<open>
  The settings of the miner application, \<open>src/src/stratum_main.c\<close>: their defaults, the configuration file and the
  command line. Boolean fields of the C structure are \<open>bool\<close>. Reading a file gives its bytes or nothing; parsing JSON
  and \<open>strtod\<close> are parameters, and so are the number of CPU threads the machine offers, what a self test returns and
  what the automatic tuning makes of the settings. \<open>fl\<close> rounds to a double.
\<close>

section \<open>Settings\<close>

definition MAX_POOLS :: nat where "MAX_POOLS = 8"
definition DEFAULT_POOL_URL :: string where "DEFAULT_POOL_URL = ''stratum+tls://public-pool.io:14333''"
definition DEFAULT_USER :: string where "DEFAULT_USER = ''bc1qqz0wutk9kk5mmaf7fu4dm5w4fq4fhaah9hpzr3''"
definition DEFAULT_PASSWORD :: string where "DEFAULT_PASSWORD = ''x''"
definition DEFAULT_SUGGEST_DIFFICULTY :: real where "DEFAULT_SUGGEST_DIFFICULTY = 1 / 1000"
definition DEFAULT_RETRIES :: int where "DEFAULT_RETRIES = - 1"
definition DEFAULT_RECONNECT_DELAY :: int where "DEFAULT_RECONNECT_DELAY = 2"
definition DEFAULT_STATS_INTERVAL :: real where "DEFAULT_STATS_INTERVAL = 5"
definition DEFAULT_AUTOTUNE_SECONDS :: real where "DEFAULT_AUTOTUNE_SECONDS = 3 / 2"

record pool_config_t =
  pc_url :: string
  pc_user :: string
  pc_pass :: string
  pc_difficulty :: real

record app_config_t =
  cfg_pools :: "pool_config_t list"
  cfg_pool_count :: int
  cfg_retries :: int
  cfg_reconnect_delay :: int
  cfg_thread_count :: int
  cfg_cpu_affinity :: bool
  cfg_cpu_enabled :: bool
  cfg_enable_mining :: bool
  cfg_autosave :: bool
  cfg_autotune_enabled :: bool
  cfg_cpu_autotune_done :: bool
  cfg_gpu_autotune_done :: bool
  cfg_opencl :: miner_opencl_config_t
  cfg_cuda :: miner_cuda_config_t
  cfg_runtime_seconds :: real
  cfg_stats_interval :: real
  cfg_autotune_seconds :: real
  cfg_donate_level :: int

definition empty_pool :: pool_config_t where
  "empty_pool = \<lparr>pc_url = [], pc_user = [], pc_pass = [], pc_difficulty = 0\<rparr>"

text \<open>The build has CUDA; without it the CUDA settings are all zero.\<close>

definition app_config_set_defaults :: "(real \<Rightarrow> real) \<Rightarrow> app_config_t" where
  "app_config_set_defaults fl =
    \<lparr>cfg_pools = \<lparr>pc_url = copy_string 256 (Some DEFAULT_POOL_URL), pc_user = copy_string 256 (Some DEFAULT_USER),
                  pc_pass = copy_string 128 (Some DEFAULT_PASSWORD), pc_difficulty = fl DEFAULT_SUGGEST_DIFFICULTY\<rparr> #
                 replicate (MAX_POOLS - 1) empty_pool,
     cfg_pool_count = 1, cfg_retries = DEFAULT_RETRIES, cfg_reconnect_delay = DEFAULT_RECONNECT_DELAY,
     cfg_thread_count = 0, cfg_cpu_affinity = False, cfg_cpu_enabled = True, cfg_enable_mining = True,
     cfg_autosave = True, cfg_autotune_enabled = True, cfg_cpu_autotune_done = False, cfg_gpu_autotune_done = False,
     cfg_opencl = miner_opencl_config_defaults, cfg_cuda = miner_cuda_config_defaults,
     cfg_runtime_seconds = 0, cfg_stats_interval = DEFAULT_STATS_INTERVAL,
     cfg_autotune_seconds = DEFAULT_AUTOTUNE_SECONDS, cfg_donate_level = DONATION_DEFAULT_LEVEL\<rparr>"

definition app_config_set_donate_level :: "int \<Rightarrow> app_config_t \<Rightarrow> app_config_t" where
  "app_config_set_donate_level level c = (if donation_level_valid level then c\<lparr>cfg_donate_level := level\<rparr> else c)"

section \<open>The configuration file\<close>

text \<open>A file that does not parse is tried again without a byte order mark. \<open>alloc\<close> tells whether memory for its
  contents is available.\<close>

definition json_load_file_allow_bom ::
  "(bytes \<Rightarrow> json_t option) \<Rightarrow> (nat \<Rightarrow> bool) \<Rightarrow> bytes option \<Rightarrow> json_t option" where
  "json_load_file_allow_bom loadb alloc file =
    (case file of
       None \<Rightarrow> None
     | Some buffer \<Rightarrow>
        (case loadb buffer of
           Some doc \<Rightarrow> Some doc
         | None \<Rightarrow>
            if length buffer < 3 \<or> \<not> alloc (length buffer) then None
            else if buffer ! 0 \<noteq> 0xef \<or> buffer ! 1 \<noteq> 0xbb \<or> buffer ! 2 \<noteq> 0xbf then None
            else loadb (drop 3 buffer)))"

text \<open>The same setting under several keys, read in turn: each starts from what the one before it left.\<close>

definition json_keys :: "(json_t option \<Rightarrow> 'v \<Rightarrow> 'v) \<Rightarrow> json_t option \<Rightarrow> string list \<Rightarrow> 'v \<Rightarrow> 'v" where
  "json_keys reader obj keys v = fold (\<lambda>k v. reader (json_member obj k) v) keys v"

definition json_opencl_backend :: "json_t option \<Rightarrow> int \<Rightarrow> int" where
  "json_opencl_backend v fallback = parse_opencl_backend_variant (json_string_value v) fallback"

definition json_opencl_kernel :: "json_t option \<Rightarrow> int \<Rightarrow> int" where
  "json_opencl_kernel v fallback = parse_opencl_kernel_variant (json_string_value v) fallback"

definition json_cuda_kernel :: "json_t option \<Rightarrow> int \<Rightarrow> int" where
  "json_cuda_kernel v fallback = parse_cuda_kernel_variant (json_string_value v) fallback"

definition load_autotune :: "(real \<Rightarrow> real) \<Rightarrow> json_t option \<Rightarrow> app_config_t \<Rightarrow> app_config_t" where
  "load_autotune fl autotune c =
    (if \<not> json_is_object autotune then c
     else
       c\<lparr>cfg_autotune_enabled := json_keys json_bool_value autotune [''enabled''] (cfg_autotune_enabled c),
         cfg_cpu_autotune_done :=
           json_keys json_bool_value autotune
             [''self-test'', ''self_test'', ''done'', ''completed'', ''cpu-self-test'', ''cpu_self_test'']
             (cfg_cpu_autotune_done c),
         cfg_gpu_autotune_done :=
           json_keys json_bool_value autotune
             [''gpu-self-test'', ''gpu_self_test'', ''opencl-self-test'', ''opencl_self_test'']
             (cfg_gpu_autotune_done c),
         cfg_autotune_seconds := json_keys (json_number_value_or fl) autotune [''seconds''] (cfg_autotune_seconds c)\<rparr>)"

definition load_cpu :: "json_t option \<Rightarrow> app_config_t \<Rightarrow> app_config_t" where
  "load_cpu cpu c =
    (if \<not> json_is_object cpu then c
     else c\<lparr>cfg_cpu_enabled := json_keys json_bool_value cpu [''enabled''] (cfg_cpu_enabled c),
            cfg_thread_count := json_keys json_int_value cpu [''threads''] (cfg_thread_count c),
            cfg_cpu_affinity := json_keys json_bool_value cpu [''affinity''] (cfg_cpu_affinity c)\<rparr>)"

definition load_opencl_device ::
  "miner_opencl_config_t \<Rightarrow> json_t option \<Rightarrow> miner_opencl_device_config_t" where
  "load_opencl_device ocl device =
    \<lparr>dev_platform = json_keys json_int_value device [''platform''] (ocl_platform ocl),
     dev_device = json_keys json_int_value device [''device''] (ocl_device ocl),
     dev_batch_size = json_keys json_u32_value device [''batch-size'', ''batch_size''] (ocl_batch_size ocl),
     dev_local_work_size =
       json_keys json_u32_value device [''local-work-size'', ''local_work_size''] (ocl_local_work_size ocl),
     dev_nonces_per_work_item =
       json_keys json_u32_value device [''nonces-per-work-item'', ''nonces_per_work_item'', ''npi'']
         (ocl_nonces_per_work_item ocl),
     dev_max_results = json_keys json_u32_value device [''max-results'', ''max_results''] (ocl_max_results ocl),
     dev_backend_variant =
       json_keys json_opencl_backend device [''backend'', ''backend-variant'', ''backend_variant''] (ocl_backend_variant ocl),
     dev_kernel_variant =
       json_keys json_opencl_kernel device [''kernel'', ''kernel-variant'', ''kernel_variant''] (ocl_kernel_variant ocl)\<rparr>"

definition load_opencl_devices :: "json_t list \<Rightarrow> miner_opencl_config_t \<Rightarrow> miner_opencl_config_t" where
  "load_opencl_devices devices ocl =
    fold (\<lambda>device ocl.
        if \<not> json_is_object (Some device) \<or> ocl_device_count ocl \<ge> MINER_OPENCL_MAX_DEVICES then ocl
        else ocl\<lparr>ocl_devices := (ocl_devices ocl)[nat (ocl_device_count ocl) := load_opencl_device ocl (Some device)],
                 ocl_device_count := ocl_device_count ocl + 1\<rparr>)
      devices (ocl\<lparr>ocl_device_count := 0, ocl_all_devices := False\<rparr>)"

definition load_opencl :: "json_t option \<Rightarrow> miner_opencl_config_t \<Rightarrow> miner_opencl_config_t" where
  "load_opencl opencl ocl =
    (if \<not> json_is_object opencl then ocl
     else
       let ocl = ocl\<lparr>
             ocl_enabled := json_keys json_bool_value opencl [''enabled''] (ocl_enabled ocl),
             ocl_all_devices := json_keys json_bool_value opencl [''all-devices'', ''all_devices''] (ocl_all_devices ocl),
             ocl_platform := json_keys json_int_value opencl [''platform''] (ocl_platform ocl),
             ocl_device := json_keys json_int_value opencl [''device''] (ocl_device ocl),
             ocl_batch_size := json_keys json_u32_value opencl [''batch-size'', ''batch_size''] (ocl_batch_size ocl),
             ocl_local_work_size :=
               json_keys json_u32_value opencl [''local-work-size'', ''local_work_size''] (ocl_local_work_size ocl),
             ocl_nonces_per_work_item :=
               json_keys json_u32_value opencl [''nonces-per-work-item'', ''nonces_per_work_item'', ''npi'']
                 (ocl_nonces_per_work_item ocl),
             ocl_max_results := json_keys json_u32_value opencl [''max-results'', ''max_results''] (ocl_max_results ocl),
             ocl_backend_variant :=
               json_keys json_opencl_backend opencl [''backend'', ''backend-variant'', ''backend_variant'']
                 (ocl_backend_variant ocl),
             ocl_kernel_variant :=
               json_keys json_opencl_kernel opencl [''kernel'', ''kernel-variant'', ''kernel_variant'']
                 (ocl_kernel_variant ocl)\<rparr>
       in case json_member opencl ''devices'' of
            Some (JArr devices) \<Rightarrow> load_opencl_devices devices ocl
          | _ \<Rightarrow> ocl)"

definition load_cuda :: "json_t option \<Rightarrow> miner_cuda_config_t \<Rightarrow> miner_cuda_config_t" where
  "load_cuda cuda cd =
    (if \<not> json_is_object cuda then cd
     else
       cd\<lparr>cuda_enabled := json_keys json_bool_value cuda [''enabled''] (cuda_enabled cd),
          cuda_device_index := json_keys json_int_value cuda [''device''] (cuda_device_index cd),
          cuda_batch_size := json_keys json_u32_value cuda [''batch-size'', ''batch_size''] (cuda_batch_size cd),
          cuda_threads_per_block :=
            json_keys json_u32_value cuda [''threads-per-block'', ''threads_per_block'', ''block''] (cuda_threads_per_block cd),
          cuda_nonces_per_thread :=
            json_keys json_u32_value cuda [''nonces-per-thread'', ''nonces_per_thread'', ''npt''] (cuda_nonces_per_thread cd),
          cuda_max_results := json_keys json_u32_value cuda [''max-results'', ''max_results''] (cuda_max_results cd),
          cuda_kernel_variant :=
            json_keys json_cuda_kernel cuda [''kernel'', ''kernel-variant'', ''kernel_variant''] (cuda_kernel_variant cd)\<rparr>)"

definition load_pool :: "(real \<Rightarrow> real) \<Rightarrow> string \<Rightarrow> json_t option \<Rightarrow> pool_config_t" where
  "load_pool fl url pool =
    (let user = copy_string 256 (json_string_value (json_member pool ''user''));
         pass = copy_string 128 (json_string_value (json_member pool ''pass''))
     in \<lparr>pc_url = copy_string 256 (Some url),
         pc_user = (if user = [] then copy_string 256 (Some DEFAULT_USER) else user),
         pc_pass = (if pass = [] then copy_string 128 (Some DEFAULT_PASSWORD) else pass),
         pc_difficulty = json_keys (json_number_value_or fl) pool [''diff'', ''difficulty''] (fl DEFAULT_SUGGEST_DIFFICULTY)\<rparr>)"

text \<open>The entries are written from the first on; the count is the second component.\<close>

definition load_pool_entry ::
  "(real \<Rightarrow> real) \<Rightarrow> json_t \<Rightarrow> pool_config_t list \<times> nat \<Rightarrow> pool_config_t list \<times> nat" where
  "load_pool_entry fl pool s =
    (case s of (ps, count) \<Rightarrow>
      if \<not> json_is_object (Some pool) \<or> count \<ge> MAX_POOLS then (ps, count)
      else
        (case json_string_value (json_object_get pool ''url'') of
           None \<Rightarrow> (ps, count)
         | Some url \<Rightarrow> if url = [] then (ps, count) else (ps[count := load_pool fl url (Some pool)], count + 1)))"

definition load_pools :: "(real \<Rightarrow> real) \<Rightarrow> json_t option \<Rightarrow> app_config_t \<Rightarrow> app_config_t" where
  "load_pools fl pools c =
    (case pools of
       Some (JArr entries) \<Rightarrow>
         (case fold (load_pool_entry fl) entries (cfg_pools c, 0) of
            (ps, count) \<Rightarrow>
              c\<lparr>cfg_pools := ps, cfg_pool_count := (if count > 0 then int count else cfg_pool_count c)\<rparr>)
     | _ \<Rightarrow> c)"

definition load_config_root :: "(real \<Rightarrow> real) \<Rightarrow> json_t option \<Rightarrow> app_config_t \<Rightarrow> app_config_t" where
  "load_config_root fl doc c =
    (let c = c\<lparr>cfg_autosave := json_keys json_bool_value doc [''autosave''] (cfg_autosave c)\<rparr>;
         c = load_autotune fl (json_member doc ''autotune'') c;
         c = load_cpu (json_member doc ''cpu'') c;
         c = c\<lparr>cfg_opencl := load_opencl (json_member doc ''opencl'') (cfg_opencl c)\<rparr>;
         c = c\<lparr>cfg_cuda := load_cuda (json_member doc ''cuda'') (cfg_cuda c)\<rparr>;
         c = c\<lparr>cfg_thread_count := json_keys json_int_value doc [''threads''] (cfg_thread_count c),
               cfg_retries := json_keys json_int_value doc [''retries''] (cfg_retries c),
               cfg_reconnect_delay :=
                 json_keys json_int_value doc [''retry-pause'', ''reconnect-delay''] (cfg_reconnect_delay c),
               cfg_stats_interval := json_keys (json_number_value_or fl) doc [''print-time'', ''stats''] (cfg_stats_interval c),
               cfg_runtime_seconds := json_keys (json_number_value_or fl) doc [''runtime''] (cfg_runtime_seconds c)\<rparr>;
         c = (case json_integer_value (json_member doc ''donate-level'') of
                Some level \<Rightarrow> app_config_set_donate_level (c_int level) c
              | None \<Rightarrow> c)
     in load_pools fl (json_member doc ''pools'') c)"

definition load_config_file ::
  "(real \<Rightarrow> real) \<Rightarrow> (bytes \<Rightarrow> json_t option) \<Rightarrow> (nat \<Rightarrow> bool) \<Rightarrow> bytes option \<Rightarrow> bool \<Rightarrow> app_config_t \<Rightarrow>
   int \<times> app_config_t" where
  "load_config_file fl loadb alloc file required c =
    (case json_load_file_allow_bom loadb alloc file of
       None \<Rightarrow> if required then (- 1, c) else (0, c)
     | Some doc \<Rightarrow> (0, load_config_root fl (Some doc) c))"

end
