(* ===== verification/App_Cli.thy ===== *)
theory App_Cli
  imports App_Config
begin

text \<open>
  The command line of the miner application and the last checks before it starts mining: \<open>find_config_arg\<close>,
  \<open>handle_early_command\<close>, \<open>app_config_autotune_required\<close> and the option loop of \<open>main\<close> in \<open>src/src/stratum_main.c\<close>.
  \<open>argv\<close> is the list of arguments after the program's name.
\<close>

section \<open>Options\<close>

text \<open>The settings with the flags of the option loop.\<close>

record cli =
  cli_config :: app_config_t
  cli_opencl_self_test :: bool
  cli_cuda_self_test :: bool
  cli_worker_override :: bool
  cli_force_autotune :: bool

text \<open>An argument ends the program with a return code, or is taken, alone or with its value.\<close>

datatype cli_result = CLI_EXIT int | CLI_FLAG cli | CLI_VALUE cli

definition find_config_arg :: "string list \<Rightarrow> string option" where
  "find_config_arg argv =
    (case filter (\<lambda>i. (argv ! i = ''-c'' \<or> argv ! i = ''--config'') \<and> i + 1 < length argv) [0..<length argv] of
       [] \<Rightarrow> None
     | i # _ \<Rightarrow> Some (argv ! (i + 1)))"

definition handle_early_command :: "int \<Rightarrow> string list \<Rightarrow> int" where
  "handle_early_command self_test argv =
    (case filter (\<lambda>a. a \<in> {''--self-test'', ''--version'', ''--cpu-info'', ''-h'', ''--help''}) argv of
       [] \<Rightarrow> - 1
     | a # _ \<Rightarrow> if a = ''--self-test'' then self_test else 0)"

text \<open>Changes of the settings, of the first pool and of the GPU settings.\<close>

definition upd_config :: "(app_config_t \<Rightarrow> app_config_t) \<Rightarrow> cli \<Rightarrow> cli" where
  "upd_config f c = c\<lparr>cli_config := f (cli_config c)\<rparr>"

definition upd_worker :: "(app_config_t \<Rightarrow> app_config_t) \<Rightarrow> cli \<Rightarrow> cli" where
  "upd_worker f c = c\<lparr>cli_config := f (cli_config c), cli_worker_override := True\<rparr>"

definition upd_pool :: "(pool_config_t \<Rightarrow> pool_config_t) \<Rightarrow> app_config_t \<Rightarrow> app_config_t" where
  "upd_pool f c = c\<lparr>cfg_pools := (cfg_pools c)[0 := f (cfg_pools c ! 0)]\<rparr>"

definition upd_opencl :: "(miner_opencl_config_t \<Rightarrow> miner_opencl_config_t) \<Rightarrow> app_config_t \<Rightarrow> app_config_t" where
  "upd_opencl f c = c\<lparr>cfg_opencl := f (cfg_opencl c)\<rparr>"

definition upd_cuda :: "(miner_cuda_config_t \<Rightarrow> miner_cuda_config_t) \<Rightarrow> app_config_t \<Rightarrow> app_config_t" where
  "upd_cuda f c = c\<lparr>cfg_cuda := f (cfg_cuda c)\<rparr>"

text \<open>A value that is parsed; one that is refused ends the program with code 2.\<close>

definition with_value :: "'v option \<Rightarrow> ('v \<Rightarrow> cli) \<Rightarrow> cli_result" where
  "with_value parsed k = (case parsed of None \<Rightarrow> CLI_EXIT 2 | Some v \<Rightarrow> CLI_VALUE (k v))"

definition nonneg :: "int \<Rightarrow> int option" where
  "nonneg v = (if v < 0 then None else Some v)"

definition INT_MAX :: int where "INT_MAX = 2147483647"
definition UINT32_MAX :: u32 where "UINT32_MAX = 0xffffffff"

text \<open>Options without a value.\<close>

definition cli_flag :: "int \<Rightarrow> string \<Rightarrow> cli \<Rightarrow> cli_result" where
  "cli_flag self_test a c =
    (if a = ''--self-test'' then CLI_EXIT self_test
     else if a = ''--version'' then CLI_EXIT 0
     else if a = ''--cpu-info'' then CLI_EXIT 0
     else if a = ''--no-mine'' then CLI_FLAG (upd_config (\<lambda>g. g\<lparr>cfg_enable_mining := False\<rparr>) c)
     else if a = ''--no-cpu'' then CLI_FLAG (upd_worker (\<lambda>g. g\<lparr>cfg_cpu_enabled := False\<rparr>) c)
     else if a = ''--cpu-affinity'' then CLI_FLAG (upd_worker (\<lambda>g. g\<lparr>cfg_cpu_affinity := True\<rparr>) c)
     else if a = ''--no-cpu-affinity'' then CLI_FLAG (upd_worker (\<lambda>g. g\<lparr>cfg_cpu_affinity := False\<rparr>) c)
     else if a = ''--opencl'' then CLI_FLAG (upd_worker (upd_opencl (\<lambda>ocl. ocl\<lparr>ocl_enabled := True\<rparr>)) c)
     else if a = ''--opencl-all'' then
       CLI_FLAG (upd_worker (upd_opencl (\<lambda>ocl. ocl\<lparr>ocl_enabled := True, ocl_all_devices := True, ocl_device_count := 0\<rparr>)) c)
     else if a = ''--opencl-self-test'' then
       CLI_FLAG (upd_config (upd_opencl (\<lambda>ocl. ocl\<lparr>ocl_enabled := True\<rparr>)) (c\<lparr>cli_opencl_self_test := True\<rparr>))
     else if a = ''--cuda'' then CLI_FLAG (upd_worker (upd_cuda (\<lambda>d. d\<lparr>cuda_enabled := True\<rparr>)) c)
     else if a = ''--cuda-self-test'' then
       CLI_FLAG (upd_config (upd_cuda (\<lambda>d. d\<lparr>cuda_enabled := True\<rparr>)) (c\<lparr>cli_cuda_self_test := True\<rparr>))
     else if a = ''--autotune'' then
       CLI_FLAG (upd_config (\<lambda>g. g\<lparr>cfg_autotune_enabled := True, cfg_cpu_autotune_done := False,
         cfg_gpu_autotune_done := False\<rparr>) (c\<lparr>cli_force_autotune := True\<rparr>))
     else if a = ''--no-autotune'' then CLI_FLAG (upd_config (\<lambda>g. g\<lparr>cfg_autotune_enabled := False\<rparr>) c)
     else if a = ''-h'' \<or> a = ''--help'' then CLI_EXIT 0
     else CLI_EXIT 2)"

text \<open>Options of the pool and the run that take a value, and those of the workers; \<open>None\<close>: another option.\<close>

definition cli_run_option :: "(string \<Rightarrow> real option \<times> string) \<Rightarrow> string \<Rightarrow> string \<Rightarrow> cli \<Rightarrow> cli_result option" where
  "cli_run_option strtod a v c =
    (if a = ''-c'' \<or> a = ''--config'' then Some (CLI_VALUE c)
     else if a = ''-o'' \<or> a = ''--url'' then
       Some (CLI_VALUE (upd_config (\<lambda>g.
         let g = upd_pool (\<lambda>p. p\<lparr>pc_url := copy_string 256 (Some v)\<rparr>) g
         in if cfg_pool_count g \<le> 0 then g\<lparr>cfg_pool_count := 1\<rparr> else g) c))
     else if a = ''-u'' \<or> a = ''--user'' then
       Some (CLI_VALUE (upd_config (upd_pool (\<lambda>p. p\<lparr>pc_user := copy_string 256 (Some v)\<rparr>)) c))
     else if a = ''-p'' \<or> a = ''--pass'' then
       Some (CLI_VALUE (upd_config (upd_pool (\<lambda>p. p\<lparr>pc_pass := copy_string 128 (Some v)\<rparr>)) c))
     else if a = ''-d'' \<or> a = ''--suggest-diff'' then
       Some (with_value (parse_double_option strtod v 0) (\<lambda>x. upd_config (upd_pool (\<lambda>p. p\<lparr>pc_difficulty := x\<rparr>)) c))
     else if a = ''-r'' \<or> a = ''--retries'' then
       Some (with_value (parse_int_option v (- 1) INT_MAX) (\<lambda>x. upd_config (\<lambda>g. g\<lparr>cfg_retries := x\<rparr>) c))
     else if a = ''-t'' \<or> a = ''--threads'' then
       Some (with_value (parse_int_option v 0 1024)
         (\<lambda>x. upd_worker (\<lambda>g. g\<lparr>cfg_thread_count := x, cfg_cpu_enabled := True\<rparr>) c))
     else if a = ''--runtime'' then
       Some (with_value (parse_double_option strtod v 0) (\<lambda>x. upd_config (\<lambda>g. g\<lparr>cfg_runtime_seconds := x\<rparr>) c))
     else if a = ''--stats'' then
       Some (with_value (parse_double_option strtod v 0) (\<lambda>x. upd_config (\<lambda>g. g\<lparr>cfg_stats_interval := x\<rparr>) c))
     else if a = ''--reconnect-delay'' then
       Some (with_value (parse_int_option v 0 INT_MAX) (\<lambda>x. upd_config (\<lambda>g. g\<lparr>cfg_reconnect_delay := x\<rparr>) c))
     else if a = ''--donate-level'' then
       Some (with_value (parse_int_option v 0 99) (\<lambda>x. upd_config (app_config_set_donate_level x) c))
     else if a = ''--autotune-seconds'' then
       Some (with_value (parse_double_option strtod v 0) (\<lambda>x. upd_config (\<lambda>g. g\<lparr>cfg_autotune_seconds := x\<rparr>) c))
     else None)"

definition cli_gpu_option :: "string \<Rightarrow> string \<Rightarrow> cli \<Rightarrow> cli_result option" where
  "cli_gpu_option a v c =
    (if a = ''--opencl-platform'' then
       Some (with_value (parse_int_option v 0 INT_MAX)
         (\<lambda>x. upd_worker (upd_opencl (\<lambda>ocl. ocl\<lparr>ocl_platform := x, ocl_all_devices := False, ocl_device_count := 0\<rparr>)) c))
     else if a = ''--opencl-device'' then
       Some (with_value (parse_int_option v 0 INT_MAX)
         (\<lambda>x. upd_worker (upd_opencl (\<lambda>ocl. ocl\<lparr>ocl_device := x, ocl_all_devices := False, ocl_device_count := 0\<rparr>)) c))
     else if a = ''--opencl-batch'' then
       Some (with_value (parse_u32_option v 0 UINT32_MAX) (\<lambda>x. upd_worker (upd_opencl (\<lambda>ocl. ocl\<lparr>ocl_batch_size := x\<rparr>)) c))
     else if a = ''--opencl-local'' then
       Some (with_value (parse_u32_option v 0 UINT32_MAX)
         (\<lambda>x. upd_worker (upd_opencl (\<lambda>ocl. ocl\<lparr>ocl_local_work_size := x\<rparr>)) c))
     else if a = ''--opencl-npi'' \<or> a = ''--opencl-nonces-per-work-item'' then
       Some (with_value (parse_u32_option v 0 UINT32_MAX)
         (\<lambda>x. upd_worker (upd_opencl (\<lambda>ocl. ocl\<lparr>ocl_nonces_per_work_item := x\<rparr>)) c))
     else if a = ''--opencl-backend'' then
       Some (with_value (nonneg (parse_opencl_backend_variant (Some v) (- 1)))
         (\<lambda>x. upd_worker (upd_opencl (\<lambda>ocl. ocl\<lparr>ocl_backend_variant := x\<rparr>)) c))
     else if a = ''--opencl-kernel'' then
       Some (with_value (nonneg (parse_opencl_kernel_variant (Some v) (- 1)))
         (\<lambda>x. upd_worker (upd_opencl (\<lambda>ocl. ocl\<lparr>ocl_kernel_variant := x\<rparr>)) c))
     else if a = ''--cuda-device'' then
       Some (with_value (parse_int_option v 0 INT_MAX) (\<lambda>x. upd_worker (upd_cuda (\<lambda>d. d\<lparr>cuda_device_index := x\<rparr>)) c))
     else if a = ''--cuda-batch'' then
       Some (with_value (parse_u32_option v 0 UINT32_MAX) (\<lambda>x. upd_worker (upd_cuda (\<lambda>d. d\<lparr>cuda_batch_size := x\<rparr>)) c))
     else if a = ''--cuda-block'' then
       Some (with_value (parse_u32_option v 0 UINT32_MAX)
         (\<lambda>x. upd_worker (upd_cuda (\<lambda>d. d\<lparr>cuda_threads_per_block := x\<rparr>)) c))
     else if a = ''--cuda-npt'' then
       Some (with_value (parse_u32_option v 0 UINT32_MAX)
         (\<lambda>x. upd_worker (upd_cuda (\<lambda>d. d\<lparr>cuda_nonces_per_thread := x\<rparr>)) c))
     else if a = ''--cuda-kernel'' then
       Some (with_value (nonneg (parse_cuda_kernel_variant (Some v) (- 1)))
         (\<lambda>x. upd_worker (upd_cuda (\<lambda>d. d\<lparr>cuda_kernel_variant := x\<rparr>)) c))
     else None)"

text \<open>One argument with the one after it, if there is one.\<close>

definition cli_option :: "(string \<Rightarrow> real option \<times> string) \<Rightarrow> int \<Rightarrow> string \<Rightarrow> string option \<Rightarrow> cli \<Rightarrow> cli_result" where
  "cli_option strtod self_test a nxt c =
    (case nxt of
       None \<Rightarrow> cli_flag self_test a c
     | Some v \<Rightarrow>
        (case cli_run_option strtod a v c of
           Some r \<Rightarrow> r
         | None \<Rightarrow> (case cli_gpu_option a v c of Some r \<Rightarrow> r | None \<Rightarrow> cli_flag self_test a c)))"

fun cli_options :: "(string \<Rightarrow> real option \<times> string) \<Rightarrow> int \<Rightarrow> string list \<Rightarrow> cli \<Rightarrow> int + cli" where
  "cli_options strtod self_test [] c = Inr c"
| "cli_options strtod self_test [a] c =
    (case cli_option strtod self_test a None c of
       CLI_EXIT rc \<Rightarrow> Inl rc | CLI_FLAG c' \<Rightarrow> Inr c' | CLI_VALUE c' \<Rightarrow> Inr c')"
| "cli_options strtod self_test (a # v # argv) c =
    (case cli_option strtod self_test a (Some v) c of
       CLI_EXIT rc \<Rightarrow> Inl rc
     | CLI_FLAG c' \<Rightarrow> cli_options strtod self_test (v # argv) c'
     | CLI_VALUE c' \<Rightarrow> cli_options strtod self_test argv c')"

section \<open>Before the start\<close>

text \<open>Which parts need the automatic tuning: of the CPU, of the GPU.\<close>

definition app_config_autotune_required :: "app_config_t \<Rightarrow> bool \<times> bool" where
  "app_config_autotune_required c =
    (if \<not> cfg_autotune_enabled c \<or> \<not> cfg_enable_mining c then (False, False)
     else (cfg_cpu_enabled c \<and> cfg_thread_count c > 0 \<and> \<not> cfg_cpu_autotune_done c,
           (ocl_enabled (cfg_opencl c) \<or> cuda_enabled (cfg_cuda c)) \<and> \<not> cfg_gpu_autotune_done c))"

text \<open>The repairs of the settings after the options were read.\<close>

definition repair_app_config :: "int \<Rightarrow> app_config_t \<Rightarrow> app_config_t" where
  "repair_app_config default_thread_count c =
    (let c = (if cfg_cpu_enabled c \<and> cfg_thread_count c \<le> 0 then c\<lparr>cfg_thread_count := default_thread_count\<rparr> else c);
         c = (if \<not> cfg_cpu_enabled c then c\<lparr>cfg_thread_count := 0\<rparr> else c);
         c = (if cfg_reconnect_delay c < 0 then c\<lparr>cfg_reconnect_delay := DEFAULT_RECONNECT_DELAY\<rparr> else c);
         c = (if cfg_stats_interval c < 0 then c\<lparr>cfg_stats_interval := 0\<rparr> else c)
     in c)"

text \<open>The settings as \<open>main\<close> has them before the automatic tuning: the program ends with a return code, or goes on
  with the settings and the flags of the option loop.\<close>

definition app_settings ::
  "(real \<Rightarrow> real) \<Rightarrow> (bytes \<Rightarrow> json_t option) \<Rightarrow> (nat \<Rightarrow> bool) \<Rightarrow> (string \<Rightarrow> bytes option) \<Rightarrow> (string \<Rightarrow> real option \<times> string) \<Rightarrow>
   bool \<Rightarrow> int \<Rightarrow> (miner_opencl_config_t \<Rightarrow> int) \<Rightarrow> (miner_cuda_config_t \<Rightarrow> int) \<Rightarrow> int \<Rightarrow> string list \<Rightarrow> int + cli" where
  "app_settings fl loadb alloc read_file strtod sha_backend_ok self_test opencl_self_test cuda_self_test
     default_thread_count argv =
    (if \<not> sha_backend_ok then Inl 2
     else if handle_early_command self_test argv \<ge> 0 then Inl (handle_early_command self_test argv)
     else
       let c = app_config_set_defaults fl;
           (rc, c) =
             (case find_config_arg argv of
                Some path \<Rightarrow> load_config_file fl loadb alloc (read_file path) True c
              | None \<Rightarrow>
                 if read_file ''config.json'' \<noteq> None
                 then load_config_file fl loadb alloc (read_file ''config.json'') False c
                 else (0, c))
       in if rc \<noteq> 0 then Inl 1
          else
            (case cli_options strtod self_test argv
                \<lparr>cli_config = c, cli_opencl_self_test = False, cli_cuda_self_test = False,
                 cli_worker_override = False, cli_force_autotune = False\<rparr> of
               Inl rc \<Rightarrow> Inl rc
             | Inr opts \<Rightarrow>
                let c = cli_config opts
                in if cli_opencl_self_test opts then Inl (opencl_self_test (cfg_opencl c))
                   else if cli_cuda_self_test opts then Inl (cuda_self_test (cfg_cuda c))
                   else if cfg_pool_count c \<le> 0 then Inl 1
                   else
                     let c = repair_app_config default_thread_count c
                     in if \<not> donation_level_valid (cfg_donate_level c) then Inl 2
                        else Inr (opts\<lparr>cli_config :=
                          (if \<not> cfg_autotune_seconds c \<ge> 1 / 4 then c\<lparr>cfg_autotune_seconds := 1 / 4\<rparr> else c)\<rparr>)))"

text \<open>Whether the settings are tuned before the start, and whether the program mines with the settings it has then.\<close>

definition autotune_runs :: "cli \<Rightarrow> bool" where
  "autotune_runs opts =
    (case app_config_autotune_required (cli_config opts) of
       (cpu, gpu) \<Rightarrow> (cpu \<or> gpu) \<and> \<not> (cli_worker_override opts \<and> \<not> cli_force_autotune opts \<and> \<not> gpu))"

definition mining_enabled :: "app_config_t \<Rightarrow> bool" where
  "mining_enabled c \<longleftrightarrow>
    cfg_enable_mining c \<and> (cfg_cpu_enabled c \<or> ocl_enabled (cfg_opencl c) \<or> cuda_enabled (cfg_cuda c))"

section \<open>Lemmas\<close>

definition pool_fits :: "pool_config_t \<Rightarrow> bool" where
  "pool_fits p \<longleftrightarrow> length (pc_url p) < 256 \<and> length (pc_user p) < 256 \<and> length (pc_pass p) < 128"

definition opencl_ok :: "miner_opencl_config_t \<Rightarrow> bool" where
  "opencl_ok ocl \<longleftrightarrow> 0 \<le> ocl_device_count ocl \<and> ocl_device_count ocl \<le> MINER_OPENCL_MAX_DEVICES \<and> length (ocl_devices ocl) = 8"

definition app_config_ok :: "app_config_t \<Rightarrow> bool" where
  "app_config_ok c \<longleftrightarrow> length (cfg_pools c) = MAX_POOLS \<and> list_all pool_fits (cfg_pools c) \<and>
    1 \<le> cfg_pool_count c \<and> cfg_pool_count c \<le> 8 \<and> donation_level_valid (cfg_donate_level c) \<and> opencl_ok (cfg_opencl c)"

lemma app_config_ok_update [simp]:
  "app_config_ok (c\<lparr>cfg_retries := i\<rparr>) = app_config_ok c"
  "app_config_ok (c\<lparr>cfg_reconnect_delay := i\<rparr>) = app_config_ok c"
  "app_config_ok (c\<lparr>cfg_thread_count := i\<rparr>) = app_config_ok c"
  "app_config_ok (c\<lparr>cfg_cpu_affinity := b\<rparr>) = app_config_ok c"
  "app_config_ok (c\<lparr>cfg_cpu_enabled := b\<rparr>) = app_config_ok c"
  "app_config_ok (c\<lparr>cfg_enable_mining := b\<rparr>) = app_config_ok c"
  "app_config_ok (c\<lparr>cfg_autosave := b\<rparr>) = app_config_ok c"
  "app_config_ok (c\<lparr>cfg_autotune_enabled := b\<rparr>) = app_config_ok c"
  "app_config_ok (c\<lparr>cfg_cpu_autotune_done := b\<rparr>) = app_config_ok c"
  "app_config_ok (c\<lparr>cfg_gpu_autotune_done := b\<rparr>) = app_config_ok c"
  "app_config_ok (c\<lparr>cfg_cuda := d\<rparr>) = app_config_ok c"
  "app_config_ok (c\<lparr>cfg_runtime_seconds := x\<rparr>) = app_config_ok c"
  "app_config_ok (c\<lparr>cfg_stats_interval := x\<rparr>) = app_config_ok c"
  "app_config_ok (c\<lparr>cfg_autotune_seconds := x\<rparr>) = app_config_ok c"
  by (simp_all add: app_config_ok_def)

lemma app_config_ok_opencl: "app_config_ok c \<Longrightarrow> opencl_ok ocl \<Longrightarrow> app_config_ok (c\<lparr>cfg_opencl := ocl\<rparr>)"
  by (simp add: app_config_ok_def)

lemma app_config_ok_openclD: "app_config_ok c \<Longrightarrow> opencl_ok (cfg_opencl c)"
  by (simp add: app_config_ok_def)

lemma app_config_ok_defaults: "app_config_ok (app_config_set_defaults fl)"
  by (simp add: app_config_ok_def app_config_set_defaults_def pool_fits_def empty_pool_def MAX_POOLS_def length_copy_string
      donation_level_valid_def donation_constants miner_opencl_config_defaults_def MINER_OPENCL_MAX_DEVICES_def list_all_iff opencl_ok_def)

text \<open>The configuration file.\<close>

lemma opencl_ok_devices: "length (ocl_devices ocl) = 8 \<Longrightarrow> opencl_ok (load_opencl_devices devices ocl)"
proof -
  have "opencl_ok o1 \<Longrightarrow> opencl_ok (fold (\<lambda>device ocl.
        if \<not> json_is_object (Some device) \<or> ocl_device_count ocl \<ge> MINER_OPENCL_MAX_DEVICES then ocl
        else ocl\<lparr>ocl_devices := (ocl_devices ocl)[nat (ocl_device_count ocl) := load_opencl_device ocl (Some device)],
                 ocl_device_count := ocl_device_count ocl + 1\<rparr>) devices o1)" for o1
    by (induction devices arbitrary: o1) (simp_all add: opencl_ok_def)
  then show "length (ocl_devices ocl) = 8 \<Longrightarrow> opencl_ok (load_opencl_devices devices ocl)"
    by (simp add: load_opencl_devices_def opencl_ok_def MINER_OPENCL_MAX_DEVICES_def)
qed

lemma opencl_ok_load: "opencl_ok ocl \<Longrightarrow> opencl_ok (load_opencl obj ocl)"
  unfolding load_opencl_def Let_def
  by (auto intro!: opencl_ok_devices split: option.split json_t.split) (simp_all add: opencl_ok_def)

definition pools_ok :: "pool_config_t list \<times> nat \<Rightarrow> bool" where
  "pools_ok s \<longleftrightarrow> length (fst s) = MAX_POOLS \<and> list_all pool_fits (fst s) \<and> snd s \<le> MAX_POOLS"

lemma list_all_update: "list_all P xs \<Longrightarrow> P x \<Longrightarrow> list_all P (xs[i := x])"
  by (auto simp: list_all_iff dest: subsetD [OF set_update_subset_insert])

lemma pool_fits_load: "pool_fits (load_pool fl url pool)"
  by (simp add: load_pool_def pool_fits_def Let_def length_copy_string)

lemma pools_ok_entry: "pools_ok s \<Longrightarrow> pools_ok (load_pool_entry fl pool s)"
  by (auto simp: load_pool_entry_def pools_ok_def list_all_update pool_fits_load split: prod.split option.split)

lemma pools_ok_entries: "pools_ok s \<Longrightarrow> pools_ok (fold (load_pool_entry fl) entries s)"
  by (induction entries arbitrary: s) (simp_all add: pools_ok_entry)

lemma app_config_ok_pools:
  assumes "app_config_ok c"
  shows "app_config_ok (load_pools fl pools c)"
proof -
  have ok: "pools_ok (cfg_pools c, 0)" using assms by (simp add: app_config_ok_def pools_ok_def)
  have "app_config_ok (c\<lparr>cfg_pools := ps, cfg_pool_count := if n > 0 then int n else cfg_pool_count c\<rparr>)"
    if "fold (load_pool_entry fl) entries (cfg_pools c, 0) = (ps, n)" for entries ps n
    using pools_ok_entries [OF ok, of fl entries] assms unfolding that
    by (simp add: app_config_ok_def pools_ok_def MAX_POOLS_def)
  then show ?thesis using assms by (auto simp: load_pools_def split: option.split json_t.split prod.split)
qed

lemma app_config_ok_donate: "app_config_ok c \<Longrightarrow> app_config_ok (app_config_set_donate_level l c)"
  by (simp add: app_config_set_donate_level_def app_config_ok_def)

lemma app_config_ok_root: "app_config_ok c \<Longrightarrow> app_config_ok (load_config_root fl doc c)"
proof -
  assume ok: "app_config_ok c"
  have s: "app_config_ok g \<Longrightarrow> app_config_ok (load_autotune fl v g)" "app_config_ok g \<Longrightarrow> app_config_ok (load_cpu v g)"
    "app_config_ok g \<Longrightarrow> app_config_ok (g\<lparr>cfg_opencl := load_opencl v (cfg_opencl g)\<rparr>)" for g v
    by (simp_all add: load_autotune_def load_cpu_def app_config_ok_opencl opencl_ok_load app_config_ok_openclD)
  show ?thesis
    unfolding load_config_root_def Let_def
    by (intro app_config_ok_pools) (simp add: s ok app_config_ok_donate split: option.split)
qed

lemma app_config_ok_file: "app_config_ok c \<Longrightarrow> app_config_ok (snd (load_config_file fl loadb alloc file required c))"
  by (simp add: load_config_file_def app_config_ok_root split: option.split)

text \<open>The command line.\<close>

fun result_ok :: "cli_result \<Rightarrow> bool" where
  "result_ok (CLI_EXIT rc) = True"
| "result_ok (CLI_FLAG c) = app_config_ok (cli_config c)"
| "result_ok (CLI_VALUE c) = app_config_ok (cli_config c)"

definition opt_result_ok :: "cli_result option \<Rightarrow> bool" where
  "opt_result_ok r = (case r of None \<Rightarrow> True | Some x \<Rightarrow> result_ok x)"

lemma result_ok_if: "result_ok x \<Longrightarrow> result_ok y \<Longrightarrow> result_ok (if b then x else y)"
  by simp

lemma opt_result_ok_if: "result_ok x \<Longrightarrow> opt_result_ok y \<Longrightarrow> opt_result_ok (if b then Some x else y)"
  by (simp add: opt_result_ok_def)

lemma opt_result_ok_None: "opt_result_ok None"
  by (simp add: opt_result_ok_def)

lemma with_value_ok: "(\<And>v. app_config_ok (cli_config (k v))) \<Longrightarrow> result_ok (with_value parsed k)"
  by (simp add: with_value_def split: option.split)

lemma upd_pool_ok: "app_config_ok c \<Longrightarrow> (\<And>p. pool_fits p \<Longrightarrow> pool_fits (f p)) \<Longrightarrow> app_config_ok (upd_pool f c)"
proof -
  assume ok: "app_config_ok c" and f: "\<And>p. pool_fits p \<Longrightarrow> pool_fits (f p)"
  then have "pool_fits (cfg_pools c ! 0)" by (simp add: app_config_ok_def MAX_POOLS_def list_all_length)
  with ok f show "app_config_ok (upd_pool f c)" by (simp add: upd_pool_def app_config_ok_def list_all_update)
qed

lemma upd_opencl_ok:
  "app_config_ok c \<Longrightarrow> (\<And>ocl. opencl_ok ocl \<Longrightarrow> opencl_ok (f ocl)) \<Longrightarrow> app_config_ok (upd_opencl f c)"
  by (simp add: upd_opencl_def app_config_ok_def)

lemma upd_cuda_ok: "app_config_ok c \<Longrightarrow> app_config_ok (upd_cuda f c)"
  by (simp add: upd_cuda_def)

lemma upd_url_ok: "app_config_ok g \<Longrightarrow> app_config_ok (let g = upd_pool (\<lambda>p. p\<lparr>pc_url := copy_string 256 (Some v)\<rparr>) g
    in if cfg_pool_count g \<le> 0 then g\<lparr>cfg_pool_count := 1\<rparr> else g)"
  using upd_pool_ok [of g "\<lambda>p. p\<lparr>pc_url := copy_string 256 (Some v)\<rparr>"]
  by (auto simp: Let_def app_config_ok_def pool_fits_def length_copy_string)

lemma cli_config_upd [simp]:
  "cli_config (upd_config f c) = f (cli_config c)" "cli_config (upd_worker f c) = f (cli_config c)"
  "cli_config (c\<lparr>cli_opencl_self_test := b\<rparr>) = cli_config c"
  by (simp_all add: upd_config_def upd_worker_def)

lemma cli_flag_ok: "app_config_ok (cli_config c) \<Longrightarrow> result_ok (cli_flag self_test a c)"
  unfolding cli_flag_def
  by (intro result_ok_if)
     (auto simp: upd_cuda_ok opencl_ok_def MINER_OPENCL_MAX_DEVICES_def intro!: upd_opencl_ok)

lemma cli_run_option_ok: "app_config_ok (cli_config c) \<Longrightarrow> opt_result_ok (cli_run_option strtod a v c)"
  unfolding cli_run_option_def
  by (intro opt_result_ok_if opt_result_ok_None with_value_ok)
     (auto simp: upd_url_ok app_config_ok_donate pool_fits_def length_copy_string intro!: upd_pool_ok)

lemma cli_gpu_option_ok: "app_config_ok (cli_config c) \<Longrightarrow> opt_result_ok (cli_gpu_option a v c)"
  unfolding cli_gpu_option_def
  by (intro opt_result_ok_if opt_result_ok_None with_value_ok)
     (auto simp: upd_cuda_ok opencl_ok_def MINER_OPENCL_MAX_DEVICES_def intro!: upd_opencl_ok)

lemma cli_option_ok: "app_config_ok (cli_config c) \<Longrightarrow> result_ok (cli_option strtod self_test a nxt c)"
  using cli_flag_ok [of c self_test a] cli_run_option_ok [of c strtod a] cli_gpu_option_ok [of c a]
  by (auto simp: cli_option_def opt_result_ok_def split: option.split) (metis option.case(2))+

lemma cli_options_ok:
  "cli_options strtod self_test argv c = Inr c' \<Longrightarrow> app_config_ok (cli_config c) \<Longrightarrow> app_config_ok (cli_config c')"
proof (induction strtod self_test argv c rule: cli_options.induct)
  case (2 strtod self_test a c)
  then show ?case using cli_option_ok [of c strtod self_test a None] by (auto split: cli_result.splits)
next
  case (3 strtod self_test a v argv c)
  then show ?case using cli_option_ok [of c strtod self_test a "Some v"] by (auto split: cli_result.splits)
qed simp

lemma repair_app_config_ok: "app_config_ok c \<Longrightarrow> app_config_ok (repair_app_config n c)"
  by (simp add: repair_app_config_def Let_def)

lemma repair_app_config_facts:
  "0 \<le> cfg_reconnect_delay (repair_app_config n c)" "0 \<le> cfg_stats_interval (repair_app_config n c)"
  "cfg_cpu_enabled (repair_app_config n c) = cfg_cpu_enabled c"
  "0 < n \<Longrightarrow> if cfg_cpu_enabled c then 0 < cfg_thread_count (repair_app_config n c) else cfg_thread_count (repair_app_config n c) = 0"
  by (simp_all add: repair_app_config_def Let_def DEFAULT_RECONNECT_DELAY_def)

lemma app_settings_cases:
  assumes "app_settings fl loadb alloc read_file strtod sha_ok self_test ost cst threads argv = Inr opts"
  obtains c o1 where "app_config_ok c"
    "cli_options strtod self_test argv \<lparr>cli_config = c, cli_opencl_self_test = False, cli_cuda_self_test = False,
       cli_worker_override = False, cli_force_autotune = False\<rparr> = Inr o1"
    "cli_config opts = (let g = repair_app_config threads (cli_config o1)
       in if \<not> cfg_autotune_seconds g \<ge> 1 / 4 then g\<lparr>cfg_autotune_seconds := 1 / 4\<rparr> else g)"
proof -
  let ?d = "app_config_set_defaults fl"
  let ?l = "case find_config_arg argv of
      Some path \<Rightarrow> load_config_file fl loadb alloc (read_file path) True ?d
    | None \<Rightarrow> if read_file ''config.json'' \<noteq> None then load_config_file fl loadb alloc (read_file ''config.json'') False ?d
        else (0, ?d)"
  have "app_config_ok (snd ?l)"
    by (simp add: app_config_ok_file app_config_ok_defaults split: option.split)
  moreover obtain rc c where l: "?l = (rc, c)" by fastforce
  ultimately have c: "app_config_ok c" by simp
  show ?thesis
    using assms that [OF c] unfolding app_settings_def l Let_def
    by (auto split: if_split_asm sum.split_asm)
qed

lemma json_keys_last_missing:
  "json_member obj k = None \<Longrightarrow> json_keys reader obj (ks @ [k]) v = reader None (json_keys reader obj ks v)"
  by (simp add: json_keys_def)

lemmas json_keys_three = json_keys_last_missing [where ks = "[k1, k2]" for k1 k2, simplified append.simps]

lemma load_opencl_devices_variants:
  "ocl_kernel_variant (load_opencl_devices devices ocl) = ocl_kernel_variant ocl"
  "ocl_backend_variant (load_opencl_devices devices ocl) = ocl_backend_variant ocl"
proof -
  let ?f = "\<lambda>device ocl.
        if \<not> json_is_object (Some device) \<or> ocl_device_count ocl \<ge> MINER_OPENCL_MAX_DEVICES then ocl
        else ocl\<lparr>ocl_devices := (ocl_devices ocl)[nat (ocl_device_count ocl) := load_opencl_device ocl (Some device)],
                 ocl_device_count := ocl_device_count ocl + 1\<rparr>"
  have "ocl_kernel_variant (fold ?f devices x) = ocl_kernel_variant x \<and> ocl_backend_variant (fold ?f devices x) = ocl_backend_variant x"
    for x :: miner_opencl_config_t by (induction devices arbitrary: x) simp_all
  then show "ocl_kernel_variant (load_opencl_devices devices ocl) = ocl_kernel_variant ocl"
    "ocl_backend_variant (load_opencl_devices devices ocl) = ocl_backend_variant ocl"
    unfolding load_opencl_devices_def by simp_all
qed

section \<open>Properties\<close>

text \<open>C34. Whatever the configuration file and the command line say, the miner starts with sound settings or not at all:
  between one and eight pools whose texts fit their buffers, at most eight OpenCL devices, a donation level of 1 to 99
  percent, waiting times that are not negative, and a positive number of CPU threads exactly when the CPU is used.\<close>

theorem startup_settings_sound:
  assumes "app_settings fl loadb alloc read_file strtod sha_ok self_test ost cst threads argv = Inr opts"
    "0 < threads" "c = cli_config opts"
  shows "1 \<le> cfg_pool_count c \<and> cfg_pool_count c \<le> int (length (cfg_pools c)) \<and>
    list_all (\<lambda>p. length (pc_url p) < 256 \<and> length (pc_user p) < 256 \<and> length (pc_pass p) < 128) (cfg_pools c) \<and>
    ocl_device_count (cfg_opencl c) \<le> int (length (ocl_devices (cfg_opencl c))) \<and>
    1 \<le> cfg_donate_level c \<and> cfg_donate_level c \<le> 99 \<and>
    0 \<le> cfg_reconnect_delay c \<and> 0 \<le> cfg_stats_interval c \<and> 1 / 4 \<le> cfg_autotune_seconds c \<and>
    (if cfg_cpu_enabled c then 0 < cfg_thread_count c else cfg_thread_count c = 0)"
proof -
  from assms(1) obtain d o1 where d: "app_config_ok d"
    "cli_options strtod self_test argv \<lparr>cli_config = d, cli_opencl_self_test = False, cli_cuda_self_test = False,
       cli_worker_override = False, cli_force_autotune = False\<rparr> = Inr o1"
    "cli_config opts = (let g = repair_app_config threads (cli_config o1)
       in if \<not> cfg_autotune_seconds g \<ge> 1 / 4 then g\<lparr>cfg_autotune_seconds := 1 / 4\<rparr> else g)"
    by (rule app_settings_cases)
  have ok: "app_config_ok c"
    using cli_options_ok [OF d(2)] d(1,3) assms(3) repair_app_config_ok by (simp add: Let_def)
  have "0 \<le> cfg_reconnect_delay c" "0 \<le> cfg_stats_interval c" "1 / 4 \<le> cfg_autotune_seconds c"
    "if cfg_cpu_enabled c then 0 < cfg_thread_count c else cfg_thread_count c = 0"
    using repair_app_config_facts [of threads "cli_config o1"] assms(2)
    unfolding assms(3) d(3) by (simp_all add: Let_def)
  with ok show ?thesis
    by (simp add: app_config_ok_def opencl_ok_def MAX_POOLS_def MINER_OPENCL_MAX_DEVICES_def donation_level_valid_def
        donation_constants pool_fits_def [abs_def])
qed

theorem startup_settings_sound_witness:
  "\<exists>opts. app_settings (\<lambda>x. x) (\<lambda>b. None) (\<lambda>n. True) (\<lambda>p. None) (\<lambda>s. (None, s)) True 0 (\<lambda>o1. 0) (\<lambda>d. 0) 4
      [''--no-mine''] = Inr opts \<and> cfg_thread_count (cli_config opts) > 0"
proof -
  let ?r = "app_settings (\<lambda>x. x) (\<lambda>b. None) (\<lambda>n. True) (\<lambda>p. None) (\<lambda>s. (None, s)) True 0 (\<lambda>o1. 0) (\<lambda>d. 0) 4 [''--no-mine'']"
  have f: "find_config_arg [''--no-mine''] = None" by (simp add: find_config_arg_def)
  obtain opts where r: "?r = Inr opts" "cfg_cpu_enabled (cli_config opts)"
    by (simp add: app_settings_def handle_early_command_def f Let_def cli_option_def cli_flag_def upd_config_def
        app_config_set_defaults_def repair_app_config_def donation_level_valid_def donation_constants
        DEFAULT_RECONNECT_DELAY_def DEFAULT_STATS_INTERVAL_def DEFAULT_AUTOTUNE_SECONDS_def)
  then show ?thesis using startup_settings_sound [OF r(1) _ refl] by (auto split: if_split_asm)
qed

text \<open>The name of a kernel or backend in the configuration file has an effect only under the last of its keys,
  \<open>kernel_variant\<close> and \<open>backend_variant\<close>: a file with the documented keys \<open>kernel\<close> and \<open>backend\<close> alone gets the automatic
  choice, and the standard CUDA kernel, whatever it names.\<close>

theorem variant_keys_lost:
  "(json_object_get obj ''kernel_variant'' = None \<and> json_is_object (Some obj) \<longrightarrow>
      ocl_kernel_variant (load_opencl (Some obj) ocl) = MINER_OPENCL_KERNEL_AUTO \<and>
      dev_kernel_variant (load_opencl_device ocl (Some obj)) = MINER_OPENCL_KERNEL_AUTO \<and>
      cuda_kernel_variant (load_cuda (Some obj) cd) = MINER_CUDA_KERNEL_STANDARD) \<and>
   (json_object_get obj ''backend_variant'' = None \<and> json_is_object (Some obj) \<longrightarrow>
      ocl_backend_variant (load_opencl (Some obj) ocl) = MINER_OPENCL_BACKEND_AUTO \<and>
      dev_backend_variant (load_opencl_device ocl (Some obj)) = MINER_OPENCL_BACKEND_AUTO)"
proof -
  have m: "json_member (Some obj) k = json_object_get obj k" for k by (simp add: json_member_def)
  have n: "json_opencl_kernel None v = MINER_OPENCL_KERNEL_AUTO" "json_opencl_backend None v = MINER_OPENCL_BACKEND_AUTO"
    "json_cuda_kernel None v = MINER_CUDA_KERNEL_STANDARD" for v
    by (simp_all add: json_opencl_kernel_def json_opencl_backend_def json_cuda_kernel_def parse_opencl_kernel_variant_def
        parse_opencl_backend_variant_def parse_cuda_kernel_variant_def)
  show ?thesis
    by (auto simp: load_opencl_def load_opencl_device_def load_cuda_def Let_def m n json_keys_three load_opencl_devices_variants
        split: option.split json_t.split)
qed

theorem variant_keys_lost_witness:
  "dev_kernel_variant (load_opencl_device miner_opencl_config_defaults
     (Some (JObj [(''backend'', JStr ''modern''), (''kernel'', JStr ''fixed-npi1'')]))) = MINER_OPENCL_KERNEL_AUTO"
  using variant_keys_lost [of "JObj [(''backend'', JStr ''modern''), (''kernel'', JStr ''fixed-npi1'')]"
      miner_opencl_config_defaults miner_cuda_config_defaults]
  by simp

end
