(* ===== verification/App_Loop.thy ===== *)
theory App_Loop
  imports App_Cli
begin

text \<open>
  The outer loop of the miner application, the last part of \<open>main\<close> in \<open>src/src/stratum_main.c\<close>: one session with a
  pool after the other, retries with growing pauses, the change of pools and the donation schedule. A session is a call
  of \<open>stratum_run_client\<close>; its return code and the clock are what a round receives from outside.
\<close>

section \<open>Pauses\<close>

definition MAX_RECONNECT_DELAY :: int where "MAX_RECONNECT_DELAY = 60"

fun retry_loop :: "nat \<Rightarrow> int \<Rightarrow> int" where
  "retry_loop 0 delay = delay"
| "retry_loop (Suc n) delay =
    (if \<not> delay < MAX_RECONNECT_DELAY then delay
     else retry_loop n (if delay > MAX_RECONNECT_DELAY div 2 then MAX_RECONNECT_DELAY else delay * 2))"

text \<open>The loop variable runs from 1 to \<open>attempt\<close>, exclusively.\<close>

definition retry_delay_seconds :: "int \<Rightarrow> u64 \<Rightarrow> int" where
  "retry_delay_seconds base_delay attempt =
    (let delay = base_delay;
         delay = (if delay \<le> 0 then 1 else delay)
     in if delay > MAX_RECONNECT_DELAY then MAX_RECONNECT_DELAY
        else
          let delay = retry_loop (unat attempt - 1) delay
          in if delay > MAX_RECONNECT_DELAY then MAX_RECONNECT_DELAY else delay)"

section \<open>Rounds\<close>

record app_state =
  as_pool_index :: int
  as_donating :: bool
  as_phase_seconds :: real
  as_attempt :: u64
  as_last_rc :: int

text \<open>What \<open>stratum_run_client\<close> is called with, and what it returned.\<close>

record session =
  ses_pool :: pool_config_t
  ses_seconds :: real
  ses_donating :: bool
  ses_rc :: int

text \<open>What comes from outside in a round: the clock at its four readings, and the return code of the session.\<close>

record app_round =
  rd_clock_start :: real
  rd_rc :: int
  rd_clock_end :: real
  rd_clock_delay :: real

datatype round_result = ROUND_STOP | ROUND_NEXT "int option"

definition donation_enabled :: "app_config_t \<Rightarrow> bool" where
  "donation_enabled cfg \<longleftrightarrow> mining_enabled cfg \<and> cfg_donate_level cfg > 0"

definition round_pool :: "app_config_t \<Rightarrow> app_state \<Rightarrow> pool_config_t" where
  "round_pool cfg s =
    (let pool = cfg_pools cfg ! nat (as_pool_index s)
     in if as_donating s then pool\<lparr>pc_user := copy_string 256 (Some DONATION_USER)\<rparr> else pool)"

text \<open>The pause before the next attempt; \<open>None\<close>: the time is up.\<close>

definition round_delay :: "(real \<Rightarrow> real) \<Rightarrow> app_config_t \<Rightarrow> real \<Rightarrow> real \<Rightarrow> u64 \<Rightarrow> int option" where
  "round_delay fl cfg stop_at clock attempt =
    (let delay = retry_delay_seconds (cfg_reconnect_delay cfg) (attempt + 1)
     in if stop_at > 0 then
          let remaining = fl (stop_at - clock)
          in if remaining \<le> 0 then None
             else
               let delay = (if remaining < 1 then 1 else delay);
                   delay = (if of_int delay > remaining
                            then (let delay = \<lfloor>remaining\<rfloor> in if delay \<le> 0 then 1 else delay) else delay)
               in Some delay
        else Some delay)"

text \<open>One round: the session, if one was started, how the loop goes on, and the new state.\<close>

definition app_round_step ::
  "(real \<Rightarrow> real) \<Rightarrow> app_config_t \<Rightarrow> real \<Rightarrow> app_round \<Rightarrow> app_state \<Rightarrow> session option \<times> round_result \<times> app_state" where
  "app_round_step fl cfg stop_at r s =
    (if stop_at > 0 \<and> rd_clock_start r \<ge> stop_at then (None, ROUND_STOP, s)
     else
       let ses = \<lparr>ses_pool = round_pool cfg s, ses_seconds = as_phase_seconds s, ses_donating = as_donating s,
                  ses_rc = rd_rc r\<rparr>;
           s = s\<lparr>as_last_rc := rd_rc r\<rparr>
       in if stop_at > 0 \<and> rd_clock_end r \<ge> stop_at then (Some ses, ROUND_STOP, s)
          else if donation_enabled cfg \<and> as_last_rc s = 0 then
            let donating = \<not> as_donating s
            in (Some ses, ROUND_NEXT None,
                s\<lparr>as_donating := donating,
                  as_phase_seconds := donation_phase_seconds fl (cfg_donate_level cfg) donating, as_attempt := 0\<rparr>)
          else
            let s = (if as_donating s \<and> as_last_rc s \<noteq> 0
                     then s\<lparr>as_donating := False, as_phase_seconds := donation_phase_seconds fl (cfg_donate_level cfg) False\<rparr>
                     else if cfg_pool_count cfg > 1
                     then s\<lparr>as_pool_index := (as_pool_index s + 1) mod cfg_pool_count cfg\<rparr>
                     else s)
            in if cfg_retries cfg \<ge> 0 \<and> as_attempt s \<ge> word_of_int (cfg_retries cfg) then (Some ses, ROUND_STOP, s)
               else
                 (case round_delay fl cfg stop_at (rd_clock_delay r) (as_attempt s) of
                    None \<Rightarrow> (Some ses, ROUND_STOP, s)
                  | Some delay \<Rightarrow>
                      (Some ses, ROUND_NEXT (if delay > 0 then Some delay else None), s\<lparr>as_attempt := as_attempt s + 1\<rparr>)))"

definition app_start :: "(real \<Rightarrow> real) \<Rightarrow> app_config_t \<Rightarrow> u64 \<Rightarrow> app_state" where
  "app_start fl cfg seed =
    \<lparr>as_pool_index = 0, as_donating = False,
     as_phase_seconds = (if donation_enabled cfg then donation_initial_user_seconds fl seed (cfg_donate_level cfg) else 0),
     as_attempt = 0, as_last_rc = 0\<rparr>"

text \<open>Round after round until the loop is left: the sessions, whether it was left, the state.\<close>

fun app_loop :: "(real \<Rightarrow> real) \<Rightarrow> app_config_t \<Rightarrow> real \<Rightarrow> app_round list \<Rightarrow> app_state \<Rightarrow> session list \<times> bool \<times> app_state" where
  "app_loop fl cfg stop_at [] s = ([], False, s)"
| "app_loop fl cfg stop_at (r # rs) s =
    (case app_round_step fl cfg stop_at r s of
       (ses, ROUND_STOP, s') \<Rightarrow> (case ses of None \<Rightarrow> [] | Some x \<Rightarrow> [x], True, s')
     | (ses, ROUND_NEXT d, s') \<Rightarrow>
         (case app_loop fl cfg stop_at rs s' of
            (sess, stopped, s'') \<Rightarrow> ((case ses of None \<Rightarrow> [] | Some x \<Rightarrow> [x]) @ sess, stopped, s'')))"

section \<open>Lemmas\<close>

lemma retry_loop_eq: "1 \<le> d \<Longrightarrow> d \<le> 60 \<Longrightarrow> retry_loop n d = min 60 (d * 2 ^ n)"
proof (induction n arbitrary: d)
  case (Suc n)
  have big: "60 \<le> x * 2 ^ k" if "60 \<le> x" for x :: int and k
    using that mult_mono [of 60 x 1 "2 ^ k"] by simp
  show ?case
  proof (cases "d = 60")
    case True
    then show ?thesis using big [of 60 "Suc n"] by (simp add: MAX_RECONNECT_DELAY_def del: power_Suc)
  next
    case False
    show ?thesis
    proof (cases "30 < d")
      case True
      then have "60 \<le> d * 2 * 2 ^ n" using big [of "d * 2" n] by simp
      then show ?thesis using True False Suc.prems Suc.IH [of 60] big [of 60 n] by (simp add: MAX_RECONNECT_DELAY_def min_def)
    next
      case False
      then show ?thesis using Suc.prems Suc.IH [of "d * 2"] by (simp add: MAX_RECONNECT_DELAY_def)
    qed
  qed
qed simp

text \<open>What the schedule says about a session \<open>x\<close>, given the one before it.\<close>

definition schedule_ok :: "app_config_t \<Rightarrow> session option \<Rightarrow> session \<Rightarrow> bool" where
  "schedule_ok cfg prev x \<longleftrightarrow>
    (ses_donating x \<longrightarrow> donation_enabled cfg \<and> ses_seconds x = of_int (cfg_donate_level cfg * 60) \<and>
       (\<exists>p. prev = Some p \<and> \<not> ses_donating p \<and> ses_rc p = 0 \<and> ses_pool x = (ses_pool p)\<lparr>pc_user := DONATION_USER\<rparr>)) \<and>
    (\<not> ses_donating x \<longrightarrow> (\<exists>k. k < nat (cfg_pool_count cfg) \<and> ses_pool x = cfg_pools cfg ! k) \<and>
       (donation_enabled cfg \<longrightarrow> of_int ((100 - cfg_donate_level cfg) * 30) \<le> ses_seconds x \<and>
          ses_seconds x \<le> of_int ((100 - cfg_donate_level cfg) * 90))) \<and>
    (\<forall>p. prev = Some p \<longrightarrow>
       (donation_enabled cfg \<and> ses_rc p = 0 \<longrightarrow> ses_donating x = (\<not> ses_donating p)) \<and>
       (ses_donating p \<longrightarrow> \<not> ses_donating x \<and> ses_seconds x = of_int ((100 - cfg_donate_level cfg) * 60)))"

fun chain_ok :: "app_config_t \<Rightarrow> session option \<Rightarrow> session list \<Rightarrow> bool" where
  "chain_ok cfg prev [] = True"
| "chain_ok cfg prev (x # xs) = (schedule_ok cfg prev x \<and> chain_ok cfg (Some x) xs)"

lemma chain_ok_nth:
  "chain_ok cfg prev xs \<Longrightarrow> i < length xs \<Longrightarrow> schedule_ok cfg (if i = 0 then prev else Some (xs ! (i - 1))) (xs ! i)"
proof (induction xs arbitrary: prev i)
  case (Cons a xs)
  then show ?case
  proof (cases i)
    case (Suc j)
    then show ?thesis using Cons.IH [of "Some a" j] Cons.prems by (cases j) simp_all
  qed simp
qed simp

text \<open>The session that a state is about to start.\<close>

definition coming :: "app_config_t \<Rightarrow> app_state \<Rightarrow> int \<Rightarrow> session" where
  "coming cfg s rc = \<lparr>ses_pool = round_pool cfg s, ses_seconds = as_phase_seconds s, ses_donating = as_donating s, ses_rc = rc\<rparr>"

definition state_ok :: "app_config_t \<Rightarrow> session option \<Rightarrow> app_state \<Rightarrow> bool" where
  "state_ok cfg prev s \<longleftrightarrow> 0 \<le> as_pool_index s \<and> as_pool_index s < cfg_pool_count cfg \<and> schedule_ok cfg prev (coming cfg s 0)"

lemma schedule_ok_rc: "schedule_ok cfg prev (coming cfg s rc) = schedule_ok cfg prev (coming cfg s 0)"
  by (simp add: schedule_ok_def coming_def)

lemma donation_user_fits: "copy_string 256 (Some DONATION_USER) = DONATION_USER"
  by (simp add: copy_string_def DONATION_USER_def snprintf_s_def)

lemma app_step_session:
  assumes "app_round_step fl cfg stop_at r s = (ses, res, s')"
  shows "ses = None \<and> res = ROUND_STOP \<or> ses = Some (coming cfg s (rd_rc r))"
  using assms by (auto simp: app_round_step_def coming_def Let_def split: if_split_asm option.split_asm)

lemma app_step_state_ok:
  assumes step: "app_round_step fl cfg stop_at r s = (Some x, ROUND_NEXT d, s')" and ok: "state_ok cfg prev s"
    and fl: "ieee_double fl" and lev: "donation_level_valid (cfg_donate_level cfg)" and n: "1 \<le> cfg_pool_count cfg"
  shows "state_ok cfg (Some x) s'"
proof -
  let ?L = "cfg_donate_level cfg"
  have x: "x = coming cfg s (rd_rc r)" using app_step_session [OF step] by simp
  have ph: "donation_phase_seconds fl ?L b = of_int ((if b then ?L else 100 - ?L) * 60)" for b
    by (rule donation_phase_exact [OF fl lev])
  have L: "1 \<le> ?L" "?L < 100" using lev by (simp_all add: donation_level_valid_def donation_constants)
  have idx: "0 \<le> as_pool_index s" "as_pool_index s < cfg_pool_count cfg" using ok by (simp_all add: state_ok_def)
  have user: "\<exists>k. k < nat (cfg_pool_count cfg) \<and> cfg_pools cfg ! nat i = cfg_pools cfg ! k"
    if "0 \<le> i" "i < cfg_pool_count cfg" for i
    using that by (intro exI [of _ "nat i"]) simp
  have "donation_enabled cfg \<and> rd_rc r = 0 \<or> \<not> (donation_enabled cfg \<and> rd_rc r = 0)" by blast
  then show ?thesis
  proof
    assume c: "donation_enabled cfg \<and> rd_rc r = 0"
    then have s': "s' = s\<lparr>as_last_rc := 0, as_donating := \<not> as_donating s,
        as_phase_seconds := donation_phase_seconds fl ?L (\<not> as_donating s), as_attempt := 0\<rparr>"
      using step by (auto simp: app_round_step_def Let_def split: if_split_asm)
    show ?thesis
      using c idx user [OF idx] L
      by (auto simp: s' x state_ok_def schedule_ok_def coming_def round_pool_def Let_def ph donation_user_fits)
  next
    assume c: "\<not> (donation_enabled cfg \<and> rd_rc r = 0)"
    have don: "as_donating s \<Longrightarrow> donation_enabled cfg" using ok by (simp add: state_ok_def schedule_ok_def coming_def)
    have idx': "0 \<le> (as_pool_index s + 1) mod cfg_pool_count cfg" "(as_pool_index s + 1) mod cfg_pool_count cfg < cfg_pool_count cfg"
      using n by simp_all
    have st: "\<not> as_donating s'" "0 \<le> as_pool_index s'" "as_pool_index s' < cfg_pool_count cfg"
      "as_phase_seconds s' = (if as_donating s then of_int ((100 - ?L) * 60) else as_phase_seconds s)"
      using step c don idx idx' by (auto simp: app_round_step_def Let_def ph split: if_split_asm option.split_asm)
    have "donation_enabled cfg \<Longrightarrow> \<not> as_donating s \<Longrightarrow>
        of_int ((100 - ?L) * 30) \<le> as_phase_seconds s \<and> as_phase_seconds s \<le> of_int ((100 - ?L) * 90)"
      using ok by (simp add: state_ok_def schedule_ok_def coming_def)
    then show ?thesis
      using c st user [OF st(2,3)] L
      by (auto simp: x state_ok_def schedule_ok_def coming_def round_pool_def Let_def)
  qed
qed

lemma app_loop_chain:
  assumes "ieee_double fl" "donation_level_valid (cfg_donate_level cfg)" "1 \<le> cfg_pool_count cfg"
  shows "app_loop fl cfg stop_at rs s = (sess, stopped, s') \<Longrightarrow> state_ok cfg prev s \<Longrightarrow> chain_ok cfg prev sess"
proof (induction rs arbitrary: s prev sess stopped s')
  case (Cons r rs)
  obtain ses res s1 where st: "app_round_step fl cfg stop_at r s = (ses, res, s1)" by (cases "app_round_step fl cfg stop_at r s")
  have now: "schedule_ok cfg prev (coming cfg s (rd_rc r))" using Cons.prems(2) unfolding state_ok_def by (subst schedule_ok_rc) blast
  show ?case
  proof (cases res)
    case ROUND_STOP
    then show ?thesis using Cons.prems(1) st now app_step_session [OF st] by (auto split: option.splits)
  next
    case (ROUND_NEXT d)
    then have x: "ses = Some (coming cfg s (rd_rc r))" using app_step_session [OF st] by simp
    obtain sess1 stopped1 s2 where l: "app_loop fl cfg stop_at rs s1 = (sess1, stopped1, s2)" by (cases "app_loop fl cfg stop_at rs s1")
    have "chain_ok cfg (Some (coming cfg s (rd_rc r))) sess1"
      using Cons.IH [OF l] app_step_state_ok [OF st [unfolded x ROUND_NEXT] Cons.prems(2) assms] by blast
    then show ?thesis using Cons.prems(1) st x ROUND_NEXT l now by auto
  qed
qed simp

lemma state_ok_start:
  assumes "ieee_double fl" "donation_level_valid (cfg_donate_level cfg)" "1 \<le> cfg_pool_count cfg"
  shows "state_ok cfg None (app_start fl cfg seed)"
  using assms(3) donation_initial_bounds [OF assms(1,2), of seed]
  by (auto simp: state_ok_def schedule_ok_def coming_def app_start_def round_pool_def Let_def intro!: exI [of _ 0])

text \<open>Failures use up the retries.\<close>

lemma app_step_failure:
  assumes "app_round_step fl cfg stop_at r s = (ses, ROUND_NEXT d, s')" "rd_rc r \<noteq> 0 \<or> \<not> donation_enabled cfg"
    "0 \<le> cfg_retries cfg" "cfg_retries cfg < 2 ^ 31"
  shows "int (unat (as_attempt s)) < cfg_retries cfg \<and> unat (as_attempt s') = Suc (unat (as_attempt s))"
proof -
  have a: "\<not> as_attempt s \<ge> word_of_int (cfg_retries cfg)" "as_attempt s' = as_attempt s + 1"
    using assms by (auto simp: app_round_step_def Let_def split: if_split_asm option.split_asm)
  have r: "uint (word_of_int (cfg_retries cfg) :: u64) = cfg_retries cfg"
    using assms(3,4) by (simp add: uint_word_of_int_eq take_bit_int_eq_self)
  have lt: "int (unat (as_attempt s)) < cfg_retries cfg" using a(1) r by (simp add: word_le_def not_le)
  moreover have "unat (as_attempt s + 1) = Suc (unat (as_attempt s))"
  proof -
    have "int (unat (as_attempt s)) < int (2 ^ 31)" using lt assms(4) unfolding of_nat_power by (rule less_trans [THEN less_le_trans]) simp
    then have "unat (as_attempt s) < 2 ^ 31" by (rule of_nat_less_imp_less)
    then show ?thesis by (simp add: unat_word_ariths)
  qed
  ultimately show ?thesis using a(2) by simp
qed

lemma app_loop_failures:
  assumes "0 \<le> cfg_retries cfg" "cfg_retries cfg < 2 ^ 31"
  shows "app_loop fl cfg stop_at rs s = (sess, stopped, s') \<Longrightarrow> \<forall>r \<in> set rs. rd_rc r \<noteq> 0 \<or> \<not> donation_enabled cfg \<Longrightarrow>
    int (unat (as_attempt s)) \<le> cfg_retries cfg \<Longrightarrow>
    int (length sess) \<le> cfg_retries cfg - int (unat (as_attempt s)) + 1 \<and>
    (cfg_retries cfg - int (unat (as_attempt s)) < int (length rs) \<longrightarrow> stopped)"
proof (induction rs arbitrary: s sess stopped s')
  case (Cons r rs)
  obtain ses res s1 where st: "app_round_step fl cfg stop_at r s = (ses, res, s1)" by (cases "app_round_step fl cfg stop_at r s")
  show ?case
  proof (cases res)
    case ROUND_STOP
    then show ?thesis using Cons.prems st by (auto split: option.splits)
  next
    case (ROUND_NEXT d)
    obtain sess1 stopped1 s2 where l: "app_loop fl cfg stop_at rs s1 = (sess1, stopped1, s2)" by (cases "app_loop fl cfg stop_at rs s1")
    have f: "int (unat (as_attempt s)) < cfg_retries cfg" "unat (as_attempt s1) = Suc (unat (as_attempt s))"
      using app_step_failure [OF st [unfolded ROUND_NEXT] _ assms] Cons.prems(2) by simp_all
    have "length (case ses of None \<Rightarrow> [] | Some x \<Rightarrow> [x]) \<le> 1" by (simp split: option.split)
    moreover have "sess = (case ses of None \<Rightarrow> [] | Some x \<Rightarrow> [x]) @ sess1" "stopped = stopped1"
      using Cons.prems(1) st ROUND_NEXT l by auto
    ultimately show ?thesis using Cons.IH [OF l] Cons.prems(2) f by auto
  qed
qed simp

section \<open>Properties\<close>

text \<open>The pause before attempt number \<open>a\<close> doubles from the configured one, at least a second, up to a minute.\<close>

theorem retry_delay_doubles:
  "retry_delay_seconds base_delay attempt = min 60 (max 1 base_delay * 2 ^ (unat attempt - 1)) \<and>
   1 \<le> retry_delay_seconds base_delay attempt"
proof -
  define n where "n = unat attempt - 1"
  define d where "d = max 1 base_delay"
  have d: "(if base_delay \<le> 0 then 1 else base_delay) = d" "1 \<le> d" by (simp_all add: d_def)
  have "d * 1 \<le> d * 2 ^ n" using d(2) by (intro mult_left_mono) simp_all
  moreover define e where "e = d * 2 ^ n"
  ultimately have "d \<le> e" by simp
  moreover have "d \<le> 60 \<Longrightarrow> retry_loop n d = min 60 e" using d(2) retry_loop_eq [of d n] by (simp add: e_def)
  ultimately show ?thesis
    unfolding retry_delay_seconds_def Let_def d(1) MAX_RECONNECT_DELAY_def n_def [symmetric] d_def [symmetric] e_def [symmetric]
    using d(2) by auto
qed

text \<open>C32. The donation schedule is kept, session by session. A donation comes only directly after a session for the user
  that was completed, on the same pool with the same password, for exactly the minutes of the level, and every completed
  session for the user is followed by one. After a donation, completed or failed, the user's own account follows, for the
  rest of the 100 minutes; the first period has between half and one and a half times that length. All other sessions run
  on the user's pools, unchanged.\<close>

theorem donation_schedule:
  assumes "ieee_double fl" "1 \<le> cfg_donate_level cfg" "cfg_donate_level cfg \<le> 99" "1 \<le> cfg_pool_count cfg"
    "app_loop fl cfg stop_at rs (app_start fl cfg seed) = (sess, stopped, s)" "i < length sess"
  shows "schedule_ok cfg (if i = 0 then None else Some (sess ! (i - 1))) (sess ! i)"
proof -
  have "donation_level_valid (cfg_donate_level cfg)" using assms(2,3) by (simp add: donation_level_valid_def donation_constants)
  from app_loop_chain [OF assms(1) this assms(4,5) state_ok_start [OF assms(1) this assms(4)]]
  show ?thesis using assms(6) by (rule chain_ok_nth)
qed

text \<open>The default settings, with a completed user session, a donation that fails and another user session.\<close>

definition demo_app :: app_config_t where
  "demo_app = (app_config_set_defaults (\<lambda>x. x))\<lparr>cfg_retries := 3\<rparr>"

definition demo_rounds :: "app_round list" where
  "demo_rounds = map (\<lambda>rc. \<lparr>rd_clock_start = 0, rd_rc = rc, rd_clock_end = 0, rd_clock_delay = 0\<rparr>) [0, 1, 0]"

lemma demo_app_facts:
  "cfg_donate_level demo_app = 1" "cfg_pool_count demo_app = 1" "cfg_retries demo_app = 3" "donation_enabled demo_app"
  by (simp_all add: demo_app_def app_config_set_defaults_def donation_constants donation_enabled_def mining_enabled_def)

theorem donation_schedule_witness:
  "\<exists>sess stopped s. app_loop (\<lambda>x. x) demo_app 0 demo_rounds (app_start (\<lambda>x. x) demo_app 7) = (sess, stopped, s) \<and>
     length sess = 3 \<and> ses_donating (sess ! 1) \<and> ses_seconds (sess ! 1) = 60 \<and> pc_user (ses_pool (sess ! 1)) = DONATION_USER \<and>
     \<not> ses_donating (sess ! 2) \<and> ses_seconds (sess ! 2) = 5940"
proof -
  obtain sess stopped s where l: "app_loop (\<lambda>x. x) demo_app 0 demo_rounds (app_start (\<lambda>x. x) demo_app 7) = (sess, stopped, s)"
    by (cases "app_loop (\<lambda>x. x) demo_app 0 demo_rounds (app_start (\<lambda>x. x) demo_app 7)")
  have sess: "length sess = 3 \<and> ses_rc (sess ! 0) = 0 \<and> \<not> ses_donating (sess ! 0)"
    using l by (auto simp: demo_rounds_def app_round_step_def Let_def demo_app_facts round_delay_def app_start_def)
  have d: "schedule_ok demo_app (if i = 0 then None else Some (sess ! (i - 1))) (sess ! i)" if "i < length sess" for i
    using donation_schedule [OF ieee_double_id _ _ _ l that] by (simp add: demo_app_facts)
  have "schedule_ok demo_app (Some (sess ! 0)) (sess ! 1)" "schedule_ok demo_app (Some (sess ! 1)) (sess ! 2)"
    using d [of 1] d [of 2] sess by simp_all
  then have "ses_donating (sess ! 1)" "ses_seconds (sess ! 1) = 60" "pc_user (ses_pool (sess ! 1)) = DONATION_USER"
    "\<not> ses_donating (sess ! 2)" "ses_seconds (sess ! 2) = 5940"
    using sess by (auto simp: schedule_ok_def demo_app_facts)
  then show ?thesis using l sess by blast
qed



end
