(* ===== verification/Proxy_Loop.thy ===== *)
theory Proxy_Loop
  imports Prelude
begin

text \<open>
  Forwarding of one client of the proxy, \<open>proxy_loop\<close> of \<open>src/src/proxy_main.c\<close>. The two connections are byte streams; what
  a peer has sent and was not read yet is its \<open>wire\<close>. How many bytes a read or a write moves, whether it has to wait or
  fails, comes from outside as an event, the same for plain and for TLS connections.
\<close>

section \<open>Streams and buffers\<close>

definition BUFFER_SIZE :: nat where "BUFFER_SIZE = 32768"

text \<open>The result of a system call: at most \<open>n + 1\<close> bytes, the peer closed the stream, try again, an error.\<close>

datatype io_event = IO_DATA nat | IO_EOF | IO_AGAIN | IO_ERROR

text \<open>Return code, the bytes read and the rest of the wire. Nothing to read means to try again.\<close>

fun stream_read :: "io_event \<Rightarrow> nat \<Rightarrow> bytes \<Rightarrow> int \<times> bytes \<times> bytes" where
  "stream_read (IO_DATA k) buf_size wire =
    (if wire = [] \<or> buf_size = 0 then (- 2, [], wire)
     else let n = min (k + 1) buf_size in (int (length (take n wire)), take n wire, drop n wire))"
| "stream_read IO_EOF buf_size wire = (0, [], wire)"
| "stream_read IO_AGAIN buf_size wire = (- 2, [], wire)"
| "stream_read IO_ERROR buf_size wire = (- 1, [], wire)"

fun stream_write :: "io_event \<Rightarrow> nat \<Rightarrow> int" where
  "stream_write (IO_DATA k) n = int (min (k + 1) n)"
| "stream_write IO_EOF n = - 1"
| "stream_write IO_AGAIN n = - 2"
| "stream_write IO_ERROR n = - 1"

record buffer_t =
  buf_data :: bytes
  buf_off :: nat
  buf_len :: nat

definition buffer_empty :: "buffer_t \<Rightarrow> bool" where
  "buffer_empty b \<longleftrightarrow> buf_off b \<ge> buf_len b"

definition buffer_reset :: "buffer_t \<Rightarrow> buffer_t" where
  "buffer_reset b = b\<lparr>buf_off := 0, buf_len := 0\<rparr>"

section \<open>The loop\<close>

text \<open>How a part of a turn ended: no progress, progress, leave the loop, leave it because the peer closed.\<close>

datatype step_result = STEP_IDLE | STEP_PROGRESS | STEP_BREAK | STEP_CLOSED

text \<open>Writing what is in a buffer; the last component are all bytes written to the peer so far.\<close>

definition flush_buffer :: "io_event \<Rightarrow> buffer_t \<Rightarrow> bytes \<Rightarrow> step_result \<times> buffer_t \<times> bytes" where
  "flush_buffer ev b out =
    (if \<not> buffer_empty b then
       let n = stream_write ev (buf_len b - buf_off b)
       in if n > 0 then
            let sent = take (nat n) (drop (buf_off b) (buf_data b));
                b = b\<lparr>buf_off := buf_off b + nat n\<rparr>;
                b = (if buffer_empty b then buffer_reset b else b)
            in (STEP_PROGRESS, b, out @ sent)
          else if n < - 1 then (STEP_IDLE, b, out)
          else (STEP_BREAK, b, out)
     else (STEP_IDLE, b, out))"

text \<open>Reading into an empty buffer.\<close>

definition fill_buffer :: "io_event \<Rightarrow> bool \<Rightarrow> buffer_t \<Rightarrow> bytes \<Rightarrow> step_result \<times> buffer_t \<times> bytes" where
  "fill_buffer ev is_open b wire =
    (if is_open \<and> buffer_empty b then
       let (n, got, wire) = stream_read ev (length (buf_data b)) wire
       in if n > 0 then
            (STEP_PROGRESS, b\<lparr>buf_data := got @ drop (nat n) (buf_data b), buf_off := 0, buf_len := nat n\<rparr>, wire)
          else if n = 0 then (STEP_CLOSED, b, wire)
          else if n < - 1 then (STEP_IDLE, b, wire)
          else (STEP_BREAK, b, wire)
     else (STEP_IDLE, b, wire))"

record proxy_state =
  c2u :: buffer_t
  u2c :: buffer_t
  client_open :: bool
  upstream_open :: bool
  client_wire :: bytes
  upstream_wire :: bytes
  to_upstream :: bytes
  to_client :: bytes

record proxy_turn =
  pt_write_upstream :: io_event
  pt_write_client :: io_event
  pt_read_client :: io_event
  pt_read_upstream :: io_event
  pt_select_failed :: bool

definition leaves :: "step_result \<Rightarrow> bool" where
  "leaves r \<longleftrightarrow> r = STEP_BREAK \<or> r = STEP_CLOSED"

text \<open>One turn: whether the loop goes on, and the new state.\<close>

definition proxy_step :: "proxy_turn \<Rightarrow> proxy_state \<Rightarrow> bool \<times> proxy_state" where
  "proxy_step t s =
    (let (r1, b, out) = flush_buffer (pt_write_upstream t) (c2u s) (to_upstream s);
         s = s\<lparr>c2u := b, to_upstream := out\<rparr>
     in if leaves r1 then (False, s)
        else
          let (r2, b, out) = flush_buffer (pt_write_client t) (u2c s) (to_client s);
              s = s\<lparr>u2c := b, to_client := out\<rparr>
          in if leaves r2 then (False, s)
             else
               let (r3, b, wire) = fill_buffer (pt_read_client t) (client_open s) (c2u s) (client_wire s);
                   s = s\<lparr>c2u := b, client_wire := wire\<rparr>;
                   s = (if r3 = STEP_CLOSED then s\<lparr>client_open := False\<rparr> else s)
               in if leaves r3 then (False, s)
                  else
                    let (r4, b, wire) = fill_buffer (pt_read_upstream t) (upstream_open s) (u2c s) (upstream_wire s);
                        s = s\<lparr>u2c := b, upstream_wire := wire\<rparr>;
                        s = (if r4 = STEP_CLOSED then s\<lparr>upstream_open := False\<rparr> else s)
                    in if leaves r4 then (False, s)
                       else
                         let progress = (STEP_PROGRESS \<in> {r1, r2, r3, r4})
                         in if \<not> progress \<and> pt_select_failed t then (False, s) else (True, s))"

fun proxy_loop :: "proxy_turn list \<Rightarrow> proxy_state \<Rightarrow> bool \<times> proxy_state" where
  "proxy_loop [] s = (True, s)"
| "proxy_loop (t # ts) s = (case proxy_step t s of (True, s') \<Rightarrow> proxy_loop ts s' | (False, s') \<Rightarrow> (False, s'))"

text \<open>The start: the contents of the buffers are arbitrary, they are reset.\<close>

definition proxy_start :: "bytes \<Rightarrow> bytes \<Rightarrow> bytes \<Rightarrow> bytes \<Rightarrow> proxy_state" where
  "proxy_start junk1 junk2 wire_c wire_u =
    \<lparr>c2u = buffer_reset \<lparr>buf_data = junk1, buf_off = 0, buf_len = 0\<rparr>,
     u2c = buffer_reset \<lparr>buf_data = junk2, buf_off = 0, buf_len = 0\<rparr>,
     client_open = True, upstream_open = True, client_wire = wire_c, upstream_wire = wire_u,
     to_upstream = [], to_client = []\<rparr>"

section \<open>Lemmas\<close>

text \<open>The bytes that are in a buffer.\<close>

definition buffered :: "buffer_t \<Rightarrow> bytes" where
  "buffered b = take (buf_len b - buf_off b) (drop (buf_off b) (buf_data b))"

definition buffer_ok :: "buffer_t \<Rightarrow> bool" where
  "buffer_ok b \<longleftrightarrow> length (buf_data b) = BUFFER_SIZE \<and> buf_off b \<le> buf_len b \<and> buf_len b \<le> BUFFER_SIZE"

lemma buffered_empty: "buffer_ok b \<Longrightarrow> buffer_empty b \<longleftrightarrow> buffered b = []"
  by (auto simp: buffer_empty_def buffered_def buffer_ok_def)

lemma length_buffered: "buffer_ok b \<Longrightarrow> length (buffered b) = buf_len b - buf_off b"
  by (auto simp: buffered_def buffer_ok_def min_def)

lemma stream_write_range: "0 < n \<Longrightarrow> stream_write ev n \<le> int n"
  by (cases ev) simp_all

lemma flush_buffer_facts:
  assumes "flush_buffer ev b out = (r, b', out')" "buffer_ok b"
  shows "buffer_ok b' \<and> out' @ buffered b' = out @ buffered b \<and> r \<noteq> STEP_CLOSED \<and>
    length (buffered b') \<le> length (buffered b) \<and>
    (case ev of IO_AGAIN \<Rightarrow> \<not> leaves r | _ \<Rightarrow> True) \<and>
    (case ev of IO_DATA k \<Rightarrow> \<not> leaves r \<and> (buffered b = [] \<or> length (buffered b') < length (buffered b)) | _ \<Rightarrow> True)"
proof (cases "buffer_empty b")
  case True
  then show ?thesis using assms by (auto simp: flush_buffer_def leaves_def buffered_empty split: io_event.split)
next
  case False
  then have lt: "buf_off b < buf_len b" by (simp add: buffer_empty_def)
  let ?n = "stream_write ev (buf_len b - buf_off b)"
  show ?thesis
  proof (cases "?n > 0")
    case pos: True
    then obtain k where ev: "ev = IO_DATA k" by (cases ev) simp_all
    define n where "n = min (k + 1) (buf_len b - buf_off b)"
    have n: "nat ?n = n" "0 < n" "n \<le> buf_len b - buf_off b" using lt by (simp_all add: ev n_def)
    let ?b = "b\<lparr>buf_off := buf_off b + n\<rparr>"
    have "n + (buf_len b - (n + buf_off b)) = buf_len b - buf_off b" using n(3) by simp
    then have split: "buffered b = take n (drop (buf_off b) (buf_data b)) @ buffered ?b"
      using take_add [of n "buf_len b - (n + buf_off b)" "drop (buf_off b) (buf_data b)"]
      by (simp add: buffered_def add.commute)
    have ok: "buffer_ok ?b" using assms(2) n(3) by (auto simp: buffer_ok_def)
    have e: "r = STEP_PROGRESS" "b' = (if buffer_empty ?b then buffer_reset ?b else ?b)"
      "out' = out @ take n (drop (buf_off b) (buf_data b))"
      using assms(1) False pos by (simp_all add: flush_buffer_def Let_def n(1))
    have b': "buffer_ok b'" "buffered b' = buffered ?b"
      using ok buffered_empty [OF ok] by (auto simp: e(2) buffer_reset_def buffer_ok_def buffered_def)
    moreover have "length (buffered ?b) < length (buffered b)"
      using length_buffered [OF ok] length_buffered [OF assms(2)] n lt by simp
    ultimately show ?thesis using e split by (simp add: ev leaves_def)
  next
    case neg: False
    then have "\<nexists>k. ev = IO_DATA k" using lt by (cases ev) auto
    then show ?thesis using assms False neg by (auto simp: flush_buffer_def Let_def leaves_def split: if_split_asm io_event.split)
  qed
qed

lemma fill_buffer_facts:
  assumes "fill_buffer ev is_open b wire = (r, b', wire')" "buffer_ok b"
  shows "buffer_ok b' \<and> buffered b' @ wire' = buffered b @ wire \<and> (r = STEP_CLOSED \<longrightarrow> buffered b' = []) \<and>
    (case ev of IO_DATA k \<Rightarrow> \<not> leaves r | IO_AGAIN \<Rightarrow> \<not> leaves r | _ \<Rightarrow> True) \<and>
    (case ev of IO_DATA k \<Rightarrow> is_open \<longrightarrow> buffered b \<noteq> [] \<or> wire = [] \<or> length wire' < length wire | _ \<Rightarrow> True)"
proof (cases "is_open \<and> buffer_empty b")
  case False
  then show ?thesis using assms by (auto simp: fill_buffer_def leaves_def buffered_empty split: io_event.split)
next
  case True
  then have e: "buffered b = []" using assms(2) by (simp add: buffered_empty)
  have size: "length (buf_data b) = BUFFER_SIZE" using assms(2) by (simp add: buffer_ok_def)
  show ?thesis
  proof (cases "\<exists>k. ev = IO_DATA k \<and> wire \<noteq> []")
    case data: True
    then obtain k where ev: "ev = IO_DATA k" and w: "wire \<noteq> []" by blast
    define n where "n = min (k + 1) BUFFER_SIZE"
    have n: "0 < n" "n \<le> BUFFER_SIZE" by (simp_all add: n_def BUFFER_SIZE_def)
    have len: "0 < length (take n wire)" using n w by simp
    have r: "r = STEP_PROGRESS" "wire' = drop n wire"
      "b' = b\<lparr>buf_data := take n wire @ drop (length (take n wire)) (buf_data b), buf_off := 0, buf_len := length (take n wire)\<rparr>"
      using assms(1) True len w by (simp_all add: fill_buffer_def ev size n_def Let_def BUFFER_SIZE_def)
    have "buffer_ok b'" using n size by (simp add: r buffer_ok_def)
    moreover have "buffered b' = take n wire" by (simp add: r buffered_def min_def)
    ultimately show ?thesis using e n w by (simp add: r ev leaves_def)
  next
    case False
    then show ?thesis
      using assms True e by (cases ev) (auto simp: fill_buffer_def leaves_def split: if_split_asm)
  qed
qed

text \<open>One direction of the proxy: what the sender has sent is what was delivered, what is in the buffer, and what is still on
  the wire; after the sender closed, nothing is left in the buffer.\<close>

definition channel_ok :: "bytes \<Rightarrow> bytes \<Rightarrow> buffer_t \<Rightarrow> bytes \<Rightarrow> bool \<Rightarrow> bool" where
  "channel_ok w out b wire is_open \<longleftrightarrow> buffer_ok b \<and> w = out @ buffered b @ wire \<and> (is_open \<or> buffered b = [])"

lemma channel_ok_flush:
  "flush_buffer ev b out = (r, b', out') \<Longrightarrow> channel_ok w out b wire is_open \<Longrightarrow> channel_ok w out' b' wire is_open"
  using flush_buffer_facts [of ev b out r b' out'] by (auto simp: channel_ok_def simp flip: append_assoc)

lemma channel_ok_fill:
  "fill_buffer ev is_open b wire = (r, b', wire') \<Longrightarrow> channel_ok w out b wire is_open \<Longrightarrow>
   channel_ok w out b' wire' (if r = STEP_CLOSED then False else is_open)"
proof -
  assume f: "fill_buffer ev is_open b wire = (r, b', wire')" and c: "channel_ok w out b wire is_open"
  have facts: "buffer_ok b'" "buffered b' @ wire' = buffered b @ wire" "r = STEP_CLOSED \<Longrightarrow> buffered b' = []"
    using fill_buffer_facts [OF f] c by (auto simp: channel_ok_def)
  have "\<not> is_open \<Longrightarrow> b' = b" using f by (simp add: fill_buffer_def)
  then show ?thesis using facts c by (auto simp: channel_ok_def)
qed

definition proxy_inv :: "bytes \<Rightarrow> bytes \<Rightarrow> proxy_state \<Rightarrow> bool" where
  "proxy_inv wc wu s \<longleftrightarrow> channel_ok wc (to_upstream s) (c2u s) (client_wire s) (client_open s) \<and>
    channel_ok wu (to_client s) (u2c s) (upstream_wire s) (upstream_open s)"

lemma proxy_inv_start:
  "length junk1 = BUFFER_SIZE \<Longrightarrow> length junk2 = BUFFER_SIZE \<Longrightarrow> proxy_inv wc wu (proxy_start junk1 junk2 wc wu)"
  by (simp add: proxy_inv_def channel_ok_def proxy_start_def buffer_reset_def buffer_ok_def buffered_def)

text \<open>The four parts of a turn.\<close>

lemma proxy_step_parts:
  obtains r1 b1 o1 r2 b2 o2 r3 b3 w3 r4 b4 w4 where
    "flush_buffer (pt_write_upstream t) (c2u s) (to_upstream s) = (r1, b1, o1)"
    "flush_buffer (pt_write_client t) (u2c s) (to_client s) = (r2, b2, o2)"
    "fill_buffer (pt_read_client t) (client_open s) b1 (client_wire s) = (r3, b3, w3)"
    "fill_buffer (pt_read_upstream t) (upstream_open s) b2 (upstream_wire s) = (r4, b4, w4)"
    "proxy_step t s =
      (if leaves r1 then (False, s\<lparr>c2u := b1, to_upstream := o1\<rparr>)
       else if leaves r2 then (False, s\<lparr>c2u := b1, to_upstream := o1, u2c := b2, to_client := o2\<rparr>)
       else if leaves r3 then
         (False, s\<lparr>c2u := b3, to_upstream := o1, u2c := b2, to_client := o2, client_wire := w3,
            client_open := if r3 = STEP_CLOSED then False else client_open s\<rparr>)
       else
         (\<not> leaves r4 \<and> \<not> (STEP_PROGRESS \<notin> {r1, r2, r3, r4} \<and> pt_select_failed t),
          s\<lparr>c2u := b3, to_upstream := o1, u2c := b4, to_client := o2, client_wire := w3, upstream_wire := w4,
            upstream_open := if r4 = STEP_CLOSED then False else upstream_open s\<rparr>))"
proof -
  obtain r1 b1 o1 where 1: "flush_buffer (pt_write_upstream t) (c2u s) (to_upstream s) = (r1, b1, o1)"
    by (cases "flush_buffer (pt_write_upstream t) (c2u s) (to_upstream s)")
  obtain r2 b2 o2 where 2: "flush_buffer (pt_write_client t) (u2c s) (to_client s) = (r2, b2, o2)"
    by (cases "flush_buffer (pt_write_client t) (u2c s) (to_client s)")
  obtain r3 b3 w3 where 3: "fill_buffer (pt_read_client t) (client_open s) b1 (client_wire s) = (r3, b3, w3)"
    by (cases "fill_buffer (pt_read_client t) (client_open s) b1 (client_wire s)")
  obtain r4 b4 w4 where 4: "fill_buffer (pt_read_upstream t) (upstream_open s) b2 (upstream_wire s) = (r4, b4, w4)"
    by (cases "fill_buffer (pt_read_upstream t) (upstream_open s) b2 (upstream_wire s)")
  show ?thesis
    by (rule that [OF 1 2 3 4]) (auto simp: proxy_step_def 1 2 3 4 Let_def leaves_def)
qed

lemma proxy_step_inv: "proxy_step t s = (go, s') \<Longrightarrow> proxy_inv wc wu s \<Longrightarrow> proxy_inv wc wu s'"
proof -
  assume st: "proxy_step t s = (go, s')" and inv: "proxy_inv wc wu s"
  obtain r1 b1 o1 r2 b2 o2 r3 b3 w3 r4 b4 w4 where
    p: "flush_buffer (pt_write_upstream t) (c2u s) (to_upstream s) = (r1, b1, o1)"
      "flush_buffer (pt_write_client t) (u2c s) (to_client s) = (r2, b2, o2)"
      "fill_buffer (pt_read_client t) (client_open s) b1 (client_wire s) = (r3, b3, w3)"
      "fill_buffer (pt_read_upstream t) (upstream_open s) b2 (upstream_wire s) = (r4, b4, w4)" and
    e: "proxy_step t s =
      (if leaves r1 then (False, s\<lparr>c2u := b1, to_upstream := o1\<rparr>)
       else if leaves r2 then (False, s\<lparr>c2u := b1, to_upstream := o1, u2c := b2, to_client := o2\<rparr>)
       else if leaves r3 then
         (False, s\<lparr>c2u := b3, to_upstream := o1, u2c := b2, to_client := o2, client_wire := w3,
            client_open := if r3 = STEP_CLOSED then False else client_open s\<rparr>)
       else
         (\<not> leaves r4 \<and> \<not> (STEP_PROGRESS \<notin> {r1, r2, r3, r4} \<and> pt_select_failed t),
          s\<lparr>c2u := b3, to_upstream := o1, u2c := b4, to_client := o2, client_wire := w3, upstream_wire := w4,
            upstream_open := if r4 = STEP_CLOSED then False else upstream_open s\<rparr>))"
    by (rule proxy_step_parts)
  have c: "channel_ok wc (to_upstream s) (c2u s) (client_wire s) (client_open s)"
    and u: "channel_ok wu (to_client s) (u2c s) (upstream_wire s) (upstream_open s)"
    using inv by (simp_all add: proxy_inv_def)
  note c1 = channel_ok_flush [OF p(1) c] and u1 = channel_ok_flush [OF p(2) u]
  note c2 = channel_ok_fill [OF p(3) c1] and u2 = channel_ok_fill [OF p(4) u1]
  have "r3 = STEP_CLOSED \<Longrightarrow> leaves r3" by (simp add: leaves_def)
  with st c c1 c2 u u1 u2 show ?thesis unfolding e by (auto simp: proxy_inv_def split: if_split_asm)
qed

lemma proxy_loop_inv: "proxy_loop ts s = (go, s') \<Longrightarrow> proxy_inv wc wu s \<Longrightarrow> proxy_inv wc wu s'"
  by (induction ts arbitrary: s) (auto split: prod.splits bool.splits dest: proxy_step_inv)

text \<open>Turns in which both peers take part: what the client sends is read and written on, whenever there is something; the other
  direction may have to wait.\<close>

definition responsive :: "proxy_turn \<Rightarrow> bool" where
  "responsive t \<longleftrightarrow> (\<exists>k. pt_write_upstream t = IO_DATA k) \<and> (\<exists>k. pt_read_client t = IO_DATA k) \<and>
    ((\<exists>k. pt_write_client t = IO_DATA k) \<or> pt_write_client t = IO_AGAIN) \<and>
    ((\<exists>k. pt_read_upstream t = IO_DATA k) \<or> pt_read_upstream t = IO_AGAIN) \<and> \<not> pt_select_failed t"

definition undelivered :: "proxy_state \<Rightarrow> nat" where
  "undelivered s = 2 * length (client_wire s) + length (buffered (c2u s))"

lemma responsive_step:
  assumes inv: "proxy_inv wc wu s" and t: "responsive t" and op: "client_open s" "upstream_open s"
  shows "\<exists>s'. proxy_step t s = (True, s') \<and> client_open s' \<and> upstream_open s' \<and> undelivered s' \<le> undelivered s - 1"
proof -
  obtain r1 b1 o1 r2 b2 o2 r3 b3 w3 r4 b4 w4 where
    p: "flush_buffer (pt_write_upstream t) (c2u s) (to_upstream s) = (r1, b1, o1)"
      "flush_buffer (pt_write_client t) (u2c s) (to_client s) = (r2, b2, o2)"
      "fill_buffer (pt_read_client t) (client_open s) b1 (client_wire s) = (r3, b3, w3)"
      "fill_buffer (pt_read_upstream t) (upstream_open s) b2 (upstream_wire s) = (r4, b4, w4)" and
    e: "proxy_step t s =
      (if leaves r1 then (False, s\<lparr>c2u := b1, to_upstream := o1\<rparr>)
       else if leaves r2 then (False, s\<lparr>c2u := b1, to_upstream := o1, u2c := b2, to_client := o2\<rparr>)
       else if leaves r3 then
         (False, s\<lparr>c2u := b3, to_upstream := o1, u2c := b2, to_client := o2, client_wire := w3,
            client_open := if r3 = STEP_CLOSED then False else client_open s\<rparr>)
       else
         (\<not> leaves r4 \<and> \<not> (STEP_PROGRESS \<notin> {r1, r2, r3, r4} \<and> pt_select_failed t),
          s\<lparr>c2u := b3, to_upstream := o1, u2c := b4, to_client := o2, client_wire := w3, upstream_wire := w4,
            upstream_open := if r4 = STEP_CLOSED then False else upstream_open s\<rparr>))"
    by (rule proxy_step_parts)
  have ok: "buffer_ok (c2u s)" "buffer_ok (u2c s)" using inv by (simp_all add: proxy_inv_def channel_ok_def)
  have f1: "buffer_ok b1" "\<not> leaves r1" "buffered (c2u s) = [] \<or> length (buffered b1) < length (buffered (c2u s))"
    "length (buffered b1) \<le> length (buffered (c2u s))"
    using flush_buffer_facts [OF p(1) ok(1)] t by (auto simp: responsive_def)
  have f2: "buffer_ok b2" "\<not> leaves r2" using flush_buffer_facts [OF p(2) ok(2)] t by (auto simp: responsive_def)
  have f3: "\<not> leaves r3" "buffered b3 @ w3 = buffered b1 @ client_wire s"
    "buffered b1 \<noteq> [] \<or> client_wire s = [] \<or> length w3 < length (client_wire s)"
    using fill_buffer_facts [OF p(3) f1(1)] t op(1) by (auto simp: responsive_def)
  have f4: "\<not> leaves r4" using fill_buffer_facts [OF p(4) f2(1)] t by (auto simp: responsive_def)
  have len: "length (buffered b3) + length w3 = length (buffered b1) + length (client_wire s)"
    using f3(2) by (metis length_append)
  have w: "length w3 \<le> length (client_wire s)"
    using p(3) by (cases "pt_read_client t") (auto simp: fill_buffer_def Let_def split: if_split_asm)
  have "2 * length w3 + length (buffered b3) \<le> 2 * length (client_wire s) + length (buffered (c2u s)) - 1"
    using len w f1(3,4) f3(3) by auto
  moreover have "r4 \<noteq> STEP_CLOSED" using f4 by (auto simp: leaves_def)
  moreover have "\<not> pt_select_failed t" using t by (simp add: responsive_def)
  ultimately show ?thesis
    using f1(2) f2(2) f3(1) f4 op unfolding e by (simp add: undelivered_def)
qed

lemma responsive_loop:
  "proxy_inv wc wu s \<Longrightarrow> list_all responsive ts \<Longrightarrow> client_open s \<Longrightarrow> upstream_open s \<Longrightarrow>
   \<exists>s'. proxy_loop ts s = (True, s') \<and> undelivered s' \<le> undelivered s - length ts"
proof (induction ts arbitrary: s)
  case (Cons t ts)
  have "responsive t" using Cons.prems(2) by simp
  then obtain s1 where s1: "proxy_step t s = (True, s1)" "client_open s1" "upstream_open s1" "undelivered s1 \<le> undelivered s - 1"
    using responsive_step [OF Cons.prems(1) _ Cons.prems(3,4)] by blast
  obtain s' where "proxy_loop ts s1 = (True, s')" "undelivered s' \<le> undelivered s1 - length ts"
    using Cons.IH [OF proxy_step_inv [OF s1(1) Cons.prems(1)] _ s1(2,3)] Cons.prems(2) by auto
  then show ?case using s1 by auto
qed simp

section \<open>Properties\<close>

text \<open>C33. The proxy is transparent in both directions, however the bytes are cut by the network and however the loop ends:
  what was delivered, what is in the buffer and what was not read yet are together exactly what the sender sent, in
  order. When a peer closed its stream, everything that was read from it has been delivered.\<close>

theorem proxy_transparent:
  assumes "length junk1 = BUFFER_SIZE" "length junk2 = BUFFER_SIZE"
    "proxy_loop ts (proxy_start junk1 junk2 sent_by_client sent_by_upstream) = (go, s)"
  shows "sent_by_client = to_upstream s @ buffered (c2u s) @ client_wire s \<and>
    sent_by_upstream = to_client s @ buffered (u2c s) @ upstream_wire s \<and>
    length (buffered (c2u s)) \<le> BUFFER_SIZE \<and> length (buffered (u2c s)) \<le> BUFFER_SIZE \<and>
    (\<not> client_open s \<longrightarrow> sent_by_client = to_upstream s @ client_wire s) \<and>
    (\<not> upstream_open s \<longrightarrow> sent_by_upstream = to_client s @ upstream_wire s)"
proof -
  have "proxy_inv sent_by_client sent_by_upstream s"
    by (rule proxy_loop_inv [OF assms(3) proxy_inv_start [OF assms(1,2)]])
  then have c: "channel_ok sent_by_client (to_upstream s) (c2u s) (client_wire s) (client_open s)"
    "channel_ok sent_by_upstream (to_client s) (u2c s) (upstream_wire s) (upstream_open s)"
    by (simp_all add: proxy_inv_def)
  then have "length (buffered (c2u s)) \<le> BUFFER_SIZE" "length (buffered (u2c s)) \<le> BUFFER_SIZE"
    using length_buffered by (auto simp: channel_ok_def buffer_ok_def)
  with c show ?thesis by (auto simp: channel_ok_def)
qed

definition demo_turns :: "proxy_turn list" where
  "demo_turns = replicate 4 \<lparr>pt_write_upstream = IO_DATA 1, pt_write_client = IO_AGAIN, pt_read_client = IO_DATA 2,
     pt_read_upstream = IO_AGAIN, pt_select_failed = False\<rparr>"

theorem proxy_transparent_witness:
  "[1, 2, 3] = to_upstream (snd (proxy_loop demo_turns (proxy_start (replicate BUFFER_SIZE 0) (replicate BUFFER_SIZE 0) [1, 2, 3] []))) @
     buffered (c2u (snd (proxy_loop demo_turns (proxy_start (replicate BUFFER_SIZE 0) (replicate BUFFER_SIZE 0) [1, 2, 3] [])))) @
     client_wire (snd (proxy_loop demo_turns (proxy_start (replicate BUFFER_SIZE 0) (replicate BUFFER_SIZE 0) [1, 2, 3] [])))"
  by (rule proxy_transparent [OF _ _ surjective_pairing, THEN conjunct1]) simp_all

text \<open>C36. What the client sends arrives: while both peers take part, every turn moves at least a byte, the loop is not left, and
  after two turns per byte at the latest everything has been delivered upstream.\<close>

theorem proxy_delivers:
  assumes "length junk1 = BUFFER_SIZE" "length junk2 = BUFFER_SIZE" "list_all responsive ts"
    "2 * length sent_by_client \<le> length ts"
  shows "\<exists>s. proxy_loop ts (proxy_start junk1 junk2 sent_by_client sent_by_upstream) = (True, s) \<and> to_upstream s = sent_by_client"
proof -
  let ?s = "proxy_start junk1 junk2 sent_by_client sent_by_upstream"
  have inv: "proxy_inv sent_by_client sent_by_upstream ?s" by (rule proxy_inv_start [OF assms(1,2)])
  have "client_open ?s" "upstream_open ?s" "undelivered ?s = 2 * length sent_by_client"
    by (simp_all add: proxy_start_def undelivered_def buffer_reset_def buffered_def)
  then obtain s' where s': "proxy_loop ts ?s = (True, s')" "undelivered s' \<le> 2 * length sent_by_client - length ts"
    using responsive_loop [OF inv assms(3)] by auto
  have "client_wire s' = []" "buffered (c2u s') = []" using s'(2) assms(4) by (simp_all add: undelivered_def)
  then show ?thesis using s'(1) proxy_loop_inv [OF s'(1) inv] by (auto simp: proxy_inv_def channel_ok_def)
qed

theorem proxy_delivers_witness:
  "\<exists>s. proxy_loop demo_turns (proxy_start (replicate BUFFER_SIZE 0) (replicate BUFFER_SIZE 0) [1, 2] [9]) = (True, s) \<and>
     to_upstream s = [1, 2]"
  by (rule proxy_delivers) (simp_all add: demo_turns_def responsive_def list_all_iff)

end
