(* ===== verification/Proxy_Config.thy ===== *)
theory Proxy_Config
  imports Options Pool_Url Proxy_Loop
begin

text \<open>
  The proxy apart from forwarding, \<open>src/src/proxy_main.c\<close>: endpoints, the configuration file, the command line, the
  certificate files, and how a client is accepted. The file system and OpenSSL are parameters. The build is for Unix.
\<close>

section \<open>Settings\<close>

record endpoint_t =
  e_host :: string
  e_port :: string
  e_use_tls :: bool

datatype listen_mode = LISTEN_TCP | LISTEN_TLS | LISTEN_AUTO

record proxy_config_t =
  px_listen_host :: string
  px_listen_port :: string
  px_listen_mode :: listen_mode
  px_data_dir :: string
  px_cert_path :: string
  px_key_path :: string
  px_upstream :: endpoint_t
  px_upstream_verify :: bool

definition copy_text :: "nat \<Rightarrow> string option \<Rightarrow> string" where
  "copy_text dst_size src =
    (case src of
       None \<Rightarrow> []
     | Some s \<Rightarrow> let len = length s; len = (if len \<ge> dst_size then dst_size - 1 else len) in take len s)"

section \<open>Paths\<close>

definition is_sep :: "char \<Rightarrow> bool" where
  "is_sep ch \<longleftrightarrow> ch = CHR ''/'' \<or> ch = char_of (92 :: nat)"

fun strip_seps :: "string \<Rightarrow> string" where
  "strip_seps rev_path = (case rev_path of
     c # c' # rest \<Rightarrow> if is_sep c then strip_seps (c' # rest) else rev_path
   | _ \<Rightarrow> rev_path)"

declare strip_seps.simps [simp del]

text \<open>The directories to create, in order: every proper prefix that ends before a separator, then the whole path. A drive
  letter is not created.\<close>

definition directory_prefixes :: "string \<Rightarrow> string list" where
  "directory_prefixes tmp =
    map (\<lambda>i. take i tmp)
      (filter (\<lambda>i. is_sep (tmp ! i) \<and> \<not> (i = 2 \<and> tmp ! 1 = CHR '':'')) [1..<length tmp]) @ [tmp]"

text \<open>\<open>make_directory\<close> is told which directory to create; the result has the directories tried so far.\<close>

fun make_directories :: "(string \<Rightarrow> bool) \<Rightarrow> string list \<Rightarrow> bool \<times> string list" where
  "make_directories make_directory [] = (True, [])"
| "make_directories make_directory (d # ds) =
    (if \<not> make_directory d then (False, [d])
     else case make_directories make_directory ds of (ok, tried) \<Rightarrow> (ok, d # tried))"

definition ensure_directory :: "(string \<Rightarrow> bool) \<Rightarrow> string \<Rightarrow> bool \<times> string list" where
  "ensure_directory make_directory path =
    (let tmp = rev (strip_seps (rev (copy_text 512 (Some path))))
     in make_directories make_directory (directory_prefixes tmp))"

definition join_path :: "nat \<Rightarrow> string \<Rightarrow> string \<Rightarrow> string" where
  "join_path out_size dir name =
    (let sep = (if dir \<noteq> [] \<and> is_sep (last dir) then [] else ''/'') in snprintf_s out_size (dir @ sep @ name))"

section \<open>Endpoints\<close>

definition parse_host_port :: "string \<Rightarrow> (string \<times> string) option" where
  "parse_host_port text =
    (if text = [] then None
     else
       (case split_last CHR '':'' (snprintf_s 320 text) of
          None \<Rightarrow> None
        | Some (h, p) \<Rightarrow>
            let host = copy_text 256 (Some (if h \<noteq> [] then h else ''0.0.0.0''));
                port = copy_text 16 (Some p)
            in if host = [] \<or> port = [] then None else Some (host, port)))"

definition endpoint_scheme :: "string \<Rightarrow> string \<times> bool" where
  "endpoint_scheme p =
    (if prefix ''stratum+tcp://'' p then (drop 14 p, False)
     else if prefix ''stratum+tls://'' p \<or> prefix ''stratum+ssl://'' p then (drop 14 p, True)
     else if prefix ''tcp://'' p then (drop 6 p, False)
     else if prefix ''tls://'' p \<or> prefix ''ssl://'' p then (drop 6 p, True)
     else (p, False))"

definition parse_endpoint :: "string \<Rightarrow> endpoint_t option" where
  "parse_endpoint url =
    (let (p, use_tls) = endpoint_scheme url
     in if p = [] then None
        else
          let hostport = takeWhile (\<lambda>c. c \<noteq> CHR ''/'') (snprintf_s 320 p);
              (host, port) =
                (case split_last CHR '':'' hostport of
                   None \<Rightarrow> (copy_text 256 (Some hostport), copy_text 16 (Some (if use_tls then ''4333'' else ''3333'')))
                 | Some (h, rest) \<Rightarrow> (copy_text 256 (Some h), copy_text 16 (Some rest)))
          in if host = [] \<or> port = [] then None else Some \<lparr>e_host = host, e_port = port, e_use_tls = use_tls\<rparr>)"

section \<open>The configuration file\<close>

definition json_string_copy :: "json_t option \<Rightarrow> nat \<Rightarrow> string \<Rightarrow> string" where
  "json_string_copy v dst_size dst = (case json_string_value v of None \<Rightarrow> dst | Some s \<Rightarrow> copy_text dst_size (Some s))"

definition json_port_copy :: "json_t option \<Rightarrow> nat \<Rightarrow> string \<Rightarrow> string" where
  "json_port_copy v dst_size dst =
    (case v of
       Some (JStr s) \<Rightarrow> json_string_copy v dst_size dst
     | Some (JInt i) \<Rightarrow> snprintf_s dst_size (print_lld i)
     | _ \<Rightarrow> dst)"

definition set_listen_url :: "string \<Rightarrow> proxy_config_t \<Rightarrow> proxy_config_t option" where
  "set_listen_url url c =
    (case parse_endpoint url of
       None \<Rightarrow> None
     | Some ep \<Rightarrow>
         Some (c\<lparr>px_listen_host := copy_text 256 (Some (e_host ep)), px_listen_port := copy_text 16 (Some (e_port ep)),
                 px_listen_mode := (if e_use_tls ep then LISTEN_TLS else LISTEN_TCP)\<rparr>))"

definition listen_mode_of :: "json_t option \<Rightarrow> listen_mode \<Rightarrow> listen_mode" where
  "listen_mode_of listen m =
    (let m = (case json_string_value (json_member listen ''mode'') of
                None \<Rightarrow> m
              | Some text \<Rightarrow>
                 if text = ''tls'' \<or> text = ''ssl'' then LISTEN_TLS
                 else if text = ''tcp'' then LISTEN_TCP
                 else if text = ''auto'' then LISTEN_AUTO
                 else m)
     in case json_member listen ''tls'' of
          Some (JBool b) \<Rightarrow> if b then LISTEN_TLS else LISTEN_AUTO
        | _ \<Rightarrow> m)"

definition load_listen :: "json_t option \<Rightarrow> proxy_config_t \<Rightarrow> proxy_config_t option" where
  "load_listen listen c =
    (case listen of
       Some (JStr url) \<Rightarrow> set_listen_url url c
     | Some (JObj kvs) \<Rightarrow>
        (case (case json_member listen ''url'' of Some (JStr url) \<Rightarrow> set_listen_url url c | _ \<Rightarrow> Some c) of
           None \<Rightarrow> None
         | Some c \<Rightarrow>
            Some (c\<lparr>px_listen_mode := listen_mode_of listen (px_listen_mode c),
                    px_listen_host := json_string_copy (json_member listen ''host'') 256 (px_listen_host c),
                    px_listen_port := json_port_copy (json_member listen ''port'') 16 (px_listen_port c),
                    px_cert_path := json_string_copy (json_member listen ''cert'') 512 (px_cert_path c),
                    px_key_path := json_string_copy (json_member listen ''key'') 512 (px_key_path c)\<rparr>))
     | _ \<Rightarrow> Some c)"

definition load_upstream :: "json_t option \<Rightarrow> proxy_config_t \<Rightarrow> proxy_config_t option" where
  "load_upstream upstream c =
    (case upstream of
       Some (JStr url) \<Rightarrow> (case parse_endpoint url of None \<Rightarrow> None | Some ep \<Rightarrow> Some (c\<lparr>px_upstream := ep\<rparr>))
     | Some (JObj kvs) \<Rightarrow>
        (case (case json_member upstream ''url'' of
                 Some (JStr url) \<Rightarrow> (case parse_endpoint url of None \<Rightarrow> None | Some ep \<Rightarrow> Some (c\<lparr>px_upstream := ep\<rparr>))
               | _ \<Rightarrow> Some c) of
           None \<Rightarrow> None
         | Some c \<Rightarrow>
            Some (c\<lparr>px_upstream_verify := json_bool_value (json_member upstream ''verify'') (px_upstream_verify c)\<rparr>))
     | _ \<Rightarrow> Some c)"

text \<open>\<open>None\<close> is the return code \<open>-1\<close>. The document is what parsing the file gave.\<close>

definition load_proxy_config :: "json_t option \<Rightarrow> bool \<Rightarrow> proxy_config_t \<Rightarrow> proxy_config_t option" where
  "load_proxy_config doc required c =
    (case doc of
       None \<Rightarrow> if required then None else Some c
     | Some _ \<Rightarrow>
        (case load_listen (json_member doc ''listen'') c of
           None \<Rightarrow> None
         | Some c \<Rightarrow>
            (case load_upstream (json_member doc ''upstream'') c of
               None \<Rightarrow> None
             | Some c \<Rightarrow>
                Some (c\<lparr>px_cert_path := json_string_copy (json_member doc ''cert'') 512 (px_cert_path c),
                        px_key_path := json_string_copy (json_member doc ''key'') 512 (px_key_path c),
                        px_data_dir := json_string_copy (json_member doc ''data-dir'') 512 (px_data_dir c),
                        px_upstream_verify := json_bool_value (json_member doc ''upstream-verify'') (px_upstream_verify c)\<rparr>))))"

section \<open>The command line\<close>

definition set_default_data_dir :: "string option \<Rightarrow> string" where
  "set_default_data_dir configured =
    (case configured of
       Some s \<Rightarrow> if s \<noteq> [] then copy_text 512 (Some s) else copy_text 512 (Some ''.'')
     | None \<Rightarrow> copy_text 512 (Some ''.''))"

definition proxy_defaults :: "string option \<Rightarrow> proxy_config_t option" where
  "proxy_defaults env_data_dir =
    (case parse_endpoint ''stratum+tls://public-pool.io:4333'' of
       None \<Rightarrow> None
     | Some ep \<Rightarrow>
        Some \<lparr>px_listen_host = copy_text 256 (Some ''0.0.0.0''), px_listen_port = copy_text 16 (Some ''4333''),
              px_listen_mode = LISTEN_AUTO, px_data_dir = set_default_data_dir env_data_dir,
              px_cert_path = [], px_key_path = [], px_upstream = ep, px_upstream_verify = False\<rparr>)"

text \<open>The argument after an option, if there is one.\<close>

definition set_listen :: "listen_mode \<Rightarrow> string \<Rightarrow> proxy_config_t \<Rightarrow> int + proxy_config_t" where
  "set_listen mode v c =
    (case parse_host_port v of
       None \<Rightarrow> Inl 2
     | Some (host, port) \<Rightarrow> Inr (c\<lparr>px_listen_host := host, px_listen_port := port, px_listen_mode := mode\<rparr>))"

definition proxy_value_option :: "string \<Rightarrow> string \<Rightarrow> proxy_config_t \<Rightarrow> (int + proxy_config_t) option" where
  "proxy_value_option a v c =
    (if a = ''--config'' then Some (Inr c)
     else if a = ''--listen-auto'' then Some (set_listen LISTEN_AUTO v c)
     else if a = ''--listen-tcp'' then Some (set_listen LISTEN_TCP v c)
     else if a = ''--listen-tls'' then Some (set_listen LISTEN_TLS v c)
     else if a = ''--data-dir'' then Some (Inr (c\<lparr>px_data_dir := copy_text 512 (Some v)\<rparr>))
     else if a = ''--cert'' then Some (Inr (c\<lparr>px_cert_path := copy_text 512 (Some v)\<rparr>))
     else if a = ''--key'' then Some (Inr (c\<lparr>px_key_path := copy_text 512 (Some v)\<rparr>))
     else if a = ''--upstream'' then
       Some (case parse_endpoint v of None \<Rightarrow> Inl 2 | Some ep \<Rightarrow> Inr (c\<lparr>px_upstream := ep\<rparr>))
     else None)"

definition proxy_flag :: "string \<Rightarrow> proxy_config_t \<Rightarrow> int + proxy_config_t" where
  "proxy_flag a c =
    (if a = ''--upstream-no-verify'' then Inr (c\<lparr>px_upstream_verify := False\<rparr>)
     else if a = ''-h'' \<or> a = ''--help'' then Inl 0
     else Inl 2)"

fun proxy_options :: "string list \<Rightarrow> proxy_config_t \<Rightarrow> int + proxy_config_t" where
  "proxy_options [] c = Inr c"
| "proxy_options [a] c = proxy_flag a c"
| "proxy_options (a # v # argv) c =
    (case proxy_value_option a v c of
       Some (Inl rc) \<Rightarrow> Inl rc
     | Some (Inr c') \<Rightarrow> proxy_options argv c'
     | None \<Rightarrow> (case proxy_flag a c of Inl rc \<Rightarrow> Inl rc | Inr c' \<Rightarrow> proxy_options (v # argv) c'))"

text \<open>The paths of certificate and key. \<open>exists\<close> tells whether a file can be read; the last component whether they have to
  be generated.\<close>

definition proxy_certificate ::
  "(string \<Rightarrow> bool) \<Rightarrow> (string \<Rightarrow> bool) \<Rightarrow> proxy_config_t \<Rightarrow> int + proxy_config_t \<times> bool" where
  "proxy_certificate make_directory exists c =
    (if px_listen_mode c = LISTEN_TCP then Inr (c, False)
     else
       let r = (if px_cert_path c = [] \<and> px_key_path c = [] then
                  (if \<not> fst (ensure_directory make_directory (px_data_dir c)) then Inl 1
                   else Inr (c\<lparr>px_cert_path := join_path 512 (px_data_dir c) ''cert.pem'',
                               px_key_path := join_path 512 (px_data_dir c) ''cert_key.pem''\<rparr>))
                else if px_cert_path c = [] \<or> px_key_path c = [] then Inl 2
                else Inr c)
       in case r of
            Inl rc \<Rightarrow> Inl rc
          | Inr c \<Rightarrow> Inr (c, \<not> exists (px_cert_path c) \<or> \<not> exists (px_key_path c)))"

text \<open>\<open>find_config_arg\<close> of the proxy, and everything of \<open>main\<close> before the socket is opened. \<open>load\<close> parses a file;
  \<open>generate\<close> writes a certificate and its key, \<open>server_tls\<close> loads them.\<close>

definition proxy_config_arg :: "string list \<Rightarrow> string option" where
  "proxy_config_arg argv =
    (case filter (\<lambda>i. argv ! i = ''--config'' \<and> i + 1 < length argv) [0..<length argv] of
       [] \<Rightarrow> None
     | i # _ \<Rightarrow> Some (argv ! (i + 1)))"

definition proxy_startup ::
  "string option \<Rightarrow> (string \<Rightarrow> json_t option) \<Rightarrow> (string \<Rightarrow> bool) \<Rightarrow> (string \<Rightarrow> bool) \<Rightarrow> (string \<Rightarrow> string \<Rightarrow> bool) \<Rightarrow>
   (string \<Rightarrow> string \<Rightarrow> bool) \<Rightarrow> string list \<Rightarrow> int + proxy_config_t" where
  "proxy_startup env_data_dir load make_directory exists generate server_tls argv =
    (case proxy_defaults env_data_dir of
       None \<Rightarrow> Inl 1
     | Some c \<Rightarrow>
        if ''-h'' \<in> set argv \<or> ''--help'' \<in> set argv then Inl 0
        else if ''--version'' \<in> set argv then Inl 0
        else
          let (path, required) =
                (case proxy_config_arg argv of
                   Some p \<Rightarrow> (Some p, True)
                 | None \<Rightarrow>
                    if exists ''proxy.json'' then (Some ''proxy.json'', False)
                    else if exists ''../proxy.json'' then (Some ''../proxy.json'', False)
                    else (None, False));
              loaded = (case path of None \<Rightarrow> Some c | Some p \<Rightarrow> load_proxy_config (load p) required c)
          in case loaded of
               None \<Rightarrow> Inl 1
             | Some c \<Rightarrow>
                (case proxy_options argv c of
                   Inl rc \<Rightarrow> Inl rc
                 | Inr c \<Rightarrow>
                    (case proxy_certificate make_directory exists c of
                       Inl rc \<Rightarrow> Inl rc
                     | Inr (c, new_cert) \<Rightarrow>
                        if new_cert \<and> \<not> generate (px_cert_path c) (px_key_path c) then Inl 1
                        else if px_listen_mode c \<noteq> LISTEN_TCP \<and> \<not> server_tls (px_cert_path c) (px_key_path c) then Inl 1
                        else Inr c)))"

section \<open>A client\<close>

text \<open>The first byte of the client, if it can be peeked. \<open>None\<close> is the return code \<open>-1\<close>.\<close>

definition client_uses_tls :: "u8 option \<Rightarrow> listen_mode \<Rightarrow> bool option" where
  "client_uses_tls first_byte mode =
    (case mode of
       LISTEN_TLS \<Rightarrow> Some True
     | LISTEN_TCP \<Rightarrow> Some False
     | LISTEN_AUTO \<Rightarrow> (case first_byte of None \<Rightarrow> None | Some b \<Rightarrow> Some (b = 0x16)))"

text \<open>What the network and OpenSSL answer while a client is connected.\<close>

record client_events =
  ce_first_byte :: "u8 option"
  ce_client_ssl_new :: bool
  ce_client_accept :: bool
  ce_upstream_connect :: bool
  ce_upstream_ctx_new :: bool
  ce_upstream_ssl_new :: bool
  ce_upstream_handshake :: "bool \<Rightarrow> bool"

text \<open>The results are whether the stream is encrypted; \<open>None\<close> is an error.\<close>

definition stream_open_client :: "client_events \<Rightarrow> proxy_config_t \<Rightarrow> bool option" where
  "stream_open_client ev c =
    (case client_uses_tls (ce_first_byte ev) (px_listen_mode c) of
       None \<Rightarrow> None
     | Some use_tls \<Rightarrow>
        if \<not> use_tls then Some False
        else if \<not> ce_client_ssl_new ev then None
        else if \<not> ce_client_accept ev then None
        else Some True)"

definition stream_open_upstream :: "client_events \<Rightarrow> endpoint_t \<Rightarrow> bool \<Rightarrow> bool option" where
  "stream_open_upstream ev ep verify =
    (if \<not> ce_upstream_connect ev then None
     else if \<not> e_use_tls ep then Some False
     else if \<not> ce_upstream_ctx_new ev then None
     else if \<not> ce_upstream_ssl_new ev then None
     else if \<not> ce_upstream_handshake ev verify then None
     else Some True)"

text \<open>A client from accepting it to closing it: how the two connections are protected and the state in which forwarding
  ended, or nothing if one of them could not be opened.\<close>

definition client_thread ::
  "client_events \<Rightarrow> proxy_config_t \<Rightarrow> proxy_turn list \<Rightarrow> proxy_state \<Rightarrow> (bool \<times> bool \<times> bool \<times> proxy_state) option" where
  "client_thread ev c ts s =
    (case stream_open_client ev c of
       None \<Rightarrow> None
     | Some client_tls \<Rightarrow>
        (case stream_open_upstream ev (px_upstream c) (px_upstream_verify c) of
           None \<Rightarrow> None
         | Some upstream_tls \<Rightarrow> (case proxy_loop ts s of (go, s') \<Rightarrow> Some (client_tls, upstream_tls, go, s'))))"

section \<open>Lemmas\<close>

lemma copy_text_fits: "length s < n \<Longrightarrow> copy_text n (Some s) = s"
  by (simp add: copy_text_def)

lemma length_copy_text: "0 < n \<Longrightarrow> length (copy_text n s) < n"
  by (cases s) (auto simp: copy_text_def Let_def)

lemma length_json_string_copy: "0 < n \<Longrightarrow> length dst < n \<Longrightarrow> length (json_string_copy v n dst) < n"
  by (simp add: json_string_copy_def length_copy_text split: option.split)

lemma length_json_port_copy: "0 < n \<Longrightarrow> length dst < n \<Longrightarrow> length (json_port_copy v n dst) < n"
  by (auto simp: json_port_copy_def length_json_string_copy split: option.split json_t.split)

definition endpoint_ok :: "endpoint_t \<Rightarrow> bool" where
  "endpoint_ok ep \<longleftrightarrow> e_host ep \<noteq> [] \<and> length (e_host ep) < 256 \<and> e_port ep \<noteq> [] \<and> length (e_port ep) < 16"

lemma parse_endpoint_ok: "parse_endpoint url = Some ep \<Longrightarrow> endpoint_ok ep"
  by (auto simp: parse_endpoint_def endpoint_ok_def Let_def length_copy_text split: prod.splits option.splits if_split_asm)

definition proxy_config_ok :: "proxy_config_t \<Rightarrow> bool" where
  "proxy_config_ok c \<longleftrightarrow> length (px_listen_host c) < 256 \<and> length (px_listen_port c) < 16 \<and> length (px_data_dir c) < 512 \<and>
    length (px_cert_path c) < 512 \<and> length (px_key_path c) < 512 \<and> endpoint_ok (px_upstream c)"

lemma default_endpoint:
  "parse_endpoint ''stratum+tls://public-pool.io:4333'' = Some \<lparr>e_host = ''public-pool.io'', e_port = ''4333'', e_use_tls = True\<rparr>"
  by (simp add: parse_endpoint_def endpoint_scheme_def snprintf_s_def copy_text_def)

lemma proxy_defaults_ok: "proxy_defaults d = Some c \<Longrightarrow> proxy_config_ok c"
  by (auto simp: proxy_defaults_def default_endpoint proxy_config_ok_def endpoint_ok_def length_copy_text set_default_data_dir_def
      split: option.splits)

lemma set_listen_url_ok: "set_listen_url url c = Some c' \<Longrightarrow> proxy_config_ok c \<Longrightarrow> proxy_config_ok c'"
  by (auto simp: set_listen_url_def proxy_config_ok_def length_copy_text split: option.splits)

lemma load_listen_ok: "load_listen v c = Some c' \<Longrightarrow> proxy_config_ok c \<Longrightarrow> proxy_config_ok c'"
proof -
  assume a: "load_listen v c = Some c'" and ok: "proxy_config_ok c"
  have upd: "proxy_config_ok (g\<lparr>px_listen_mode := m, px_listen_host := json_string_copy w1 256 (px_listen_host g),
      px_listen_port := json_port_copy w2 16 (px_listen_port g), px_cert_path := json_string_copy w3 512 (px_cert_path g),
      px_key_path := json_string_copy w4 512 (px_key_path g)\<rparr>)" if "proxy_config_ok g" for g m w1 w2 w3 w4
    using that by (simp add: proxy_config_ok_def length_json_string_copy length_json_port_copy)
  show "proxy_config_ok c'"
    using a ok upd set_listen_url_ok unfolding load_listen_def
    by (auto split: option.split_asm json_t.split_asm)
qed

lemma load_upstream_ok: "load_upstream v c = Some c' \<Longrightarrow> proxy_config_ok c \<Longrightarrow> proxy_config_ok c'"
  by (auto simp: load_upstream_def proxy_config_ok_def parse_endpoint_ok split: option.split_asm json_t.split_asm)

lemma load_proxy_config_ok: "load_proxy_config doc required c = Some c' \<Longrightarrow> proxy_config_ok c \<Longrightarrow> proxy_config_ok c'"
proof -
  assume a: "load_proxy_config doc required c = Some c'" and ok: "proxy_config_ok c"
  have upd: "proxy_config_ok (g\<lparr>px_cert_path := json_string_copy w1 512 (px_cert_path g),
      px_key_path := json_string_copy w2 512 (px_key_path g), px_data_dir := json_string_copy w3 512 (px_data_dir g),
      px_upstream_verify := b\<rparr>)" if "proxy_config_ok g" for g w1 w2 w3 b
    using that by (simp add: proxy_config_ok_def length_json_string_copy)
  show "proxy_config_ok c'"
    using a ok upd load_listen_ok load_upstream_ok unfolding load_proxy_config_def
    by (fastforce split: option.split_asm if_split_asm)
qed

lemma set_listen_ok: "set_listen m v c = Inr c' \<Longrightarrow> proxy_config_ok c \<Longrightarrow> proxy_config_ok c'"
  by (auto simp: set_listen_def parse_host_port_def proxy_config_ok_def Let_def length_copy_text split: option.splits if_split_asm)

fun right_ok :: "int + proxy_config_t \<Rightarrow> bool" where
  "right_ok (Inl rc) = True"
| "right_ok (Inr c) = proxy_config_ok c"

definition opt_right_ok :: "(int + proxy_config_t) option \<Rightarrow> bool" where
  "opt_right_ok r = (case r of None \<Rightarrow> True | Some x \<Rightarrow> right_ok x)"

lemma opt_right_ok_if: "right_ok x \<Longrightarrow> opt_right_ok y \<Longrightarrow> opt_right_ok (if b then Some x else y)"
  by (simp add: opt_right_ok_def)

lemma right_ok_set_listen: "proxy_config_ok c \<Longrightarrow> right_ok (set_listen m v c)"
  using set_listen_ok [of m v c] by (cases "set_listen m v c") simp_all

lemma proxy_value_option_ok: "proxy_config_ok c \<Longrightarrow> opt_right_ok (proxy_value_option a v c)"
  unfolding proxy_value_option_def
  by (intro opt_right_ok_if right_ok_set_listen)
     (auto simp: proxy_config_ok_def length_copy_text parse_endpoint_ok opt_right_ok_def split: option.split)

lemma proxy_flag_ok: "proxy_config_ok c \<Longrightarrow> right_ok (proxy_flag a c)"
  by (simp add: proxy_flag_def proxy_config_ok_def)

lemma proxy_options_ok: "proxy_options argv c = Inr c' \<Longrightarrow> proxy_config_ok c \<Longrightarrow> proxy_config_ok c'"
proof (induction argv c rule: proxy_options.induct)
  case (2 a c)
  then show ?case using proxy_flag_ok [of c a] by simp
next
  case (3 a v argv c)
  then show ?case using proxy_flag_ok [of c a] proxy_value_option_ok [of c a v]
    by (auto simp: opt_right_ok_def split: option.splits sum.splits)
qed simp

lemma length_join_path: "0 < n \<Longrightarrow> length (join_path n dir name) < n"
  by (simp add: join_path_def Let_def)

lemma proxy_certificate_ok:
  assumes "proxy_certificate make_directory ex c = Inr (c', new)" "proxy_config_ok c"
  shows "proxy_config_ok c' \<and> px_listen_mode c' = px_listen_mode c \<and>
    (px_listen_mode c \<noteq> LISTEN_TCP \<longrightarrow> px_cert_path c' \<noteq> [] \<and> px_key_path c' \<noteq> [] \<and>
      new = (\<not> ex (px_cert_path c') \<or> \<not> ex (px_key_path c')))"
proof -
  have ne: "join_path 512 d (x # xs) \<noteq> []" for d x xs
    by (simp add: join_path_def Let_def snprintf_s_eq_Nil)
  show ?thesis
    using assms ne unfolding proxy_certificate_def Let_def
    by (auto simp: proxy_config_ok_def length_join_path split: if_split_asm)
qed

lemma schemes_agree:
  assumes "url_scheme url = (p, tls, True)"
  shows "endpoint_scheme url = (p, tls)"
proof -
  have "\<not> insecure_url url" using url_scheme_insecure [OF assms] by simp
  then show ?thesis
    using assms unfolding url_scheme_def endpoint_scheme_def insecure_url_def by (simp split: if_split_asm)
qed

section \<open>Properties\<close>

text \<open>Miner and proxy read a URL in the same way: every URL that the miner accepts, except for one that asks for an
  unverified connection, names the same host, port and protection for the proxy.\<close>

theorem endpoint_agrees_with_miner:
  assumes "parse_pool_url url = Some ep" "ep_verify_tls ep"
  shows "parse_endpoint url = Some \<lparr>e_host = ep_host ep, e_port = ep_port ep, e_use_tls = ep_use_tls ep\<rparr>"
proof -
  obtain p tls verify where sch: "url_scheme url = (p, tls, verify)" by (cases "url_scheme url")
  have v: "verify" using assms sch by (auto simp: parse_pool_url_def copy_checked_def Let_def split: option.splits if_splits)
  have e: "endpoint_scheme url = (p, tls)" using schemes_agree sch v by simp
  show ?thesis
    using assms(1)
    by (auto simp: parse_pool_url_def parse_endpoint_def sch e Let_def snprintf_s_def copy_checked_def copy_text_fits
        split: option.splits if_split_asm)
qed

theorem endpoint_agrees_with_miner_witness:
  "parse_endpoint ''tls://h:1/x'' = Some \<lparr>e_host = ''h'', e_port = ''1'', e_use_tls = True\<rparr>"
proof -
  have "parse_pool_url ''tls://h:1/x'' = Some \<lparr>ep_host = ''h'', ep_port = ''1'', ep_use_tls = True, ep_verify_tls = True\<rparr>"
    by (simp add: parse_pool_url_def url_scheme_def copy_checked_def)
  from endpoint_agrees_with_miner [OF this] show ?thesis by simp
qed

text \<open>A proxy that starts has sound settings: all texts fit their buffers, the upstream has a host and a port, and unless it
  listens in the clear only, it has a certificate and a key that exist or were generated and that could be loaded.\<close>

theorem proxy_startup_sound:
  assumes "proxy_startup env_data_dir load make_directory ex generate server_tls argv = Inr c"
  shows "length (px_listen_host c) < 256 \<and> length (px_listen_port c) < 16 \<and>
    length (px_cert_path c) < 512 \<and> length (px_key_path c) < 512 \<and>
    e_host (px_upstream c) \<noteq> [] \<and> length (e_host (px_upstream c)) < 256 \<and>
    e_port (px_upstream c) \<noteq> [] \<and> length (e_port (px_upstream c)) < 16 \<and>
    (px_listen_mode c \<noteq> LISTEN_TCP \<longrightarrow> px_cert_path c \<noteq> [] \<and> px_key_path c \<noteq> [] \<and>
      (ex (px_cert_path c) \<and> ex (px_key_path c) \<or> generate (px_cert_path c) (px_key_path c)) \<and>
      server_tls (px_cert_path c) (px_key_path c))"
proof -
  obtain d where d: "proxy_defaults env_data_dir = Some d" using assms by (auto simp: proxy_startup_def split: option.splits)
  let ?p = "case proxy_config_arg argv of
      Some p \<Rightarrow> (Some p, True)
    | None \<Rightarrow> if ex ''proxy.json'' then (Some ''proxy.json'', False)
        else if ex ''../proxy.json'' then (Some ''../proxy.json'', False) else (None, False)"
  obtain path required where p: "?p = (path, required)" by (cases ?p)
  obtain g where g: "(case path of None \<Rightarrow> Some d | Some q \<Rightarrow> load_proxy_config (load q) required d) = Some g"
    "\<exists>h. proxy_options argv g = Inr h \<and> (\<exists>c1 new. proxy_certificate make_directory ex h = Inr (c1, new) \<and> c = c1 \<and>
       (new \<longrightarrow> generate (px_cert_path c) (px_key_path c)) \<and>
       (px_listen_mode c \<noteq> LISTEN_TCP \<longrightarrow> server_tls (px_cert_path c) (px_key_path c)))"
    using assms unfolding proxy_startup_def d p Let_def
    by (auto split: option.split_asm sum.split_asm if_split_asm)
  then obtain h new where h: "proxy_options argv g = Inr h" "proxy_certificate make_directory ex h = Inr (c, new)"
    "new \<longrightarrow> generate (px_cert_path c) (px_key_path c)" "px_listen_mode c \<noteq> LISTEN_TCP \<longrightarrow> server_tls (px_cert_path c) (px_key_path c)"
    by blast
  have "proxy_config_ok g" using g(1) proxy_defaults_ok [OF d] load_proxy_config_ok by (auto split: option.splits)
  then have "proxy_config_ok h" by (rule proxy_options_ok [OF h(1)])
  from proxy_certificate_ok [OF h(2) this] show ?thesis
    using h(3,4) by (auto simp: proxy_config_ok_def endpoint_ok_def)
qed

theorem proxy_startup_sound_witness:
  "\<exists>c. proxy_startup None (\<lambda>p. None) (\<lambda>d. True) (\<lambda>f. False) (\<lambda>a b. True) (\<lambda>a b. True) [] = Inr c \<and>
     px_listen_mode c = LISTEN_AUTO \<and> px_cert_path c \<noteq> []"
proof -
  obtain c where c: "proxy_startup None (\<lambda>p. None) (\<lambda>d. True) (\<lambda>f. False) (\<lambda>a b. True) (\<lambda>a b. True) [] = Inr c"
    "px_listen_mode c = LISTEN_AUTO"
  proof -
    have m: "fst (make_directories (\<lambda>d. True) ds)" for ds by (induction ds) (auto split: prod.splits)
    then have "fst (ensure_directory (\<lambda>d. True) path)" for path by (simp add: ensure_directory_def Let_def)
    then show ?thesis
      using that by (simp add: proxy_startup_def proxy_defaults_def default_endpoint proxy_config_arg_def proxy_certificate_def Let_def)
  qed
  from proxy_startup_sound [OF c(1)] c show ?thesis by auto
qed

end
