(* ===== verification/Spec2Isabelle.thy ===== *)
theory Spec2Isabelle
  imports Gpu_Engine Stratum_Client App_Loop Proxy_Config
begin

text \<open>
  A verification library for BTCRig, a Bitcoin miner, Stratum client and Stratum proxy in C.

  \<^bold>\<open>The program.\<close> The hash core (\<open>src/src/sha256d*.c\<close>) computes double SHA-256 of 80-byte block headers with a portable
  backend, OpenSSL, the x86 SHA extensions or the ARMv8 SHA-2 instructions. The engine (\<open>miner.c\<close>) builds jobs from what
  a pool announces, hands out ranges of nonces to CPU and GPU workers, and keeps a queue of found shares. The Stratum client
  (\<open>stratum.c\<close>) connects to a pool, reads its messages, installs jobs, and submits shares. The application
  (\<open>stratum_main.c\<close>, \<open>donation.c\<close>) reads settings and runs one session after the other. GPU workers scan through a backend for CUDA
  (\<open>cuda_miner.c\<close>, \<open>cuda_sha256d_kernel.cu\<close>) or OpenCL (\<open>opencl_miner.c\<close>, \<open>opencl_loader.c\<close>). The proxy (\<open>proxy_main.c\<close>) forwards
  clients to a pool.

  \<^bold>\<open>Theories.\<close>
  \<^item> \<open>Prelude\<close>: the fixed-width integers, byte and word lemmas, fact collections.
  \<^item> \<open>Sha256_Spec\<close>: SHA-256 after FIPS 180-4, the reference for the hash core.
  \<^item> \<open>Sha256d\<close>: \<open>sha256d.c\<close>, the portable and the OpenSSL backend, mid-states, target comparison, scan.
  \<^item> \<open>Sha256d_Simd\<close>, \<open>Sha256d_X86\<close>, \<open>Sha256d_Arm\<close>: the vector backends, over the instructions as the manufacturers document
    them. \<open>Sha256d_Dispatch\<close>: the choice of a backend; all of them interpret one locale of correct backends.
  \<^item> \<open>Hex\<close>, \<open>Miner_Job\<close>: hexadecimal texts, targets and block headers of \<open>miner.c\<close>.
  \<^item> \<open>Share_Queue\<close>: the ring of shares, a bounded queue by a locale interpretation. \<open>Gpu_Config\<close>: GPU settings.
  \<^item> \<open>Miner\<close>: the operations of the engine, each an atomic step under its lock. \<open>Miner_System\<close>: workers as a step relation
    that interleaves with the client's calls; reachable states and their invariant.
  \<^item> \<open>Gpu_Sha256\<close>: the rounds of the GPU kernels, unrolled, with \<open>lop3\<close> and dual, and their lanes. \<open>Gpu_Device\<close>: the threads of a launch as a
    step relation on the shared counter and result array, one memory access per step; a locale of launches with the facts on every
    interleaving. \<open>Cuda_Kernel\<close>, \<open>Opencl_Kernel\<close>: the nine CUDA kernels and the kernels of the OpenCL text, which interpret that locale; that a launch
    meets its conditions is proved for each kernel, and \<open>Opencl_Miner\<close> and \<open>Cuda_Miner\<close> use it for the kernel the host looks up.
  \<^item> \<open>Gpu_Self_Test\<close>, \<open>Gpu_Host\<close>: what both backends share: the self test's header and verdict, acquired and released resources,
    the callback on matches. \<open>Cuda_Miner\<close>: \<open>cuda_miner.c\<close>. \<open>Opencl_Device\<close>: the loader and the choice of devices, kernels and
    variants. \<open>Opencl_Miner\<close>: creation, release, self test and scan of \<open>opencl_miner.c\<close>.
  \<^item> \<open>Cpu_Info\<close>: \<open>cpu_info.c\<close>, the detection of the processors and the affinity plan. \<open>Miner_Start\<close>: start, stop and destruction of the
    engine with its threads and devices. \<open>Gpu_Engine\<close>: the workers of a started engine on their backends; the contract
    \<open>gpu_sound\<close> of \<open>Miner_System\<close> proved for the GPUs, so its results hold for the engine as it is put together.
  \<^item> \<open>Json\<close>: JSON documents and the helpers to read them. \<open>Options\<close>: names and numbers in settings.
  \<^item> \<open>Pool_Url\<close>, \<open>Line_Reader\<close>, \<open>Pending_Shares\<close>: endpoints and connection modes, the cutting of the byte stream into lines, the
    table of submissions that wait for an answer (a finite map, by a locale interpretation); all of \<open>stratum.c\<close>.
  \<^item> \<open>Stratum\<close>: the state of a connection and the message handlers. \<open>Stratum_Handlers\<close>: what every handler keeps and how it
    changes the engine. \<open>Stratum_Protocol\<close>: the properties of the protocol. \<open>Stratum_Client\<close>: \<open>stratum_run_client\<close>, its setup
    and its loop, turn by turn, the log of a session with the order of its requests, and the events of a connection in any order.
  \<^item> \<open>Donation\<close>, \<open>App_Config\<close>, \<open>App_Cli\<close>, \<open>App_Loop\<close>: the donation schedule, the configuration file, the command line and
    the outer loop of the application.
  \<^item> \<open>Proxy_Loop\<close>, \<open>Proxy_Config\<close>: forwarding of the proxy, and its settings and clients.
  \<^item> this theory: the client and the engine together.

  \<^bold>\<open>State and effects.\<close> A C structure is a record with the same fields; arrays of fixed size are lists of that length, and
  writes past a buffer cannot happen because the lengths are part of the invariants proved. Errors are \<open>option\<close> or sum values,
  return codes integers. \<open>uint32_t\<close> and \<open>uint64_t\<close> are words. Time, the network, the keyboard, failing allocations and what GPU
  devices report are arguments. OpenSSL's SHA-256, JSON parsing, \<open>strtod\<close> and the rounding of floating point numbers are
  parameters; what is needed of them is a named hypothesis (\<open>openssl_contract\<close>, \<open>ieee_double\<close>, monotone rounding; \<open>device_contract\<close>: a GPU runs
  every thread of a launch to its end, in some interleaving; \<open>qsort_contract\<close>), shown to be
  satisfiable by an instance.

  \<^bold>\<open>What is proved.\<close> All backends compute the hash of the specification and scans report exactly the solutions; jobs are the
  headers of the protocol, and their targets those of the difficulty as long as it is above \<open>65535 / 2 ^ 48\<close> (below, the code wraps); in every interleaving queued shares are proofs of work for the current job and the ranges handed out
  tile the nonces; stale results are dropped and workers stop. The GPU kernels compute the hash of the specification, and whatever the
  interleaving of its threads a scan on a GPU reports exactly the solutions of its range; creating a device never leaks what it acquired.
  A start of the engine that fails anywhere holds nothing; one that succeeds leaves a system in which every queued share is a proof. Handlers keep the state within its buffers, no two jobs of a connection, whether from a line or
  from a roll, use the same extranonce2; subscription, authorization and suggestion follow each other as the protocol asks;
  shares are submitted in order and answered once, lines do not depend on how the stream is cut. A turn of the client is a
  sequence of engine steps, so all of this composes: what is submitted is a proof of work, and what is hashed is what the
  pool announced. Settings are sound whatever the file and the arguments say, donations follow their schedule, retries end, the
  proxy forwards unchanged.

  \<^bold>\<open>Loops.\<close> Loops over data are structural recursions; \<open>flush_shares\<close> ends because every turn takes a share from the queue. Loops that wait
  for the outside world take the list of what happens there and run as long as it lasts; \<open>read_line\<close> gives \<open>None\<close> when it
  is still waiting, and liveness is stated as: enough productive events lead to the result. There is no fuel besides.

  \<^bold>\<open>Not modelled.\<close> Terminal output and statistics; sockets, TLS and threads themselves (their outcomes are arguments);
  the automatic tuning of \<open>stratum_main.c\<close>; the libraries
  of OpenCL and CUDA, whose answers are arguments, and the printing of their devices; \<open>cuda_sha256d_ptx.h\<close>, which is generated from the kernel; the
  benchmark program (\<open>main.c\<close>).
\<close>

section \<open>The client drives the engine\<close>

text \<open>The engine with the client's view of it: the same engine, in a state the system can reach with the
  workers where they were.\<close>

definition engine_follows ::
  "'ctx miner_env \<Rightarrow> ('ctx, 'dev) system \<Rightarrow> ('ctx, 'dev) stratum_state_t \<Rightarrow> bool" where
  "engine_follows e s st \<longleftrightarrow> (\<exists>s'. reachable e s' \<and> sys_workers s' = sys_workers s \<and> st_miner st = Some (sys_miner s'))"

lemma engine_follows_refl: "reachable e s \<Longrightarrow> st_miner st = Some (sys_miner s) \<Longrightarrow> engine_follows e s st"
  by (auto simp: engine_follows_def)

lemma engine_follows_step:
  assumes "engine_follows e s st"
    "\<And>s'. st_miner st = Some (sys_miner s') \<Longrightarrow> \<exists>s''. (s'' = s' \<or> sys_step e s' s'') \<and> sys_workers s'' = sys_workers s' \<and>
       st_miner st' = Some (sys_miner s'')"
  shows "engine_follows e s st'"
  using assms unfolding engine_follows_def by (metis reachable.step)

lemma engine_follows_same: "engine_follows e s st \<Longrightarrow> st_miner st' = st_miner st \<Longrightarrow> engine_follows e s st'"
  by (simp add: engine_follows_def)

lemma engine_follows_key: "engine_follows e s st \<Longrightarrow> engine_follows e s (handle_key ch st)"
proof (erule engine_follows_step)
  fix s' :: "('a, 'b) system" assume m: "st_miner st = Some (sys_miner s')"
  have p: "sys_step e s' (s'\<lparr>sys_miner := miner_set_paused b (sys_miner s')\<rparr>)" for b by (rule sys_step.set_paused)
  show "\<exists>s''. (s'' = s' \<or> sys_step e s' s'') \<and> sys_workers s'' = sys_workers s' \<and> st_miner (handle_key ch st) = Some (sys_miner s'')"
  proof (cases "st_miner (handle_key ch st) = st_miner st")
    case False
    then obtain b where "st_miner (handle_key ch st) = Some (miner_set_paused b (sys_miner s'))"
      using m by (auto simp: handle_key_def split: if_splits)
    then show ?thesis using p [of b] by (intro exI [of _ "s'\<lparr>sys_miner := miner_set_paused b (sys_miner s')\<rparr>"]) simp
  qed (use m in auto)
qed

lemma engine_follows_keyboard: "engine_follows e s st \<Longrightarrow> engine_follows e s (handle_keyboard_input keys st)"
  unfolding handle_keyboard_input_def by (induction keys arbitrary: st) (auto intro: engine_follows_key)

lemma engine_follows_pop:
  assumes "engine_follows e s st" "st_miner st = Some m" "st_miner st' = Some (snd (miner_pop_share m))"
  shows "engine_follows e s st'"
  using assms(1)
proof (rule engine_follows_step)
  fix s' :: "('a, 'b) system" assume "st_miner st = Some (sys_miner s')"
  then show "\<exists>s''. (s'' = s' \<or> sys_step e s' s'') \<and> sys_workers s'' = sys_workers s' \<and> st_miner st' = Some (sys_miner s'')"
    using assms(2,3) sys_step.pop_share [of e s']
    by (intro exI [of _ "s'\<lparr>sys_miner := snd (miner_pop_share (sys_miner s'))\<rparr>"]) auto
qed

lemma engine_follows_flush:
  assumes "flush_shares send_ok clock usr nid st = (rc, sent, nid', st')" "engine_follows e s st"
  shows "engine_follows e s st'"
  using assms
proof (induction send_ok clock usr nid st arbitrary: rc sent nid' st' rule: flush_shares.induct)
  case (1 send_ok clock usr nid st)
  show ?case
  proof (cases "st_miner st")
    case None
    then show ?thesis using "1.prems" by (auto simp: engine_follows_def)
  next
    case (Some m)
    obtain x m' where p: "miner_pop_share m = (x, m')" by fastforce
    then have pop: "engine_follows e s st2" if "st_miner st2 = Some m'" for st2
      using engine_follows_pop [OF "1.prems"(2) Some, of st2] that by simp
    show ?thesis
    proof (cases x)
      case None
      then show ?thesis using flush_none [OF Some, of m'] p "1.prems" pop by auto
    next
      case x: (Some share)
      show ?thesis
      proof (cases "send_ok nid")
        case False
        then show ?thesis using flush_fail [OF Some, of share m' send_ok nid clock usr] p x "1.prems" pop by auto
      next
        case True
        let ?st = "register_pending_share nid share (clock nid) (st\<lparr>st_miner := Some m'\<rparr>)"
        obtain rc2 sent2 nid2 st2 where
          f: "flush_shares send_ok clock usr (nid + 1) (?st\<lparr>submit_count := submit_count ?st + 1\<rparr>) = (rc2, sent2, nid2, st2)"
          by (cases "flush_shares send_ok clock usr (nid + 1) (?st\<lparr>submit_count := submit_count ?st + 1\<rparr>)")
        have e: "st' = st2" using flush_one [OF Some _ True refl f] p x "1.prems" by auto
        have "engine_follows e s st2"
          by (rule "1.IH" [OF Some p [symmetric] x refl refl _ refl f]) (simp_all add: True pop)
        with e show ?thesis by simp
      qed
    qed
  qed
qed

lemma engine_follows_update:
  assumes "engine_follows e s st" "job_update env st st'" "env_ssl e = se_ssl env"
  shows "engine_follows e s st'"
  using assms(1)
proof (rule engine_follows_step)
  fix s' :: "('a, 'b) system" assume m: "st_miner st = Some (sys_miner s')"
  show "\<exists>s''. (s'' = s' \<or> sys_step e s' s'') \<and> sys_workers s'' = sys_workers s' \<and> st_miner st' = Some (sys_miner s'')"
  proof (cases "st_miner st' = st_miner st")
    case False
    then obtain j where j: "job_shape j" "st_miner st' = Some (miner_set_job (se_ssl env) j (sys_miner s'))"
      using assms(2) m by (auto simp: job_update_def)
    let ?m = "miner_set_job (env_ssl e) j (sys_miner s')"
    have "sys_step e s' (s'\<lparr>sys_miner := ?m, sys_jobs := sys_jobs s' @ [job ?m], sys_ranges := []\<rparr>)"
      by (rule sys_step.set_job [OF j(1) refl])
    then show ?thesis
      using j(2) assms(3)
      by (intro exI [of _ "s'\<lparr>sys_miner := ?m, sys_jobs := sys_jobs s' @ [job ?m], sys_ranges := []\<rparr>"]) simp
  qed (use m in auto)
qed

lemma engine_follows_roll:
  assumes "engine_follows e s st" "openssl_contract (se_ssl env)" "env_ssl e = se_ssl env"
  shows "engine_follows e s (maybe_roll_extranonce env st)"
proof -
  obtain m where m: "st_miner st = Some m" using assms(1) by (auto simp: engine_follows_def)
  obtain b m' where t: "miner_take_nonce_exhausted m = (b, m')" by fastforce
  have f: "engine_follows e s (st\<lparr>st_miner := Some m'\<rparr>)"
    using assms(1)
  proof (rule engine_follows_step)
    fix s' :: "('a, 'b) system" assume "st_miner st = Some (sys_miner s')"
    then show "\<exists>s''. (s'' = s' \<or> sys_step e s' s'') \<and> sys_workers s'' = sys_workers s' \<and>
        st_miner (st\<lparr>st_miner := Some m'\<rparr>) = Some (sys_miner s'')"
      using m t sys_step.take_exhausted [of e s']
      by (intro exI [of _ "s'\<lparr>sys_miner := snd (miner_take_nonce_exhausted (sys_miner s'))\<rparr>"]) auto
  qed
  show ?thesis
    using f engine_follows_update [OF f rebuild_update [OF assms(2)] assms(3)] m t
    by (simp add: maybe_roll_extranonce_def Let_def)
qed

lemma engine_follows_process_line:
  "engine_follows e s st \<Longrightarrow> openssl_contract (se_ssl env) \<Longrightarrow> env_ssl e = se_ssl env \<Longrightarrow>
   engine_follows e s (snd (stratum_process_line loads env line st))"
  by (rule engine_follows_update [OF _ process_line_update])

section \<open>Properties that span components\<close>

text \<open>C4. A turn of the client's loop is, for the engine, a sequence of its own steps: keys pause and resume,
  submissions take shares from the queue, answers of the pool install jobs. So whatever the pool, the user and
  the network do, the engine stays in a state that the interleaved system can reach, and everything proved of
  reachable states holds between any two turns.\<close>

theorem client_turn_refines_engine:
  assumes "client_turn loads cfg t c = Some (res, sent, c')" "reachable e s"
    "st_miner (cl_state c) = Some (sys_miner s)" "openssl_contract (env_ssl e)" "se_ssl (t_env t) = env_ssl e"
  shows "\<exists>s'. reachable e s' \<and> sys_workers s' = sys_workers s \<and> st_miner (cl_state c') = Some (sys_miner s')"
proof -
  have ssl: "openssl_contract (se_ssl (t_env t))" "env_ssl e = se_ssl (t_env t)" using assms(4,5) by simp_all
  have k: "engine_follows e s (handle_keyboard_input (t_keys t) (cl_state c))"
    by (rule engine_follows_keyboard [OF engine_follows_refl [OF assms(2,3)]])
  have "engine_follows e s (cl_state c')"
    using assms(1)
  proof (cases rule: client_turn_cases)
    case time_up
    then show ?thesis using engine_follows_refl [OF assms(2,3)] by simp
  next
    case (submit_failed rc nid st)
    then show ?thesis using engine_follows_flush [OF submit_failed(1) k] by simp
  next
    case (no_line nid st rc line buf wire)
    then show ?thesis using engine_follows_roll [OF engine_follows_flush [OF no_line(1) k] ssl] by simp
  next
    case (line nid st line buf wire sent1 sent2)
    then show ?thesis
      using engine_follows_roll [OF engine_follows_flush [OF line(1) k] ssl] after_line_facts(4) [OF line(3)]
        engine_follows_process_line [OF _ ssl, of s "maybe_roll_extranonce (t_env t) st" loads line]
      by simp
  qed
  then show ?thesis by (simp add: engine_follows_def)
qed

text \<open>The demonstration client with the demonstration engine.\<close>

definition mining_client :: "(u32 list, unit) client" where
  "mining_client = demo_client\<lparr>cl_state := (cl_state demo_client)\<lparr>st_miner := Some demo_miner\<rparr>\<rparr>"

definition idle_turn :: "u32 list turn" where
  "idle_turn = demo_turn\<lparr>t_events := [NET_TIMEOUT]\<rparr>"

theorem client_turn_refines_engine_witness:
  "\<exists>res sent c' s'. client_turn demo_loads demo_config idle_turn mining_client = Some (res, sent, c') \<and>
     reachable demo_env s' \<and> st_miner (cl_state c') = Some (sys_miner s')"
proof -
  let ?s = "\<lparr>sys_miner = demo_miner, sys_workers = (\<lambda>i. W_check), sys_jobs = [], sys_ranges = []\<rparr>"
  have r: "reachable demo_env ?s" by (rule reachable.init [OF fresh_demo_miner])
  have m: "st_miner (cl_state mining_client) = Some (sys_miner ?s)" by (simp add: mining_client_def)
  have ssl: "se_ssl (t_env idle_turn) = env_ssl demo_env" by (simp add: idle_turn_def demo_turn_def demo_env_def)
  obtain rc s1 nid st where f: "flush_shares (t_submit_ok idle_turn) (t_submit_clock idle_turn) (cc_user demo_config)
      (next_rpc_id mining_client) (handle_keyboard_input (t_keys idle_turn) (cl_state mining_client)) = (rc, s1, nid, st)"
    by (cases "flush_shares (t_submit_ok idle_turn) (t_submit_clock idle_turn) (cc_user demo_config)
      (next_rpc_id mining_client) (handle_keyboard_input (t_keys idle_turn) (cl_state mining_client))")
  have "read_line 65536 [NET_TIMEOUT] [] w = Some (- 3, [], [], w)" for w
    by (simp add: buffered_line_def READER_BUFFER_def)
  then have "client_turn demo_loads demo_config idle_turn mining_client \<noteq> None"
    using f by (auto simp: client_turn_def idle_turn_def demo_turn_def mining_client_def demo_client_def Let_def
      simp del: read_line.simps)
  then obtain res sent c' where t: "client_turn demo_loads demo_config idle_turn mining_client = Some (res, sent, c')"
    by auto
  from client_turn_refines_engine [OF t r m demo_assumptions(1) ssl] t show ?thesis by blast
qed

text \<open>C3. Everything that is submitted to the pool is a proof of work for the job the engine works on: when the
  client empties the queue of an engine in any reachable state, each request it sends carries a share whose
  header hash meets the target, with the job id, extranonce2 and time of that job.\<close>

theorem submitted_shares_are_proofs:
  assumes "reachable e s" "openssl_contract (env_ssl e)" "gpu_sound e" "length (sys_jobs s) < 2 ^ 64"
    "st_miner st = Some (sys_miner s)" "flush_shares (\<lambda>i. True) clock usr nid st = (rc, sent, nid', st')"
  shows "length sent = share_count (sys_miner s) \<and>
    (\<forall>k < length sent. \<exists>share. sent ! k = submit_request (nid + int k) usr share \<and>
       share_ok (public_job (job (sys_miner s))) share)"
proof -
  have inv: "ring_ok (sys_miner s)" "list_all (share_ok (public_job (job (sys_miner s)))) (ring_contents (sys_miner s))"
    using reachable_inv [OF assms(1-4)] by (auto simp: sys_inv_def engine_inv_def)
  have "sent = map (\<lambda>i. submit_request (nid + int i) usr (ring_contents (sys_miner s) ! i))
      [0..<length (ring_contents (sys_miner s))]"
    using flush_shares_prefix [OF assms(5) inv(1) order_refl _ _ assms(6)] by simp
  then show ?thesis using inv(2) by (auto simp: list_all_length)
qed

theorem submitted_shares_are_proofs_witness:
  "\<exists>(s :: (u32 list, unit) system) rc sent nid' st'. reachable demo_env s \<and> sent \<noteq> [] \<and>
     flush_shares (\<lambda>i. True) (\<lambda>i. 0) ''u'' 4 ((cl_state demo_client)\<lparr>st_miner := Some (sys_miner s)\<rparr>) = (rc, sent, nid', st') \<and>
     (\<exists>share. sent ! 0 = submit_request 4 ''u'' share \<and> share_ok (public_job (job (sys_miner s))) share)"
proof -
  obtain s :: "(u32 list, unit) system" where
    s: "reachable demo_env s" "length (sys_jobs s) = 1" "ring_contents (sys_miner s) \<noteq> []"
    by (rule demo_run)
  let ?st = "(cl_state demo_client)\<lparr>st_miner := Some (sys_miner s)\<rparr>"
  obtain rc sent nid' st' where f: "flush_shares (\<lambda>i. True) (\<lambda>i. 0) ''u'' 4 ?st = (rc, sent, nid', st')"
    by (cases "flush_shares (\<lambda>i. True) (\<lambda>i. 0) ''u'' 4 ?st")
  have l: "length (sys_jobs s) < 2 ^ 64" using s(2) by simp
  have p: "length sent = share_count (sys_miner s) \<and> (\<forall>k < length sent. \<exists>share. sent ! k = submit_request (4 + int k) ''u'' share \<and>
      share_ok (public_job (job (sys_miner s))) share)"
    by (rule submitted_shares_are_proofs [OF s(1) demo_assumptions(1,2) l _ f]) simp
  moreover have "0 < share_count (sys_miner s)" using s(3) length_ring_contents [of "sys_miner s"] by (metis length_greater_0_conv)
  ultimately have n: "0 < length sent" by simp
  have sh: "\<exists>share. sent ! 0 = submit_request (4 + int 0) ''u'' share \<and> share_ok (public_job (job (sys_miner s))) share"
    using p [THEN conjunct2, rule_format, OF n] .
  show ?thesis using s(1) f n sh by (intro exI [of _ s] exI [of _ rc] exI [of _ sent] exI [of _ nid'] exI [of _ st']) simp
qed

text \<open>C5. From the pool's message to the header that is hashed: when a notification with well-formed texts
  arrives, the engine starts, with an empty queue and from nonce 0, on the header the Bitcoin protocol
  prescribes for it. The coinbase is the first part, the extranonce1 of the pool, the client's counter as
  extranonce2, and the second part; the target is that of the current difficulty.\<close>

theorem notify_to_header:
  assumes "openssl_contract (se_ssl env)" "\<And>n. se_alloc env n" "st_miner st = Some m"
    "extranonce1 st \<noteq> []" "0 < extranonce2_size st" "extranonce2_size st < 16"
    "unat (extranonce2_counter st) < 16 ^ (2 * nat (extranonce2_size st))"
    "coinb1 @ extranonce1 st @ en2 @ coinb2 = hex_of_bytes coinbase"
    "en2 = miner_format_extranonce2 32 (extranonce2_size st) (extranonce2_counter st)"
    "length job_id < 128" "length coinb1 < 16384" "length coinb2 < 16384"
    "list_all (\<lambda>b. length b = 32) branch" "length branch \<le> 128" "length prev = 8"
    "st' = handle_notify env (notify_params job_id (hex_of_bytes (concat (map be32_bytes prev))) coinb1 coinb2
       (map hex_of_bytes branch) (hex_of_bytes (be32_bytes version)) (hex_of_bytes (be32_bytes nbits))
       (hex_of_bytes (be32_bytes ntime)) clean) st"
  shows "\<exists>m'. st_miner st' = Some m' \<and> aj_valid (job m') \<and> next_nonce m' = 0 \<and> share_count m' = 0 \<and>
    job_header (public_job (job m')) =
      le32_bytes version @ concat (map le32_bytes prev) @ merkle_root_of coinbase branch @
      le32_bytes ntime @ le32_bytes nbits @ le32_bytes 0 \<and>
    job_job_id (public_job (job m')) = job_id \<and> job_extranonce2 (public_job (job m')) = en2 \<and>
    job_target (public_job (job m')) = miner_target_from_difficulty (se_fl env) (difficulty st) \<and>
    extranonce2_counter st' = extranonce2_counter st + 1"
proof -
  let ?prev = "hex_of_bytes (concat (map be32_bytes prev))" and ?merkle = "map hex_of_bytes branch"
  let ?v = "hex_of_bytes (be32_bytes version)" and ?b = "hex_of_bytes (be32_bytes nbits)" and ?t = "hex_of_bytes (be32_bytes ntime)"
  let ?st = "st\<lparr>notify_count := notify_count st + 1, current_job_id := job_id, current_ntime := ?t,
    template_job_id := job_id, template_prevhash := ?prev, template_coinb1 := coinb1, template_coinb2 := coinb2,
    template_version := ?v, template_nbits := ?b, template_ntime := ?t, template_merkle := ?merkle, template_valid := True\<rparr>"
  have fits: "length ?prev < 65" "length ?v < 9" "length ?b < 9" "length ?t < 9" "list_all (\<lambda>b. length b < 65) ?merkle"
    using assms(13,15) by (auto simp: length_concat comp_def list_all_iff sum_list_triv be32_bytes_def)
  have st': "st' = snd (rebuild_miner_job env ?st)"
    unfolding assms(16) using assms(10-12,14) fits
    by (intro notify_template [THEN conjunct1, rule_format]) simp_all
  have sz: "2 * nat (extranonce2_size st) < 32" using assms(5,6) by linarith
  have "unat (extranonce2_counter st) < 2 ^ LENGTH(64)" by (rule unsigned_less)
  then have "unat (extranonce2_counter st) < 16 ^ 31" by simp
  then have en2: "en2 = pad_zeros (2 * nat (extranonce2_size st)) (hex_digits (unat (extranonce2_counter st)))"
    unfolding assms(9) using assms(5) sz by (intro format_extranonce2_eq) simp_all
  have len: "length en2 = 2 * nat (extranonce2_size st)"
    unfolding en2
    using assms(5,7) length_hex_digits_le [of "2 * nat (extranonce2_size st)" "unat (extranonce2_counter st)"] by simp
  have ne: "en2 \<noteq> []" using len assms(5) by auto
  have br: "list_all2 (\<lambda>m b. m = hex_of_bytes b \<and> length b = 32) ?merkle branch"
    using assms(13) by (auto simp: list_all2_conv_all_nth list_all_length)
  have l32: "length en2 < 32" using len sz by simp
  have "job_of env ?st = Some \<lparr>job_seq = 0, job_job_id = job_id, job_extranonce2 = en2, job_ntime = ?t,
      job_header = le32_bytes version @ concat (map le32_bytes prev) @ merkle_root_of coinbase branch @
        le32_bytes ntime @ le32_bytes nbits @ le32_bytes 0,
      job_target = miner_target_from_difficulty (se_fl env) (difficulty st)\<rparr>"
    using build_job_header_eq [OF assms(1,2,10) l32 assms(8) br assms(15)] ne
    by (simp add: job_of_def Let_def flip: assms(9))
  then show ?thesis
    unfolding st' using assms(3-5)
    by (simp add: rebuild_eq can_build_def miner_set_job_def Let_def ring_clear_def)
qed

text \<open>A subscribed client and a notification of the pool, with one Merkle entry.\<close>

definition subscribed_state :: "(u32 list, unit) stratum_state_t" where
  "subscribed_state = (stratum_state_init 0)\<lparr>extranonce1 := ''aa'', extranonce2_size := 2, extranonce2_counter := 2,
     st_miner := Some demo_miner\<rparr>"

definition demo_notify :: "json_t option" where
  "demo_notify = notify_params ''job7'' (hex_of_bytes (concat (map be32_bytes (replicate 8 0x01020304)))) ''01'' ''ff''
     (map hex_of_bytes [replicate 32 5]) (hex_of_bytes (be32_bytes 0x20000000)) (hex_of_bytes (be32_bytes 0x1d00ffff))
     (hex_of_bytes (be32_bytes 7)) True"

theorem notify_to_header_witness:
  "\<exists>m'. st_miner (handle_notify \<lparr>se_ssl = openssl_ref, se_alloc = (\<lambda>n. True), se_fl = (\<lambda>x. x), se_now = 0\<rparr>
       demo_notify subscribed_state) = Some m' \<and>
     job_header (public_job (job m')) = le32_bytes 0x20000000 @ concat (map le32_bytes (replicate 8 0x01020304)) @
       merkle_root_of [0x01, 0xaa, 0x00, 0x02, 0xff] [replicate 32 5] @ le32_bytes 7 @ le32_bytes 0x1d00ffff @ le32_bytes 0"
proof -
  let ?env = "\<lparr>se_ssl = openssl_ref, se_alloc = (\<lambda>n. True), se_fl = (\<lambda>x. x), se_now = 0\<rparr>"
  have st: "st_miner subscribed_state = Some demo_miner" "extranonce1 subscribed_state = ''aa''"
    "extranonce2_size subscribed_state = 2" "extranonce2_counter subscribed_state = 2"
    by (simp_all add: subscribed_state_def)
  have n: "unat (2 :: u64) = 2" by simp
  have demo_notify_handled: "handle_notify ?env demo_notify subscribed_state = handle_notify ?env (notify_params ''job7''
      (hex_of_bytes (concat (map be32_bytes (replicate 8 0x01020304)))) ''01'' ''ff'' (map hex_of_bytes [replicate 32 5])
      (hex_of_bytes (be32_bytes 0x20000000)) (hex_of_bytes (be32_bytes 0x1d00ffff)) (hex_of_bytes (be32_bytes 7)) True)
      subscribed_state"
    by (simp only: demo_notify_def)
  have "miner_format_extranonce2 32 2 2 = pad_zeros 4 (hex_digits 2)"
    using format_extranonce2_eq [of 2 32 2] by (simp add: n)
  also have "\<dots> = replicate 3 (CHR ''0'') @ ''2''" by (simp add: pad_zeros_def hex_digits.simps [of 2] hex_digit_def)
  also have "\<dots> = ''0002''" by (simp add: numeral_eq_Suc)
  finally have en2: "miner_format_extranonce2 32 2 2 = ''0002''" .
  have coinbase: "''01'' @ ''aa'' @ ''0002'' @ ''ff'' = hex_of_bytes [0x01, 0xaa, 0x00, 0x02, 0xff]"
    by (simp add: hex_of_bytes_def hex_of_byte_def hex_digit_def)
  note notify_to_header [where env = ?env and st = subscribed_state, unfolded st, OF _ _ refl _ _ _ _ coinbase en2 [symmetric],
      where job_id = "''job7''" and branch = "[replicate 32 5]" and prev = "replicate 8 0x01020304" and version = "0x20000000"
        and nbits = "0x1d00ffff" and ntime = 7 and clean = True, OF _ _ _ _ _ _ _ _ _ _ _ _ demo_notify_handled]
  then show ?thesis by (simp add: n openssl_contract_ref) blast
qed

end
